(* ===== verification/Prelude.thy ===== *)
theory Prelude
  imports "HOL-Library.Word"
begin

text \<open>
  Shared vocabulary of the development: the machine integers of the Rust sources, the result
  type of operations that can panic, little-endian byte views of a word, counting trailing
  zeros, and the generic facts on words and lists that several components use.

  Arithmetic follows a release build (the README builds the emulator with \<open>--release\<close>): an
  overflowing \<open>+\<close>, \<open>-\<close> or \<open>*\<close> wraps, a shift amount is taken modulo the width, while \<open>assert!\<close>,
  slice indexing, \<open>unwrap\<close>, \<open>expect\<close> and division by zero panic in every build.
\<close>

unbundle bit_operations_syntax

section \<open>Integers\<close>

type_synonym u8 = "8 word"
type_synonym u16 = "16 word"
type_synonym u32 = "32 word"
type_synonym u64 = "64 word"
type_synonym u128 = "128 word"

section \<open>Panics and results\<close>

datatype panic =
    AssertFailed
  | OutOfBounds
  | UnwrapFailed
  | UnreachableCode
  | ExplicitPanic
  | BorrowConflict
  | DivByZero

type_synonym 'a res = "panic + 'a"

fun res_bind :: "'e + 'a \<Rightarrow> ('a \<Rightarrow> 'e + 'b) \<Rightarrow> 'e + 'b" where
  "res_bind (Inl e) f = Inl e"
| "res_bind (Inr x) f = f x"

fun res_map :: "('a \<Rightarrow> 'b) \<Rightarrow> 'e + 'a \<Rightarrow> 'e + 'b" where
  "res_map f (Inl e) = Inl e"
| "res_map f (Inr x) = Inr (f x)"

definition returns :: "'a res \<Rightarrow> bool" where
  "returns r \<longleftrightarrow> (case r of Inl _ \<Rightarrow> False | Inr _ \<Rightarrow> True)"

lemma returns_simps [simp]: "returns (Inr x)" "\<not> returns (Inl e)"
  by (simp_all add: returns_def)

lemma returns_iff: "returns r \<longleftrightarrow> (\<exists>x. r = Inr x)"
  by (cases r) auto

lemma res_bind_eq_Inr [simp]:
  "res_bind m f = Inr y \<longleftrightarrow> (\<exists>x. m = Inr x \<and> f x = Inr y)"
  by (cases m) auto

lemma res_map_eq_Inr [simp]: "res_map f m = Inr y \<longleftrightarrow> (\<exists>x. m = Inr x \<and> y = f x)"
  by (cases m) auto

lemma res_bind_assoc: "res_bind (res_bind m f) g = res_bind m (\<lambda>x. res_bind (f x) g)"
  by (cases m) auto

text \<open>
  The same operations serve \<open>anyhow::Result\<close>, whose error is its message: \<open>?\<close> is \<open>res_bind\<close>.
\<close>

type_synonym 'a fallible = "string + 'a"

text \<open>A loop whose body can panic or fail.\<close>

fun fold_res :: "('a \<Rightarrow> 's \<Rightarrow> 'e + 's) \<Rightarrow> 'a list \<Rightarrow> 's \<Rightarrow> 'e + 's" where
  "fold_res f [] s = Inr s"
| "fold_res f (x # xs) s = res_bind (f x s) (fold_res f xs)"

lemma fold_res_Inr: "(\<And>x s. x \<in> set xs \<Longrightarrow> f x s = Inr (g x s)) \<Longrightarrow> fold_res f xs s = Inr (fold g xs s)"
  by (induction xs arbitrary: s) simp_all

lemma fold_res_append: "fold_res f (xs @ ys) = (\<lambda>s. res_bind (fold_res f xs s) (fold_res f ys))"
  by (induction xs) (auto simp: res_bind_assoc)

fun map_res :: "('a \<Rightarrow> 'e + 'b) \<Rightarrow> 'a list \<Rightarrow> 'e + 'b list" where
  "map_res f [] = Inr []"
| "map_res f (x # xs) = res_bind (f x) (\<lambda>y. res_map (\<lambda>ys. y # ys) (map_res f xs))"

lemma map_res_eq_Inr: "map_res f xs = Inr ys \<longleftrightarrow> list_all2 (\<lambda>x y. f x = Inr y) xs ys"
  by (induction xs arbitrary: ys) (auto simp: list_all2_Cons1)

text \<open>Indexing a slice or a \<open>Vec\<close>: out of range panics.\<close>

definition index_res :: "'a list \<Rightarrow> nat \<Rightarrow> 'a res" where
  "index_res xs i = (if i < length xs then Inr (xs ! i) else Inl OutOfBounds)"

definition update_res :: "'a list \<Rightarrow> nat \<Rightarrow> 'a \<Rightarrow> 'a list res" where
  "update_res xs i v = (if i < length xs then Inr (xs[i := v]) else Inl OutOfBounds)"

lemma index_res_ok [simp]: "i < length xs \<Longrightarrow> index_res xs i = Inr (xs ! i)"
  by (simp add: index_res_def)

lemma update_res_ok [simp]: "i < length xs \<Longrightarrow> update_res xs i v = Inr (xs[i := v])"
  by (simp add: update_res_def)

section \<open>Words\<close>

named_theorems word_bits \<open>facts that turn an equation between words into one on single bits\<close>

text \<open>The code writes a flag as \<open>1 << n\<close> and tests it as \<open>x & (1 << n) != 0\<close>; the proofs read
  the bit.\<close>

definition bit_mask :: "nat \<Rightarrow> 'a::len word" where
  "bit_mask n = push_bit n 1"

lemma and_bit_mask_eq_0 [simp]: "x AND bit_mask n = 0 \<longleftrightarrow> \<not> bit x n" for x :: "'a::len word"
  by (simp add: bit_mask_def and_exp_eq_0_iff_not_bit)

lemma bit_bit_mask [simp]: "bit (bit_mask m :: 'a::len word) n \<longleftrightarrow> n = m \<and> n < LENGTH('a)"
  by (auto simp: bit_mask_def bit_simps)

declare bit_and_iff [word_bits] bit_or_iff [word_bits] bit_xor_iff [word_bits]
  bit_not_iff [word_bits] bit_push_bit_iff [word_bits] bit_drop_bit_eq [word_bits]
  bit_unsigned_iff [word_bits]

lemma word_and_1 [simp]: "x AND 1 = 0 \<longleftrightarrow> \<not> bit x 0" for x :: "'a::len word"
  using and_bit_mask_eq_0 [of x 0] by (simp add: bit_mask_def)

lemma bit_imp_less: "bit (w :: 'a::len word) n \<Longrightarrow> n < LENGTH('a)"
  by (rule bit_imp_le_length)

lemma word_eqI_bits: "(\<And>n. n < LENGTH('a) \<Longrightarrow> bit v n \<longleftrightarrow> bit w n) \<Longrightarrow> v = w"
  for v w :: "'a::len word"
  by (rule bit_word_eqI) blast

lemma word_ne_0_bit: "w \<noteq> 0 \<longleftrightarrow> (\<exists>n < LENGTH('a). bit w n)" for w :: "'a::len word"
  by (metis bit_0_eq bit_imp_less bot_apply bot_bool_def word_eqI_bits)

lemma bit_less_exp:
  fixes w :: "'a::len word"
  assumes "unat w < 2 ^ k" "bit w i"
  shows "i < k"
proof -
  from assms(1) have "take_bit k (unat w) = unat w" by (simp add: take_bit_nat_eq_self_iff)
  moreover from assms(2) have "bit (unat w) i" by (simp add: bit_unsigned_iff bit_imp_less)
  ultimately show ?thesis by (metis bit_take_bit_iff)
qed

lemma and_mask_less:
  fixes w :: "'a::len word"
  assumes "unat w < 2 ^ k"
  shows "w AND mask k = w"
  by (rule word_eqI_bits) (auto simp: bit_and_iff bit_mask_iff dest: bit_less_exp [OF assms])

text \<open>A narrowing cast is a ring homomorphism.\<close>

lemma take_bit_narrow:
  fixes a b :: int
  assumes "m \<le> n"
  shows "take_bit m (take_bit n a - take_bit n b) = take_bit m (a - b)"
    and "take_bit m (take_bit n a + take_bit n b) = take_bit m (a + b)"
proof -
  have t: "take_bit m (take_bit n x) = take_bit m x" for x :: int
    using assms by (simp add: min_absorb1)
  show "take_bit m (take_bit n a - take_bit n b) = take_bit m (a - b)"
    using take_bit_diff [of m "take_bit n a" "take_bit n b"] take_bit_diff [of m a b]
    unfolding t by simp
  show "take_bit m (take_bit n a + take_bit n b) = take_bit m (a + b)"
    using take_bit_add [of m "take_bit n a" "take_bit n b"] take_bit_add [of m a b]
    unfolding t by simp
qed

lemma ucast_minus_64_32: "(ucast (a - b :: u64) :: u32) = ucast a - ucast b"
  by transfer (simp add: take_bit_narrow)

lemma ucast_plus_64_32: "(ucast (a + b :: u64) :: u32) = ucast a + ucast b"
  by transfer (simp add: take_bit_narrow)

text \<open>Saturating arithmetic on \<open>u64\<close>.\<close>

definition saturating_mul :: "u64 \<Rightarrow> u64 \<Rightarrow> u64" where
  "saturating_mul a b = (if unat a * unat b < 2 ^ 64 then a * b else - 1)"

definition saturating_sub :: "u64 \<Rightarrow> u64 \<Rightarrow> u64" where
  "saturating_sub a b = (if b \<le> a then a - b else 0)"

lemma unat_saturating_sub: "unat (saturating_sub a b) = unat a - unat b"
  by (auto simp: saturating_sub_def unat_sub word_le_nat_alt)

lemma unat_saturating_mul: "unat a * unat b < 2 ^ 64 \<Longrightarrow> unat (saturating_mul a b) = unat a * unat b"
  by (simp add: saturating_mul_def unat_mult_lem [THEN iffD1])

lemma unat_u32_less: "unat (w :: u32) < 2 ^ 32"
  by (rule order.strict_trans2 [OF unsigned_less]) simp

lemma unat_u64_less: "unat (w :: u64) < 2 ^ 64"
  by (rule order.strict_trans2 [OF unsigned_less]) simp

lemma unat_ucast_32_64 [simp]: "unat (ucast (w :: u32) :: u64) = unat w"
  using unat_u32_less [of w] by (simp add: unsigned_ucast_eq take_bit_nat_eq_self_iff)

text \<open>The sign of a 32-bit value read as \<open>i32\<close>.\<close>

lemma bit_31_iff: "bit (w :: u32) 31 \<longleftrightarrow> 2 ^ 31 \<le> unat w"
proof -
  have lt: "unat w < 2 ^ 32" by (rule unat_u32_less)
  have "bit w 31 \<longleftrightarrow> bit (unat w) 31" by (simp add: bit_unsigned_iff)
  also have "\<dots> \<longleftrightarrow> odd (unat w div 2 ^ 31)" by (simp add: bit_iff_odd)
  also have "\<dots> \<longleftrightarrow> 2 ^ 31 \<le> unat w"
  proof (cases "2 ^ 31 \<le> unat w")
    case True
    then have "unat w div 2 ^ 31 = 1" using lt by (intro div_nat_eqI) simp_all
    with True show ?thesis by simp
  qed simp
  finally show ?thesis .
qed

lemma sint_ge_0_iff: "0 \<le> sint (w :: u32) \<longleftrightarrow> unat w < 2 ^ 31"
  using bit_last_iff [of w] by (simp add: bit_31_iff) linarith

subsection \<open>Trailing zeros\<close>

definition trailing_zeros :: "'a::len word \<Rightarrow> nat" where
  "trailing_zeros w = length (takeWhile (\<lambda>i. \<not> bit w i) [0..<LENGTH('a)])"

lemma length_takeWhile_first:
  assumes "i < length xs" and "P (xs ! i)"
  shows "length (takeWhile (\<lambda>x. \<not> P x) xs) \<le> i"
proof (rule ccontr)
  assume "\<not> ?thesis"
  then have "i < length (takeWhile (\<lambda>x. \<not> P x) xs)" by simp
  then have "\<not> P (takeWhile (\<lambda>x. \<not> P x) xs ! i)"
    by (metis nth_mem set_takeWhileD)
  with \<open>i < length (takeWhile _ _)\<close> assms(2) show False
    by (simp add: takeWhile_nth)
qed

lemma trailing_zeros_props:
  assumes "w \<noteq> (0 :: 'a::len word)"
  shows "trailing_zeros w < LENGTH('a)" "bit w (trailing_zeros w)"
    "i < trailing_zeros w \<Longrightarrow> \<not> bit w i"
proof -
  let ?xs = "[0..<LENGTH('a)]" and ?P = "\<lambda>i. \<not> bit w i"
  from assms obtain n where n: "n < LENGTH('a)" "bit w n" by (auto simp: word_ne_0_bit)
  have "length (takeWhile ?P ?xs) \<le> n"
    by (rule length_takeWhile_first) (use n in simp_all)
  with n show lt: "trailing_zeros w < LENGTH('a)" by (simp add: trailing_zeros_def)
  then have "length (takeWhile ?P ?xs) < length ?xs" by (simp add: trailing_zeros_def)
  from nth_length_takeWhile [OF this] lt show "bit w (trailing_zeros w)"
    by (simp add: trailing_zeros_def)
  show "\<not> bit w i" if "i < trailing_zeros w"
  proof -
    from that have i: "i < length (takeWhile ?P ?xs)" by (simp add: trailing_zeros_def)
    then have "?P (takeWhile ?P ?xs ! i)" by (metis nth_mem set_takeWhileD)
    moreover have "takeWhile ?P ?xs ! i = i"
      using i lt that by (simp add: takeWhile_nth)
    ultimately show ?thesis by simp
  qed
qed

lemma trailing_zeros_eq_Min:
  assumes "w \<noteq> (0 :: 'a::len word)"
  shows "trailing_zeros w = Min {i. bit w i}"
proof (rule sym, rule Min_eqI)
  show "finite {i. bit w i}"
    by (rule finite_subset [of _ "{..<LENGTH('a)}"]) (auto dest: bit_imp_less)
  show "trailing_zeros w \<le> i" if "i \<in> {i. bit w i}" for i
    using that trailing_zeros_props(3) [OF assms, of i] by (auto simp: not_less [symmetric])
  show "trailing_zeros w \<in> {i. bit w i}"
    using trailing_zeros_props(2) [OF assms] by simp
qed

subsection \<open>Little-endian bytes\<close>

definition to_le_bytes :: "u32 \<Rightarrow> u8 list" where
  "to_le_bytes w = [ucast w, ucast (drop_bit 8 w), ucast (drop_bit 16 w), ucast (drop_bit 24 w)]"

definition to_be_bytes :: "u32 \<Rightarrow> u8 list" where
  "to_be_bytes w = rev (to_le_bytes w)"

fun from_le_bytes :: "u8 list \<Rightarrow> u32" where
  "from_le_bytes [] = 0"
| "from_le_bytes (b # bs) = ucast b OR push_bit 8 (from_le_bytes bs)"

definition from_be_bytes :: "u8 list \<Rightarrow> u32" where
  "from_be_bytes bs = from_le_bytes (rev bs)"

lemma length_to_le_bytes [simp]: "length (to_le_bytes w) = 4"
  by (simp add: to_le_bytes_def)

lemma bit_u8_beyond [simp]: "8 \<le> n \<Longrightarrow> \<not> bit (b :: u8) n"
  by (auto dest: bit_imp_less)

lemma bit_u32_beyond [simp]: "32 \<le> n \<Longrightarrow> \<not> bit (b :: u32) n"
  by (auto dest: bit_imp_less)

lemma from_to_le_bytes [simp]: "from_le_bytes (to_le_bytes w) = w"
proof (rule word_eqI_bits)
  fix n assume "n < LENGTH(32)"
  then consider "n < 8" | "8 \<le> n" "n < 16" | "16 \<le> n" "n < 24" | "24 \<le> n" "n < 32"
    by fastforce
  then show "bit (from_le_bytes (to_le_bytes w)) n \<longleftrightarrow> bit w n"
    by cases (auto simp: to_le_bytes_def bit_simps)
qed

lemma to_from_le_bytes: "length bs = 4 \<Longrightarrow> to_le_bytes (from_le_bytes bs) = bs"
proof -
  assume "length bs = 4"
  then obtain a b c d where bs: "bs = [a, b, c, d]"
    by (auto simp: numeral_eq_Suc length_Suc_conv)
  show ?thesis unfolding bs
    by (auto simp: to_le_bytes_def bit_simps intro!: word_eqI_bits)
qed

section \<open>Lists\<close>

text \<open>The last \<open>n\<close> elements: what a bounded queue that drops its oldest entries keeps.\<close>

definition last_n :: "nat \<Rightarrow> 'a list \<Rightarrow> 'a list" where
  "last_n n xs = drop (length xs - n) xs"

lemma length_last_n [simp]: "length (last_n n xs) = min n (length xs)"
  by (simp add: last_n_def)

lemma last_n_all [simp]: "length xs \<le> n \<Longrightarrow> last_n n xs = xs"
  by (simp add: last_n_def)

lemma last_n_append_last_n: "last_n n (last_n n xs @ ys) = last_n n (xs @ ys)"
  by (cases "length xs \<le> n") (simp_all add: last_n_def add.commute)

lemma last_n_snoc_full: "length xs = n \<Longrightarrow> 0 < n \<Longrightarrow> last_n n (xs @ [x]) = tl xs @ [x]"
  by (cases xs) (simp_all add: last_n_def)

text \<open>\<open>xs[b..b + ys.len()].copy_from_slice(ys)\<close>: panics when the range ends beyond the slice.\<close>

definition overwrite :: "nat \<Rightarrow> 'a list \<Rightarrow> 'a list \<Rightarrow> 'a list" where
  "overwrite b ys xs = take b xs @ ys @ drop (b + length ys) xs"

definition copy_from_slice :: "nat \<Rightarrow> 'a list \<Rightarrow> 'a list \<Rightarrow> 'a list res" where
  "copy_from_slice b ys xs =
     (if b + length ys \<le> length xs then Inr (overwrite b ys xs) else Inl OutOfBounds)"

lemma length_overwrite [simp]: "b + length ys \<le> length xs \<Longrightarrow> length (overwrite b ys xs) = length xs"
  by (simp add: overwrite_def)

lemma nth_overwrite:
  "b + length ys \<le> length xs \<Longrightarrow> i < length xs \<Longrightarrow>
   overwrite b ys xs ! i = (if b \<le> i \<and> i < b + length ys then ys ! (i - b) else xs ! i)"
  by (auto simp: overwrite_def nth_append)

lemma nth_overwrite_inside [simp]:
  "b + length ys \<le> length xs \<Longrightarrow> i < length ys \<Longrightarrow> overwrite b ys xs ! (b + i) = ys ! i"
  by (simp add: nth_overwrite)

text \<open>\<open>str::starts_with\<close> and \<open>str::strip_prefix\<close>.\<close>

definition starts_with :: "string \<Rightarrow> string \<Rightarrow> bool" where
  "starts_with s p \<longleftrightarrow> take (length p) s = p"

definition strip_prefix :: "string \<Rightarrow> string \<Rightarrow> string option" where
  "strip_prefix s p = (if starts_with s p then Some (drop (length p) s) else None)"

end
