(* ===== verification/Unicorn.thy ===== *)
theory Unicorn
  imports Prelude
begin

text \<open>
  The CPU engine. Unicorn is a third-party crate, so its operations are a parameter of every
  definition that uses them: the record \<open>uc_ops\<close> holds the calls the sources make, over an
  engine state of an unknown type \<open>'u\<close>. Register reads and writes are \<open>unwrap\<close>ped by the
  code and fail only for an invalid handle or register id, so they are total here; memory
  accesses can fail (an unmapped address) and return an option.

  What the proofs rely on is the predicate \<open>ram_laws\<close>: on a set \<open>R\<close> of addresses mapped as
  plain RAM (no MMIO callback), a write succeeds and is read back, leaves disjoint ranges of
  \<open>R\<close> and all registers alone, and register writes leave RAM alone. \<open>context_reg_laws\<close> says
  that the registers of a context frame other than XPSR and PC are independent 32-bit cells.
\<close>

datatype arm_reg =
    R0 | R1 | R2 | R3 | R12 | SP | LR | PC
  | XPSR | IPSR | MSP | PSP | CONTROL | PRIMASK | BASEPRI | FPSCR
  | S0 | S1 | S2 | S3 | S4 | S5 | S6 | S7 | S8 | S9 | S10 | S11 | S12 | S13 | S14 | S15

record 'u uc_ops =
  uc_reg_read :: "arm_reg \<Rightarrow> 'u \<Rightarrow> u64"
  uc_reg_write :: "arm_reg \<Rightarrow> u64 \<Rightarrow> 'u \<Rightarrow> 'u"
  uc_mem_read :: "u64 \<Rightarrow> nat \<Rightarrow> 'u \<Rightarrow> u8 list option"
  uc_mem_write :: "u64 \<Rightarrow> u8 list \<Rightarrow> 'u \<Rightarrow> 'u option"
  uc_emu_stop :: "'u \<Rightarrow> 'u"

definition span :: "u64 \<Rightarrow> nat \<Rightarrow> nat set" where
  "span a n = {unat a ..< unat a + n}"

definition ram_laws :: "'u uc_ops \<Rightarrow> nat set \<Rightarrow> bool" where
  "ram_laws ops R \<longleftrightarrow>
     (\<forall>a bs u. span a (length bs) \<subseteq> R \<longrightarrow>
        (\<exists>u'. uc_mem_write ops a bs u = Some u' \<and>
              uc_mem_read ops a (length bs) u' = Some bs \<and>
              (\<forall>b n. span b n \<subseteq> R \<longrightarrow> span a (length bs) \<inter> span b n = {} \<longrightarrow>
                     uc_mem_read ops b n u' = uc_mem_read ops b n u) \<and>
              (\<forall>r. uc_reg_read ops r u' = uc_reg_read ops r u))) \<and>
     (\<forall>r v b n u. span b n \<subseteq> R \<longrightarrow>
        uc_mem_read ops b n (uc_reg_write ops r v u) = uc_mem_read ops b n u) \<and>
     (\<forall>b n u. span b n \<subseteq> R \<longrightarrow>
        uc_mem_read ops b n (uc_emu_stop ops u) = uc_mem_read ops b n u)"

text \<open>The registers of a context frame that are plain 32-bit cells.\<close>

definition plain_regs :: "arm_reg set" where
  "plain_regs = {R0, R1, R2, R3, R12, LR, S0, S1, S2, S3, S4, S5, S6, S7,
                 S8, S9, S10, S11, S12, S13, S14, S15}"

definition context_reg_laws :: "'u uc_ops \<Rightarrow> bool" where
  "context_reg_laws ops \<longleftrightarrow>
     (\<forall>r v u r'. r' \<in> plain_regs \<longrightarrow> r \<noteq> r' \<longrightarrow>
        uc_reg_read ops r' (uc_reg_write ops r v u) = uc_reg_read ops r' u) \<and>
     (\<forall>v u r. r \<in> plain_regs \<longrightarrow>
        uc_reg_read ops r (uc_reg_write ops r (ucast (v :: u32)) u) = ucast v) \<and>
     (\<forall>u r'. r' \<in> plain_regs \<longrightarrow> uc_reg_read ops r' (uc_emu_stop ops u) = uc_reg_read ops r' u)"

lemma span_4: "unat a + 4 \<le> unat b \<Longrightarrow> span a 4 \<inter> span b n = {}"
  by (auto simp: span_def)

lemma ram_write:
  assumes "ram_laws ops R" "span a (length bs) \<subseteq> R"
  obtains u' where "uc_mem_write ops a bs u = Some u'"
    "uc_mem_read ops a (length bs) u' = Some bs"
    "\<And>b n. span b n \<subseteq> R \<Longrightarrow> span a (length bs) \<inter> span b n = {} \<Longrightarrow>
       uc_mem_read ops b n u' = uc_mem_read ops b n u"
    "\<And>r. uc_reg_read ops r u' = uc_reg_read ops r u"
proof -
  from assms have "\<exists>u'. uc_mem_write ops a bs u = Some u' \<and>
      uc_mem_read ops a (length bs) u' = Some bs \<and>
      (\<forall>b n. span b n \<subseteq> R \<longrightarrow> span a (length bs) \<inter> span b n = {} \<longrightarrow>
         uc_mem_read ops b n u' = uc_mem_read ops b n u) \<and>
      (\<forall>r. uc_reg_read ops r u' = uc_reg_read ops r u)"
    unfolding ram_laws_def by blast
  then obtain u' where "uc_mem_write ops a bs u = Some u'"
    "uc_mem_read ops a (length bs) u' = Some bs"
    "\<forall>b n. span b n \<subseteq> R \<longrightarrow> span a (length bs) \<inter> span b n = {} \<longrightarrow>
       uc_mem_read ops b n u' = uc_mem_read ops b n u"
    "\<forall>r. uc_reg_read ops r u' = uc_reg_read ops r u" by (elim exE conjE)
  then show thesis using that [of u'] by simp
qed

lemma ram_reg_write:
  "ram_laws ops R \<Longrightarrow> span b n \<subseteq> R \<Longrightarrow>
   uc_mem_read ops b n (uc_reg_write ops r v u) = uc_mem_read ops b n u"
  unfolding ram_laws_def by blast

text \<open>
  The byte view of RAM: a read of a range of \<open>R\<close> returns its bytes one by one.
\<close>

definition byte_at :: "'u uc_ops \<Rightarrow> 'u \<Rightarrow> nat \<Rightarrow> u8" where
  "byte_at ops u k = (case uc_mem_read ops (of_nat k) 1 u of Some [b] \<Rightarrow> b | _ \<Rightarrow> 0)"

definition ram_bytes :: "'u uc_ops \<Rightarrow> nat set \<Rightarrow> bool" where
  "ram_bytes ops R \<longleftrightarrow> (\<forall>k \<in> R. k < 2 ^ 64) \<and>
     (\<forall>a n u. span a n \<subseteq> R \<longrightarrow>
        uc_mem_read ops a n u = Some (map (byte_at ops u) [unat a ..< unat a + n]))"

lemma unat_of_nat_64: "k < 2 ^ 64 \<Longrightarrow> unat (of_nat k :: u64) = k"
  unfolding unat_of_nat by simp

text \<open>A write sets exactly its own bytes.\<close>

lemma ram_write_bytes:
  assumes "ram_laws ops R" "ram_bytes ops R" "span a (length bs) \<subseteq> R"
  shows "\<exists>u'. uc_mem_write ops a bs u = Some u' \<and>
    (\<forall>i < length bs. byte_at ops u' (unat a + i) = bs ! i) \<and>
    (\<forall>k \<in> R. k \<notin> span a (length bs) \<longrightarrow> byte_at ops u' k = byte_at ops u k)"
proof -
  from ram_write [OF assms(1,3), of u] obtain u' where
    w: "uc_mem_write ops a bs u = Some u'" "uc_mem_read ops a (length bs) u' = Some bs"
    and o: "\<And>b n. span b n \<subseteq> R \<Longrightarrow> span a (length bs) \<inter> span b n = {} \<Longrightarrow>
       uc_mem_read ops b n u' = uc_mem_read ops b n u" by metis
  have "bs = map (byte_at ops u') [unat a ..< unat a + length bs]"
    using w(2) assms(2,3) by (simp add: ram_bytes_def)
  then have "byte_at ops u' (unat a + i) = bs ! i" if "i < length bs" for i
    using that by (metis add_diff_cancel_left' diff_is_0_eq' length_map length_upt nat_add_left_cancel_less
        nth_map nth_upt)
  moreover have "byte_at ops u' k = byte_at ops u k" if "k \<in> R" "k \<notin> span a (length bs)" for k
  proof -
    have "k < 2 ^ 64" using assms(2) that(1) by (simp add: ram_bytes_def)
    then have s: "span (of_nat k) 1 = {k}" by (auto simp: span_def unat_of_nat_64)
    have "uc_mem_read ops (of_nat k) 1 u' = uc_mem_read ops (of_nat k) 1 u"
    proof (rule o)
      show "span (of_nat k) 1 \<subseteq> R" "span a (length bs) \<inter> span (of_nat k) 1 = {}"
        unfolding s using that by auto
    qed
    then show ?thesis by (simp add: byte_at_def)
  qed
  ultimately show ?thesis using w(1) by blast
qed

section \<open>A concrete engine\<close>

text \<open>
  An engine whose memory is a total map of byte cells and whose registers are a map. It is
  used only in witnesses, to show that the laws can hold.
\<close>

record flat_cpu =
  fc_regs :: "arm_reg \<Rightarrow> u64"
  fc_mem :: "nat \<Rightarrow> u8"
  fc_stopped :: bool

fun fc_store :: "nat \<Rightarrow> u8 list \<Rightarrow> (nat \<Rightarrow> u8) \<Rightarrow> (nat \<Rightarrow> u8)" where
  "fc_store a [] m = m"
| "fc_store a (b # bs) m = fc_store (Suc a) bs (m(a := b))"

definition flat_ops :: "flat_cpu uc_ops" where
  "flat_ops = \<lparr>
     uc_reg_read = (\<lambda>r c. fc_regs c r),
     uc_reg_write = (\<lambda>r v c. c\<lparr>fc_regs := (fc_regs c)(r := v)\<rparr>),
     uc_mem_read = (\<lambda>a n c. Some (map (fc_mem c) [unat a ..< unat a + n])),
     uc_mem_write = (\<lambda>a bs c. Some (c\<lparr>fc_mem := fc_store (unat a) bs (fc_mem c)\<rparr>)),
     uc_emu_stop = (\<lambda>c. c\<lparr>fc_stopped := True\<rparr>)\<rparr>"

lemma fc_store_outside: "i < a \<or> a + length bs \<le> i \<Longrightarrow> fc_store a bs m i = m i"
  by (induction bs arbitrary: a m) auto

lemma fc_store_inside: "i < length bs \<Longrightarrow> fc_store a bs m (a + i) = bs ! i"
proof (induction bs arbitrary: a m i)
  case (Cons b bs)
  show ?case
  proof (cases i)
    case 0
    then show ?thesis by (simp add: fc_store_outside)
  next
    case (Suc j)
    with Cons show ?thesis by (simp flip: add_Suc)
  qed
qed simp

lemma flat_ram_laws: "ram_laws flat_ops R"
proof -
  have "map (fc_store a bs m) [a..<a + length bs] = bs" for a bs m
    by (rule nth_equalityI) (simp_all add: fc_store_inside)
  moreover have "map (fc_store a bs m) [b..<b + n] = map m [b..<b + n]"
    if "{a..<a + length bs} \<inter> {b..<b + n} = {}" for a bs m b n
    using that by (auto intro!: fc_store_outside simp: set_eq_iff) (meson leI)
  ultimately show ?thesis
    by (auto simp: ram_laws_def flat_ops_def span_def)
qed

lemma flat_context_reg_laws: "context_reg_laws flat_ops"
  by (auto simp: context_reg_laws_def flat_ops_def plain_regs_def)

lemma flat_ram_bytes: "(\<forall>k \<in> R. k < 2 ^ 64) \<Longrightarrow> ram_bytes flat_ops R"
proof -
  assume R: "\<forall>k \<in> R. k < 2 ^ 64"
  have "byte_at flat_ops u k = fc_mem u k" if "k < 2 ^ 64" for u k
    using that by (simp add: byte_at_def flat_ops_def unat_of_nat_64)
  then show ?thesis using R
    by (auto simp: ram_bytes_def) (auto simp: flat_ops_def span_def intro!: map_cong)
qed

end
