(* ===== verification/Nvic.thy ===== *)
theory Nvic
  imports Unicorn
begin

text \<open>
  The interrupt controller, \<open>src/peripherals/nvic.rs\<close>: pending and enabled bits, priority
  bytes, dispatch at block boundaries, exception entry and return. \<open>pending\<close> and \<open>enabled\<close> are
  the 128-bit sets of the source, an \<open>i32\<close> interrupt number is an \<open>int\<close> (negative for the
  architectural exceptions), and the instruction counter \<open>NUM_INSTRUCTIONS\<close>, a process-wide
  atomic, is the argument \<open>now\<close>.
\<close>

section \<open>State\<close>

record nvic =
  systick_period :: "u32 option"
  last_systick_trigger :: u64
  pending :: u128
  enabled :: u128
  in_interrupt :: bool
  priorities :: "u8 list"
  active_exception_number :: u32

definition IPR_OFFSET :: u32 where "IPR_OFFSET = 0x400"
definition IPR_COUNT :: nat where "IPR_COUNT = 240"
definition ISER_OFFSET :: u32 where "ISER_OFFSET = 0x100"
definition ICER_OFFSET :: u32 where "ICER_OFFSET = 0x180"
definition ENABLE_WORDS :: nat where "ENABLE_WORDS = 4"
definition IRQ_OFFSET :: int where "IRQ_OFFSET = 16"
definition XPSR_ITSTATE_MASK :: u32 where "XPSR_ITSTATE_MASK = 0x0600fc00"

definition irq_PENDSV :: int where "irq_PENDSV = -2"
definition irq_SYSTICK :: int where "irq_SYSTICK = -1"
definition irq_SVCALL :: int where "irq_SVCALL = -5"

definition nvic_default :: nvic where
  "nvic_default = \<lparr>systick_period = None, last_systick_trigger = 0, pending = 0, enabled = 0,
     in_interrupt = False, priorities = replicate IPR_COUNT 0, active_exception_number = 0\<rparr>"

section \<open>Pending interrupts\<close>

definition set_intr_pending :: "int \<Rightarrow> nvic \<Rightarrow> nvic res" where
  "set_intr_pending irq n =
     (if IRQ_OFFSET + irq > 0
      then Inr (n\<lparr>pending := pending n OR bit_mask (nat ((IRQ_OFFSET + irq) mod 128))\<rparr>)
      else Inl AssertFailed)"

definition is_enabled :: "int \<Rightarrow> nvic \<Rightarrow> bool" where
  "is_enabled irq n \<longleftrightarrow> 0 \<le> irq \<and> irq < 128 \<and> enabled n AND bit_mask (nat irq) \<noteq> 0"

definition get_and_clear_next_intr_pending :: "nvic \<Rightarrow> int option \<times> nvic" where
  "get_and_clear_next_intr_pending n =
     (if pending n \<noteq> 0
      then let b = trailing_zeros (pending n) in
           (Some (int b - IRQ_OFFSET), n\<lparr>pending := pending n AND NOT (bit_mask b)\<rparr>)
      else (None, n))"

definition dispatchable :: "nvic \<Rightarrow> u128" where
  "dispatchable n =
     (let architectural_mask = push_bit (nat IRQ_OFFSET) 1 - 1;
          enabled_external = push_bit (nat IRQ_OFFSET) (enabled n)
      in pending n AND (architectural_mask OR enabled_external))"

definition get_and_clear_next_dispatchable :: "nvic \<Rightarrow> int option \<times> nvic" where
  "get_and_clear_next_dispatchable n =
     (if dispatchable n = 0 then (None, n)
      else let b = trailing_zeros (dispatchable n) in
           (Some (int b - IRQ_OFFSET), n\<lparr>pending := pending n AND NOT (bit_mask b)\<rparr>))"

definition maybe_set_systick_intr_pending :: "u64 \<Rightarrow> nvic \<Rightarrow> nvic res" where
  "maybe_set_systick_intr_pending now n =
     (case systick_period n of
        None \<Rightarrow> Inr n
      | Some period \<Rightarrow>
          if now - last_systick_trigger n > ucast period
          then set_intr_pending irq_SYSTICK (n\<lparr>last_systick_trigger := now\<rparr>)
          else Inr n)"

section \<open>Exception frames\<close>

definition CONTEXT_REGS_EXTENDED :: "arm_reg list" where
  "CONTEXT_REGS_EXTENDED =
     [FPSCR, S15, S14, S13, S12, S11, S10, S9, S8, S7, S6, S5, S4, S3, S2, S1, S0]"

definition CONTEXT_REGS :: "arm_reg list" where
  "CONTEXT_REGS = [XPSR, PC, LR, R12, R3, R2, R1, R0]"

definition push_word :: "'u uc_ops \<Rightarrow> u32 \<Rightarrow> u64 \<times> 'u \<Rightarrow> (u64 \<times> 'u) res" where
  "push_word ops v st =
     (let sp = fst st - 4 in
      case uc_mem_write ops sp (to_le_bytes v) (snd st) of
        None \<Rightarrow> Inl UnwrapFailed
      | Some uc \<Rightarrow> Inr (sp, uc))"

fun push_context :: "'u uc_ops \<Rightarrow> arm_reg list \<Rightarrow> u64 \<times> 'u \<Rightarrow> (u64 \<times> 'u) res" where
  "push_context ops [] st = Inr st"
| "push_context ops (r # rs) st =
     res_bind (push_word ops (ucast (uc_reg_read ops r (snd st))) st) (push_context ops rs)"

definition push_regs :: "'u uc_ops \<Rightarrow> bool \<Rightarrow> bool \<Rightarrow> 'u \<Rightarrow> 'u res" where
  "push_regs ops spsel fpca uc =
     (let sp_reg = (if spsel then PSP else MSP);
          st = (uc_reg_read ops sp_reg uc, uc)
      in res_bind
           (if fpca
            then res_bind (push_word ops 0 st) (push_context ops CONTEXT_REGS_EXTENDED)
            else Inr st)
           (\<lambda>st. res_bind (push_context ops CONTEXT_REGS st)
             (\<lambda>(sp, uc). Inr (uc_reg_write ops SP sp uc))))"

definition pop_word :: "'u uc_ops \<Rightarrow> u64 \<times> 'u \<Rightarrow> (u32 \<times> u64) res" where
  "pop_word ops st =
     (case uc_mem_read ops (fst st) 4 (snd st) of
        None \<Rightarrow> Inl UnwrapFailed
      | Some bs \<Rightarrow> Inr (from_le_bytes bs, fst st + 4))"

fun pop_context :: "'u uc_ops \<Rightarrow> arm_reg list \<Rightarrow> u64 \<times> 'u \<Rightarrow> (u64 \<times> 'u) res" where
  "pop_context ops [] st = Inr st"
| "pop_context ops (r # rs) st =
     res_bind (pop_word ops st)
       (\<lambda>(v, sp). pop_context ops rs (sp, uc_reg_write ops r (ucast v) (snd st)))"

definition pop_regs :: "'u uc_ops \<Rightarrow> bool \<Rightarrow> bool \<Rightarrow> 'u \<Rightarrow> 'u res" where
  "pop_regs ops spsel fpca uc =
     (let sp_reg = (if spsel then PSP else MSP) in
      res_bind (pop_context ops (rev CONTEXT_REGS) (uc_reg_read ops sp_reg uc, uc))
        (\<lambda>st. res_bind
           (if fpca
            then res_map (\<lambda>(sp, uc). (sp + 4, uc)) (pop_context ops (rev CONTEXT_REGS_EXTENDED) st)
            else Inr st)
           (\<lambda>(sp, uc). Inr (uc_reg_write ops SP sp uc))))"

section \<open>Exception entry, return and dispatch\<close>

definition read_vector_addr :: "'u uc_ops \<Rightarrow> 'u \<Rightarrow> u32 \<Rightarrow> int \<Rightarrow> u32 res" where
  "read_vector_addr ops uc vector_table_addr irq =
     (let vaddr = vector_table_addr + 4 * word_of_int (IRQ_OFFSET + irq) in
      case uc_mem_read ops (ucast vaddr) 4 uc of
        None \<Rightarrow> Inl UnwrapFailed
      | Some bs \<Rightarrow> Inr (from_le_bytes bs))"

definition exc_return :: "bool \<Rightarrow> bool \<Rightarrow> u32" where
  "exc_return spsel fpca =
     (let lr = 0xFFFFFFE9;
          lr = (if spsel then lr OR 0x04 else lr)
      in if \<not> fpca then lr OR 0x10 else lr)"

definition control_spsel :: "u64 \<Rightarrow> bool" where
  "control_spsel c \<longleftrightarrow> c AND bit_mask 1 \<noteq> 0"

definition control_fpca :: "u64 \<Rightarrow> bool" where
  "control_fpca c \<longleftrightarrow> c AND push_bit 1 2 \<noteq> 0"

definition run_interrupt ::
  "'u uc_ops \<Rightarrow> u32 \<Rightarrow> int \<Rightarrow> nvic \<times> 'u \<Rightarrow> (nvic \<times> 'u) res" where
  "run_interrupt ops vector_table_addr irq st =
     (let n = fst st; uc = snd st in
      res_bind (read_vector_addr ops uc vector_table_addr irq) (\<lambda>vector.
      let control_reg = uc_reg_read ops CONTROL uc;
          spsel = control_spsel control_reg;
          fpca = control_fpca control_reg
      in res_bind (push_regs ops spsel fpca uc) (\<lambda>uc.
      let xpsr = ucast (uc_reg_read ops XPSR uc) :: u32;
          uc = uc_reg_write ops XPSR (ucast (xpsr AND NOT XPSR_ITSTATE_MASK)) uc;
          uc = uc_reg_write ops LR (ucast (exc_return spsel fpca)) uc;
          uc = uc_reg_write ops IPSR (word_of_int irq) uc;
          uc = uc_reg_write ops PC (ucast vector) uc;
          uc = uc_emu_stop ops uc
      in Inr (n\<lparr>in_interrupt := True,
                active_exception_number := word_of_int (IRQ_OFFSET + irq)\<rparr>, uc))))"

definition enter_svcall :: "'u uc_ops \<Rightarrow> u32 \<Rightarrow> nvic \<times> 'u \<Rightarrow> (nvic \<times> 'u) res" where
  "enter_svcall ops vector_table_addr st = run_interrupt ops vector_table_addr irq_SVCALL st"

definition return_from_interrupt :: "'u uc_ops \<Rightarrow> nvic \<times> 'u \<Rightarrow> (nvic \<times> 'u) res" where
  "return_from_interrupt ops st =
     (let n = fst st; uc = snd st; lr = uc_reg_read ops LR uc in
      res_bind
        (if lr AND 0xFFFFFF00 = 0xFFFFFF00
         then let spsel = (lr AND 0x04 \<noteq> 0); fpca = (lr AND 0x10 = 0) in
              res_map (\<lambda>uc.
                let control_reg = 0;
                    control_reg = (if spsel then control_reg OR bit_mask 1 else control_reg);
                    control_reg = (if fpca then control_reg OR push_bit 1 2 else control_reg)
                in uc_reg_write ops CONTROL control_reg uc)
                (pop_regs ops spsel fpca uc)
         else let control_reg = uc_reg_read ops CONTROL uc in
              pop_regs ops (control_spsel control_reg) (control_fpca control_reg) uc)
        (\<lambda>uc. Inr (n\<lparr>in_interrupt := False, active_exception_number := 0\<rparr>, uc_emu_stop ops uc)))"

definition are_interrupts_disabled :: "'u uc_ops \<Rightarrow> 'u \<Rightarrow> bool" where
  "are_interrupts_disabled ops uc \<longleftrightarrow>
     uc_reg_read ops PRIMASK uc \<noteq> 0 \<or> uc_reg_read ops BASEPRI uc \<noteq> 0"

definition run_pending_interrupts ::
  "'u uc_ops \<Rightarrow> u64 \<Rightarrow> u32 \<Rightarrow> nvic \<times> 'u \<Rightarrow> (nvic \<times> 'u) res" where
  "run_pending_interrupts ops now vector_table_addr st =
     res_bind (maybe_set_systick_intr_pending now (fst st)) (\<lambda>n.
     let uc = snd st in
     if pending n = 0 \<or> in_interrupt n then Inr (n, uc)
     else if are_interrupts_disabled ops uc then Inr (n, uc)
     else if (ucast (uc_reg_read ops XPSR uc) :: u32) AND XPSR_ITSTATE_MASK \<noteq> 0 then Inr (n, uc)
     else case get_and_clear_next_dispatchable n of
            (Some irq, n') \<Rightarrow> run_interrupt ops vector_table_addr irq (n', uc)
          | (None, n') \<Rightarrow> Inr (n', uc))"

text \<open>\<open>active_exception_number()\<close> is the record field itself. The number SCB reports is 0 in
  thread mode.\<close>

section \<open>Registers\<close>

definition ipr_word_base :: "u32 \<Rightarrow> nat option" where
  "ipr_word_base offset =
     (if IPR_OFFSET \<le> offset \<and> offset < IPR_OFFSET + of_nat IPR_COUNT
      then Some (unat (offset - IPR_OFFSET)) else None)"

definition enable_word :: "u32 \<Rightarrow> u32 \<Rightarrow> nat option" where
  "enable_word base offset =
     (if offset < base then None
      else let relative = unat (offset - base) in
           if relative < ENABLE_WORDS * 4 \<and> relative mod 4 = 0 then Some (relative div 4)
           else None)"

definition nvic_read :: "u32 \<Rightarrow> nvic \<Rightarrow> u32 res" where
  "nvic_read offset n =
     (case enable_word ISER_OFFSET offset of
        Some w \<Rightarrow> Inr (ucast (drop_bit (w * 32) (enabled n)))
      | None \<Rightarrow>
     (case enable_word ICER_OFFSET offset of
        Some w \<Rightarrow> Inr (ucast (drop_bit (w * 32) (enabled n)))
      | None \<Rightarrow>
     (case ipr_word_base offset of
        Some b \<Rightarrow>
          res_bind (index_res (priorities n) b) (\<lambda>p0.
          res_bind (index_res (priorities n) (b + 1)) (\<lambda>p1.
          res_bind (index_res (priorities n) (b + 2)) (\<lambda>p2.
          res_bind (index_res (priorities n) (b + 3)) (\<lambda>p3.
          Inr (from_le_bytes [p0, p1, p2, p3])))))
      | None \<Rightarrow> Inr 0)))"

definition nvic_write :: "u32 \<Rightarrow> u32 \<Rightarrow> nvic \<Rightarrow> nvic res" where
  "nvic_write offset value n =
     (case enable_word ISER_OFFSET offset of
        Some w \<Rightarrow> Inr (n\<lparr>enabled := enabled n OR push_bit (w * 32) (ucast value)\<rparr>)
      | None \<Rightarrow>
     (case enable_word ICER_OFFSET offset of
        Some w \<Rightarrow> Inr (n\<lparr>enabled := enabled n AND NOT (push_bit (w * 32) (ucast value))\<rparr>)
      | None \<Rightarrow>
     (case ipr_word_base offset of
        Some b \<Rightarrow>
          res_map (\<lambda>ps. n\<lparr>priorities := ps\<rparr>)
            (copy_from_slice b (to_le_bytes value) (priorities n))
      | None \<Rightarrow> Inr n)))"

text \<open>The wrapper re-bases offsets; \<open>NvicStir\<close> is the software trigger register.\<close>

record nvic_wrapper =
  base_offset :: u32

definition nvic_wrapper_read :: "nvic_wrapper \<Rightarrow> u32 \<Rightarrow> nvic \<Rightarrow> u32 res" where
  "nvic_wrapper_read w offset n = nvic_read (offset + base_offset w) n"

definition nvic_wrapper_write :: "nvic_wrapper \<Rightarrow> u32 \<Rightarrow> u32 \<Rightarrow> nvic \<Rightarrow> nvic res" where
  "nvic_wrapper_write w offset value n = nvic_write (offset + base_offset w) value n"

definition nvic_stir_read :: "u32 \<Rightarrow> u32" where
  "nvic_stir_read offset = 0"

definition nvic_stir_write :: "u32 \<Rightarrow> u32 \<Rightarrow> nvic \<Rightarrow> nvic res" where
  "nvic_stir_write offset value n =
     (if offset = 0 then set_intr_pending (uint (value AND 0x1ff)) n else Inr n)"

section \<open>Abstract view\<close>

text \<open>
  What the controller promises: a set of pending interrupts and a set of enabled ones, both by
  interrupt number. Dispatch takes the smallest pending number that is architectural (negative)
  or enabled, and removes that one only.
\<close>

definition pend_irqs :: "nvic \<Rightarrow> int set" where
  "pend_irqs n = {i. -16 \<le> i \<and> bit (pending n) (nat (i + 16))}"

definition enabled_irqs :: "nvic \<Rightarrow> int set" where
  "enabled_irqs n = {i. 0 \<le> i \<and> bit (enabled n) (nat i)}"

definition ready_irqs :: "nvic \<Rightarrow> int set" where
  "ready_irqs n = {i \<in> pend_irqs n. i < 0 \<or> i \<in> enabled_irqs n}"

definition nvic_inv :: "nvic \<Rightarrow> bool" where
  "nvic_inv n \<longleftrightarrow> length (priorities n) = IPR_COUNT"

lemma bit_u128_beyond [simp]: "128 \<le> n \<Longrightarrow> \<not> bit (w :: u128) n"
  by (auto dest: bit_imp_less)

lemma finite_pend_irqs [simp]: "finite (pend_irqs n)"
proof (rule finite_subset)
  show "pend_irqs n \<subseteq> {-16..<128}"
    by (auto simp: pend_irqs_def dest!: bit_imp_less)
qed simp

lemma finite_ready_irqs [simp]: "finite (ready_irqs n)"
  by (rule finite_subset [OF _ finite_pend_irqs [of n]]) (auto simp: ready_irqs_def)

lemma is_enabled_iff: "is_enabled irq n \<longleftrightarrow> irq \<in> enabled_irqs n"
  by (auto simp: is_enabled_def enabled_irqs_def dest: bit_imp_less)

lemma bit_architectural_mask [simp]: "bit (65535 :: u128) i \<longleftrightarrow> i < 16"
proof -
  have "(65535 :: u128) = mask 16" by (simp add: mask_eq_exp_minus_1)
  moreover have "bit (mask 16 :: u128) i \<longleftrightarrow> i < 16" by (subst bit_mask_iff) auto
  ultimately show ?thesis by (simp only:)
qed

lemma bit_architectural_mask_int [simp]: "bit (65535 :: int) i \<longleftrightarrow> i < 16"
proof -
  have "(65535 :: int) = mask 16" by (simp add: mask_eq_exp_minus_1)
  then show ?thesis by (simp only: bit_mask_iff) simp
qed

lemma bit_dispatchable:
  "bit (dispatchable n) i \<longleftrightarrow> bit (pending n) i \<and> (i < 16 \<or> bit (enabled n) (i - 16))"
proof (cases "i < 128")
  case True
  then show ?thesis
    unfolding dispatchable_def Let_def IRQ_OFFSET_def
    by (auto simp: word_bits)
qed auto

lemma bit_pending_iff: "bit (pending n) i \<longleftrightarrow> int i - 16 \<in> pend_irqs n"
  by (simp add: pend_irqs_def)

lemma bit_dispatchable_iff: "bit (dispatchable n) i \<longleftrightarrow> int i - 16 \<in> ready_irqs n"
  by (auto simp: bit_dispatchable ready_irqs_def pend_irqs_def enabled_irqs_def nat_diff_distrib)

lemma ready_irqs_ge: "j \<in> ready_irqs n \<Longrightarrow> - 16 \<le> j"
  by (simp add: ready_irqs_def pend_irqs_def)

lemma ready_irqs_image: "ready_irqs n = (\<lambda>i. int i - 16) ` {i. bit (dispatchable n) i}"
proof (intro set_eqI iffI)
  fix j assume j: "j \<in> ready_irqs n"
  then have "int (nat (j + 16)) - 16 = j" by (auto dest: ready_irqs_ge)
  with j show "j \<in> (\<lambda>i. int i - 16) ` {i. bit (dispatchable n) i}"
    by (intro image_eqI [of _ _ "nat (j + 16)"]) (simp_all add: bit_dispatchable_iff)
qed (auto simp: bit_dispatchable_iff)

lemma finite_word_bits [simp]: "finite {i. bit (w :: 'a::len word) i}"
  by (rule finite_subset [of _ "{..<LENGTH('a)}"]) (auto dest: bit_imp_less)

lemma dispatchable_0_iff: "dispatchable n = 0 \<longleftrightarrow> ready_irqs n = {}"
  using word_ne_0_bit [of "dispatchable n"] by (auto simp: ready_irqs_image dest: bit_imp_less)

lemma trailing_zeros_dispatchable:
  assumes "ready_irqs n \<noteq> {}"
  shows "int (trailing_zeros (dispatchable n)) - 16 = Min (ready_irqs n)"
proof -
  let ?B = "{i. bit (dispatchable n) i}"
  from assms have nz: "dispatchable n \<noteq> 0" by (simp add: dispatchable_0_iff)
  then have "?B \<noteq> {}" using trailing_zeros_props(2) by blast
  then have "Min ((\<lambda>i. int i - 16) ` ?B) = int (Min ?B) - 16"
    by (intro mono_Min_commute [symmetric]) (auto simp: mono_def)
  then show ?thesis using trailing_zeros_eq_Min [OF nz] by (simp add: ready_irqs_image)
qed

lemma pend_irqs_clear:
  "pend_irqs (n\<lparr>pending := pending n AND NOT (bit_mask b)\<rparr>) = pend_irqs n - {int b - 16}"
proof -
  have "bit (pending n AND NOT (bit_mask b)) i \<longleftrightarrow> bit (pending n) i \<and> i \<noteq> b" for i
    by (cases "i < 128") (auto simp: word_bits)
  note clear = this
  show ?thesis
  proof (rule set_eqI)
    fix i
    have upd: "pending (n\<lparr>pending := x\<rparr>) = x" for x by simp
    have "nat (i + 16) = b \<longleftrightarrow> i = int b - 16" if "- 16 \<le> i" using that by auto
    then show "i \<in> pend_irqs (n\<lparr>pending := pending n AND NOT (bit_mask b)\<rparr>) \<longleftrightarrow>
        i \<in> pend_irqs n - {int b - 16}"
      by (cases "- 16 \<le> i") (simp_all only: pend_irqs_def mem_Collect_eq upd clear Diff_iff
          singleton_iff simp_thms)
  qed
qed

lemma pend_irqs_set:
  assumes "- 16 \<le> irq" "irq \<le> 111"
  shows "pend_irqs (n\<lparr>pending := pending n OR bit_mask (nat (irq + 16))\<rparr>) = insert irq (pend_irqs n)"
proof (rule set_eqI)
  fix i
  have upd: "pending (n\<lparr>pending := x\<rparr>) = x" for x by simp
  have "bit (pending n OR bit_mask (nat (irq + 16))) k \<longleftrightarrow> bit (pending n) k \<or> k = nat (irq + 16)"
    for k using assms by (cases "k < 128") (auto simp: word_bits)
  moreover have "nat (i + 16) = nat (irq + 16) \<longleftrightarrow> i = irq" if "- 16 \<le> i" using that assms by auto
  ultimately show "i \<in> pend_irqs (n\<lparr>pending := pending n OR bit_mask (nat (irq + 16))\<rparr>) \<longleftrightarrow>
      i \<in> insert irq (pend_irqs n)"
    using assms by (cases "- 16 \<le> i")
      (simp_all only: pend_irqs_def mem_Collect_eq upd insert_iff simp_thms, auto)
qed

lemma set_intr_pending_ok:
  assumes "- 15 \<le> irq" "irq \<le> 111"
  shows "set_intr_pending irq n = Inr (n\<lparr>pending := pending n OR bit_mask (nat (irq + 16))\<rparr>)"
  using assms by (simp add: set_intr_pending_def IRQ_OFFSET_def add.commute)

lemma get_and_clear_next_dispatchable_eq:
  "get_and_clear_next_dispatchable n =
     (if ready_irqs n = {} then (None, n)
      else (Some (Min (ready_irqs n)),
            n\<lparr>pending := pending n AND NOT (bit_mask (nat (Min (ready_irqs n) + 16)))\<rparr>))"
proof (cases "ready_irqs n = {}")
  case False
  then have "dispatchable n \<noteq> 0" by (simp add: dispatchable_0_iff)
  moreover have "nat (Min (ready_irqs n) + 16) = trailing_zeros (dispatchable n)"
    using trailing_zeros_dispatchable [OF False] by simp
  ultimately show ?thesis using trailing_zeros_dispatchable [OF False] False
    by (simp add: get_and_clear_next_dispatchable_def IRQ_OFFSET_def Let_def)
qed (simp add: get_and_clear_next_dispatchable_def dispatchable_0_iff)

lemma enabled_irqs_update_pending [simp]: "enabled_irqs (n\<lparr>pending := p\<rparr>) = enabled_irqs n"
  by (simp add: enabled_irqs_def)

lemma dispatch_step:
  assumes "ready_irqs n \<noteq> {}"
  obtains n' where "get_and_clear_next_dispatchable n = (Some (Min (ready_irqs n)), n')"
    "pend_irqs n' = pend_irqs n - {Min (ready_irqs n)}"
    "ready_irqs n' = ready_irqs n - {Min (ready_irqs n)}"
    "enabled_irqs n' = enabled_irqs n" "in_interrupt n' = in_interrupt n"
    "priorities n' = priorities n"
proof -
  let ?m = "Min (ready_irqs n)"
  let ?n' = "n\<lparr>pending := pending n AND NOT (bit_mask (nat (?m + 16)))\<rparr>"
  have "?m \<in> ready_irqs n" using assms by (intro Min_in) simp_all
  then have "int (nat (?m + 16)) - 16 = ?m" by (auto dest: ready_irqs_ge)
  then have p: "pend_irqs ?n' = pend_irqs n - {?m}" by (simp only: pend_irqs_clear)
  then have "ready_irqs ?n' = ready_irqs n - {?m}"
    by (simp only: ready_irqs_def enabled_irqs_update_pending) auto
  with p assms show thesis
    by (intro that [of ?n']) (simp_all add: get_and_clear_next_dispatchable_eq)
qed

text \<open>All dispatches that are possible without new events, in the order the code makes them.\<close>

fun drain :: "nat \<Rightarrow> nvic \<Rightarrow> int list" where
  "drain 0 n = []"
| "drain (Suc k) n =
     (case get_and_clear_next_dispatchable n of
        (None, _) \<Rightarrow> []
      | (Some irq, n') \<Rightarrow> irq # drain k n')"

lemma drain_sorted: "card (ready_irqs n) \<le> k \<Longrightarrow> drain k n = sorted_list_of_set (ready_irqs n)"
proof (induction k arbitrary: n)
  case (Suc k)
  show ?case
  proof (cases "ready_irqs n = {}")
    case True
    then show ?thesis by (simp add: get_and_clear_next_dispatchable_eq)
  next
    case False
    from dispatch_step [OF this] obtain n' where
      g: "get_and_clear_next_dispatchable n = (Some (Min (ready_irqs n)), n')"
      and r: "ready_irqs n' = ready_irqs n - {Min (ready_irqs n)}" by metis
    have "Min (ready_irqs n) \<in> ready_irqs n" using False by (intro Min_in) simp_all
    then have "card (ready_irqs n') \<le> k" using Suc.prems unfolding r
      by (subst card_Diff_singleton) simp_all
    with Suc.IH [of n'] g r False show ?thesis
      by (simp add: sorted_list_of_set_nonempty)
  qed
qed simp

section \<open>Properties\<close>

text \<open>Dispatch refines the abstract controller. If no pending interrupt is architectural or
  enabled, nothing is dispatched and nothing changes; otherwise the smallest such number is
  returned, exactly that number leaves the pending set, and the enabled set, the priorities
  and the in-interrupt flag are kept.\<close>

theorem dispatch_refines:
  "case get_and_clear_next_dispatchable n of
     (None, n') \<Rightarrow> ready_irqs n = {} \<and> n' = n
   | (Some irq, n') \<Rightarrow>
       ready_irqs n \<noteq> {} \<and> irq = Min (ready_irqs n) \<and> pend_irqs n' = pend_irqs n - {irq} \<and>
       enabled_irqs n' = enabled_irqs n \<and> priorities n' = priorities n \<and>
       in_interrupt n' = in_interrupt n"
proof (cases "ready_irqs n = {}")
  case False
  from False show ?thesis by (rule dispatch_step) (simp add: False)
qed (simp add: get_and_clear_next_dispatchable_eq)

text \<open>With nothing new pended, repeated dispatch delivers every deliverable interrupt exactly
  once, in ascending interrupt number, architectural exceptions before external ones; an
  external interrupt that firmware has not enabled is never delivered.\<close>

theorem drain_ascending:
  "drain (card (ready_irqs n)) n = sorted_list_of_set (ready_irqs n) \<and>
   set (drain (card (ready_irqs n)) n) =
     {i. i \<in> pend_irqs n \<and> \<not> (0 \<le> i \<and> \<not> is_enabled i n)}"
proof -
  have "drain (card (ready_irqs n)) n = sorted_list_of_set (ready_irqs n)" by (rule drain_sorted) simp
  moreover have "ready_irqs n = {i. i \<in> pend_irqs n \<and> \<not> (0 \<le> i \<and> \<not> is_enabled i n)}"
    unfolding ready_irqs_def is_enabled_iff by (rule set_eqI) (simp add: not_less [symmetric])
  ultimately show ?thesis by simp
qed

text \<open>Pending an interrupt number the 128-bit set can hold adds exactly that number and
  changes nothing else; a number that is not a vector (below -15) panics.\<close>

theorem set_intr_pending_refines:
  "case set_intr_pending irq n of
     Inl e \<Rightarrow> irq \<le> - 16 \<and> e = AssertFailed
   | Inr n' \<Rightarrow> - 16 < irq \<and> n' = n\<lparr>pending := pending n'\<rparr> \<and>
       (111 < irq \<or> pend_irqs n' = insert irq (pend_irqs n))"
proof (cases "irq \<le> - 16")
  case False
  show ?thesis
  proof (cases "irq \<le> 111")
    case True
    with False show ?thesis by (simp add: set_intr_pending_ok pend_irqs_set)
  next
    case beyond: False
    with False show ?thesis by (simp add: set_intr_pending_def IRQ_OFFSET_def)
  qed
qed (simp add: set_intr_pending_def IRQ_OFFSET_def)

lemma enable_word_hit:
  assumes "w < 4"
  shows "enable_word ISER_OFFSET (ISER_OFFSET + 4 * of_nat w) = Some w"
    "enable_word ISER_OFFSET (ICER_OFFSET + 4 * of_nat w) = None"
    "enable_word ICER_OFFSET (ICER_OFFSET + 4 * of_nat w) = Some w"
proof -
  from assms consider "w = 0" | "w = 1" | "w = 2" | "w = 3" by fastforce
  then show "enable_word ISER_OFFSET (ISER_OFFSET + 4 * of_nat w) = Some w"
    "enable_word ISER_OFFSET (ICER_OFFSET + 4 * of_nat w) = None"
    "enable_word ICER_OFFSET (ICER_OFFSET + 4 * of_nat w) = Some w"
    by (cases; simp add: enable_word_def ISER_OFFSET_def ICER_OFFSET_def ENABLE_WORDS_def)+
qed

lemma bit_ucast_128 [simp]: "bit (ucast (v :: u32) :: u128) i \<longleftrightarrow> bit v i"
  by (auto simp: word_bits dest: bit_imp_less)

lemma bit_enable_word:
  assumes "w < 4"
  shows "bit (push_bit (w * 32) (ucast (v :: u32)) :: u128) i \<longleftrightarrow> i div 32 = w \<and> bit v (i mod 32)"
proof (cases "i div 32 = w")
  case True
  then have "w * 32 \<le> i" "i - w * 32 = i mod 32" "i < 128"
    using assms by (auto simp: minus_mult_div_eq_mod [symmetric] mult.commute)
  with True show ?thesis by (simp add: bit_push_bit_iff)
next
  case False
  then have "\<not> (w * 32 \<le> i \<and> i - w * 32 < 32)" by auto
  then have "\<not> (w * 32 \<le> i \<and> bit v (i - w * 32))" by (auto dest: bit_imp_less)
  with False show ?thesis by (auto simp: bit_push_bit_iff)
qed

definition systick_due :: "u64 \<Rightarrow> nvic \<Rightarrow> bool" where
  "systick_due now n \<longleftrightarrow>
     (case systick_period n of None \<Rightarrow> False | Some p \<Rightarrow> ucast p < now - last_systick_trigger n)"

definition after_systick :: "u64 \<Rightarrow> nvic \<Rightarrow> nvic" where
  "after_systick now n =
     (if systick_due now n then n\<lparr>last_systick_trigger := now, pending := pending n OR bit_mask 15\<rparr>
      else n)"

lemma maybe_set_systick_eq: "maybe_set_systick_intr_pending now n = Inr (after_systick now n)"
  by (simp add: maybe_set_systick_intr_pending_def after_systick_def systick_due_def
      set_intr_pending_ok irq_SYSTICK_def split: option.split)

lemma pend_irqs_after_systick:
  "pend_irqs (after_systick now n) = (if systick_due now n then insert (-1) (pend_irqs n) else pend_irqs n)"
proof (cases "systick_due now n")
  case True
  have "pend_irqs (n\<lparr>last_systick_trigger := now, pending := pending n OR bit_mask 15\<rparr>) =
      pend_irqs (n\<lparr>pending := pending n OR bit_mask (nat (- 1 + 16))\<rparr>)"
    by (simp add: pend_irqs_def)
  with True show ?thesis by (simp only: after_systick_def pend_irqs_set if_True)
qed (simp add: after_systick_def)

definition dispatch_blocked :: "'u uc_ops \<Rightarrow> nvic \<Rightarrow> 'u \<Rightarrow> bool" where
  "dispatch_blocked ops n uc \<longleftrightarrow>
     in_interrupt n \<or> uc_reg_read ops PRIMASK uc \<noteq> 0 \<or> uc_reg_read ops BASEPRI uc \<noteq> 0 \<or>
     (ucast (uc_reg_read ops XPSR uc) :: u32) AND XPSR_ITSTATE_MASK \<noteq> 0"

text \<open>C2: What one block boundary does. A SysTick whose period has elapsed is pended first. If
  an exception is active, PRIMASK or BASEPRI masks, the CPU is inside an IT block, or no pending
  interrupt is deliverable, nothing is dispatched, the CPU is untouched and every pending
  interrupt stays pending; otherwise exactly the smallest deliverable one is entered.\<close>

theorem block_boundary_dispatch:
  "run_pending_interrupts ops now vt (n, uc) =
     (let n1 = after_systick now n; irq = Min (ready_irqs n1) in
      if dispatch_blocked ops n uc \<or> ready_irqs n1 = {}
      then Inr (n1, uc)
      else run_interrupt ops vt irq
             (n1\<lparr>pending := pending n1 AND NOT (bit_mask (nat (irq + 16)))\<rparr>, uc)) \<and>
   pend_irqs (after_systick now n) =
     pend_irqs n \<union> (if systick_due now n then {irq_SYSTICK} else {})"
proof
  have "in_interrupt (after_systick now n) = in_interrupt n" by (simp add: after_systick_def)
  moreover have "ready_irqs n1 = {}" if "pending n1 = 0" for n1
    using that by (simp add: ready_irqs_def pend_irqs_def)
  ultimately show "run_pending_interrupts ops now vt (n, uc) =
     (let n1 = after_systick now n; irq = Min (ready_irqs n1) in
      if dispatch_blocked ops n uc \<or> ready_irqs n1 = {}
      then Inr (n1, uc)
      else run_interrupt ops vt irq
             (n1\<lparr>pending := pending n1 AND NOT (bit_mask (nat (irq + 16)))\<rparr>, uc))"
    by (auto simp: dispatch_blocked_def run_pending_interrupts_def maybe_set_systick_eq Let_def
        are_interrupts_disabled_def get_and_clear_next_dispatchable_eq)
qed (simp add: pend_irqs_after_systick irq_SYSTICK_def)

text \<open>ISER and ICER. Writing word \<open>w\<close> (interrupts 32w to 32w+31) of the set-enable block
  enables exactly the interrupts whose bit is written as one; the clear-enable block disables
  exactly those; both blocks read back the enable bits.\<close>

theorem enable_registers:
  assumes "w < 4" "0 \<le> irq"
  shows "\<exists>n1 n2.
     nvic_write (ISER_OFFSET + 4 * of_nat w) v n = Inr n1 \<and>
     nvic_write (ICER_OFFSET + 4 * of_nat w) v n = Inr n2 \<and>
     (is_enabled irq n1 \<longleftrightarrow>
        is_enabled irq n \<or> (nat irq div 32 = w \<and> bit v (nat irq mod 32))) \<and>
     (is_enabled irq n2 \<longleftrightarrow>
        is_enabled irq n \<and> \<not> (nat irq div 32 = w \<and> bit v (nat irq mod 32))) \<and>
     (\<exists>x. nvic_read (ISER_OFFSET + 4 * of_nat w) n = Inr x \<and>
          nvic_read (ICER_OFFSET + 4 * of_nat w) n = Inr x \<and>
          (nat irq div 32 = w \<longrightarrow> bit x (nat irq mod 32) = is_enabled irq n))"
proof -
  note [simp] = enable_word_hit [OF assms(1)] bit_enable_word [OF assms(1)]
  let ?x = "ucast (drop_bit (w * 32) (enabled n)) :: u32"
  have "bit ?x (nat irq mod 32) \<longleftrightarrow> is_enabled irq n" if "nat irq div 32 = w"
  proof -
    have "w * 32 + nat irq mod 32 = nat irq" using that by auto
    then show ?thesis using assms(2) by (simp add: is_enabled_iff enabled_irqs_def word_bits)
  qed
  moreover have "nat irq < 128" if "nat irq div 32 = w" using assms(1) that by auto
  moreover have "nat irq < 128" if "bit (enabled n) (nat irq)"
    using bit_imp_less [OF that] by simp
  ultimately show ?thesis using assms(2)
    by (auto simp: nvic_write_def nvic_read_def is_enabled_iff enabled_irqs_def
        bit_and_iff bit_or_iff bit_not_iff)
qed

lemma ipr_address:
  assumes "k < 60"
  shows "enable_word ISER_OFFSET (IPR_OFFSET + 4 * of_nat k) = None"
    "enable_word ICER_OFFSET (IPR_OFFSET + 4 * of_nat k) = None"
    "ipr_word_base (IPR_OFFSET + 4 * of_nat k) = Some (4 * k)"
proof -
  let ?off = "IPR_OFFSET + 4 * of_nat k"
  have off: "?off = of_nat (1024 + 4 * k)" by (simp add: IPR_OFFSET_def)
  have "unat (of_nat (1024 + 4 * k) :: u32) = 1024 + 4 * k"
    unfolding unat_of_nat using assms by simp
  then have u: "unat ?off = 1024 + 4 * k" by (simp only: off)
  have sub: "unat (?off - c) = 1024 + 4 * k - unat c" if "unat c \<le> 1024" for c :: u32
    using that u by (subst unat_sub) (simp_all add: word_le_nat_alt)
  have lt: "\<not> ?off < c" if "unat c \<le> 1024" for c :: u32
    using that u by (simp add: word_less_nat_alt)
  show "enable_word ISER_OFFSET ?off = None" "enable_word ICER_OFFSET ?off = None"
    using sub [of ISER_OFFSET] lt [of ISER_OFFSET] sub [of ICER_OFFSET] lt [of ICER_OFFSET]
    by (simp_all only: enable_word_def Let_def) (simp_all add: ISER_OFFSET_def ICER_OFFSET_def
        ENABLE_WORDS_def)
  have "?off < 0x4F0" using u assms by (simp add: word_less_nat_alt)
  then show "ipr_word_base ?off = Some (4 * k)"
    using sub [of IPR_OFFSET] lt [of IPR_OFFSET]
    by (simp add: ipr_word_base_def IPR_OFFSET_def IPR_COUNT_def)
qed

definition ipr_bytes :: "nat \<Rightarrow> nvic \<Rightarrow> u8 list" where
  "ipr_bytes k n = [priorities n ! (4 * k), priorities n ! (4 * k + 1), priorities n ! (4 * k + 2),
     priorities n ! (4 * k + 3)]"

lemma nvic_read_ipr:
  "nvic_inv n \<Longrightarrow> k < 60 \<Longrightarrow>
   nvic_read (IPR_OFFSET + 4 * of_nat k) n = Inr (from_le_bytes (ipr_bytes k n))"
  by (simp add: nvic_read_def ipr_address ipr_bytes_def nvic_inv_def IPR_COUNT_def del: from_le_bytes.simps)

lemma nvic_write_ipr:
  assumes "nvic_inv n" "k < 60"
  shows "\<exists>n'. nvic_write (IPR_OFFSET + 4 * of_nat k) v n = Inr n' \<and> nvic_inv n' \<and>
     ipr_bytes k n' = to_le_bytes v \<and> (\<forall>j < 60. j \<noteq> k \<longrightarrow> ipr_bytes j n' = ipr_bytes j n)"
proof -
  let ?n' = "n\<lparr>priorities := overwrite (4 * k) (to_le_bytes v) (priorities n)\<rparr>"
  have len: "length (priorities n) = 240" using assms(1) by (simp add: nvic_inv_def IPR_COUNT_def)
  have "nvic_write (IPR_OFFSET + 4 * of_nat k) v n = Inr ?n'"
    using assms(2) len by (simp add: nvic_write_def ipr_address copy_from_slice_def)
  moreover have "nvic_inv ?n'" using assms(2) len by (simp add: nvic_inv_def IPR_COUNT_def)
  moreover have "ipr_bytes k ?n' = to_le_bytes v"
    using assms(2) len by (simp add: ipr_bytes_def nth_overwrite to_le_bytes_def)
  moreover have "ipr_bytes j ?n' = ipr_bytes j n" if "j < 60" "j \<noteq> k" for j
  proof -
    have "4 * j + i \<notin> {4 * k ..< 4 * k + 4}" if "i < 4" for i using that \<open>j \<noteq> k\<close> by auto
    then have "overwrite (4 * k) (to_le_bytes v) (priorities n) ! (4 * j + i) = priorities n ! (4 * j + i)"
      if "i < 4" for i using that \<open>j < 60\<close> assms(2) len by (auto simp: nth_overwrite)
    from this [of 0] this [of 1] this [of 2] this [of 3] show ?thesis by (simp add: ipr_bytes_def)
  qed
  ultimately show ?thesis by blast
qed

text \<open>The priority registers hold what is written to them: a word written to IPR\<open>k\<close> is read
  back, its four bytes are the priorities of interrupts 4k to 4k+3, every other priority word is
  untouched, and the table keeps its 240 entries.\<close>

theorem ipr_round_trip:
  assumes "nvic_inv n" "k < 60"
  shows "\<exists>n'. nvic_write (IPR_OFFSET + 4 * of_nat k) v n = Inr n' \<and> nvic_inv n' \<and>
     nvic_read (IPR_OFFSET + 4 * of_nat k) n' = Inr v \<and>
     ipr_bytes k n' = to_le_bytes v \<and>
     (\<forall>j < 60. j \<noteq> k \<longrightarrow>
        nvic_read (IPR_OFFSET + 4 * of_nat j) n' = nvic_read (IPR_OFFSET + 4 * of_nat j) n)"
proof -
  from nvic_write_ipr [OF assms, of v] obtain n' where
    n': "nvic_write (IPR_OFFSET + 4 * of_nat k) v n = Inr n'" "nvic_inv n'"
    "ipr_bytes k n' = to_le_bytes v" "\<forall>j < 60. j \<noteq> k \<longrightarrow> ipr_bytes j n' = ipr_bytes j n"
    by blast
  with assms show ?thesis by (intro exI [of _ n']) (simp add: nvic_read_ipr)
qed

theorem ipr_round_trip_witness:
  "\<exists>n'. nvic_write (IPR_OFFSET + 4 * of_nat 12) 0x400000 nvic_default = Inr n' \<and>
        nvic_read (IPR_OFFSET + 4 * of_nat 12) n' = Inr 0x400000"
  using ipr_round_trip [where n = nvic_default and k = 12 and v = "0x400000"]
  by (auto simp: nvic_inv_def nvic_default_def)

theorem enable_registers_witness:
  "\<exists>n'. nvic_write (ISER_OFFSET + 4 * of_nat 2) 8 nvic_default = Inr n' \<and> is_enabled 67 n'"
  using enable_registers [where w = 2 and irq = 67 and v = 8 and n = nvic_default] by auto

end
