(* ===== verification/NvicFrames.thy ===== *)
theory NvicFrames
  imports Nvic
begin

text \<open>
  Exception frames of \<open>src/peripherals/nvic.rs\<close>: what entry leaves on the stack, and that
  return restores it. The engine is a parameter; its RAM and registers obey the laws of
  theory \<open>Unicorn\<close> on the set \<open>R\<close> of RAM addresses.
\<close>

section \<open>Frames in memory\<close>

text \<open>\<open>frame_at ops uc sp ws\<close>: the words \<open>ws\<close> lie at ascending addresses from \<open>sp\<close>.\<close>

fun frame_at :: "'u uc_ops \<Rightarrow> 'u \<Rightarrow> u64 \<Rightarrow> u32 list \<Rightarrow> bool" where
  "frame_at ops uc sp [] \<longleftrightarrow> True"
| "frame_at ops uc sp (w # ws) \<longleftrightarrow>
     uc_mem_read ops sp 4 uc = Some (to_le_bytes w) \<and> frame_at ops uc (sp + 4) ws"

text \<open>\<open>k\<close> bytes from \<open>sp\<close> upwards are RAM and do not wrap.\<close>

definition stack_ram :: "nat set \<Rightarrow> u64 \<Rightarrow> nat \<Rightarrow> bool" where
  "stack_ram R sp k \<longleftrightarrow> unat sp + k < 2 ^ 64 \<and> {unat sp ..< unat sp + k} \<subseteq> R"

lemma unat_plus_4: "unat (sp :: u64) + 4 < 2 ^ 64 \<Longrightarrow> unat (sp + 4) = unat sp + 4"
  by (subst unat_add_lem [THEN iffD1]) simp_all

lemma unat_minus_4: "4 \<le> unat (sp :: u64) \<Longrightarrow> unat (sp - 4) = unat sp - 4"
  by (subst unat_sub) (simp_all add: word_le_nat_alt)

lemma unat_words: "4 * k < 2 ^ 64 \<Longrightarrow> unat (4 * of_nat k :: u64) = 4 * k"
proof -
  assume "4 * k < 2 ^ 64"
  then have "unat (of_nat (4 * k) :: u64) = 4 * k" unfolding unat_of_nat by simp
  then show ?thesis by simp
qed

lemma unat_minus_words: "4 * k \<le> unat (x :: u64) \<Longrightarrow> unat (x - 4 * of_nat k) = unat x - 4 * k"
  proof -
  assume le: "4 * k \<le> unat x"
  have "unat x < 2 ^ 64" using unsigned_less [of x] by simp
  then have "unat (4 * of_nat k :: u64) = 4 * k" using le by (intro unat_words) simp
  with le show ?thesis by (subst unat_sub) (simp_all add: word_le_nat_alt)
qed

lemma unat_plus_words: "unat (x :: u64) + 4 * k < 2 ^ 64 \<Longrightarrow> unat (x + 4 * of_nat k) = unat x + 4 * k"
  using unat_words [of k] by (subst unat_add_lem [THEN iffD1]) simp_all

lemma stack_ram_4: "stack_ram R sp (4 + k) \<Longrightarrow> stack_ram R (sp + 4) k"
  by (auto simp: stack_ram_def unat_plus_4)

lemma stack_ram_span: "stack_ram R sp (4 + k) \<Longrightarrow> span sp 4 \<subseteq> R"
  by (auto simp: stack_ram_def span_def)

lemma frame_at_cong:
  assumes "stack_ram R sp (4 * length ws)"
    and "\<And>b. unat sp \<le> unat b \<Longrightarrow> span b 4 \<subseteq> R \<Longrightarrow>
           uc_mem_read ops b 4 uc' = uc_mem_read ops b 4 uc"
  shows "frame_at ops uc' sp ws = frame_at ops uc sp ws"
  using assms
proof (induction ws arbitrary: sp)
  case (Cons w ws)
  from Cons.prems(1) have s: "stack_ram R sp (4 + 4 * length ws)" by simp
  then have le: "unat (sp + 4) = unat sp + 4" by (intro unat_plus_4) (simp add: stack_ram_def)
  have "frame_at ops uc' (sp + 4) ws = frame_at ops uc (sp + 4) ws"
    using Cons.prems(2) le by (intro Cons.IH stack_ram_4 [OF s]) simp
  with Cons.prems(2) [of sp] stack_ram_span [OF s] show ?case by simp
qed simp

text \<open>Both contexts hold plain cells, except for XPSR, PC and FPSCR.\<close>

lemma push_word_frame:
  assumes ram: "ram_laws ops R" and room: "stack_ram R (sp - 4) (4 + 4 * length ws)"
    and sp: "4 \<le> unat sp" and fr: "frame_at ops uc sp ws"
  shows "\<exists>uc'. push_word ops v (sp, uc) = Inr (sp - 4, uc') \<and>
    frame_at ops uc' (sp - 4) (v # ws) \<and> (\<forall>r. uc_reg_read ops r uc' = uc_reg_read ops r uc)"
proof -
  have sp4: "unat (sp - 4) = unat sp - 4" by (rule unat_minus_4 [OF sp])
  have "span (sp - 4) (length (to_le_bytes v)) \<subseteq> R" using stack_ram_span [OF room] by simp
  from ram_write [OF ram this] obtain uc' where
    w: "uc_mem_write ops (sp - 4) (to_le_bytes v) uc = Some uc'"
    and r: "uc_mem_read ops (sp - 4) (length (to_le_bytes v)) uc' = Some (to_le_bytes v)"
    and o: "\<And>b n. span b n \<subseteq> R \<Longrightarrow> span (sp - 4) (length (to_le_bytes v)) \<inter> span b n = {} \<Longrightarrow>
       uc_mem_read ops b n uc' = uc_mem_read ops b n uc"
    and g: "\<And>r. uc_reg_read ops r uc' = uc_reg_read ops r uc"
    by metis
  from stack_ram_4 [OF room] have "stack_ram R sp (4 * length ws)" by simp
  then have "frame_at ops uc' sp ws = frame_at ops uc sp ws"
  proof (rule frame_at_cong)
    fix b assume "unat sp \<le> unat b" "span b 4 \<subseteq> R"
    then show "uc_mem_read ops b 4 uc' = uc_mem_read ops b 4 uc"
      using sp4 sp by (intro o) (simp_all add: span_4)
  qed
  with w r fr g show ?thesis by (intro exI [of _ uc']) (simp add: push_word_def)
qed

lemma push_context_frame:
  assumes "ram_laws ops R" "4 * length rs \<le> unat sp"
    and "stack_ram R (sp - 4 * of_nat (length rs)) (4 * (length rs + length ws))"
    and "frame_at ops uc sp ws"
  shows "\<exists>uc'. push_context ops rs (sp, uc) = Inr (sp - 4 * of_nat (length rs), uc') \<and>
    frame_at ops uc' (sp - 4 * of_nat (length rs))
      (rev (map (\<lambda>r. ucast (uc_reg_read ops r uc)) rs) @ ws) \<and>
    (\<forall>r. uc_reg_read ops r uc' = uc_reg_read ops r uc)"
  using assms
proof (induction rs arbitrary: sp uc ws)
  case (Cons r rs)
  let ?k = "length rs" and ?v = "ucast (uc_reg_read ops r uc) :: u32"
  have eq: "sp - 4 * of_nat (length (r # rs)) = sp - 4 - 4 * of_nat ?k" by (simp add: algebra_simps)
  have sp4: "unat (sp - 4) = unat sp - 4" using Cons.prems(2) by (intro unat_minus_4) simp
  have bot: "unat (sp - 4 * of_nat (length (r # rs))) = unat sp - 4 * length (r # rs)"
    using Cons.prems(2) by (rule unat_minus_words)
  have "stack_ram R (sp - 4) (4 + 4 * length ws)"
    using Cons.prems(2) Cons.prems(3) [unfolded stack_ram_def bot]
    by (auto simp: stack_ram_def sp4 subset_iff)
  from push_word_frame [OF Cons.prems(1) this _ Cons.prems(4), of ?v] Cons.prems(2)
  obtain uc1 where p: "push_word ops ?v (sp, uc) = Inr (sp - 4, uc1)"
    and f: "frame_at ops uc1 (sp - 4) (?v # ws)"
    and g: "\<And>r. uc_reg_read ops r uc1 = uc_reg_read ops r uc" by auto
  have "stack_ram R (sp - 4 - 4 * of_nat ?k) (4 * (?k + length (?v # ws)))"
    using Cons.prems(3) by (simp only: eq) (simp add: algebra_simps)
  from Cons.IH [OF Cons.prems(1) _ this f] Cons.prems(2) sp4
  have "\<exists>uc'. push_context ops rs (sp - 4, uc1) = Inr (sp - 4 - 4 * of_nat ?k, uc') \<and>
      frame_at ops uc' (sp - 4 - 4 * of_nat ?k)
        (rev (map (\<lambda>r. ucast (uc_reg_read ops r uc)) rs) @ ?v # ws) \<and>
      (\<forall>r. uc_reg_read ops r uc' = uc_reg_read ops r uc)" by (simp add: g)
  then show ?case unfolding eq by (simp add: p)
qed simp

section \<open>Popping a frame\<close>

text \<open>The register writes a pop makes, in the order it makes them.\<close>

definition restore_regs :: "'u uc_ops \<Rightarrow> (arm_reg \<times> u32) list \<Rightarrow> 'u \<Rightarrow> 'u" where
  "restore_regs ops rvs uc = fold (\<lambda>(r, v). uc_reg_write ops r (ucast v)) rvs uc"

lemma frame_at_reg_write:
  "ram_laws ops R \<Longrightarrow> stack_ram R sp (4 * length ws) \<Longrightarrow>
   frame_at ops (uc_reg_write ops r v uc) sp ws = frame_at ops uc sp ws"
  by (rule frame_at_cong) (auto simp: ram_reg_write)

lemma pop_context_frame:
  assumes "ram_laws ops R" "stack_ram R sp (4 * length (ws @ ws'))"
    and "frame_at ops uc sp (ws @ ws')" "length ws = length rs"
  shows "pop_context ops rs (sp, uc) =
           Inr (sp + 4 * of_nat (length rs), restore_regs ops (zip rs ws) uc) \<and>
         frame_at ops (restore_regs ops (zip rs ws) uc) (sp + 4 * of_nat (length rs)) ws' \<and>
         stack_ram R (sp + 4 * of_nat (length rs)) (4 * length ws')"
  using assms
proof (induction rs arbitrary: sp uc ws)
  case Nil
  then show ?case by (simp add: restore_regs_def)
next
  case (Cons r rs)
  then obtain w vs where ws: "ws = w # vs" by (cases ws) auto
  let ?uc = "uc_reg_write ops r (ucast w) uc"
  from Cons.prems(2) ws have s: "stack_ram R sp (4 + 4 * length (vs @ ws'))" by simp
  note s4 = stack_ram_4 [OF s]
  have f: "frame_at ops ?uc (sp + 4) (vs @ ws')"
    using Cons.prems(3) ws frame_at_reg_write [OF Cons.prems(1) s4] by simp
  have "pop_word ops (sp, uc) = Inr (w, sp + 4)"
    using Cons.prems(3) ws by (simp add: pop_word_def)
  with Cons.IH [OF Cons.prems(1) s4 f] Cons.prems(4) ws show ?case
    by (simp add: restore_regs_def algebra_simps)
qed

lemma restore_regs_other:
  assumes laws: "context_reg_laws ops" and "r \<in> plain_regs" "r \<notin> set rs"
  shows "uc_reg_read ops r (restore_regs ops (zip rs vs) uc) = uc_reg_read ops r uc"
  using assms(3)
proof (induction rs arbitrary: vs uc)
  case (Cons q rs)
  with laws assms(2) show ?case
    by (cases vs) (auto simp: restore_regs_def context_reg_laws_def)
qed (simp add: restore_regs_def)

lemma restore_regs_value:
  assumes laws: "context_reg_laws ops" and "r \<in> plain_regs" "distinct rs"
    "length vs = length rs" "i < length rs" "rs ! i = r"
  shows "uc_reg_read ops r (restore_regs ops (zip rs vs) uc) = ucast (vs ! i)"
  using assms(3-6)
proof (induction rs arbitrary: vs uc i)
  case (Cons q rs)
  then obtain v vs' where vs: "vs = v # vs'" by (cases vs) auto
  have step: "restore_regs ops (zip (q # rs) vs) uc =
      restore_regs ops (zip rs vs') (uc_reg_write ops q (ucast v) uc)"
    by (simp add: restore_regs_def vs)
  show ?case
  proof (cases i)
    case 0
    with Cons.prems have "q = r" "r \<notin> set rs" by auto
    with restore_regs_other [OF laws assms(2)] laws assms(2) 0 show ?thesis
      unfolding step by (simp add: vs context_reg_laws_def)
  next
    case (Suc j)
    with Cons.prems vs have "uc_reg_read ops r
        (restore_regs ops (zip rs vs') (uc_reg_write ops q (ucast v) uc)) = ucast (vs' ! j)"
      by (intro Cons.IH) auto
    with Suc vs show ?thesis unfolding step by simp
  qed
qed simp

section \<open>Entry\<close>

definition frame_len :: "bool \<Rightarrow> nat" where
  "frame_len fpca = (if fpca then 26 else 8)"

definition frame_words :: "'u uc_ops \<Rightarrow> bool \<Rightarrow> 'u \<Rightarrow> u32 list" where
  "frame_words ops fpca uc =
     map (\<lambda>r. ucast (uc_reg_read ops r uc)) (rev CONTEXT_REGS) @
     (if fpca then map (\<lambda>r. ucast (uc_reg_read ops r uc)) (rev CONTEXT_REGS_EXTENDED) @ [0] else [])"

lemma length_context_regs [simp]: "length CONTEXT_REGS = 8" "length CONTEXT_REGS_EXTENDED = 17"
  by (simp_all add: CONTEXT_REGS_def CONTEXT_REGS_EXTENDED_def)

lemma length_frame_words [simp]: "length (frame_words ops fpca uc) = frame_len fpca"
  by (simp add: frame_words_def frame_len_def)

lemma stack_ram_sub:
  assumes "stack_ram R (sp - 4 * of_nat m) (4 * m)" "k \<le> m" "4 * m \<le> unat sp"
  shows "stack_ram R (sp - 4 * of_nat k) (4 * k)"
proof -
  have "unat (sp - 4 * of_nat m) = unat sp - 4 * m" "unat (sp - 4 * of_nat k) = unat sp - 4 * k"
    using assms(2,3) by (auto intro!: unat_minus_words)
  with assms show ?thesis by (auto simp: stack_ram_def subset_iff)
qed

lemma push_regs_frame:
  assumes ram: "ram_laws ops R"
    and sp: "sp = uc_reg_read ops (if spsel then PSP else MSP) uc"
    and room: "4 * frame_len fpca \<le> unat sp"
      "stack_ram R (sp - 4 * of_nat (frame_len fpca)) (4 * frame_len fpca)"
  shows "\<exists>uc1. push_regs ops spsel fpca uc =
             Inr (uc_reg_write ops SP (sp - 4 * of_nat (frame_len fpca)) uc1) \<and>
           frame_at ops uc1 (sp - 4 * of_nat (frame_len fpca)) (frame_words ops fpca uc) \<and>
           (\<forall>r. uc_reg_read ops r uc1 = uc_reg_read ops r uc)"
proof (cases fpca)
  case False
  then have "4 * length CONTEXT_REGS \<le> unat sp"
    "stack_ram R (sp - 4 * of_nat (length CONTEXT_REGS)) (4 * (length CONTEXT_REGS + length []))"
    using room by (simp_all add: frame_len_def)
  from push_context_frame [OF ram this, where uc = uc] False show ?thesis
    by (auto simp: push_regs_def frame_len_def frame_words_def rev_map sp [symmetric] Let_def)
next
  case True
  then have le: "104 \<le> unat sp" and big: "stack_ram R (sp - 4 * of_nat 26) (4 * 26)"
    using room by (simp_all add: frame_len_def)
  have sub: "stack_ram R (sp - 4 * of_nat k) (4 * k)" if "k \<le> 26" for k
    using le by (intro stack_ram_sub [OF big that]) simp
  have room1: "stack_ram R (sp - 4) (4 + 4 * length ([] :: u32 list))" "4 \<le> unat sp"
    using sub [of 1] le by simp_all
  have "frame_at ops uc sp []" by simp
  from push_word_frame [OF ram room1 this, of 0] obtain uc1 where
    p1: "push_word ops 0 (sp, uc) = Inr (sp - 4, uc1)" and f1: "frame_at ops uc1 (sp - 4) [0]"
    and g1: "\<And>r. uc_reg_read ops r uc1 = uc_reg_read ops r uc"
    by auto
  have sp1: "unat (sp - 4) = unat sp - 4" using le by (intro unat_minus_4) simp
  have "4 * length CONTEXT_REGS_EXTENDED \<le> unat (sp - 4)" 
    "stack_ram R (sp - 4 - 4 * of_nat (length CONTEXT_REGS_EXTENDED))
       (4 * (length CONTEXT_REGS_EXTENDED + length [0 :: u32]))"
    using sub [of 18] le sp1 by simp_all
  from push_context_frame [OF ram this f1] obtain uc2 where
    p2: "push_context ops CONTEXT_REGS_EXTENDED (sp - 4, uc1) = Inr (sp - 72, uc2)"
    and f2: "frame_at ops uc2 (sp - 72)
        (rev (map (\<lambda>r. ucast (uc_reg_read ops r uc)) CONTEXT_REGS_EXTENDED) @ [0])"
    and g2: "\<And>r. uc_reg_read ops r uc2 = uc_reg_read ops r uc" by (auto simp: g1)
  have sp2: "unat (sp - 72) = unat sp - 72" using unat_minus_words [of 18 sp] le by simp
  have "4 * length CONTEXT_REGS \<le> unat (sp - 72)"
    "stack_ram R (sp - 72 - 4 * of_nat (length CONTEXT_REGS)) (4 * (length CONTEXT_REGS +
       length (rev (map (\<lambda>r. ucast (uc_reg_read ops r uc) :: u32) CONTEXT_REGS_EXTENDED) @ [0])))"
    using sub [of 26] le sp2 by simp_all
  from push_context_frame [OF ram this f2] p1 p2 True show ?thesis
    by (auto simp: push_regs_def frame_len_def frame_words_def rev_map sp [symmetric] Let_def g2)
qed

lemma run_interrupt_frame:
  assumes ram: "ram_laws ops R" and regs: "context_reg_laws ops"
    and vec: "uc_mem_read ops (ucast (vt + 4 * word_of_int (16 + irq))) 4 uc = Some (to_le_bytes v)"
    and sp: "sp = uc_reg_read ops (if spsel then PSP else MSP) uc"
    and ctl: "spsel = control_spsel (uc_reg_read ops CONTROL uc)"
      "fpca = control_fpca (uc_reg_read ops CONTROL uc)"
    and room: "4 * frame_len fpca \<le> unat sp"
      "stack_ram R (sp - 4 * of_nat (frame_len fpca)) (4 * frame_len fpca)"
  shows "\<exists>uc0. let uc1 = uc_emu_stop ops (uc_reg_write ops PC (ucast v) uc0) in
     run_interrupt ops vt irq (n, uc) =
       Inr (n\<lparr>in_interrupt := True, active_exception_number := word_of_int (16 + irq)\<rparr>, uc1) \<and>
     frame_at ops uc1 (sp - 4 * of_nat (frame_len fpca)) (frame_words ops fpca uc) \<and>
     uc_reg_read ops LR uc1 = ucast (exc_return spsel fpca)"
proof -
  let ?sp = "sp - 4 * of_nat (frame_len fpca)"
  from push_regs_frame [OF ram sp room] obtain uc1 where
    p: "push_regs ops spsel fpca uc = Inr (uc_reg_write ops SP ?sp uc1)"
    and f: "frame_at ops uc1 ?sp (frame_words ops fpca uc)" by auto
  have frame: "frame_at ops (uc_reg_write ops r x u) ?sp (frame_words ops fpca uc) =
      frame_at ops u ?sp (frame_words ops fpca uc)" for r x u
    using room by (intro frame_at_reg_write [OF ram]) simp
  have stop: "frame_at ops (uc_emu_stop ops u) ?sp (frame_words ops fpca uc) =
      frame_at ops u ?sp (frame_words ops fpca uc)" for u
    using room ram by (intro frame_at_cong) (auto simp: ram_laws_def)
  have lr: "uc_reg_read ops LR (uc_emu_stop ops u) = uc_reg_read ops LR u"
    "r \<noteq> LR \<Longrightarrow> uc_reg_read ops LR (uc_reg_write ops r x u) = uc_reg_read ops LR u"
    "uc_reg_read ops LR (uc_reg_write ops LR (ucast (y :: u32)) u) = ucast y" for u r x y
    using regs by (simp_all add: context_reg_laws_def plain_regs_def)
  have v: "read_vector_addr ops uc vt irq = Inr v"
    unfolding read_vector_addr_def IRQ_OFFSET_def Let_def vec by simp
  show ?thesis
    by (simp add: run_interrupt_def Let_def v p ctl [symmetric] f frame stop lr IRQ_OFFSET_def
        del: of_int_add) (rule exI, rule conjI, rule refl, simp add: f frame stop lr)
qed

section \<open>Return\<close>

definition frame_order :: "bool \<Rightarrow> arm_reg list" where
  "frame_order fpca = rev CONTEXT_REGS @ (if fpca then rev CONTEXT_REGS_EXTENDED else [])"

lemma pop_regs_frame:
  assumes ram: "ram_laws ops R"
    and sp: "sp = uc_reg_read ops (if spsel then PSP else MSP) uc"
    and room: "stack_ram R sp (4 * frame_len fpca)" and ws: "length ws = frame_len fpca"
    and fr: "frame_at ops uc sp ws"
  shows "pop_regs ops spsel fpca uc = Inr (uc_reg_write ops SP (sp + 4 * of_nat (frame_len fpca))
           (restore_regs ops (zip (frame_order fpca) ws) uc))"
proof (cases fpca)
  case False
  with ws have "ws = ws @ []" "length ws = length (rev CONTEXT_REGS)" by (simp_all add: frame_len_def)
  with pop_context_frame [OF ram, of sp ws "[]" uc "rev CONTEXT_REGS"] room fr False show ?thesis
    by (simp add: pop_regs_def Let_def sp [symmetric] frame_len_def frame_order_def)
next
  case True
  have len: "length ws = 26" using ws True by (simp add: frame_len_def)
  define as bs c where "as = take 8 ws" and "bs = take 17 (drop 8 ws)" and "c = ws ! 25"
  have "drop 25 ws = [c]" using len Cons_nth_drop_Suc [of 25 ws] by (simp add: c_def)
  moreover have "ws = as @ bs @ drop 25 ws"
    using append_take_drop_id [of 17 "drop 8 ws"] by (simp add: as_def bs_def)
  ultimately have w: "ws = as @ bs @ [c]" by simp
  have la: "length as = length (rev CONTEXT_REGS)"
    and lb: "length bs = length (rev CONTEXT_REGS_EXTENDED)" using len by (simp_all add: as_def bs_def)
  have "stack_ram R sp (4 * length (as @ bs @ [c]))" "frame_at ops uc sp (as @ bs @ [c])"
    using room fr True w by (simp_all add: frame_len_def la lb)
  from pop_context_frame [OF ram this la] obtain uc1 where
    p1: "pop_context ops (rev CONTEXT_REGS) (sp, uc) = Inr (sp + 32, uc1)"
    and u1: "uc1 = restore_regs ops (zip (rev CONTEXT_REGS) as) uc"
    and f1: "frame_at ops uc1 (sp + 32) (bs @ [c])"
    and s1: "stack_ram R (sp + 32) (4 * length (bs @ [c]))" by auto
  from pop_context_frame [OF ram s1 f1 lb] have
    p2: "pop_context ops (rev CONTEXT_REGS_EXTENDED) (sp + 32, uc1) =
      Inr (sp + 100, restore_regs ops (zip (rev CONTEXT_REGS_EXTENDED) bs) uc1)" by simp
  have "zip (frame_order fpca) ws = zip (rev CONTEXT_REGS) as @ zip (rev CONTEXT_REGS_EXTENDED) bs"
    using True la lb by (simp add: w frame_order_def zip_append1 zip_append2)
  then show ?thesis using True p1 p2
    by (simp add: pop_regs_def Let_def sp [symmetric] frame_len_def restore_regs_def u1 add.commute)
qed

definition exc_control :: "bool \<Rightarrow> bool \<Rightarrow> u64" where
  "exc_control spsel fpca = (if spsel then 2 else 0) OR (if fpca then 4 else 0)"

lemma exc_return_decode:
  fixes spsel fpca
  defines "lr \<equiv> ucast (exc_return spsel fpca) :: u64"
  shows "lr AND 0xFFFFFF00 = 0xFFFFFF00" "lr AND 4 = 0 \<longleftrightarrow> \<not> spsel" "lr AND 0x10 = 0 \<longleftrightarrow> fpca"
  by (cases spsel; cases fpca; simp add: lr_def exc_return_def)+

lemma return_frame:
  assumes ram: "ram_laws ops R"
    and sp: "sp = uc_reg_read ops (if spsel then PSP else MSP) uc"
    and room: "stack_ram R sp (4 * frame_len fpca)" and ws: "length ws = frame_len fpca"
    and fr: "frame_at ops uc sp ws"
    and lr: "uc_reg_read ops LR uc = ucast (exc_return spsel fpca)"
  shows "return_from_interrupt ops (n, uc) =
     Inr (n\<lparr>in_interrupt := False, active_exception_number := 0\<rparr>,
       uc_emu_stop ops (uc_reg_write ops CONTROL (exc_control spsel fpca)
         (uc_reg_write ops SP (sp + 4 * of_nat (frame_len fpca))
           (restore_regs ops (zip (frame_order fpca) ws) uc))))"
proof -
  have c: "(let control_reg = 0;
                control_reg = (if spsel then control_reg OR bit_mask 1 else control_reg);
                control_reg = (if fpca then control_reg OR push_bit 1 2 else control_reg)
            in control_reg) = exc_control spsel fpca"
    by (simp add: exc_control_def Let_def bit_mask_def)
  show ?thesis using pop_regs_frame [OF ram sp room ws fr]
    by (simp add: return_from_interrupt_def lr exc_return_decode Let_def
        c [unfolded Let_def, simplified, symmetric] exc_control_def bit_mask_def)
qed

lemma frame_order_nth:
  "frame_words ops fpca uc = map (\<lambda>r. ucast (uc_reg_read ops r uc)) (frame_order fpca) @
     (if fpca then [0] else [])"
  by (simp add: frame_words_def frame_order_def)

lemma distinct_frame_order: "distinct (frame_order fpca)"
  by (simp add: frame_order_def CONTEXT_REGS_def CONTEXT_REGS_EXTENDED_def)

lemma restore_frame_reg:
  assumes "context_reg_laws ops" "r \<in> plain_regs" "r \<in> set (frame_order fpca)"
  shows "uc_reg_read ops r (restore_regs ops (zip (frame_order fpca) (frame_words ops fpca uc0)) uc) =
     ucast (ucast (uc_reg_read ops r uc0) :: u32)"
proof -
  from assms(3) obtain i where i: "i < length (frame_order fpca)" "frame_order fpca ! i = r"
    by (auto simp: in_set_conv_nth)
  let ?ws = "map (\<lambda>r. ucast (uc_reg_read ops r uc0)) (frame_order fpca)"
  have "zip (frame_order fpca) (frame_words ops fpca uc0) = zip (frame_order fpca) ?ws"
    by (simp add: frame_order_nth zip_append2)
  with restore_regs_value [OF assms(1,2) distinct_frame_order _ i, of ?ws uc] i show ?thesis by simp
qed

section \<open>Properties\<close>

text \<open>What the handler must have kept when it executes its exception return: the words of its
  frame, the EXC_RETURN value in LR, and the stack pointer it was entered with.\<close>

definition handler_returns :: "'u uc_ops \<Rightarrow> bool \<Rightarrow> bool \<Rightarrow> u64 \<Rightarrow> u32 list \<Rightarrow> 'u \<Rightarrow> bool" where
  "handler_returns ops spsel fpca sp ws uc \<longleftrightarrow>
     frame_at ops uc sp ws \<and> uc_reg_read ops LR uc = ucast (exc_return spsel fpca) \<and>
     uc_reg_read ops (if spsel then PSP else MSP) uc = sp"


text \<open>A core with FP context in use, its main stack at \<open>0x20001000\<close>, memory zeroed.\<close>

definition fp_core :: flat_cpu where
  "fp_core = \<lparr>fc_regs = (\<lambda>r. if r = MSP then 0x20001000 else if r = CONTROL then 4 else 7),
     fc_mem = (\<lambda>_. 0), fc_stopped = False\<rparr>"

lemma fp_core_entry:
  "ram_laws flat_ops UNIV" "context_reg_laws flat_ops"
  "uc_mem_read flat_ops (ucast (0 + 4 * word_of_int (16 + 54) :: u32)) 4 fp_core = Some (to_le_bytes 0)"
  "0x20001000 = uc_reg_read flat_ops (if False then PSP else MSP) fp_core"
  "False = control_spsel (uc_reg_read flat_ops CONTROL fp_core)"
  "True = control_fpca (uc_reg_read flat_ops CONTROL fp_core)"
  "4 * frame_len True \<le> unat (0x20001000 :: u64)"
  "stack_ram UNIV (0x20001000 - 4 * of_nat (frame_len True)) (4 * frame_len True)"
  subgoal by (rule flat_ram_laws)
  subgoal by (rule flat_context_reg_laws)
  by (simp_all add: flat_ops_def fp_core_def to_le_bytes_def
      control_spsel_def control_fpca_def frame_len_def stack_ram_def upt_rec)


end
