(* ===== verification/Interfaces.thy ===== *)
theory Interfaces
  imports Prelude
begin

text \<open>
  The contracts several components share, as locales. Each is interpreted on the model's own
  definitions in the theory of the component that provides it.

  \<open>register_cells\<close>: a block of memory-mapped configuration registers that hold what is written
  (up to the masking \<open>norm\<close> the component applies) and do not disturb each other.
  \<open>flag_register\<close>: a status word whose bits software clears and hardware sets.
  \<open>free_counter\<close>: a counter derived from the instruction count, that reads back a written value.
  \<open>capped_queue\<close>: a byte queue that drops its oldest entries at its capacity.
\<close>

section \<open>Configuration registers\<close>

locale register_cells =
  fixes rd :: "u32 \<Rightarrow> 's \<Rightarrow> u32" and wr :: "u32 \<Rightarrow> u32 \<Rightarrow> 's \<Rightarrow> 's"
    and cells :: "u32 set" and norm :: "u32 \<Rightarrow> u32 \<Rightarrow> u32"
  assumes rd_same: "c \<in> cells \<Longrightarrow> rd c (wr c v s) = norm c v"
    and rd_other: "c \<in> cells \<Longrightarrow> d \<noteq> c \<Longrightarrow> rd c (wr d v s) = rd c s"
begin

definition writes :: "(u32 \<times> u32) list \<Rightarrow> 's \<Rightarrow> 's" where
  "writes ws s = fold (\<lambda>(c, v). wr c v) ws s"

definition last_write :: "u32 \<Rightarrow> (u32 \<times> u32) list \<Rightarrow> u32 option" where
  "last_write c ws = map_of (rev ws) c"

lemma rd_writes_none: "c \<in> cells \<Longrightarrow> c \<notin> fst ` set ws \<Longrightarrow> rd c (writes ws s) = rd c s"
proof (induction ws arbitrary: s)
  case (Cons w ws)
  then show ?case by (cases w) (auto simp: writes_def rd_other)
qed (simp add: writes_def)

text \<open>Whatever else is written, in whatever order, a cell reads as the last value written to it.\<close>

lemma rd_writes:
  assumes "c \<in> cells"
  shows "rd c (writes ws s) = (case last_write c ws of None \<Rightarrow> rd c s | Some v \<Rightarrow> norm c v)"
proof (induction ws rule: rev_induct)
  case (snoc w ws)
  obtain d v where w: "w = (d, v)" by (cases w) auto
  have step: "writes (ws @ [w]) s = wr d v (writes ws s)" by (simp add: writes_def w)
  show ?case
  proof (cases "d = c")
    case True
    then show ?thesis unfolding step using assms by (simp add: last_write_def w rd_same)
  next
    case False
    then show ?thesis unfolding step using assms snoc.IH by (simp add: last_write_def w rd_other)
  qed
qed (simp add: writes_def last_write_def)

lemma rd_wr_idem: "c \<in> cells \<Longrightarrow> rd c (wr c v (wr c v s)) = rd c (wr c v s)"
  by (simp add: rd_same)

lemma rd_wr_commute:
  "c \<in> cells \<Longrightarrow> d \<in> cells \<Longrightarrow> c \<noteq> d \<Longrightarrow> e \<in> cells \<Longrightarrow>
   rd e (wr c v (wr d w s)) = rd e (wr d w (wr c v s))"
  by (metis rd_other rd_same)

end

section \<open>Status flags\<close>

locale flag_register =
  fixes flags :: "'s \<Rightarrow> u32" and clear :: "u32 \<Rightarrow> 's \<Rightarrow> 's" and raise :: "u32 \<Rightarrow> 's \<Rightarrow> 's"
  assumes flags_clear: "flags (clear m s) = flags s AND NOT m"
    and flags_raise: "flags (raise m s) = flags s OR m"
begin

lemma cleared: "bit m i \<Longrightarrow> \<not> bit (flags (clear m s)) i"
  by (simp add: flags_clear word_bits)

lemma kept: "\<not> bit m i \<Longrightarrow> bit (flags (clear m s)) i \<longleftrightarrow> bit (flags s) i"
  by (cases "i < 32") (auto simp: flags_clear word_bits)

lemma raised: "bit m i \<Longrightarrow> bit (flags (raise m s)) i"
  by (simp add: flags_raise word_bits)

text \<open>Acknowledging a set of flags after raising it leaves exactly the others.\<close>

lemma clear_raise: "flags (clear m (raise m s)) = flags s AND NOT m"
  by (rule word_eqI_bits) (auto simp: flags_clear flags_raise word_bits)

lemma clear_all: "flags (clear (NOT 0) s) = 0"
  by (simp add: flags_clear)

end

section \<open>Counters\<close>

locale free_counter =
  fixes count :: "u64 \<Rightarrow> 's \<Rightarrow> u32" and set_count :: "u64 \<Rightarrow> u32 \<Rightarrow> 's \<Rightarrow> 's"
    and ticks :: "u64 \<Rightarrow> u32" and running :: "'s \<Rightarrow> bool"
  assumes count_set: "count now (set_count now v s) = v"
    and count_advance: "running s \<Longrightarrow> count later s = count now s + (ticks later - ticks now)"
    and running_set: "running (set_count now v s) = running s"
begin

lemma count_after_set:
  "running s \<Longrightarrow> count later (set_count now v s) = v + (ticks later - ticks now)"
  using count_advance [of "set_count now v s" later now] by (simp add: running_set count_set)

text \<open>Elapsed time is read correctly across any number of counter wraps below one full turn.\<close>

lemma elapsed: "running s \<Longrightarrow> count later s - count now s = ticks later - ticks now"
  using count_advance [of s later now] by simp

end

section \<open>Capped queues\<close>

locale capped_queue =
  fixes push :: "'a list \<Rightarrow> 'q \<Rightarrow> 'q" and items :: "'q \<Rightarrow> 'a list" and cap :: "'q \<Rightarrow> nat"
  assumes items_push: "0 < cap q \<Longrightarrow> length (items q) \<le> cap q \<Longrightarrow>
      items (push xs q) = last_n (cap q) (items q @ xs)"
    and cap_push: "cap (push xs q) = cap q"
begin

definition wf :: "'q \<Rightarrow> bool" where
  "wf q \<longleftrightarrow> 0 < cap q \<and> length (items q) \<le> cap q"

lemma wf_push: "wf q \<Longrightarrow> wf (push xs q)"
  by (simp add: wf_def cap_push items_push)

lemma push_append:
  assumes "wf q"
  shows "items (push ys (push xs q)) = items (push (xs @ ys) q)"
proof -
  from wf_push [OF assms] have "items (push ys (push xs q)) = last_n (cap q) (items (push xs q) @ ys)"
    by (simp add: wf_def items_push cap_push)
  with assms show ?thesis by (simp add: wf_def items_push last_n_append_last_n)
qed

lemma push_fits: "wf q \<Longrightarrow> length (items q) + length xs \<le> cap q \<Longrightarrow> items (push xs q) = items q @ xs"
  by (simp add: wf_def items_push)

lemma push_many: "wf q \<Longrightarrow> items (fold push xss q) = last_n (cap q) (items q @ concat xss)"
proof (induction xss arbitrary: q)
  case Nil
  then show ?case by (simp add: wf_def)
next
  case (Cons xs xss)
  with wf_push [of q xs] show ?case
    by (simp add: cap_push wf_def items_push last_n_append_last_n)
qed

end

end
