(* ===== verification/CoreRegs.thy ===== *)
theory CoreRegs
  imports Nvic Interfaces
begin

text \<open>
  The Cortex-M core blocks beside the NVIC: the system control block (\<open>src/peripherals/scb.rs\<close>),
  SysTick (\<open>src/peripherals/systick.rs\<close>) and the cycle counter of the debug unit
  (\<open>src/peripherals/dwt.rs\<close>). SCB and SysTick act on the shared NVIC, which is threaded through.
\<close>

section \<open>System control block\<close>

record scb =
  scb_cpacr :: u32

definition scb_default :: scb where
  "scb_default = \<lparr>scb_cpacr = 0\<rparr>"

definition scb_new :: "string \<Rightarrow> scb option" where
  "scb_new name = (if name = ''SCB'' then Some scb_default else None)"

definition ICSR_RETTOBASE :: u32 where "ICSR_RETTOBASE = bit_mask 11"

definition read_icsr :: "nvic \<Rightarrow> u32" where
  "read_icsr n = ICSR_RETTOBASE OR active_exception_number n"

definition scb_read :: "u32 \<Rightarrow> scb \<Rightarrow> nvic \<Rightarrow> u32" where
  "scb_read offset s n =
     (if offset = 0x04 then read_icsr n else if offset = 0x88 then scb_cpacr s else 0)"

definition scb_write :: "u32 \<Rightarrow> u32 \<Rightarrow> scb \<times> nvic \<Rightarrow> (scb \<times> nvic) res" where
  "scb_write offset value st =
     (let s = fst st; n = snd st in
      if offset = 0x04 then
        res_bind (if value AND bit_mask 26 \<noteq> 0 then set_intr_pending irq_SYSTICK n else Inr n) (\<lambda>n.
        res_bind (if value AND bit_mask 28 \<noteq> 0 then set_intr_pending irq_PENDSV n else Inr n) (\<lambda>n.
        Inr (s, n)))
      else if offset = 0x88 then Inr (s\<lparr>scb_cpacr := value\<rparr>, n)
      else Inr (s, n))"

section \<open>SysTick\<close>

record systick =
  st_ctl :: u32
  st_reload :: u32
  st_val_toggle :: bool

definition systick_default :: systick where
  "systick_default = \<lparr>st_ctl = 0, st_reload = 0, st_val_toggle = False\<rparr>"

definition systick_new :: "string \<Rightarrow> systick option" where
  "systick_new name = (if name = ''STK'' then Some systick_default else None)"

definition has_int_enabled :: "systick \<Rightarrow> bool" where
  "has_int_enabled s \<longleftrightarrow> st_ctl s AND 3 = 3"

definition set_nvic_systick_period :: "systick \<Rightarrow> nvic \<Rightarrow> nvic" where
  "set_nvic_systick_period s n =
     n\<lparr>systick_period := (if has_int_enabled s then Some (st_reload s) else None)\<rparr>"

definition systick_read :: "u32 \<Rightarrow> systick \<Rightarrow> u32 \<times> systick" where
  "systick_read offset s =
     (let s' = s\<lparr>st_val_toggle := \<not> st_val_toggle s\<rparr> in
      if offset = 0x0 then (st_ctl s' OR (if st_val_toggle s' then 0 else bit_mask 16), s')
      else if offset = 0x4 then (st_reload s, s)
      else if offset = 0x8 then ((if st_val_toggle s' then 0 else st_reload s' div 2), s')
      else (0, s))"

definition systick_write :: "u32 \<Rightarrow> u32 \<Rightarrow> systick \<times> nvic \<Rightarrow> systick \<times> nvic" where
  "systick_write offset value st =
     (let s = fst st; n = snd st in
      if offset = 0x0 then
        let s = s\<lparr>st_ctl := value\<rparr> in (s, set_nvic_systick_period s n)
      else if offset = 0x4 then
        let s = s\<lparr>st_reload := value\<rparr> in (s, set_nvic_systick_period s n)
      else (s, n))"

section \<open>Cycle counter\<close>

record dwt =
  dwt_ctrl :: u32
  cyccnt_offset :: u32

definition dwt_default :: dwt where
  "dwt_default = \<lparr>dwt_ctrl = 0, cyccnt_offset = 0\<rparr>"

definition dwt_new :: "string \<Rightarrow> dwt option" where
  "dwt_new name = (if name = ''DWT'' then Some dwt_default else None)"

definition cyccnt :: "u64 \<Rightarrow> dwt \<Rightarrow> u32" where
  "cyccnt now d = ucast now + cyccnt_offset d"

definition set_cyccnt :: "u64 \<Rightarrow> u32 \<Rightarrow> dwt \<Rightarrow> dwt" where
  "set_cyccnt now value d = d\<lparr>cyccnt_offset := value - ucast now\<rparr>"

definition dwt_read :: "u64 \<Rightarrow> u32 \<Rightarrow> dwt \<Rightarrow> u32" where
  "dwt_read now offset d =
     (if offset = 0x0 then dwt_ctrl d else if offset = 0x4 then cyccnt now d else 0)"

definition dwt_write :: "u64 \<Rightarrow> u32 \<Rightarrow> u32 \<Rightarrow> dwt \<Rightarrow> dwt" where
  "dwt_write now offset value d =
     (if offset = 0x0 then d\<lparr>dwt_ctrl := value\<rparr>
      else if offset = 0x4 then set_cyccnt now value d
      else d)"

section \<open>Interfaces provided\<close>

interpretation dwt_counter: free_counter cyccnt set_cyccnt ucast "\<lambda>_. True"
  by unfold_locales (simp_all add: cyccnt_def set_cyccnt_def)

interpretation systick_load: register_cells
  "\<lambda>c st. fst (systick_read c (fst st))" systick_write "{0x4}" "\<lambda>_ v. v"
  by unfold_locales (auto simp: systick_read_def systick_write_def Let_def)

section \<open>Lemmas\<close>

lemma scb_write_icsr:
  "scb_write 0x04 v (s, n) =
     Inr (s, n\<lparr>pending := pending n OR (if bit v 26 then bit_mask 15 else 0) OR
                            (if bit v 28 then bit_mask 14 else 0)\<rparr>)"
  by (cases "bit v 26"; cases "bit v 28")
    (simp_all add: scb_write_def set_intr_pending_ok irq_SYSTICK_def irq_PENDSV_def or.assoc)

definition systick_synced :: "systick \<times> nvic \<Rightarrow> bool" where
  "systick_synced st \<longleftrightarrow>
     systick_period (snd st) = (if has_int_enabled (fst st) then Some (st_reload (fst st)) else None)"

lemma systick_write_synced:
  "systick_synced st \<Longrightarrow> systick_synced (systick_write c v st) \<and>
   (\<exists>p. snd (systick_write c v st) = (snd st)\<lparr>systick_period := p\<rparr>)"
  by (auto simp: systick_write_def systick_synced_def set_nvic_systick_period_def Let_def
      intro: exI [of _ "systick_period (snd st)"])

lemma systick_writes_synced:
  "systick_synced st \<Longrightarrow> systick_synced (systick_load.writes ws st) \<and>
   (\<exists>p. snd (systick_load.writes ws st) = (snd st)\<lparr>systick_period := p\<rparr>)"
proof (induction ws arbitrary: st)
  case Nil
  then show ?case by (auto simp: systick_load.writes_def intro: exI [of _ "systick_period (snd st)"])
next
  case (Cons w ws)
  obtain c v where w: "w = (c, v)" by (cases w) auto
  from systick_write_synced [OF Cons.prems, of c v] obtain p where
    p: "systick_synced (systick_write c v st)" "snd (systick_write c v st) = (snd st)\<lparr>systick_period := p\<rparr>"
    by blast
  have "systick_load.writes (w # ws) st = systick_load.writes ws (systick_write c v st)"
    by (simp add: systick_load.writes_def w)
  with Cons.IH [OF p(1)] p(2) show ?case by auto
qed

section \<open>Properties\<close>

text \<open>ICSR. Writing it pends SysTick for bit 26 and PendSV for bit 28, both when both are set,
  never panics and changes nothing else; reading it while no exception is active, or in the handler
  of vector \<open>e\<close>, reports RETTOBASE and the vector number in bits 0 to 8.\<close>

theorem icsr_pends:
  "\<exists>n'. scb_write 0x04 v (s, n) = Inr (s, n') \<and> n' = n\<lparr>pending := pending n'\<rparr> \<and>
     pend_irqs n' = pend_irqs n \<union> (if bit v 26 then {irq_SYSTICK} else {}) \<union>
                      (if bit v 28 then {irq_PENDSV} else {}) \<and>
     bit (scb_read 0x04 s n) 11 \<and>
     (active_exception_number n < 128 \<longrightarrow> scb_read 0x04 s n AND 0x1ff = active_exception_number n)"
proof -
  have p: "pend_irqs (n\<lparr>pending := pending n OR bit_mask 15\<rparr>) = insert (-1) (pend_irqs n)"
    and q: "pend_irqs (n\<lparr>pending := pending n OR bit_mask 14\<rparr>) = insert (-2) (pend_irqs n)" for n
    using pend_irqs_set [of "-1" n] pend_irqs_set [of "-2" n] by simp_all
  have pq: "pend_irqs (n\<lparr>pending := pending n OR (bit_mask 15 OR bit_mask 14)\<rparr>) =
      insert (-2) (insert (-1) (pend_irqs n))"
    using q [of "n\<lparr>pending := pending n OR bit_mask 15\<rparr>"] p [of n] by (simp add: or.assoc)
  have i: "scb_read 0x04 s n = bit_mask 11 OR active_exception_number n"
    by (simp add: scb_read_def read_icsr_def ICSR_RETTOBASE_def)
  have "scb_read 0x04 s n AND 0x1ff = active_exception_number n"
    if "active_exception_number n < 128"
  proof -
    from that have "active_exception_number n AND mask 9 = active_exception_number n"
      by (intro and_mask_less) (simp add: word_less_nat_alt)
    then show ?thesis by (simp add: i bit.conj_disj_distrib2 mask_eq_exp_minus_1 bit_mask_def)
  qed
  then show ?thesis by (auto simp: scb_write_icsr p q pq irq_SYSTICK_def irq_PENDSV_def i bit_or_iff)
qed

theorem icsr_pends_witness:
  "scb_read 0x04 scb_default (nvic_default\<lparr>active_exception_number := 15\<rparr>) AND 0x1ff = 15"
  using icsr_pends [of 0 scb_default "nvic_default\<lparr>active_exception_number := 15\<rparr>"] by auto

text \<open>SysTick and the NVIC agree on the period. Starting in agreement, any sequence of CTRL,
  LOAD and other writes leaves the NVIC with exactly the reload value when the counter and its
  interrupt are enabled and with no period otherwise, and with the rest of its state untouched.\<close>

theorem systick_period_synced:
  assumes "systick_synced st"
  shows "systick_synced (systick_load.writes ws st) \<and>
     (\<exists>p. snd (systick_load.writes ws st) = (snd st)\<lparr>systick_period := p\<rparr>)"
  using systick_writes_synced [OF assms] .

theorem systick_period_synced_witness:
  "systick_synced (systick_load.writes [(0x4, 215999), (0x0, 7)] (systick_default, nvic_default))"
  using systick_period_synced [of "(systick_default, nvic_default)" "[(0x4, 215999), (0x0, 7)]"]
  by (simp add: systick_synced_def systick_default_def nvic_default_def has_int_enabled_def)

text \<open>A polled delay on CYCCNT ends: between any two reads of the cycle counter, before or after
  firmware sets it, the difference is the number of instructions executed in between modulo 2^32,
  whatever the counter wraps through, and a value written is the value read.\<close>

theorem cyccnt_elapsed:
  "dwt_read later 0x4 d - dwt_read now 0x4 d = ucast (later - now) \<and>
   dwt_read later 0x4 (dwt_write now 0x4 v d) = v + ucast (later - now)"
proof -
  have u: "(ucast (later - now) :: u32) = ucast later - ucast now"
    by (rule ucast_minus_64_32)
  have w: "dwt_write now 0x4 v d = set_cyccnt now v d" and
    r: "dwt_read t 0x4 e = cyccnt t e" for t e
    by (simp_all add: dwt_write_def dwt_read_def)
  show ?thesis unfolding w r u
    using dwt_counter.elapsed [where s = d] dwt_counter.count_after_set [where s = d] by simp
qed

end
