(* ===== verification/SimplePeripherals.thy ===== *)
theory SimplePeripherals
  imports Interfaces
begin

text \<open>
  The small register-only peripherals: clock control (\<open>src/peripherals/rcc.rs\<close>), the RTC
  (\<open>rtc.rs\<close>), power control (\<open>pwr.rs\<close>), the capture timer (\<open>tim11.rs\<close>), the I2C stub (\<open>i2c.rs\<close>)
  and the CAN readiness model (\<open>can.rs\<close>). None raises interrupts; firmware polls them.
\<close>

section \<open>RCC\<close>

record rcc =
  rcc_cfgr :: u32
  rcc_csr :: u32
  rcc_bdcr :: u32

definition rcc_new :: "string \<Rightarrow> rcc option" where
  "rcc_new name = (if name = ''RCC'' then Some \<lparr>rcc_cfgr = 0, rcc_csr = 0, rcc_bdcr = 0\<rparr> else None)"

definition cfgr_after_write :: "u32 \<Rightarrow> u32" where
  "cfgr_after_write value = (value AND NOT 0xc) OR push_bit 2 (value AND 0x3)"

definition csr_after_write :: "u32 \<Rightarrow> u32" where
  "csr_after_write value = (if value AND 0x1 \<noteq> 0 then value OR 0x2 else value AND NOT 0x2)"

definition bdcr_after_write :: "u32 \<Rightarrow> u32" where
  "bdcr_after_write value = (if value AND 0x1 \<noteq> 0 then value OR 0x2 else value AND NOT 0x2)"

definition rcc_read :: "u32 \<Rightarrow> rcc \<Rightarrow> u32" where
  "rcc_read offset r =
     (if offset = 0x00 then 0xFFFFFFFF
      else if offset = 0x08 then rcc_cfgr r
      else if offset = 0x74 then rcc_csr r
      else if offset = 0x70 then rcc_bdcr r
      else 0)"

definition rcc_write :: "u32 \<Rightarrow> u32 \<Rightarrow> rcc \<Rightarrow> rcc" where
  "rcc_write offset value r =
     (if offset = 0x08 then r\<lparr>rcc_cfgr := cfgr_after_write value\<rparr>
      else if offset = 0x74 then r\<lparr>rcc_csr := csr_after_write value\<rparr>
      else if offset = 0x70 then r\<lparr>rcc_bdcr := bdcr_after_write value\<rparr>
      else r)"

section \<open>RTC\<close>

record rtc =
  rtc_isr :: u32

definition rtc_new :: "string \<Rightarrow> rtc option" where
  "rtc_new name = (if name = ''RTC'' then Some \<lparr>rtc_isr = 0x7\<rparr> else None)"

definition isr_after_write :: "u32 \<Rightarrow> u32" where
  "isr_after_write value = (if value AND 0x80 \<noteq> 0 then value OR 0x40 else value AND NOT 0x40)"

definition rtc_read :: "u32 \<Rightarrow> rtc \<Rightarrow> u32" where
  "rtc_read offset r = (if offset = 0x0c then rtc_isr r else 0)"

definition rtc_write :: "u32 \<Rightarrow> u32 \<Rightarrow> rtc \<Rightarrow> rtc" where
  "rtc_write offset value r = (if offset = 0x0c then r\<lparr>rtc_isr := isr_after_write value\<rparr> else r)"

section \<open>PWR\<close>

record pwr =
  pwr_cr1 :: u32
  pwr_csr1 :: u32

definition pwr_new :: "string \<Rightarrow> pwr option" where
  "pwr_new name = (if name = ''PWR'' then Some \<lparr>pwr_cr1 = 0, pwr_csr1 = 0\<rparr> else None)"

definition csr1_after_cr1_write :: "u32 \<Rightarrow> u32" where
  "csr1_after_cr1_write value =
     (if value AND 0xc000 \<noteq> 0 then 1 else 0) * 0x4000 OR (value AND 0x10000) OR (value AND 0x20000)"

definition csr1_after_csr1_write :: "u32 \<Rightarrow> u32" where
  "csr1_after_csr1_write value = (if value AND 0x200 \<noteq> 0 then value OR 0x8 else value AND NOT 0x8)"

definition pwr_read :: "u32 \<Rightarrow> pwr \<Rightarrow> u32" where
  "pwr_read offset p =
     (if offset = 0x0 then pwr_cr1 p
      else if offset = 0x4 then csr1_after_cr1_write (pwr_cr1 p) OR pwr_csr1 p
      else 0)"

definition pwr_write :: "u32 \<Rightarrow> u32 \<Rightarrow> pwr \<Rightarrow> pwr" where
  "pwr_write offset value p =
     (if offset = 0x0 then p\<lparr>pwr_cr1 := value\<rparr>
      else if offset = 0x4 then p\<lparr>pwr_csr1 := csr1_after_csr1_write value\<rparr>
      else p)"

section \<open>TIM11\<close>

record tim11 =
  t11_cr1 :: u32
  t11_ccmr1 :: u32
  t11_ccer :: u32
  t11_sr :: u32

definition tim11_new :: "string \<Rightarrow> tim11 option" where
  "tim11_new name =
     (if name = ''TIM11'' then Some \<lparr>t11_cr1 = 0, t11_ccmr1 = 0, t11_ccer = 0, t11_sr = 0\<rparr> else None)"

definition sr_after_setup :: "u32 \<Rightarrow> u32 \<Rightarrow> u32 \<Rightarrow> u32" where
  "sr_after_setup cr1 ccmr1 ccer =
     (if cr1 AND 1 \<noteq> 0 \<and> ccmr1 AND 3 = 1 \<and> ccer AND 1 \<noteq> 0 then bit_mask 1 else 0)"

definition refresh_capture_status :: "tim11 \<Rightarrow> tim11" where
  "refresh_capture_status t = t\<lparr>t11_sr := t11_sr t OR sr_after_setup (t11_cr1 t) (t11_ccmr1 t) (t11_ccer t)\<rparr>"

definition tim11_read :: "u32 \<Rightarrow> tim11 \<Rightarrow> u32" where
  "tim11_read offset t =
     (if offset = 0x00 then t11_cr1 t
      else if offset = 0x10 then t11_sr t
      else if offset = 0x18 then t11_ccmr1 t
      else if offset = 0x20 then t11_ccer t
      else 0)"

definition tim11_write :: "u32 \<Rightarrow> u32 \<Rightarrow> tim11 \<Rightarrow> tim11" where
  "tim11_write offset value t =
     (if offset = 0x00 then refresh_capture_status (t\<lparr>t11_cr1 := value\<rparr>)
      else if offset = 0x10 then refresh_capture_status (t\<lparr>t11_sr := t11_sr t AND NOT value\<rparr>)
      else if offset = 0x18 then refresh_capture_status (t\<lparr>t11_ccmr1 := value\<rparr>)
      else if offset = 0x20 then refresh_capture_status (t\<lparr>t11_ccer := value\<rparr>)
      else t)"

section \<open>I2C\<close>

record i2c =
  i2c_name :: string
  i2c_toggle :: u8

definition i2c_new :: "string \<Rightarrow> i2c option" where
  "i2c_new name = (if starts_with name ''I2C'' then Some \<lparr>i2c_name = name, i2c_toggle = 0\<rparr> else None)"

definition i2c_read :: "u32 \<Rightarrow> i2c \<Rightarrow> u32 \<times> i2c" where
  "i2c_read offset i =
     (let i' = i\<lparr>i2c_toggle := (i2c_toggle i + 1) mod 5\<rparr> in
      if offset = 0x14 then ((if i2c_toggle i' AND 2 \<noteq> 0 then 0xFFFFFFFF else 0), i')
      else if offset = 0x18 then ((if i2c_toggle i' AND 1 \<noteq> 0 then 0xFFFFFFFF else 0), i')
      else (0, i))"

definition i2c_write :: "u32 \<Rightarrow> u32 \<Rightarrow> i2c \<Rightarrow> i2c" where
  "i2c_write offset value i = i"

section \<open>CAN\<close>

record can =
  can_mcr :: u32

definition can_new :: "string \<Rightarrow> can option" where
  "can_new name = (if starts_with name ''CAN'' then Some \<lparr>can_mcr = 0\<rparr> else None)"

definition msr_after_mcr_write :: "u32 \<Rightarrow> u32" where
  "msr_after_mcr_write mcr = mcr AND 0x3"

definition TSR_ALL_MAILBOXES_EMPTY :: u32 where "TSR_ALL_MAILBOXES_EMPTY = 0x1c000000"

definition can_read :: "u32 \<Rightarrow> can \<Rightarrow> u32" where
  "can_read offset c =
     (if offset = 0x0 then can_mcr c
      else if offset = 0x4 then msr_after_mcr_write (can_mcr c)
      else if offset = 0x8 then TSR_ALL_MAILBOXES_EMPTY
      else 0)"

definition can_write :: "u32 \<Rightarrow> u32 \<Rightarrow> can \<Rightarrow> can" where
  "can_write offset value c = (if offset = 0x0 then c\<lparr>can_mcr := value\<rparr> else c)"

section \<open>Interfaces provided\<close>

definition rcc_norm :: "u32 \<Rightarrow> u32 \<Rightarrow> u32" where
  "rcc_norm c v = (if c = 0x08 then cfgr_after_write v else csr_after_write v)"

interpretation rcc_regs: register_cells rcc_read rcc_write "{0x08, 0x70, 0x74}" rcc_norm
  by unfold_locales
    (auto simp: rcc_read_def rcc_write_def rcc_norm_def csr_after_write_def bdcr_after_write_def)

interpretation rtc_regs: register_cells rtc_read rtc_write "{0x0c}" "\<lambda>_. isr_after_write"
  by unfold_locales (auto simp: rtc_read_def rtc_write_def)

interpretation pwr_regs: register_cells pwr_read pwr_write "{0x0}" "\<lambda>_ v. v"
  by unfold_locales (auto simp: pwr_read_def pwr_write_def)

interpretation tim11_regs: register_cells tim11_read tim11_write "{0x00, 0x18, 0x20}" "\<lambda>_ v. v"
  by unfold_locales (auto simp: tim11_read_def tim11_write_def refresh_capture_status_def)

interpretation can_regs: register_cells can_read can_write "{0x0}" "\<lambda>_ v. v"
  by unfold_locales (auto simp: can_read_def can_write_def)

section \<open>Lemmas\<close>

lemma bit_1_words: "bit (1 :: u32) n \<longleftrightarrow> n = 0"
  by (cases n) (auto simp: bit_simps bit_1_iff)

lemma ready_bit_follows:
  "bit (if v AND 0x1 \<noteq> 0 then v OR 0x2 else v AND NOT (0x2 :: u32)) (Suc 0) \<longleftrightarrow> bit v 0"
  "bit (v OR (0x2 :: u32)) (Suc 0)" "\<not> bit (v AND - 3 :: u32) (Suc 0)"
  by (simp_all add: bit_or_iff bit_and_iff bit_not_iff)

lemma cfgr_sws:
  "cfgr_after_write v AND 0xc = push_bit 2 (v AND 0x3)"
proof (rule word_eqI_bits)
  fix n
  have c: "(0xc :: u32) = bit_mask 3 OR bit_mask 2" "(0x3 :: u32) = bit_mask 1 OR bit_mask 0"
    by (simp_all add: bit_mask_def)
  assume "n < LENGTH(32)"
  then show "bit (cfgr_after_write v AND 0xc) n \<longleftrightarrow> bit (push_bit 2 (v AND 0x3)) n"
    unfolding cfgr_after_write_def c by (auto simp: word_bits)
qed

section \<open>Properties\<close>

text \<open>A poll for readiness right after the request succeeds. RCC reports the system clock source
  that was selected, LSI and LSE ready exactly when they are enabled, the RTC enters init mode
  exactly when asked, and CAN acknowledges initialisation and sleep requests, while every other
  bit written to RCC CSR and BDCR is kept; no earlier write to any register of the block matters.\<close>

theorem ready_flags_follow_requests:
  "rcc_read 0x08 (rcc_write 0x08 v r) AND 0xc = push_bit 2 (v AND 0x3) \<and>
   (bit (rcc_read 0x74 (rcc_write 0x74 v r)) 1 \<longleftrightarrow> bit v 0) \<and>
   (bit (rcc_read 0x70 (rcc_write 0x70 v r)) 1 \<longleftrightarrow> bit v 0) \<and>
   (i = 1 \<or> bit (rcc_read 0x74 (rcc_write 0x74 v r)) i = bit v i) \<and>
   (bit (rtc_read 0x0c (rtc_write 0x0c v t)) 6 \<longleftrightarrow> bit v 7) \<and>
   can_read 0x4 (can_write 0x0 v c) = v AND 0x3"
proof -
  have "bit (rcc_read 0x74 (rcc_write 0x74 v r)) i = bit v i" if "i \<noteq> 1"
    using that bit_mask_def [of 1, where 'a = 32]
    by (cases "i < 32") (auto simp: rcc_regs.rd_same rcc_norm_def csr_after_write_def bit_or_iff
        bit_and_iff bit_not_iff bit_mask_def [of 1, simplified, symmetric])
  moreover have "bit (isr_after_write v) 6 \<longleftrightarrow> bit v 7"
    using and_exp_eq_0_iff_not_bit [of v 7]
    by (simp add: isr_after_write_def bit_or_iff bit_and_iff bit_not_iff)
  ultimately show ?thesis
    by (auto simp: rcc_regs.rd_same rtc_regs.rd_same rcc_norm_def cfgr_sws csr_after_write_def
        ready_bit_follows can_read_def can_write_def msr_after_mcr_write_def)
qed

fun i2c_poll :: "nat \<Rightarrow> u32 \<Rightarrow> i2c \<Rightarrow> u32 list \<times> i2c" where
  "i2c_poll 0 offset i = ([], i)"
| "i2c_poll (Suc k) offset i =
     (let (v, i1) = i2c_read offset i; (vs, i2) = i2c_poll k offset i1 in (v # vs, i2))"

text \<open>Polling the I2C status registers ends: from a toggle the model can hold, five consecutive
  reads of SR1 (and of SR2) return both all ones and zero, and the toggle stays below five.\<close>

theorem i2c_status_polls_end:
  assumes "i2c_toggle i < 5" "offset \<in> {0x14, 0x18}"
  shows "set (fst (i2c_poll 5 offset i)) = {0, 0xFFFFFFFF} \<and> i2c_toggle (snd (i2c_poll 5 offset i)) < 5"
proof -
  obtain n t where i: "i = \<lparr>i2c_name = n, i2c_toggle = t\<rparr>" by (cases i) auto
  have five: "(5 :: nat) = Suc (Suc (Suc (Suc (Suc 0))))" by simp
  have "t = 0 \<or> t = 1 \<or> t = 2 \<or> t = 3 \<or> t = 4"
    using assms(1) by (auto simp: i word_less_nat_alt word_unat_eq_iff)
  with assms(2) show ?thesis unfolding five i
    by (elim disjE insertE emptyE) (simp_all add: i2c_read_def insert_commute)
qed

theorem i2c_status_polls_end_witness:
  "set (fst (i2c_poll 5 0x14 \<lparr>i2c_name = ''I2C1'', i2c_toggle = 0\<rparr>)) = {0, 0xFFFFFFFF}"
  using i2c_status_polls_end [of "\<lparr>i2c_name = ''I2C1'', i2c_toggle = 0\<rparr>" "0x14"] by simp

end
