(* ===== verification/Timers.thy ===== *)
theory Timers
  imports Nvic Interfaces
begin

text \<open>
  The two timers that raise interrupts: the microsecond timebase with its compare channel
  (\<open>src/peripherals/tim5.rs\<close>) and the basic timer behind the fast ADC
  (\<open>src/peripherals/tim6.rs\<close>). Time is the instruction count \<open>now\<close>; both pend on the NVIC.
\<close>

section \<open>TIM5\<close>

definition TIM5_IRQ :: int where "TIM5_IRQ = 50"
definition DIER_CC1IE :: u32 where "DIER_CC1IE = bit_mask 1"
definition SR_CC1IF :: u32 where "SR_CC1IF = bit_mask 1"
definition INSTRUCTIONS_PER_TICK :: u64 where "INSTRUCTIONS_PER_TICK = 54"

record tim5 =
  t5_cr1 :: u32
  t5_dier :: u32
  t5_sr :: u32
  t5_ccr1 :: u32
  ccr1_armed :: bool
  cnt_offset :: u32
  held_cnt :: u32

definition tim5_default :: tim5 where
  "tim5_default = \<lparr>t5_cr1 = 0, t5_dier = 0, t5_sr = 0, t5_ccr1 = 0, ccr1_armed = False,
     cnt_offset = 0, held_cnt = 0\<rparr>"

definition tim5_new :: "string \<Rightarrow> tim5 option" where
  "tim5_new name = (if name = ''TIM5'' then Some tim5_default else None)"

definition cen :: "tim5 \<Rightarrow> bool" where
  "cen t \<longleftrightarrow> t5_cr1 t AND 1 \<noteq> 0"

definition ticks_from_instructions :: "u64 \<Rightarrow> u32" where
  "ticks_from_instructions instructions = ucast (instructions div INSTRUCTIONS_PER_TICK)"

definition cnt :: "u64 \<Rightarrow> tim5 \<Rightarrow> u32" where
  "cnt now t = (if cen t then ticks_from_instructions now + cnt_offset t else held_cnt t)"

definition write_cr1 :: "u64 \<Rightarrow> u32 \<Rightarrow> tim5 \<Rightarrow> tim5" where
  "write_cr1 now value t =
     (let was_enabled = cen t; now_enabled = (value AND 1 \<noteq> 0);
          t1 = (if now_enabled \<and> \<not> was_enabled
                then t\<lparr>cnt_offset := held_cnt t - ticks_from_instructions now\<rparr>
                else if \<not> now_enabled \<and> was_enabled then t\<lparr>held_cnt := cnt now t\<rparr>
                else t)
      in t1\<lparr>t5_cr1 := value\<rparr>)"

definition write_cnt :: "u64 \<Rightarrow> u32 \<Rightarrow> tim5 \<Rightarrow> tim5" where
  "write_cnt now value t =
     (if cen t then t\<lparr>cnt_offset := value - ticks_from_instructions now\<rparr>
      else t\<lparr>held_cnt := value\<rparr>)"

definition has_passed_ccr1 :: "u64 \<Rightarrow> tim5 \<Rightarrow> bool" where
  "has_passed_ccr1 now t \<longleftrightarrow> 0 \<le> sint (cnt now t - t5_ccr1 t)"

definition tim5_read :: "u64 \<Rightarrow> u32 \<Rightarrow> tim5 \<Rightarrow> u32" where
  "tim5_read now offset t =
     (if offset = 0x00 then t5_cr1 t
      else if offset = 0x0c then t5_dier t
      else if offset = 0x10 then t5_sr t
      else if offset = 0x24 then cnt now t
      else if offset = 0x34 then t5_ccr1 t
      else 0)"

definition tim5_write :: "u64 \<Rightarrow> u32 \<Rightarrow> u32 \<Rightarrow> tim5 \<Rightarrow> tim5" where
  "tim5_write now offset value t =
     (if offset = 0x00 then write_cr1 now value t
      else if offset = 0x0c then t\<lparr>t5_dier := value\<rparr>
      else if offset = 0x10 then t\<lparr>t5_sr := t5_sr t AND value\<rparr>
      else if offset = 0x24 then write_cnt now value t
      else if offset = 0x34 then t\<lparr>t5_ccr1 := value, ccr1_armed := True\<rparr>
      else t)"

definition tim5_poll :: "u64 \<Rightarrow> tim5 \<times> nvic \<Rightarrow> (tim5 \<times> nvic) res" where
  "tim5_poll now st =
     (let t = fst st;
          t = (if ccr1_armed t \<and> t5_sr t AND SR_CC1IF = 0 \<and> has_passed_ccr1 now t
               then t\<lparr>t5_sr := t5_sr t OR SR_CC1IF\<rparr> else t)
      in if t5_sr t AND SR_CC1IF \<noteq> 0 \<and> t5_dier t AND DIER_CC1IE \<noteq> 0
         then res_map (Pair t) (set_intr_pending TIM5_IRQ (snd st))
         else Inr (t, snd st))"

section \<open>TIM6\<close>

definition TIM6_DAC_IRQ :: int where "TIM6_DAC_IRQ = 54"
definition CR1_CEN :: u32 where "CR1_CEN = 1"
definition DIER_UIE :: u32 where "DIER_UIE = 1"
definition SR_UIF :: u32 where "SR_UIF = 1"

record tim6 =
  t6_cr1 :: u32
  t6_cr2 :: u32
  t6_dier :: u32
  t6_sr :: u32
  t6_psc :: u32
  t6_arr :: u32
  enabled_at :: u64

definition tim6_default :: tim6 where
  "tim6_default = \<lparr>t6_cr1 = 0, t6_cr2 = 0, t6_dier = 0, t6_sr = 0, t6_psc = 0, t6_arr = 0,
     enabled_at = 0\<rparr>"

definition tim6_new :: "string \<Rightarrow> tim6 option" where
  "tim6_new name = (if name = ''TIM6'' then Some tim6_default else None)"

definition period_instructions :: "u32 \<Rightarrow> u32 \<Rightarrow> u64" where
  "period_instructions psc arr =
     max (saturating_mul (saturating_mul 2 (ucast psc + 1)) (ucast arr + 1)) 1"

definition tim6_enabled :: "tim6 \<Rightarrow> bool" where
  "tim6_enabled t \<longleftrightarrow> t6_cr1 t AND CR1_CEN \<noteq> 0"

definition tim6_counter :: "u64 \<Rightarrow> tim6 \<Rightarrow> u32" where
  "tim6_counter now t =
     (if \<not> tim6_enabled t then 0
      else let timer_instructions = saturating_mul 2 (ucast (t6_psc t) + 1)
           in ucast ((saturating_sub now (enabled_at t) div timer_instructions)
                     mod max (ucast (t6_arr t) + 1) 1))"

definition tim6_read :: "u64 \<Rightarrow> u32 \<Rightarrow> tim6 \<Rightarrow> u32" where
  "tim6_read now offset t =
     (if offset = 0x00 then t6_cr1 t
      else if offset = 0x04 then t6_cr2 t
      else if offset = 0x0c then t6_dier t
      else if offset = 0x10 then t6_sr t
      else if offset = 0x24 then tim6_counter now t
      else if offset = 0x28 then t6_psc t
      else if offset = 0x2c then t6_arr t
      else 0)"

definition tim6_write :: "u64 \<Rightarrow> u32 \<Rightarrow> u32 \<Rightarrow> tim6 \<Rightarrow> tim6" where
  "tim6_write now offset value t =
     (if offset = 0x00 then
        let was_enabled = tim6_enabled t; t = t\<lparr>t6_cr1 := value\<rparr>
        in if tim6_enabled t \<and> \<not> was_enabled then t\<lparr>enabled_at := now\<rparr> else t
      else if offset = 0x04 then t\<lparr>t6_cr2 := value\<rparr>
      else if offset = 0x0c then t\<lparr>t6_dier := value\<rparr>
      else if offset = 0x10 then t\<lparr>t6_sr := t6_sr t AND value\<rparr>
      else if offset = 0x14 then (if value AND 1 \<noteq> 0 then t\<lparr>enabled_at := now\<rparr> else t)
      else if offset = 0x24 then t\<lparr>enabled_at := now\<rparr>
      else if offset = 0x28 then t\<lparr>t6_psc := value AND 0xffff\<rparr>
      else if offset = 0x2c then t\<lparr>t6_arr := value\<rparr>
      else t)"

definition tim6_poll :: "u64 \<Rightarrow> tim6 \<times> nvic \<Rightarrow> (tim6 \<times> nvic) res" where
  "tim6_poll now st =
     (let t = fst st;
          t = (if tim6_enabled t \<and>
                  period_instructions (t6_psc t) (t6_arr t) \<le> saturating_sub now (enabled_at t)
               then t\<lparr>t6_sr := t6_sr t OR SR_UIF, enabled_at := now\<rparr> else t)
      in if t6_sr t AND SR_UIF \<noteq> 0 \<and> t6_dier t AND DIER_UIE \<noteq> 0
         then res_map (Pair t) (set_intr_pending TIM6_DAC_IRQ (snd st))
         else Inr (t, snd st))"

section \<open>Interfaces provided\<close>

interpretation tim5_counter: free_counter cnt write_cnt ticks_from_instructions cen
  by unfold_locales (auto simp: cnt_def write_cnt_def cen_def)

interpretation tim5_regs: register_cells "tim5_read now" "tim5_write now" "{0x00, 0x0c, 0x34}" "\<lambda>_ v. v"
  for now
  by unfold_locales
    (auto simp: tim5_read_def tim5_write_def write_cr1_def write_cnt_def Let_def)

interpretation tim6_regs: register_cells "tim6_read now" "tim6_write now"
  "{0x00, 0x04, 0x0c, 0x28, 0x2c}" "\<lambda>c v. if c = 0x28 then v AND 0xffff else v"
  for now
  by unfold_locales (auto simp: tim6_read_def tim6_write_def Let_def)

text \<open>The status words are cleared by writing zeros: a write of \<open>NOT m\<close> acknowledges \<open>m\<close>.\<close>

interpretation tim5_flags: flag_register t5_sr "\<lambda>m. tim5_write now 0x10 (NOT m)"
  "\<lambda>m t. t\<lparr>t5_sr := t5_sr t OR m\<rparr>" for now
  by unfold_locales (simp_all add: tim5_write_def)

interpretation tim6_flags: flag_register t6_sr "\<lambda>m. tim6_write now 0x10 (NOT m)"
  "\<lambda>m t. t\<lparr>t6_sr := t6_sr t OR m\<rparr>" for now
  by unfold_locales (simp_all add: tim6_write_def)

section \<open>Lemmas\<close>

lemma ticks_advance:
  assumes "unat now + 54 * k < 2 ^ 64"
  shows "ticks_from_instructions (now + 54 * of_nat k) = ticks_from_instructions now + of_nat k"
proof -
  have k: "54 * k < 2 ^ 64" using assms by simp
  have "unat (of_nat (54 * k) :: u64) = 54 * k" unfolding unat_of_nat using k by simp
  then have "unat (54 * of_nat k :: u64) = 54 * k" by simp
  with assms have "unat (now + 54 * of_nat k) = unat now + 54 * k"
    by (subst unat_add_lem [THEN iffD1]) simp_all
  then have "unat ((now + 54 * of_nat k) div 54) = unat now div 54 + k"
    by (simp add: unat_div_distrib)
  moreover have "(ucast w :: u32) = of_nat (unat w)" for w :: u64 by simp
  ultimately show ?thesis
    by (simp only: ticks_from_instructions_def INSTRUCTIONS_PER_TICK_def) (simp add: unat_div_distrib)
qed

lemma cnt_write_cr1: "cnt now (write_cr1 now v t) = cnt now t"
  by (auto simp: write_cr1_def cnt_def cen_def Let_def)

lemma cnt_stopped: "\<not> bit v 0 \<Longrightarrow> cnt later (write_cr1 now v t) = cnt now t"
  by (auto simp: write_cr1_def cnt_def cen_def Let_def)

definition tim5_flag :: "tim5 \<Rightarrow> bool" where
  "tim5_flag t \<longleftrightarrow> bit (t5_sr t) 1"

lemma tim5_poll_eq:
  "tim5_poll now (t, n) =
     (let f = tim5_flag t \<or> ccr1_armed t \<and> has_passed_ccr1 now t in
      Inr (if f then t\<lparr>t5_sr := t5_sr t OR SR_CC1IF\<rparr> else t,
           if f \<and> bit (t5_dier t) 1 then n\<lparr>pending := pending n OR bit_mask 66\<rparr> else n))"
proof -
  have "t\<lparr>t5_sr := t5_sr t OR SR_CC1IF\<rparr> = t" if "bit (t5_sr t) 1"
  proof -
    have "t5_sr t OR SR_CC1IF = t5_sr t"
      by (rule word_eqI_bits) (use that in \<open>auto simp: SR_CC1IF_def bit_or_iff\<close>)
    then show ?thesis by simp
  qed
  then show ?thesis
    by (auto simp: tim5_poll_def tim5_flag_def SR_CC1IF_def DIER_CC1IE_def Let_def bit_or_iff
        set_intr_pending_ok TIM5_IRQ_def)
qed

lemma passed_iff_elapsed:
  fixes e d :: u32
  assumes "unat d < 2 ^ 31" "unat e < 2 ^ 31"
  shows "0 \<le> sint (e - d) \<longleftrightarrow> unat d \<le> unat e"
proof (cases "unat d \<le> unat e")
  case True
  then have "unat (e - d) = unat e - unat d" by (simp add: unat_sub word_le_nat_alt)
  with True assms show ?thesis by (simp add: sint_ge_0_iff)
next
  case False
  then have "unat (e - d) = unat e + 2 ^ 32 - unat d" by (simp add: unat_sub_if_size word_size)
  with False assms show ?thesis by (simp add: sint_ge_0_iff)
qed

lemma pend_tim5: "pend_irqs (n\<lparr>pending := pending n OR bit_mask 66\<rparr>) = insert TIM5_IRQ (pend_irqs n)"
  using pend_irqs_set [of 50 n] by (simp add: TIM5_IRQ_def)

lemma pend_tim6: "pend_irqs (n\<lparr>pending := pending n OR bit_mask 70\<rparr>) = insert TIM6_DAC_IRQ (pend_irqs n)"
  using pend_irqs_set [of 54 n] by (simp add: TIM6_DAC_IRQ_def)

lemma ucast_32_64_succ: "unat (ucast (w :: u32) + 1 :: u64) = unat w + 1"
proof -
  have "unat w < 2 ^ 32" by (rule unat_u32_less)
  then show ?thesis by (subst unat_add_lem [THEN iffD1]) simp_all
qed

lemma unat_period_instructions:
  assumes "unat psc \<le> 0xffff"
  shows "unat (period_instructions psc arr) = 2 * (unat psc + 1) * (unat arr + 1)"
proof -
  have a: "unat (ucast psc + 1 :: u64) = unat psc + 1" "unat (ucast arr + 1 :: u64) = unat arr + 1"
    by (rule ucast_32_64_succ)+
  have lt: "unat arr + 1 \<le> 2 ^ 32" using unat_u32_less [of arr] by simp
  have m: "unat (saturating_mul 2 (ucast psc + 1)) = 2 * (unat psc + 1)"
    using assms by (subst unat_saturating_mul) (simp_all add: a)
  have "2 * (unat psc + 1) * (unat arr + 1) \<le> 2 * (0xffff + 1) * 2 ^ 32"
    using assms lt by (intro mult_le_mono) simp_all
  then have "unat (saturating_mul (saturating_mul 2 (ucast psc + 1)) (ucast arr + 1)) =
      2 * (unat psc + 1) * (unat arr + 1)"
    by (subst unat_saturating_mul) (simp_all only: m a, simp)
  then show ?thesis by (simp add: period_instructions_def max_def word_le_nat_alt)
qed

section \<open>Properties\<close>

text \<open>TIM5 is a 4 MHz clock without jumps. While it runs, CNT grows by exactly one per 54
  instructions modulo 2^32; no write to CR1, starting or stopping it, changes the value read at
  that instant; a stopped counter keeps its value for ever; and a value written to CNT, running
  or stopped, is the value read.\<close>

theorem tim5_clock:
  assumes "cen t" "unat now + 54 * k < 2 ^ 64"
  shows "tim5_read (now + 54 * of_nat k) 0x24 t = tim5_read now 0x24 t + of_nat k \<and>
    tim5_read now 0x24 (tim5_write now 0x00 v u) = tim5_read now 0x24 u \<and>
    (bit v 0 \<or> tim5_read later 0x24 (tim5_write now 0x00 v u) = tim5_read now 0x24 u) \<and>
    tim5_read now 0x24 (tim5_write now 0x24 x u) = x"
proof -
  have r: "tim5_read m 0x24 s = cnt m s" for m s by (simp add: tim5_read_def)
  have w: "tim5_write now 0x00 v u = write_cr1 now v u" "tim5_write now 0x24 x u = write_cnt now x u"
    by (simp_all add: tim5_write_def)
  have "cnt (now + 54 * of_nat k) t = cnt now t + of_nat k"
    using tim5_counter.count_advance [OF assms(1), of "now + 54 * of_nat k" now] ticks_advance [OF assms(2)]
    by simp
  then show ?thesis unfolding r w
    using cnt_write_cr1 [of now v u] cnt_stopped [of v later now u] tim5_counter.count_set [of now x u]
    by blast
qed

theorem tim5_clock_witness:
  "tim5_read 5400 0x24 (tim5_default\<lparr>t5_cr1 := 1\<rparr>) =
     tim5_read 0 0x24 (tim5_default\<lparr>t5_cr1 := 1\<rparr>) + 100"
  using tim5_clock [of "tim5_default\<lparr>t5_cr1 := 1\<rparr>" 0 100] by (simp add: cen_def)

text \<open>C34: The compare alarm is exact and level-triggered. Armed on a running counter with the
  target less than half a turn ahead, a poll raises the flag if and only if at least that many
  ticks have passed, never earlier; the interrupt is pended at that poll and at every later one
  while the flag is up and enabled, and no other interrupt and nothing else of the timer changes.\<close>

theorem tim5_alarm_exact:
  assumes "cen t" "ccr1_armed t" "\<not> tim5_flag t"
    and "unat (t5_ccr1 t - tim5_read now 0x24 t) < 2 ^ 31"
    and "unat (ticks_from_instructions later - ticks_from_instructions now) < 2 ^ 31"
  shows "\<exists>t' n'. tim5_poll later (t, n) = Inr (t', n') \<and>
    (tim5_flag t' \<longleftrightarrow> unat (t5_ccr1 t - tim5_read now 0x24 t) \<le>
                     unat (ticks_from_instructions later - ticks_from_instructions now)) \<and>
    pend_irqs n' = pend_irqs n \<union> (if tim5_flag t' \<and> bit (t5_dier t) 1 then {TIM5_IRQ} else {}) \<and>
    t' = t\<lparr>t5_sr := t5_sr t'\<rparr> \<and>
    (tim5_flag t' \<longrightarrow> tim5_poll m (t', n) =
       Inr (t', if bit (t5_dier t) 1 then n\<lparr>pending := pending n OR bit_mask 66\<rparr> else n))"
proof -
  let ?d = "t5_ccr1 t - cnt now t" and ?e = "ticks_from_instructions later - ticks_from_instructions now"
  have r: "tim5_read now 0x24 t = cnt now t" by (simp add: tim5_read_def)
  have "cnt later t - t5_ccr1 t = ?e - ?d"
    using tim5_counter.count_advance [OF assms(1), of later now] by simp
  with assms(4,5) have passed: "has_passed_ccr1 later t \<longleftrightarrow> unat ?d \<le> unat ?e"
    unfolding has_passed_ccr1_def r by (simp only: passed_iff_elapsed)
  define t' where "t' = (if unat ?d \<le> unat ?e then t\<lparr>t5_sr := t5_sr t OR SR_CC1IF\<rparr> else t)"
  have f: "tim5_flag t' \<longleftrightarrow> unat ?d \<le> unat ?e"
    using assms(3) by (simp add: t'_def tim5_flag_def SR_CC1IF_def bit_or_iff)
  have sr: "t5_sr t OR SR_CC1IF OR SR_CC1IF = t5_sr t OR SR_CC1IF" by (simp add: or.assoc)
  have "tim5_poll later (t, n) =
      Inr (t', if tim5_flag t' \<and> bit (t5_dier t) 1 then n\<lparr>pending := pending n OR bit_mask 66\<rparr> else n)"
    using assms(2,3) passed f by (simp add: tim5_poll_eq Let_def t'_def)
  moreover have "tim5_poll m (t', n) =
      Inr (t', if bit (t5_dier t) 1 then n\<lparr>pending := pending n OR bit_mask 66\<rparr> else n)" if "tim5_flag t'"
    using that f sr by (simp add: tim5_poll_eq Let_def t'_def)
  ultimately show ?thesis using f
    by (intro exI [of _ t'] exI conjI) (auto simp: r t'_def pend_tim5)
qed

theorem tim5_alarm_exact_witness:
  "\<exists>t' n'. tim5_poll 5400
     (tim5_default\<lparr>t5_cr1 := 1, t5_ccr1 := 100, ccr1_armed := True, t5_dier := 2\<rparr>, nvic_default) =
       Inr (t', n') \<and> pend_irqs n' = pend_irqs nvic_default \<union> {TIM5_IRQ}"
  using tim5_alarm_exact [where m = 0 and now = 0 and later = 5400 and n = nvic_default and
      t = "tim5_default\<lparr>t5_cr1 := 1, t5_ccr1 := 100, ccr1_armed := True, t5_dier := 2\<rparr>"]
  by (auto simp: cen_def tim5_flag_def tim5_default_def tim5_read_def cnt_def
      ticks_from_instructions_def INSTRUCTIONS_PER_TICK_def)

definition tim6_fires :: "u64 \<Rightarrow> tim6 \<Rightarrow> bool" where
  "tim6_fires now t \<longleftrightarrow> tim6_enabled t \<and>
     2 * (unat (t6_psc t) + 1) * (unat (t6_arr t) + 1) \<le> unat now - unat (enabled_at t)"

text \<open>TIM6 fires once per period. With a 16-bit prescaler the period is exactly
  2 (PSC + 1) (ARR + 1) instructions, without saturation; a poll marks an update if and only if
  that many instructions have passed since the last restart, restarts the period there, and then
  cannot mark another before a whole period has passed; the counter register stays within ARR.\<close>

theorem tim6_period:
  assumes "unat (t6_psc t) \<le> 0xffff"
  shows "\<exists>t' n'. tim6_poll now (t, n) = Inr (t', n') \<and>
    t' = (if tim6_fires now t then t\<lparr>t6_sr := t6_sr t OR SR_UIF, enabled_at := now\<rparr> else t) \<and>
    pend_irqs n' = pend_irqs n \<union> (if bit (t6_sr t') 0 \<and> bit (t6_dier t) 0 then {TIM6_DAC_IRQ} else {}) \<and>
    (tim6_fires now t \<and> tim6_fires later t' \<longrightarrow>
       unat now + 2 * (unat (t6_psc t) + 1) * (unat (t6_arr t) + 1) \<le> unat later) \<and>
    unat (tim6_read later 0x24 t) \<le> unat (t6_arr t)"
proof -
  define t' where
    "t' = (if tim6_fires now t then t\<lparr>t6_sr := t6_sr t OR SR_UIF, enabled_at := now\<rparr> else t)"
  have fires: "tim6_fires now t \<longleftrightarrow> tim6_enabled t \<and>
      period_instructions (t6_psc t) (t6_arr t) \<le> saturating_sub now (enabled_at t)"
    by (simp only: tim6_fires_def word_le_nat_alt unat_period_instructions [OF assms]
        unat_saturating_sub)
  have poll: "tim6_poll now (t, n) = Inr (t',
      if bit (t6_sr t') 0 \<and> bit (t6_dier t) 0 then n\<lparr>pending := pending n OR bit_mask 70\<rparr> else n)"
    by (auto simp: tim6_poll_def Let_def fires t'_def SR_UIF_def DIER_UIE_def set_intr_pending_ok
        TIM6_DAC_IRQ_def)
  have "unat (tim6_counter later t) \<le> unat (t6_arr t)"
  proof (cases "tim6_enabled t")
    case True
    let ?q = "saturating_sub later (enabled_at t) div saturating_mul 2 (ucast (t6_psc t) + 1)"
    have m: "max (ucast (t6_arr t) + 1) 1 = (ucast (t6_arr t) + 1 :: u64)"
      by (auto simp: max_def word_le_nat_alt ucast_32_64_succ word_unat_eq_iff)
    have "unat (?q mod (ucast (t6_arr t) + 1)) < unat (t6_arr t) + 1"
      by (simp add: unat_mod_distrib ucast_32_64_succ)
    moreover have "unat (ucast x :: u32) \<le> unat x" for x :: u64
      by (simp add: unsigned_ucast_eq take_bit_nat_less_eq_self)
    ultimately show ?thesis using True
      by (simp add: tim6_counter_def m) (meson less_Suc_eq_le order_trans)
  qed (simp add: tim6_counter_def)
  then show ?thesis using poll t'_def
    by (intro exI [of _ t'] exI conjI) (auto simp: pend_tim6 tim6_fires_def tim6_read_def)
qed

theorem tim6_period_witness:
  "\<exists>t' n'. tim6_poll 21600 (tim6_default\<lparr>t6_cr1 := 1, t6_dier := 1, t6_psc := 1079, t6_arr := 9\<rparr>,
      nvic_default) = Inr (t', n') \<and> enabled_at t' = 21600"
  using tim6_period [where now = 21600 and later = 0 and n = nvic_default and
      t = "tim6_default\<lparr>t6_cr1 := 1, t6_dier := 1, t6_psc := 1079, t6_arr := 9\<rparr>"]
  by (auto simp: tim6_fires_def tim6_enabled_def tim6_default_def CR1_CEN_def)

end
