(* ===== verification/Exti.thy ===== *)
theory Exti
  imports Nvic Interfaces
begin

text \<open>
  The external interrupt controller with its SYSCFG routing, \<open>src/peripherals/exti.rs\<close>. One
  state serves two register blocks: EXTI's own and the four EXTICR routing words of SYSCFG, four
  bits of port number per line. Ports and lines are \<open>u8\<close> indices, here \<open>nat\<close>.
\<close>

section \<open>State and registers\<close>

record exti =
  exti_imr :: u32
  exti_emr :: u32
  exti_rtsr :: u32
  exti_ftsr :: u32
  exti_swier :: u32
  exti_pr :: u32
  exticr1 :: u32
  exticr2 :: u32
  exticr3 :: u32
  exticr4 :: u32

definition exti_default :: exti where
  "exti_default = \<lparr>exti_imr = 0, exti_emr = 0, exti_rtsr = 0, exti_ftsr = 0, exti_swier = 0,
     exti_pr = 0, exticr1 = 0, exticr2 = 0, exticr3 = 0, exticr4 = 0\<rparr>"

definition read_exti :: "u32 \<Rightarrow> exti \<Rightarrow> u32" where
  "read_exti offset e =
     (if offset = 0x00 then exti_imr e
      else if offset = 0x04 then exti_emr e
      else if offset = 0x08 then exti_rtsr e
      else if offset = 0x0C then exti_ftsr e
      else if offset = 0x10 then exti_swier e
      else if offset = 0x14 then exti_pr e
      else 0)"

definition write_exti :: "u32 \<Rightarrow> u32 \<Rightarrow> exti \<Rightarrow> exti" where
  "write_exti offset value e =
     (if offset = 0x00 then e\<lparr>exti_imr := value\<rparr>
      else if offset = 0x04 then e\<lparr>exti_emr := value\<rparr>
      else if offset = 0x08 then e\<lparr>exti_rtsr := value\<rparr>
      else if offset = 0x0C then e\<lparr>exti_ftsr := value\<rparr>
      else if offset = 0x10 then e\<lparr>exti_swier := value\<rparr>
      else if offset = 0x14 then e\<lparr>exti_pr := exti_pr e AND NOT value\<rparr>
      else e)"

definition read_syscfg :: "u32 \<Rightarrow> exti \<Rightarrow> u32" where
  "read_syscfg offset e =
     (if offset = 0x08 then exticr1 e
      else if offset = 0x0C then exticr2 e
      else if offset = 0x10 then exticr3 e
      else if offset = 0x14 then exticr4 e
      else 0)"

definition write_syscfg :: "u32 \<Rightarrow> u32 \<Rightarrow> exti \<Rightarrow> exti" where
  "write_syscfg offset value e =
     (if offset = 0x08 then e\<lparr>exticr1 := value\<rparr>
      else if offset = 0x0C then e\<lparr>exticr2 := value\<rparr>
      else if offset = 0x10 then e\<lparr>exticr3 := value\<rparr>
      else if offset = 0x14 then e\<lparr>exticr4 := value\<rparr>
      else e)"

definition exti_new :: "string \<Rightarrow> bool" where
  "exti_new name \<longleftrightarrow> name = ''EXTI''"

definition syscfg_new :: "string \<Rightarrow> bool" where
  "syscfg_new name \<longleftrightarrow> name = ''SYSCFG''"

section \<open>Edges\<close>

definition exticr_port_for_line :: "nat \<Rightarrow> exti \<Rightarrow> nat" where
  "exticr_port_for_line line e =
     (let (reg, shift) =
        (if line \<le> 3 then (exticr1 e, line * 4)
         else if line \<le> 7 then (exticr2 e, (line - 4) * 4)
         else if line \<le> 11 then (exticr3 e, (line - 8) * 4)
         else (exticr4 e, (line - 12) * 4))
      in unat (drop_bit shift reg AND 0xF))"

definition irq_for_line :: "nat \<Rightarrow> int" where
  "irq_for_line line =
     (if line = 0 then 6 else if line = 1 then 7 else if line = 2 then 8 else if line = 3 then 9
      else if line = 4 then 10 else if 5 \<le> line \<and> line \<le> 9 then 23 else 40)"

definition raise_line_if_configured :: "nat \<Rightarrow> nat \<Rightarrow> bool \<Rightarrow> exti \<Rightarrow> int option \<times> exti" where
  "raise_line_if_configured port pin rising e =
     (if pin > 15 then (None, e)
      else if exticr_port_for_line pin e \<noteq> port then (None, e)
      else if exti_imr e AND bit_mask pin = 0 then (None, e)
      else let edge_matches = (rising \<and> exti_rtsr e AND bit_mask pin \<noteq> 0) \<or>
                              (\<not> rising \<and> exti_ftsr e AND bit_mask pin \<noteq> 0)
           in if \<not> edge_matches then (None, e)
              else (Some (irq_for_line pin), e\<lparr>exti_pr := exti_pr e OR bit_mask pin\<rparr>))"

section \<open>Interfaces provided\<close>

interpretation exti_regs: register_cells read_exti write_exti "{0x00, 0x04, 0x08, 0x0C, 0x10}" "\<lambda>_ v. v"
  by unfold_locales (auto simp: read_exti_def write_exti_def)

interpretation syscfg_regs: register_cells read_syscfg write_syscfg "{0x08, 0x0C, 0x10, 0x14}" "\<lambda>_ v. v"
  by unfold_locales (auto simp: read_syscfg_def write_syscfg_def)

interpretation exti_pending: flag_register "read_exti 0x14" "write_exti 0x14"
  "\<lambda>m e. e\<lparr>exti_pr := exti_pr e OR m\<rparr>"
  by unfold_locales (simp_all add: read_exti_def write_exti_def)

section \<open>Lemmas\<close>

text \<open>The routing word of a line, by SYSCFG offset.\<close>

definition exticr_offset :: "nat \<Rightarrow> u32" where
  "exticr_offset line = 0x08 + 4 * of_nat (line div 4)"

lemma line_block:
  fixes line :: nat
  assumes "line < 16"
  obtains "line \<le> 3" "line div 4 = 0" | "4 \<le> line" "line \<le> 7" "line div 4 = 1"
    | "8 \<le> line" "line \<le> 11" "line div 4 = 2" | "12 \<le> line" "line \<le> 15" "line div 4 = 3"
proof -
  have "line \<le> 3 \<and> line div 4 = 0 \<or> 4 \<le> line \<and> line \<le> 7 \<and> line div 4 = 1 \<or>
      8 \<le> line \<and> line \<le> 11 \<and> line div 4 = 2 \<or> 12 \<le> line \<and> line \<le> 15 \<and> line div 4 = 3"
    using assms by presburger
  then show thesis using that by blast
qed

lemma exticr_port_for_line_eq:
  assumes "line < 16"
  shows "exticr_port_for_line line e =
    unat (drop_bit (4 * (line mod 4)) (read_syscfg (exticr_offset line) e) AND 0xF)"
  using assms
proof (cases rule: line_block)
qed (auto simp: exticr_port_for_line_def read_syscfg_def exticr_offset_def
      minus_div_mult_eq_mod [symmetric] mult.commute)

lemma exticr_offset_cell: "line < 16 \<Longrightarrow> exticr_offset line \<in> {0x08, 0x0C, 0x10, 0x14}"
  by (erule line_block) (simp_all add: exticr_offset_def)

section \<open>Properties\<close>

text \<open>An edge reaches the CPU exactly when firmware asked for it. After any sequence of SYSCFG
  writes the routing of a line is the nibble of the last word written for its block; an edge is
  delivered if and only if the line is routed to the pin's port, unmasked and enabled for that
  direction; delivery sets exactly the line's pending bit and names its vector, and otherwise
  nothing changes; and writing one to a pending bit clears it and no other.\<close>

theorem exti_edge_delivery:
  assumes "line < 16"
  shows "(exticr_port_for_line line (syscfg_regs.writes ws e) =
       unat (drop_bit (4 * (line mod 4))
         (case map_of (rev ws) (exticr_offset line) of None \<Rightarrow> read_syscfg (exticr_offset line) e
          | Some v \<Rightarrow> v) AND 0xF)) \<and>
    raise_line_if_configured port line rising e =
      (if exticr_port_for_line line e = port \<and> bit (exti_imr e) line \<and>
          (if rising then bit (exti_rtsr e) line else bit (exti_ftsr e) line)
       then (Some (irq_for_line line), e\<lparr>exti_pr := exti_pr e OR bit_mask line\<rparr>)
       else (None, e)) \<and>
    read_exti 0x14 (write_exti 0x14 m e) = read_exti 0x14 e AND NOT m \<and>
    set_intr_pending (irq_for_line line) n =
      Inr (n\<lparr>pending := pending n OR bit_mask (nat (irq_for_line line + 16))\<rparr>)"
proof -
  have "exticr_port_for_line line (syscfg_regs.writes ws e) =
       unat (drop_bit (4 * (line mod 4))
         (case map_of (rev ws) (exticr_offset line) of None \<Rightarrow> read_syscfg (exticr_offset line) e
          | Some v \<Rightarrow> v) AND 0xF)"
    using syscfg_regs.rd_writes [OF exticr_offset_cell [OF assms], of ws e]
    by (simp add: exticr_port_for_line_eq [OF assms] syscfg_regs.last_write_def cong: option.case_cong)
  moreover have "set_intr_pending (irq_for_line line) n =
      Inr (n\<lparr>pending := pending n OR bit_mask (nat (irq_for_line line + 16))\<rparr>)"
    by (rule set_intr_pending_ok) (simp_all add: irq_for_line_def)
  ultimately show ?thesis using assms exti_pending.flags_clear [of m e]
    by (auto simp: raise_line_if_configured_def Let_def)
qed

theorem exti_edge_delivery_witness:
  "raise_line_if_configured 2 6 True
     (exti_default\<lparr>exticr2 := 0x200, exti_imr := 0x40, exti_rtsr := 0x40\<rparr>) =
   (Some 23, exti_default\<lparr>exticr2 := 0x200, exti_imr := 0x40, exti_rtsr := 0x40, exti_pr := 0x40\<rparr>)"
  using exti_edge_delivery [of 6 "[]" exti_default 2 True 0 nvic_default]
    exti_edge_delivery [where line = 6 and ws = "[]" and port = 2 and rising = True and m = 0
      and n = nvic_default and e = "exti_default\<lparr>exticr2 := 0x200, exti_imr := 0x40, exti_rtsr := 0x40\<rparr>"]
  by (simp add: exticr_port_for_line_def exti_default_def irq_for_line_def bit_mask_def)

end
