(* ===== verification/Strings.thy ===== *)
theory Strings
  imports Prelude
begin

text \<open>
  What the sources use of Rust's strings: a \<open>String\<close> is its UTF-8 bytes, here a \<^typ>\<open>string\<close> with one
  \<^typ>\<open>char\<close> per byte. Lossy decoding, trimming of Unicode white space, splitting at a character,
  integer parsing and printing, upper-casing. The round-trip lemmas at the end are what the
  line protocol of the ECU harness rests on.
\<close>

section \<open>Bytes and UTF-8\<close>

definition into_bytes :: "string \<Rightarrow> u8 list" where
  "into_bytes s = map of_char s"

definition from_bytes :: "u8 list \<Rightarrow> string" where
  "from_bytes bs = map (\<lambda>b. char_of (unat b)) bs"

lemma from_into_bytes [simp]: "from_bytes (into_bytes s) = s"
proof -
  have "char_of (unat (of_char c :: u8)) = c" for c
  proof -
    have "unat (of_char c :: u8) = of_char c"
    proof -
      have "(of_char c :: u8) = of_nat (of_char c)" by (rule of_nat_of_char [symmetric])
      moreover have "(of_char c :: nat) < 256" by simp
      ultimately show ?thesis by (simp add: unat_of_nat)
    qed
    then show ?thesis by simp
  qed
  then show ?thesis by (simp add: from_bytes_def into_bytes_def comp_def)
qed

lemma from_bytes_append [simp]: "from_bytes (xs @ ys) = from_bytes xs @ from_bytes ys"
  by (simp add: from_bytes_def)

lemma into_bytes_append [simp]: "into_bytes (xs @ ys) = into_bytes xs @ into_bytes ys"
  by (simp add: into_bytes_def)

definition char_in :: "nat \<Rightarrow> char \<Rightarrow> nat \<Rightarrow> bool" where
  "char_in lo c hi \<longleftrightarrow> lo \<le> of_char c \<and> of_char c \<le> hi"

text \<open>The range of the second byte, by the first, and the number of bytes of the sequence.\<close>

definition utf8_second :: "char \<Rightarrow> nat \<times> nat" where
  "utf8_second b =
     (if b = CHR 0xE0 then (0xA0, 0xBF) else if b = CHR 0xED then (0x80, 0x9F)
      else if b = CHR 0xF0 then (0x90, 0xBF) else if b = CHR 0xF4 then (0x80, 0x8F)
      else (0x80, 0xBF))"

definition utf8_width :: "char \<Rightarrow> nat" where
  "utf8_width b =
     (if of_char b < (0x80 :: nat) then 1 else if char_in 0xC2 b 0xDF then 2
      else if char_in 0xE0 b 0xEF then 3 else if char_in 0xF0 b 0xF4 then 4 else 0)"

definition REPLACEMENT :: string where
  "REPLACEMENT = [CHR 0xEF, CHR 0xBF, CHR 0xBD]"

text \<open>How many bytes of the rest continue a sequence of the given width: the longest prefix that
  could still be completed.\<close>

fun utf8_tail :: "nat \<Rightarrow> nat \<Rightarrow> nat \<Rightarrow> string \<Rightarrow> nat" where
  "utf8_tail 0 lo hi s = 0"
| "utf8_tail (Suc n) lo hi [] = 0"
| "utf8_tail (Suc n) lo hi (c # s) =
     (if char_in lo c hi then Suc (utf8_tail n 0x80 0xBF s) else 0)"

text \<open>\<open>String::from_utf8_lossy\<close>: every maximal ill-formed subsequence becomes U+FFFD.\<close>

function utf8_lossy :: "string \<Rightarrow> string" where
  "utf8_lossy [] = []"
| "utf8_lossy (b # s) =
     (let w = utf8_width b; (lo, hi) = utf8_second b; n = utf8_tail (w - 1) lo hi s
      in if 0 < w \<and> n = w - 1 then b # take n s @ utf8_lossy (drop n s)
         else REPLACEMENT @ utf8_lossy (drop n s))"
  by pat_completeness auto
termination
  by (relation "measure length") auto

section \<open>Trimming and splitting\<close>

definition WHITE_SPACE :: "string list" where
  "WHITE_SPACE = [[CHR 0x09], [CHR 0x0A], [CHR 0x0B], [CHR 0x0C], [CHR 0x0D], [CHR 0x20],
     [CHR 0xC2, CHR 0x85], [CHR 0xC2, CHR 0xA0], [CHR 0xE1, CHR 0x9A, CHR 0x80],
     [CHR 0xE2, CHR 0x80, CHR 0x80], [CHR 0xE2, CHR 0x80, CHR 0x81], [CHR 0xE2, CHR 0x80, CHR 0x82],
     [CHR 0xE2, CHR 0x80, CHR 0x83], [CHR 0xE2, CHR 0x80, CHR 0x84], [CHR 0xE2, CHR 0x80, CHR 0x85],
     [CHR 0xE2, CHR 0x80, CHR 0x86], [CHR 0xE2, CHR 0x80, CHR 0x87], [CHR 0xE2, CHR 0x80, CHR 0x88],
     [CHR 0xE2, CHR 0x80, CHR 0x89], [CHR 0xE2, CHR 0x80, CHR 0x8A], [CHR 0xE2, CHR 0x80, CHR 0xA8],
     [CHR 0xE2, CHR 0x80, CHR 0xA9], [CHR 0xE2, CHR 0x80, CHR 0xAF], [CHR 0xE2, CHR 0x81, CHR 0x9F],
     [CHR 0xE3, CHR 0x80, CHR 0x80]]"

function strip_any :: "string list \<Rightarrow> string \<Rightarrow> string" where
  "strip_any ws s =
     (case find (\<lambda>w. w \<noteq> [] \<and> starts_with s w) ws of
        None \<Rightarrow> s
      | Some w \<Rightarrow> strip_any ws (drop (length w) s))"
  by auto
termination
proof (relation "measure (length o snd)")
  fix ws s w assume "find (\<lambda>w. w \<noteq> [] \<and> starts_with s w) ws = Some w"
  then have "w \<noteq> []" "starts_with s w" by (auto simp: find_Some_iff)
  then have "s \<noteq> []" by (auto simp: starts_with_def)
  with \<open>w \<noteq> []\<close> show "((ws, drop (length w) s), (ws, s)) \<in> measure (length o snd)" by simp
qed simp

declare strip_any.simps [simp del]

definition str_trim :: "string \<Rightarrow> string" where
  "str_trim s = rev (strip_any (map rev WHITE_SPACE) (rev (strip_any WHITE_SPACE s)))"

definition split_once :: "char \<Rightarrow> string \<Rightarrow> (string \<times> string) option" where
  "split_once c s =
     (if c \<in> set s then Some (takeWhile (\<lambda>x. x \<noteq> c) s, tl (dropWhile (\<lambda>x. x \<noteq> c) s)) else None)"

section \<open>Integers\<close>

definition digit_val :: "nat \<Rightarrow> char \<Rightarrow> nat option" where
  "digit_val radix c =
     (let d = (if char_in 48 c 57 then of_char c - 48
               else if char_in 97 c 122 then of_char c - 97 + 10
               else if char_in 65 c 90 then of_char c - 65 + 10 else 36)
      in if d < radix then Some d else None)"

fun digits_val :: "nat \<Rightarrow> nat \<Rightarrow> string \<Rightarrow> nat option" where
  "digits_val radix acc [] = Some acc"
| "digits_val radix acc (c # s) =
     (case digit_val radix c of None \<Rightarrow> None | Some d \<Rightarrow> digits_val radix (acc * radix + d) s)"

text \<open>\<open>from_str_radix\<close> of a type with the given range: one optional sign, \<open>-\<close> only for a signed
  type, at least one digit, and a value in range.\<close>

definition parse_int :: "nat \<Rightarrow> int \<Rightarrow> int \<Rightarrow> string \<Rightarrow> int option" where
  "parse_int radix lo hi s =
     (let (sgn, ds) = (case s of
            [] \<Rightarrow> (1, [])
          | c # cs \<Rightarrow> if c = CHR ''+'' then (1, cs)
                      else if c = CHR ''-'' \<and> lo < 0 then (- 1, cs) else (1, s))
      in if ds = [] then None
         else case digits_val radix 0 ds of
                None \<Rightarrow> None
              | Some n \<Rightarrow> if lo \<le> sgn * int n \<and> sgn * int n \<le> hi then Some (sgn * int n) else None)"

definition parse_i32 :: "string \<Rightarrow> int option" where
  "parse_i32 s = parse_int 10 (- (2 ^ 31)) (2 ^ 31 - 1) s"

fun show_nat :: "nat \<Rightarrow> string" where
  "show_nat n = (if n < 10 then [char_of (48 + n)] else show_nat (n div 10) @ [char_of (48 + n mod 10)])"

declare show_nat.simps [simp del]

definition show_int :: "int \<Rightarrow> string" where
  "show_int i = (if i < 0 then CHR ''-'' # show_nat (nat (- i)) else show_nat (nat i))"

section \<open>Upper case\<close>

text \<open>\<open>str::to_uppercase\<close> on what can become an ASCII letter: the ASCII letters, and the two other
  characters whose upper case is one (dotless i, long s). Other characters are left alone; none of
  them can become part of a name the sources accept.\<close>

fun to_uppercase :: "string \<Rightarrow> string" where
  "to_uppercase (b # c # s) =
     (if b = CHR 0xC4 \<and> c = CHR 0xB1 then CHR ''I'' # to_uppercase s
      else if b = CHR 0xC5 \<and> c = CHR 0xBF then CHR ''S'' # to_uppercase s
      else (if char_in 97 b 122 then char_of (of_char b - 32 :: nat) else b) # to_uppercase (c # s))"
| "to_uppercase [b] = [if char_in 97 b 122 then char_of (of_char b - 32 :: nat) else b]"
| "to_uppercase [] = []"


section \<open>Lemmas\<close>

subsection \<open>Lossy decoding of text that ends at an ASCII character\<close>

lemma utf8_tail_le: "utf8_tail n lo hi s \<le> length s"
  by (induction n lo hi s rule: utf8_tail.induct) auto

lemma utf8_second_ge: "0x80 \<le> fst (utf8_second b)"
  by (simp add: utf8_second_def)

lemma utf8_tail_append_ascii:
  "0x80 \<le> lo \<Longrightarrow> of_char c < (0x80 :: nat) \<Longrightarrow> utf8_tail n lo hi (s @ c # t) = utf8_tail n lo hi s"
proof (induction n lo hi s rule: utf8_tail.induct)
  case (2 n lo hi)
  then show ?case by (simp add: char_in_def)
qed auto

lemma utf8_lossy_append_ascii:
  "of_char c < (0x80 :: nat) \<Longrightarrow> utf8_lossy (s @ c # t) = utf8_lossy s @ c # utf8_lossy t"
proof (induction s rule: utf8_lossy.induct)
  case 1
  then show ?case by (cases "utf8_second c") (simp add: utf8_width_def)
next
  case (2 b s)
  obtain lo hi where sec: "utf8_second b = (lo, hi)" by (cases "utf8_second b") auto
  have lo: "0x80 \<le> lo" using utf8_second_ge [of b] by (simp add: sec)
  let ?n = "utf8_tail (utf8_width b - 1) lo hi s"
  have n: "utf8_tail (utf8_width b - 1) lo hi (s @ c # t) = ?n"
    by (rule utf8_tail_append_ascii [OF lo 2(3)])
  have le: "?n \<le> length s" by (rule utf8_tail_le)
  have tl: "utf8_lossy (drop ?n s @ c # t) = utf8_lossy (drop ?n s) @ c # utf8_lossy t"
  proof (cases "0 < utf8_width b \<and> ?n = utf8_width b - 1")
    case True
    then show ?thesis by (intro "2.IH"(1) [OF refl sec [symmetric] refl refl _ 2(3)])
  next
    case False
    then show ?thesis by (intro "2.IH"(2) [OF refl sec [symmetric] refl refl _ 2(3)])
  qed
  have td: "take ?n (s @ c # t) = take ?n s" "drop ?n (s @ c # t) = drop ?n s @ c # t"
    using le by simp_all
  have step: "utf8_lossy ((b # s) @ c # t) =
      (if 0 < utf8_width b \<and> ?n = utf8_width b - 1 then b # take ?n s @ utf8_lossy (drop ?n s @ c # t)
       else REPLACEMENT @ utf8_lossy (drop ?n s @ c # t))"
    by (simp only: append_Cons utf8_lossy.simps Let_def sec prod.case n td)
  have "utf8_lossy (b # s) =
      (if 0 < utf8_width b \<and> ?n = utf8_width b - 1 then b # take ?n s @ utf8_lossy (drop ?n s)
       else REPLACEMENT @ utf8_lossy (drop ?n s))"
    by (simp only: utf8_lossy.simps Let_def sec prod.case)
  then show ?case unfolding step tl by simp
qed

lemma utf8_lossy_ascii: "\<forall>c \<in> set s. of_char c < (0x80 :: nat) \<Longrightarrow> utf8_lossy s = s"
proof (induction s)
  case (Cons c s)
  then show ?case using utf8_lossy_append_ascii [of c "[]" s] by simp
qed simp

subsection \<open>Trimming\<close>

lemma strip_any_none: "find (\<lambda>w. w \<noteq> [] \<and> starts_with s w) ws = None \<Longrightarrow> strip_any ws s = s"
  by (subst strip_any.simps) simp

lemma strip_any_fixed_iff:
  "strip_any ws s = s \<longleftrightarrow> find (\<lambda>w. w \<noteq> [] \<and> starts_with s w) ws = None"
proof
  have len: "length (strip_any ws s) \<le> length s" for ws s
  proof (induction ws s rule: strip_any.induct)
    case (1 ws s)
    then show ?case by (subst strip_any.simps) (force split: option.splits)
  qed
  assume fix_s: "strip_any ws s = s"
  show "find (\<lambda>w. w \<noteq> [] \<and> starts_with s w) ws = None"
  proof (rule ccontr)
    assume "find (\<lambda>w. w \<noteq> [] \<and> starts_with s w) ws \<noteq> None"
    then obtain w where w: "find (\<lambda>w. w \<noteq> [] \<and> starts_with s w) ws = Some w" by auto
    then have ne: "w \<noteq> []" "starts_with s w" by (auto simp: find_Some_iff)
    then have "s \<noteq> []" by (auto simp: starts_with_def)
    have "strip_any ws s = strip_any ws (drop (length w) s)"
      by (subst strip_any.simps) (simp add: w)
    then have "length s \<le> length (drop (length w) s)" using len [of ws "drop (length w) s"] fix_s by simp
    with ne \<open>s \<noteq> []\<close> show False by (cases s; cases w) simp_all
  qed
qed (rule strip_any_none)

lemma starts_with_append_stop:
  assumes "starts_with (s @ c # t) w" "c \<notin> set w"
  shows "starts_with s w"
proof -
  have w: "take (length w) (s @ c # t) = w" using assms(1) by (simp add: starts_with_def)
  have "length w \<le> length s"
  proof (rule ccontr)
    assume l: "\<not> length w \<le> length s"
    then obtain k where k: "length w - length s = Suc k" by (metis Suc_diff_Suc not_le)
    have "c \<in> set (take (length w) (s @ c # t))" using l by (simp add: k)
    with assms(2) w show False by simp
  qed
  with w show ?thesis by (simp add: starts_with_def)
qed

text \<open>No white space contains the character, so trimming at an end stops before it.\<close>

lemma strip_any_append:
  assumes "strip_any ws s = s" "\<forall>w \<in> set ws. c \<notin> set w"
  shows "strip_any ws (s @ c # t) = s @ c # t"
proof (rule strip_any_none)
  have "\<not> (w \<noteq> [] \<and> starts_with s w)" if "w \<in> set ws" for w
    using assms(1) that by (auto simp: strip_any_fixed_iff find_None_iff)
  then have "\<not> (w \<noteq> [] \<and> starts_with (s @ c # t) w)" if "w \<in> set ws" for w
    using that assms(2) starts_with_append_stop [of s c t w] by blast
  then show "find (\<lambda>w. w \<noteq> [] \<and> starts_with (s @ c # t) w) ws = None"
    by (simp add: find_None_iff)
qed

lemma white_space_free: "char_in 33 c 126 \<Longrightarrow> \<forall>w \<in> set WHITE_SPACE. c \<notin> set w"
  by (auto simp: WHITE_SPACE_def char_in_def)

lemma strip_white_left: "strip_any WHITE_SPACE s = s \<Longrightarrow> char_in 33 c 126 \<Longrightarrow>
    strip_any WHITE_SPACE (s @ c # t) = s @ c # t"
  by (rule strip_any_append) (simp_all add: white_space_free)

lemma strip_white_right: "char_in 33 c 126 \<Longrightarrow>
    strip_any (map rev WHITE_SPACE) (c # t) = c # t"
proof -
  assume c: "char_in 33 c 126"
  have "strip_any ws [] = []" for ws
    by (rule strip_any_none) (simp add: find_None_iff starts_with_def)
  moreover have "\<forall>w \<in> set (map rev WHITE_SPACE). c \<notin> set w"
    using white_space_free [OF c] by simp
  ultimately have "strip_any (map rev WHITE_SPACE) ([] @ c # t) = [] @ c # t"
    by (rule strip_any_append)
  then show ?thesis by simp
qed

lemma str_trim_ends:
  assumes "strip_any WHITE_SPACE s = s" "char_in 33 c 126" "char_in 33 d 126"
  shows "str_trim (s @ c # t @ [d]) = s @ c # t @ [d]"
  using strip_white_left [OF assms(1,2), of "t @ [d]"] strip_white_right [OF assms(3)]
  by (simp add: str_trim_def)

subsection \<open>Printed numbers parse back\<close>

lemma digits_val_append:
  "digits_val r acc (xs @ ys) = Option.bind (digits_val r acc xs) (\<lambda>a. digits_val r a ys)"
  by (induction xs arbitrary: acc) (auto split: option.splits)

lemma digit_char: "d < 10 \<Longrightarrow> digit_val 10 (char_of (48 + d)) = Some d"
  by (simp add: digit_val_def char_in_def)

lemma digits_val_show_nat: "digits_val 10 0 (show_nat n) = Some n"
proof (induction n rule: show_nat.induct)
  case (1 n)
  show ?case
  proof (cases "n < 10")
    case True
    then show ?thesis by (subst show_nat.simps) (simp add: digit_char)
  next
    case False
    with 1 have "digits_val 10 0 (show_nat (n div 10)) = Some (n div 10)" by simp
    with False show ?thesis
      by (subst show_nat.simps) (simp add: digits_val_append digit_char)
  qed
qed

lemma show_nat_digits: "show_nat n \<noteq> [] \<and> (\<forall>c \<in> set (show_nat n). char_in 48 c 57)"
proof (induction n rule: show_nat.induct)
  case (1 n)
  then show ?case by (subst (1 2) show_nat.simps) (auto simp: char_in_def)
qed

lemma show_int_chars: "show_int i \<noteq> [] \<and> (\<forall>c \<in> set (show_int i). char_in 45 c 57)"
  using show_nat_digits [of "nat i"] show_nat_digits [of "nat (- i)"]
  by (auto simp: show_int_def char_in_def)

lemma parse_show_int:
  assumes "lo \<le> i" "i \<le> hi" "0 \<le> hi"
  shows "parse_int 10 lo hi (show_int i) = Some i"
proof (cases "i < 0")
  case True
  then show ?thesis using assms show_nat_digits [of "nat (- i)"]
    by (auto simp: parse_int_def show_int_def digits_val_show_nat)
next
  case False
  obtain c cs where c: "show_nat (nat i) = c # cs" "char_in 48 c 57"
    using show_nat_digits [of "nat i"] by (cases "show_nat (nat i)") auto
  then have "c \<noteq> CHR ''+''" "c \<noteq> CHR ''-''" by (auto simp: char_in_def)
  then show ?thesis using assms False digits_val_show_nat [of "nat i"]
    by (simp add: parse_int_def show_int_def c)
qed

lemma split_once_append: "c \<notin> set s \<Longrightarrow> split_once c (s @ c # t) = Some (s, t)"
  by (induction s) (auto simp: split_once_def)

end
