(* ===== verification/Gpio.thy ===== *)
theory Gpio
  imports Interfaces Strings
begin

text \<open>
  GPIO ports, \<open>src/peripherals/gpio.rs\<close>. The boxed closures attached to pins are functions on
  the state \<open>'s\<close> of whatever they capture; ports and pins are \<open>u8\<close> indices, here \<open>nat\<close>. The
  iteration over changed fields takes a closure in the source and returns the list of its calls
  here; its stride is always 1, 2 or 4 bits.
\<close>

section \<open>Pins and callbacks\<close>

definition NUM_PORTS :: nat where "NUM_PORTS = 11"

record pin =
  pin_port :: nat
  pin_number :: nat

definition port_index :: "char \<Rightarrow> nat res" where
  "port_index letter =
     (if of_char CHR ''A'' \<le> (of_char letter :: nat) \<and> (of_char letter :: nat) \<le> of_char CHR ''K''
      then Inr (of_char letter - of_char CHR ''A'') else Inl UnreachableCode)"

text \<open>A pin name is an optional P, the port letter and the pin number, in either case: the regular
  expression is matched greedily, so the P is a prefix whenever a letter follows it.\<close>

definition pin_captures :: "string \<Rightarrow> (char \<times> string) option" where
  "pin_captures name =
     (let letter = (\<lambda>c. char_in 65 c 90); digits = (\<lambda>s. s \<noteq> [] \<and> list_all (\<lambda>c. char_in 48 c 57) s)
      in case name of
           c # d # s \<Rightarrow>
             if c = CHR ''P'' \<and> letter d \<and> digits s then Some (d, s)
             else if letter c \<and> digits (d # s) then Some (c, d # s) else None
         | _ \<Rightarrow> None)"

definition pin_from_str :: "string \<Rightarrow> pin res" where
  "pin_from_str name =
     (case pin_captures (to_uppercase name) of
        None \<Rightarrow> Inl UnwrapFailed
      | Some (letter, digits) \<Rightarrow>
          res_bind (port_index letter) (\<lambda>port.
            case parse_int 10 0 255 digits of
              None \<Rightarrow> Inl UnwrapFailed
            | Some n \<Rightarrow> if n < 16 then Inr \<lparr>pin_port = port, pin_number = nat n\<rparr>
                        else Inl AssertFailed))"

record 's gpio_ports =
  read_callbacks :: "(nat \<times> ('s \<Rightarrow> bool \<times> 's)) list list"
  write_callbacks :: "(nat \<times> (bool \<Rightarrow> 's \<Rightarrow> 's)) list list"

definition gpio_ports_default :: "'s gpio_ports" where
  "gpio_ports_default = \<lparr>read_callbacks = replicate NUM_PORTS [],
                         write_callbacks = replicate NUM_PORTS []\<rparr>"

definition add_read_callback :: "pin \<Rightarrow> ('s \<Rightarrow> bool \<times> 's) \<Rightarrow> 's gpio_ports \<Rightarrow> 's gpio_ports res" where
  "add_read_callback p cb g =
     res_bind (index_res (read_callbacks g) (pin_port p)) (\<lambda>cbs.
       Inr (g\<lparr>read_callbacks := (read_callbacks g)[pin_port p := cbs @ [(pin_number p, cb)]]\<rparr>))"

definition add_write_callback :: "pin \<Rightarrow> (bool \<Rightarrow> 's \<Rightarrow> 's) \<Rightarrow> 's gpio_ports \<Rightarrow> 's gpio_ports res" where
  "add_write_callback p cb g =
     res_bind (index_res (write_callbacks g) (pin_port p)) (\<lambda>cbs.
       Inr (g\<lparr>write_callbacks := (write_callbacks g)[pin_port p := cbs @ [(pin_number p, cb)]]\<rparr>))"

fun run_reads :: "(nat \<times> ('s \<Rightarrow> bool \<times> 's)) list \<Rightarrow> u16 \<Rightarrow> 's \<Rightarrow> u16 \<times> 's" where
  "run_reads [] v s = (v, s)"
| "run_reads ((pin, cb) # cbs) v s =
     (let (b, s') = cb s in run_reads cbs (if b then v OR bit_mask pin else v) s')"

definition read_port :: "'s gpio_ports \<Rightarrow> nat \<Rightarrow> 's \<Rightarrow> (u16 \<times> 's) res" where
  "read_port g port s = res_map (\<lambda>cbs. run_reads cbs 0 s) (index_res (read_callbacks g) port)"

fun run_writes :: "(nat \<times> (bool \<Rightarrow> 's \<Rightarrow> 's)) list \<Rightarrow> nat \<Rightarrow> bool \<Rightarrow> 's \<Rightarrow> 's" where
  "run_writes [] pin value s = s"
| "run_writes ((pin_cb, cb) # cbs) pin value s =
     run_writes cbs pin value (if pin_cb = pin then cb value s else s)"

definition write_port :: "'s gpio_ports \<Rightarrow> nat \<Rightarrow> nat \<Rightarrow> bool \<Rightarrow> 's \<Rightarrow> 's res" where
  "write_port g port pin value s =
     res_map (\<lambda>cbs. run_writes cbs pin value s) (index_res (write_callbacks g) port)"

section \<open>Changed fields\<close>

datatype stride = Stride1 | Stride2 | Stride4

fun stride_bits :: "stride \<Rightarrow> nat" where
  "stride_bits Stride1 = 1"
| "stride_bits Stride2 = 2"
| "stride_bits Stride4 = 4"

definition stride_mask :: "stride \<Rightarrow> u8" where
  "stride_mask s = drop_bit (8 - stride_bits s) 0xFF"

lemma stride_bits_pos [simp]: "0 < stride_bits s" by (cases s) simp_all

lemma unat_and_less:
  fixes a b :: "'a::len word"
  assumes "a AND b \<noteq> a"
  shows "unat (a AND b) < unat a"
proof -
  have "a AND b \<le> a" by (rule word_and_le2)
  with assms have "a AND b < a" by simp
  then show ?thesis by (simp only: word_less_nat_alt)
qed

lemma bit_stride_mask: "bit (stride_mask s) i \<longleftrightarrow> i < stride_bits s"
proof -
  have "stride_mask s = mask (stride_bits s)"
    by (cases s) (simp_all add: stride_mask_def mask_eq_exp_minus_1)
  moreover have "stride_bits s \<le> 8" by (cases s) simp_all
  moreover have "bit (mask k :: u8) i \<longleftrightarrow> i < k" if "k \<le> 8" for k
    using that by (subst bit_mask_iff) auto
  ultimately show ?thesis by simp
qed

lemma bit_clear_field:
  "bit (c AND push_bit (p * stride_bits s) (NOT (ucast (stride_mask s))) :: u32) i \<longleftrightarrow>
     bit c i \<and> (p + 1) * stride_bits s \<le> i"
  by (cases "i < 32")
    (auto simp: bit_and_iff bit_push_bit_iff bit_not_iff bit_unsigned_iff bit_stride_mask)

lemma field_of_trailing_zero:
  fixes c :: u32 and s
  defines "p \<equiv> trailing_zeros c div stride_bits s"
  shows "p * stride_bits s \<le> trailing_zeros c" "trailing_zeros c < (p + 1) * stride_bits s"
  unfolding p_def using dividend_less_div_times [of "stride_bits s" "trailing_zeros c"] by simp_all

function iter_changes :: "stride \<Rightarrow> u32 \<Rightarrow> u32 \<Rightarrow> (nat \<times> u8) list" where
  "iter_changes s new_value changes =
     (if changes = 0 then []
      else let pin = trailing_zeros changes div stride_bits s;
               rest = iter_changes s new_value
                 (changes AND push_bit (pin * stride_bits s) (NOT (ucast (stride_mask s))))
           in if pin \<le> 16
              then (pin, ucast (drop_bit (pin * stride_bits s) new_value) AND stride_mask s) # rest
              else rest)"
  by auto
termination
proof (relation "measure (\<lambda>(s, n, c). unat c)")
  fix s n and c :: u32 and p
  assume c: "c \<noteq> 0" and p: "p = trailing_zeros c div stride_bits s"
  let ?c = "c AND push_bit (p * stride_bits s) (NOT (ucast (stride_mask s)))"
  have "bit c (trailing_zeros c)" "\<not> bit ?c (trailing_zeros c)"
    using trailing_zeros_props(2) [OF c] field_of_trailing_zero(2) [of c s]
    by (simp_all only: bit_clear_field p not_le simp_thms)
  then have "?c \<noteq> c" by metis
  then have "unat ?c < unat c" by (rule unat_and_less)
  then show "((s, n, ?c), (s, n, c)) \<in> measure (\<lambda>(s, n, c). unat c)" by simp
qed simp

declare iter_changes.simps [simp del]

definition iter_port_reg_changes :: "u32 \<Rightarrow> u32 \<Rightarrow> stride \<Rightarrow> (nat \<times> u8) list" where
  "iter_port_reg_changes old_value new_value s = iter_changes s new_value (old_value XOR new_value)"

text \<open>The field of a pin in a register.\<close>

definition pin_field :: "stride \<Rightarrow> u32 \<Rightarrow> nat \<Rightarrow> u8" where
  "pin_field s w p = ucast (drop_bit (p * stride_bits s) w) AND stride_mask s"

lemma bit_pin_field: "bit (pin_field s w p) i \<longleftrightarrow> i < stride_bits s \<and> bit w (p * stride_bits s + i)"
proof -
  have "stride_bits s \<le> 4" by (cases s) simp_all
  then show ?thesis
    by (auto simp: pin_field_def bit_and_iff bit_unsigned_iff bit_drop_bit_eq bit_stride_mask)
qed

lemma pin_field_0_iff: "pin_field s w p = 0 \<longleftrightarrow> (\<forall>i < stride_bits s. \<not> bit w (p * stride_bits s + i))"
proof
  assume "pin_field s w p = 0"
  then show "\<forall>i < stride_bits s. \<not> bit w (p * stride_bits s + i)"
    using bit_pin_field [of s w p] by (metis bit_0_eq bot_apply bot_bool_def)
next
  assume "\<forall>i < stride_bits s. \<not> bit w (p * stride_bits s + i)"
  then show "pin_field s w p = 0" by (intro word_eqI_bits) (auto simp: bit_pin_field)
qed

lemma pin_field_xor: "pin_field s (a XOR b) p = 0 \<longleftrightarrow> pin_field s a p = pin_field s b p"
proof -
  have "pin_field s a p = pin_field s b p \<longleftrightarrow> (\<forall>i. bit (pin_field s a p) i = bit (pin_field s b p) i)"
    by (metis word_eqI_bits)
  then show ?thesis by (auto simp: pin_field_0_iff bit_pin_field bit_xor_iff)
qed

lemma iter_changes_eq:
  "iter_changes s n c =
     map (\<lambda>p. (p, pin_field s n p)) (filter (\<lambda>p. p \<le> 16 \<and> pin_field s c p \<noteq> 0) [0..<32])"
proof (induction s n c rule: iter_changes.induct)
  case (1 s n c)
  show ?case
  proof (cases "c = 0")
    case True
    then show ?thesis by (simp add: iter_changes.simps pin_field_def)
  next
    case False
    let ?w = "stride_bits s" and ?r = "trailing_zeros c"
    define p where "p = ?r div ?w"
    define c' where "c' = c AND push_bit (p * ?w) (NOT (ucast (stride_mask s)))"
    note r = field_of_trailing_zero [of c s, folded p_def]
    have "?r < 32" using trailing_zeros_props(1) [OF False] by simp
    then have p32: "p < 32" unfolding p_def using div_le_dividend le_less_trans by blast
    have below: "pin_field s c q = 0" if "q < p" for q
    proof -
      have "q * ?w + i < ?r" if "i < ?w" for i
      proof -
        have "q * ?w + i < (q + 1) * ?w" using that by simp
        also have "\<dots> \<le> p * ?w" using \<open>q < p\<close> by (intro mult_le_mono1) simp
        finally show ?thesis using r(1) by simp
      qed
      then show ?thesis using trailing_zeros_props(3) [OF False] by (auto simp: pin_field_0_iff)
    qed
    have here: "pin_field s c p \<noteq> 0"
    proof -
      have "?r = p * ?w + (?r - p * ?w)" "?r - p * ?w < ?w" using r by simp_all
      then show ?thesis using trailing_zeros_props(2) [OF False] by (metis pin_field_0_iff)
    qed
    have c'_low: "pin_field s c' q = 0" if "q \<le> p" for q
    proof -
      have "q * ?w + i < (p + 1) * ?w" if "i < ?w" for i
      proof -
        have "q * ?w + i < (q + 1) * ?w" using that by simp
        also have "\<dots> \<le> (p + 1) * ?w" using \<open>q \<le> p\<close> by (intro mult_le_mono1) simp
        finally show ?thesis .
      qed
      then show ?thesis by (auto simp: pin_field_0_iff c'_def bit_clear_field not_le)
    qed
    have c'_high: "pin_field s c' q = pin_field s c q" if "p < q" for q
    proof (rule word_eqI_bits)
      fix i
      have "(p + 1) * ?w \<le> q * ?w" using that by (intro mult_le_mono1) simp
      then show "bit (pin_field s c' q) i = bit (pin_field s c q) i"
        by (auto simp: bit_pin_field c'_def bit_clear_field)
    qed
    have split: "[0..<32] = [0..<p] @ p # [Suc p..<32]"
      using p32 by (metis le_add_same_cancel1 less_imp_add_positive upt_add_eq_append upt_conv_Cons zero_le)
    have low: "filter (\<lambda>q. q \<le> 16 \<and> pin_field s d q \<noteq> 0) [0..<p] = []"
      if "\<And>q. q < p \<Longrightarrow> pin_field s d q = 0" for d using that by (auto simp: filter_empty_conv)
    have high: "filter (\<lambda>q. q \<le> 16 \<and> pin_field s c' q \<noteq> 0) [Suc p..<32] =
        filter (\<lambda>q. q \<le> 16 \<and> pin_field s c q \<noteq> 0) [Suc p..<32]"
      by (intro filter_cong) (auto simp: c'_high)
    have IH: "iter_changes s n c' =
        map (\<lambda>p. (p, pin_field s n p)) (filter (\<lambda>q. q \<le> 16 \<and> pin_field s c q \<noteq> 0) [Suc p..<32])"
      using 1 [OF False p_def, folded c'_def] low [of c'] high c'_low
      by (simp add: split)
    have "iter_changes s n c =
        (if p \<le> 16 then (p, pin_field s n p) # iter_changes s n c' else iter_changes s n c')"
      using False by (subst iter_changes.simps) (simp add: Let_def p_def c'_def pin_field_def)
    then show ?thesis unfolding IH split using low [of c] below here by simp
  qed
qed

section \<open>The register block\<close>

record gpio =
  port_letter :: char
  gpio_port :: nat
  gpio_mode :: u32
  gpio_otype :: u32
  gpio_ospeed :: u32
  gpio_pupd :: u32
  gpio_od :: u32
  gpio_lck :: u32
  gpio_afrl :: u32
  gpio_afrh :: u32

definition gpio_new :: "string \<Rightarrow> gpio option res" where
  "gpio_new name =
     (case strip_prefix name ''GPIO'' of
        None \<Rightarrow> Inr None
      | Some [] \<Rightarrow> Inl UnwrapFailed
      | Some (letter # _) \<Rightarrow>
          res_map (\<lambda>port. Some \<lparr>port_letter = letter, gpio_port = port, gpio_mode = 0, gpio_otype = 0,
             gpio_ospeed = 0, gpio_pupd = 0, gpio_od = 0, gpio_lck = 0, gpio_afrl = 0, gpio_afrh = 0\<rparr>)
            (port_index letter))"

text \<open>The names the configuration registers log; a value outside the field is \<open>unreachable!()\<close>.\<close>

definition mode_config :: "u8 \<Rightarrow> string res" where
  "mode_config v =
     (if v = 0 then Inr ''input'' else if v = 1 then Inr ''output''
      else if v = 2 then Inr ''alternate'' else if v = 3 then Inr ''analog'' else Inl UnreachableCode)"

definition otype_config :: "u8 \<Rightarrow> string res" where
  "otype_config v =
     (if v = 0 then Inr ''push-pull'' else if v = 1 then Inr ''open-drain'' else Inl UnreachableCode)"

definition speed_config :: "u8 \<Rightarrow> string res" where
  "speed_config v =
     (if v = 0 then Inr ''low'' else if v = 1 then Inr ''medium''
      else if v = 2 then Inr ''high'' else if v = 3 then Inr ''very-high'' else Inl UnreachableCode)"

definition pupd_config :: "u8 \<Rightarrow> string res" where
  "pupd_config v =
     (if v = 0 then Inr ''regular'' else if v = 1 then Inr ''pull-up''
      else if v = 2 then Inr ''pull-down'' else if v = 3 then Inr ''reserved'' else Inl UnreachableCode)"

text \<open>Run a logging closure over the changed fields; only its panics matter.\<close>

definition log_changes :: "(u8 \<Rightarrow> string res) \<Rightarrow> (nat \<times> u8) list \<Rightarrow> 'a \<Rightarrow> 'a res" where
  "log_changes config calls x = res_map (\<lambda>_. x) (fold_res (\<lambda>(p, v) _. res_map (\<lambda>_. ()) (config v)) calls ())"

definition gpio_read :: "'s gpio_ports \<Rightarrow> u32 \<Rightarrow> gpio \<Rightarrow> 's \<Rightarrow> (u32 \<times> 's) res" where
  "gpio_read ports offset g s =
     (if offset = 0x00 then Inr (gpio_mode g, s)
      else if offset = 0x04 then Inr (gpio_otype g, s)
      else if offset = 0x08 then Inr (gpio_ospeed g, s)
      else if offset = 0x0C then Inr (gpio_pupd g, s)
      else if offset = 0x10 then res_map (\<lambda>(v, s). (ucast v, s)) (read_port ports (gpio_port g) s)
      else if offset = 0x14 then Inr (gpio_od g, s)
      else if offset = 0x18 then Inr (0, s)
      else if offset = 0x1C then Inr (gpio_lck g, s)
      else if offset = 0x20 then Inr (gpio_afrl g, s)
      else if offset = 0x24 then Inr (gpio_afrh g, s)
      else Inr (0, s))"

definition gpio_write :: "'s gpio_ports \<Rightarrow> u32 \<Rightarrow> u32 \<Rightarrow> gpio \<times> 's \<Rightarrow> (gpio \<times> 's) res" where
  "gpio_write ports offset value st =
     (let g = fst st; s = snd st in
      if offset = 0x00 then
        log_changes mode_config (iter_port_reg_changes (gpio_mode g) value Stride2)
          (g\<lparr>gpio_mode := value\<rparr>, s)
      else if offset = 0x04 then
        log_changes otype_config (iter_port_reg_changes (gpio_otype g) value Stride1)
          (g\<lparr>gpio_otype := value\<rparr>, s)
      else if offset = 0x08 then
        log_changes speed_config (iter_port_reg_changes (gpio_ospeed g) value Stride2)
          (g\<lparr>gpio_ospeed := value\<rparr>, s)
      else if offset = 0x0C then
        log_changes pupd_config (iter_port_reg_changes (gpio_pupd g) value Stride2)
          (g\<lparr>gpio_pupd := value\<rparr>, s)
      else if offset = 0x10 then Inr (g, s)
      else if offset = 0x14 then
        res_map (Pair (g\<lparr>gpio_od := value\<rparr>))
          (fold_res (\<lambda>(p, v). write_port ports (gpio_port g) p (v \<noteq> 0))
             (iter_port_reg_changes (gpio_od g) value Stride1) s)
      else if offset = 0x18 then
        let reset = drop_bit 16 value; set = value AND 0xFFFF in
        res_bind (fold_res (\<lambda>(p, _). write_port ports (gpio_port g) p True)
                    (iter_port_reg_changes 0 set Stride1) s) (\<lambda>s.
        res_bind (fold_res (\<lambda>(p, _). write_port ports (gpio_port g) p False)
                    (iter_port_reg_changes 0 reset Stride1) s) (\<lambda>s.
        Inr (g\<lparr>gpio_od := (gpio_od g AND NOT reset) OR set\<rparr>, s)))
      else if offset = 0x1C then Inr (g\<lparr>gpio_lck := value\<rparr>, s)
      else if offset = 0x20 then Inr (g\<lparr>gpio_afrl := value\<rparr>, s)
      else if offset = 0x24 then Inr (g\<lparr>gpio_afrh := value\<rparr>, s)
      else Inr (g, s))"

section \<open>Lemmas\<close>

definition ports_wf :: "'s gpio_ports \<Rightarrow> bool" where
  "ports_wf g \<longleftrightarrow> length (read_callbacks g) = NUM_PORTS \<and> length (write_callbacks g) = NUM_PORTS \<and>
     (\<forall>cbs \<in> set (write_callbacks g). \<forall>(p, cb) \<in> set cbs. p < 16) \<and>
     (\<forall>cbs \<in> set (read_callbacks g). \<forall>(p, cb) \<in> set cbs. p < 16)"

lemma ports_wf_default: "ports_wf gpio_ports_default"
  by (simp add: ports_wf_def gpio_ports_default_def)

text \<open>What driving one pin of a port does to the world.\<close>

definition drive :: "'s gpio_ports \<Rightarrow> nat \<Rightarrow> nat \<Rightarrow> bool \<Rightarrow> 's \<Rightarrow> 's" where
  "drive ports port p v = run_writes (write_callbacks ports ! port) p v"

lemma write_port_ok: "ports_wf ports \<Longrightarrow> port < 11 \<Longrightarrow> write_port ports port p v s = Inr (drive ports port p v s)"
  by (simp add: write_port_def ports_wf_def drive_def NUM_PORTS_def)

lemma run_writes_other: "\<forall>(q, cb) \<in> set cbs. q \<noteq> p \<Longrightarrow> run_writes cbs p v s = s"
  by (induction cbs p v s rule: run_writes.induct) auto

lemma drive_beyond: "ports_wf ports \<Longrightarrow> port < 11 \<Longrightarrow> 16 \<le> p \<Longrightarrow> drive ports port p v s = s"
  unfolding drive_def by (rule run_writes_other) (fastforce simp: ports_wf_def NUM_PORTS_def)

lemma pin_field_1: "pin_field Stride1 w p = 0 \<longleftrightarrow> \<not> bit w p"
  by (simp add: pin_field_0_iff)

lemma iter_1: "iter_port_reg_changes old new Stride1 =
    map (\<lambda>p. (p, pin_field Stride1 new p)) (filter (\<lambda>p. p \<le> 16 \<and> bit old p \<noteq> bit new p) [0..<32])"
  by (simp add: iter_port_reg_changes_def iter_changes_eq pin_field_1 bit_xor_iff)

lemma pin_field_less: "pin_field s w p < 2 ^ stride_bits s"
proof -
  have "unat (pin_field s w p) < 2 ^ stride_bits s"
  proof -
    have "pin_field s w p = take_bit (stride_bits s) (pin_field s w p)"
      by (rule word_eqI_bits) (auto simp: bit_take_bit_iff bit_pin_field)
    then have "unat (pin_field s w p) = take_bit (stride_bits s) (unat (pin_field s w p))"
      by (metis unsigned_take_bit_eq)
    then show ?thesis by (metis take_bit_nat_less_exp)
  qed
  then show ?thesis by (cases s) (simp_all add: word_less_nat_alt)
qed

lemma filter_pins:
  "filter (\<lambda>p. p \<le> 16 \<and> Q p) [0..<32] = filter Q [0..<16] @ (if Q 16 then [16] else [])"
proof -
  have "[0..<32] = [0..<16] @ 16 # [17..<32]"
    using upt_add_eq_append [of 0 16 16] upt_conv_Cons [of 16 32] by simp
  moreover have "filter (\<lambda>p. p \<le> 16 \<and> Q p) [0..<16] = filter Q [0..<16]" by (intro filter_cong) auto
  moreover have "filter (\<lambda>p. p \<le> 16 \<and> Q p) [17..<32] = []" by (auto simp: filter_empty_conv)
  ultimately show ?thesis by simp
qed

lemma drive_all:
  assumes "ports_wf ports" "port < 11"
  shows "fold_res (\<lambda>(p, v). write_port ports port p (f p v)) 
      (map (\<lambda>p. (p, h p)) (filter (\<lambda>p. p \<le> 16 \<and> Q p) [0..<32])) s =
    Inr (fold (\<lambda>p. drive ports port p (f p (h p))) (filter Q [0..<16]) s)"
proof -
  have "fold_res (\<lambda>(p, v). write_port ports port p (f p v))
      (map (\<lambda>p. (p, h p)) (filter (\<lambda>p. p \<le> 16 \<and> Q p) [0..<32])) s =
    Inr (fold (\<lambda>(p, v). drive ports port p (f p v))
      (map (\<lambda>p. (p, h p)) (filter (\<lambda>p. p \<le> 16 \<and> Q p) [0..<32])) s)"
    by (rule fold_res_Inr) (auto simp: write_port_ok [OF assms])
  also have "\<dots> = Inr (fold (\<lambda>p. drive ports port p (f p (h p))) (filter Q [0..<16]) s)"
    by (simp add: filter_pins fold_map comp_def drive_beyond [OF assms])
  finally show ?thesis .
qed

lemma log_changes_ok:
  assumes "\<And>v. v < 2 ^ stride_bits t \<Longrightarrow> returns (config v)"
  shows "log_changes config (iter_port_reg_changes old new t) x = Inr x"
proof -
  have "fold_res (\<lambda>(p, v) _. res_map (\<lambda>_. ()) (config v)) calls () = Inr ()"
    if "\<forall>(p, v) \<in> set calls. v < 2 ^ stride_bits t" for calls :: "(nat \<times> u8) list"
    using that by (induction calls) (auto simp: returns_iff dest!: assms)
  moreover have "\<forall>(p, v) \<in> set (iter_port_reg_changes old new t). v < 2 ^ stride_bits t"
    by (auto simp: iter_port_reg_changes_def iter_changes_eq pin_field_less)
  ultimately show ?thesis by (simp add: log_changes_def)
qed

lemma u8_less_4: "v < (4 :: u8) \<Longrightarrow> v = 0 \<or> v = 1 \<or> v = 2 \<or> v = 3"
  by (auto simp: word_less_nat_alt word_unat_eq_iff)

lemma configs_ok:
  "v < 2 ^ stride_bits Stride2 \<Longrightarrow> returns (mode_config v)"
  "v < 2 ^ stride_bits Stride2 \<Longrightarrow> returns (speed_config v)"
  "v < 2 ^ stride_bits Stride2 \<Longrightarrow> returns (pupd_config v)"
  "v < 2 ^ stride_bits Stride1 \<Longrightarrow> returns (otype_config v)"
  by (auto simp: mode_config_def speed_config_def pupd_config_def otype_config_def
      dest!: u8_less_4) (auto simp: word_less_nat_alt word_unat_eq_iff)

lemma config_logs:
  "log_changes mode_config (iter_port_reg_changes old new Stride2) x = Inr x"
  "log_changes speed_config (iter_port_reg_changes old new Stride2) x = Inr x"
  "log_changes pupd_config (iter_port_reg_changes old new Stride2) x = Inr x"
  "log_changes otype_config (iter_port_reg_changes old new Stride1) x = Inr x"
  by (rule log_changes_ok, erule configs_ok)+

lemma gpio_od_write:
  assumes "ports_wf ports" "gpio_port g < 11"
  shows "gpio_write ports 0x14 v (g, s) =
      Inr (g\<lparr>gpio_od := v\<rparr>,
           fold (\<lambda>p. drive ports (gpio_port g) p (bit v p))
             (filter (\<lambda>p. bit (gpio_od g) p \<noteq> bit v p) [0..<16]) s)"
  using drive_all [OF assms, of "\<lambda>_ x. x \<noteq> 0" "pin_field Stride1 v" "\<lambda>p. bit (gpio_od g) p \<noteq> bit v p" s]
  by (simp add: gpio_write_def iter_1 pin_field_1 split_def)

lemma gpio_bsrr_write:
  assumes "ports_wf ports" "gpio_port g < 11"
  shows "gpio_write ports 0x18 v (g, s) =
      Inr (g\<lparr>gpio_od := (gpio_od g AND NOT (drop_bit 16 v)) OR (v AND 0xFFFF)\<rparr>,
           fold (\<lambda>p. drive ports (gpio_port g) p False) (filter (\<lambda>p. bit v (p + 16)) [0..<16])
             (fold (\<lambda>p. drive ports (gpio_port g) p True) (filter (bit v) [0..<16]) s))"
proof -
  have "bit (0xFFFF :: u32) p" if "p < 16" for p
  proof -
    have "(0xFFFF :: u32) = mask 16" by (simp add: mask_eq_exp_minus_1)
    then show ?thesis using that by (simp only: bit_mask_iff) simp
  qed
  then have "filter (bit (v AND 0xFFFF)) [0..<16] = filter (bit v) [0..<16]"
    by (intro filter_cong) (auto simp: bit_and_iff)
  moreover have "filter (bit (drop_bit 16 v)) [0..<16] = filter (\<lambda>p. bit v (p + 16)) [0..<16]"
    by (intro filter_cong) (auto simp: bit_drop_bit_eq add.commute)
  moreover note
    drive_all [OF assms, of "\<lambda>_ _. True" "pin_field Stride1 (v AND 0xFFFF)" "bit (v AND 0xFFFF)" s]
    drive_all [OF assms, of "\<lambda>_ _. False" "pin_field Stride1 (drop_bit 16 v)" "bit (drop_bit 16 v)"]
  ultimately show ?thesis by (simp add: gpio_write_def iter_1 Let_def split_def del: filter_append)
qed

section \<open>Properties\<close>

text \<open>The change iteration is exact. Comparing two values of a register with fields of 1, 2 or 4
  bits, the closure is called once for each field of index at most 16 that differs, in ascending
  order, with the field's new value, and for no other field; it terminates on every input.\<close>

theorem changed_fields_exact:
  "iter_port_reg_changes old_value new_value s =
     map (\<lambda>p. (p, pin_field s new_value p))
       (filter (\<lambda>p. p \<le> 16 \<and> pin_field s old_value p \<noteq> pin_field s new_value p) [0..<32])"
  by (simp add: iter_port_reg_changes_def iter_changes_eq pin_field_xor)

text \<open>C33: Output writes drive exactly the pins they should. A write to ODR calls the output closures
  of the pins whose level changes, ascending, with the new level, and of no others; a write to
  BSRR drives all set pins high and then all reset pins low, and the output register keeps the
  other pins, a pin named in both halves ending high there. No write to any register panics.\<close>

theorem gpio_output_writes:
  assumes "ports_wf ports" "gpio_port g < 11" "p < 16"
  shows "gpio_write ports 0x14 v (g, s) =
      Inr (g\<lparr>gpio_od := v\<rparr>,
           fold (\<lambda>p. drive ports (gpio_port g) p (bit v p))
             (filter (\<lambda>p. bit (gpio_od g) p \<noteq> bit v p) [0..<16]) s) \<and>
    (\<exists>g'. gpio_write ports 0x18 v (g, s) = Inr (g',
           fold (\<lambda>p. drive ports (gpio_port g) p False) (filter (\<lambda>p. bit v (p + 16)) [0..<16])
             (fold (\<lambda>p. drive ports (gpio_port g) p True) (filter (bit v) [0..<16]) s)) \<and>
       (bit (gpio_od g') p \<longleftrightarrow> bit v p \<or> bit (gpio_od g) p \<and> \<not> bit v (p + 16))) \<and>
    returns (gpio_write ports offset v (g, s))"
proof -
  have m: "bit (0xFFFF :: u32) p"
  proof -
    have "(0xFFFF :: u32) = mask 16" by (simp add: mask_eq_exp_minus_1)
    then show ?thesis using assms(3) by (simp only: bit_mask_iff) simp
  qed
  have "returns (gpio_write ports offset v (g, s))"
  proof (cases "offset = 0x14 \<or> offset = 0x18")
    case True
    then show ?thesis
      using gpio_od_write [OF assms(1,2), of v s] gpio_bsrr_write [OF assms(1,2), of v s] by fastforce
  next
    case False
    then show ?thesis by (simp add: gpio_write_def Let_def config_logs)
  qed
  then show ?thesis using assms(3) m
    by (auto simp: gpio_od_write [OF assms(1,2)] gpio_bsrr_write [OF assms(1,2)] bit_or_iff bit_and_iff
        bit_not_iff bit_drop_bit_eq add.commute)
qed

theorem gpio_output_writes_witness:
  "\<exists>g. gpio_new ''GPIOC'' = Inr (Some g) \<and>
     returns (gpio_write (gpio_ports_default :: unit gpio_ports) 0x18 0x10001 (g, ()))"
proof -
  define g where "g = \<lparr>port_letter = CHR ''C'', gpio_port = 2, gpio_mode = 0, gpio_otype = 0,
     gpio_ospeed = 0, gpio_pupd = 0, gpio_od = 0, gpio_lck = 0, gpio_afrl = 0, gpio_afrh = 0\<rparr>"
  have "gpio_new ''GPIOC'' = Inr (Some g)"
    by (simp add: gpio_new_def g_def strip_prefix_def starts_with_def port_index_def)
  then show ?thesis
    using gpio_output_writes [OF ports_wf_default, where g = g and p = 0 and v = "0x10001" and s = "()"
        and offset = "0x18"]
    by (auto simp: g_def)
qed

end
