(* ===== verification/SwSpi.thy ===== *)
theory SwSpi
  imports Gpio
begin

text \<open>
  External devices as the peripherals see them (the trait \<open>ExtDevice\<close> of
  \<open>src/ext_devices/mod.rs\<close>) and the bit-banged SPI bus on GPIO pins,
  \<open>src/peripherals/sw_spi.rs\<close>. A trait object is the record of its methods over the device state.
\<close>

section \<open>External devices\<close>

record ('a, 't, 'd) ext_device =
  dev_read :: "'a \<Rightarrow> 'd \<Rightarrow> ('t \<times> 'd) res"
  dev_write :: "'a \<Rightarrow> 't \<Rightarrow> 'd \<Rightarrow> 'd res"

text \<open>The contract of a device: on its invariant, no access panics and the invariant is kept.\<close>

locale device_contract =
  fixes dev :: "('a, 't, 'd) ext_device" and inv :: "'d \<Rightarrow> bool"
  assumes read_ok: "inv d \<Longrightarrow> \<exists>v d'. dev_read dev a d = Inr (v, d') \<and> inv d'"
    and write_ok: "inv d \<Longrightarrow> \<exists>d'. dev_write dev a v d = Inr d' \<and> inv d'"
begin

definition exchange :: "'a \<Rightarrow> 't \<Rightarrow> 'd \<Rightarrow> ('t \<times> 'd) res" where
  "exchange a v d = res_bind (dev_write dev a v d) (dev_read dev a)"

lemma exchange_ok: "inv d \<Longrightarrow> \<exists>v' d'. exchange a v d = Inr (v', d') \<and> inv d'"
  unfolding exchange_def using write_ok [of d a v] read_ok by fastforce

lemma writes_ok: "inv d \<Longrightarrow> \<exists>d'. fold_res (\<lambda>(a, v). dev_write dev a v) avs d = Inr d' \<and> inv d'"
proof (induction avs arbitrary: d)
  case (Cons av avs)
  obtain a v where av: "av = (a, v)" by (cases av)
  from write_ok [OF Cons.prems, of a v] obtain d' where "dev_write dev a v d = Inr d'" "inv d'" by blast
  with Cons.IH [of d'] show ?case by (simp add: av)
qed simp

end

section \<open>The software bus\<close>

record sw_spi =
  data_mosi :: u8
  data_miso :: u8
  bit_index :: u8
  sw_cs :: bool
  sw_clk :: bool
  sw_mosi :: bool
  sw_miso :: bool

definition sw_spi_default :: sw_spi where
  "sw_spi_default = \<lparr>data_mosi = 0, data_miso = 0, bit_index = 0, sw_cs = False, sw_clk = False,
     sw_mosi = False, sw_miso = False\<rparr>"

definition sw_xfer :: "(unit, u8, 'd) ext_device \<Rightarrow> u8 \<Rightarrow> 'd option \<Rightarrow> (u8 \<times> 'd option) res" where
  "sw_xfer dev mosi d =
     (case d of
        Some d \<Rightarrow> res_bind (dev_write dev () mosi d) (\<lambda>d.
                  res_bind (dev_read dev () d) (\<lambda>(v, d). Inr (v, Some d)))
      | None \<Rightarrow> Inr (0, None))"

definition write_cs :: "bool \<Rightarrow> sw_spi \<times> 'd option \<Rightarrow> sw_spi \<times> 'd option" where
  "write_cs value st =
     (let s = fst st;
          s = (if sw_cs s \<and> \<not> value
               then s\<lparr>data_mosi := 0, data_miso := 0, bit_index := 0, sw_clk := False,
                      sw_mosi := False, sw_miso := False\<rparr>
               else s)
      in (s\<lparr>sw_cs := value\<rparr>, snd st))"

definition write_clk ::
  "(unit, u8, 'd) ext_device \<Rightarrow> bool \<Rightarrow> sw_spi \<times> 'd option \<Rightarrow> (sw_spi \<times> 'd option) res" where
  "write_clk dev value st =
     (let s = fst st; d = snd st in
      if sw_cs s then Inr (s, d)
      else res_bind
        (if \<not> sw_clk s \<and> value then
           let s = s\<lparr>sw_miso := (data_miso s AND 0x80 \<noteq> 0), data_miso := push_bit 1 (data_miso s)\<rparr>;
               s = s\<lparr>data_mosi := push_bit 1 (data_mosi s)\<rparr>;
               s = (if sw_mosi s then s\<lparr>data_mosi := data_mosi s OR 1\<rparr> else s);
               s = s\<lparr>bit_index := bit_index s + 1\<rparr>
           in if bit_index s = 8
              then let s = s\<lparr>bit_index := 0\<rparr> in
                   res_map (\<lambda>(v, d). (s\<lparr>data_miso := v\<rparr>, d)) (sw_xfer dev (data_mosi s) d)
              else Inr (s, d)
         else Inr (s, d))
        (\<lambda>(s, d). Inr (s\<lparr>sw_clk := value\<rparr>, d)))"

definition read_miso :: "sw_spi \<times> 'd option \<Rightarrow> bool" where
  "read_miso st = (if sw_cs (fst st) then False else sw_miso (fst st))"

definition write_mosi :: "bool \<Rightarrow> sw_spi \<times> 'd option \<Rightarrow> sw_spi \<times> 'd option" where
  "write_mosi value st = (if sw_cs (fst st) then st else ((fst st)\<lparr>sw_mosi := value\<rparr>, snd st))"

text \<open>The pins' closures. Their state is the result of everything the bus has done so far, so that a
  device that panics in a closure stays panicked.\<close>

definition sw_spi_register ::
  "(unit, u8, 'd) ext_device \<Rightarrow> pin option \<Rightarrow> pin \<Rightarrow> pin \<Rightarrow> pin \<Rightarrow>
   (sw_spi \<times> 'd option) res gpio_ports \<Rightarrow> (sw_spi \<times> 'd option) res gpio_ports res" where
  "sw_spi_register dev cs clk miso mosi g =
     res_bind (case cs of None \<Rightarrow> Inr g
               | Some cs \<Rightarrow> add_write_callback cs (\<lambda>v. res_map (write_cs v)) g) (\<lambda>g.
     res_bind (add_write_callback clk (\<lambda>v st. res_bind st (write_clk dev v)) g) (\<lambda>g.
     res_bind (add_read_callback miso
       (\<lambda>st. (case st of Inl _ \<Rightarrow> False | Inr s \<Rightarrow> read_miso s, st)) g) (\<lambda>g.
     add_write_callback mosi (\<lambda>v. res_map (write_mosi v)) g)))"

section \<open>Lemmas\<close>

text \<open>What firmware does for one bit (data, clock up, sample, clock down) and for a byte.\<close>

definition send_bit ::
  "(unit, u8, 'd) ext_device \<Rightarrow> bool \<Rightarrow> sw_spi \<times> 'd option \<Rightarrow> (bool \<times> (sw_spi \<times> 'd option)) res" where
  "send_bit dev b st =
     res_bind (write_clk dev True (write_mosi b st)) (\<lambda>st1.
     res_map (Pair (read_miso st1)) (write_clk dev False st1))"

fun send_bits ::
  "(unit, u8, 'd) ext_device \<Rightarrow> bool list \<Rightarrow> sw_spi \<times> 'd option \<Rightarrow> (bool list \<times> (sw_spi \<times> 'd option)) res" where
  "send_bits dev [] st = Inr ([], st)"
| "send_bits dev (b # bs) st =
     res_bind (send_bit dev b st) (\<lambda>(m, st1).
     res_map (\<lambda>(ms, st2). (m # ms, st2)) (send_bits dev bs st1))"

definition msb_bits :: "u8 \<Rightarrow> bool list" where
  "msb_bits v = map (\<lambda>i. bit v (7 - i)) [0..<8]"

fun send_bytes ::
  "(unit, u8, 'd) ext_device \<Rightarrow> u8 list \<Rightarrow> sw_spi \<times> 'd option \<Rightarrow>
   (bool list list \<times> (sw_spi \<times> 'd option)) res" where
  "send_bytes dev [] st = Inr ([], st)"
| "send_bytes dev (b # bs) st =
     res_bind (send_bits dev (msb_bits b) st) (\<lambda>(m, st1).
     res_map (\<lambda>(ms, st2). (m # ms, st2)) (send_bytes dev bs st1))"

fun exchanges :: "(unit, u8, 'd) ext_device \<Rightarrow> u8 list \<Rightarrow> 'd \<Rightarrow> (u8 list \<times> 'd) res" where
  "exchanges dev [] d = Inr ([], d)"
| "exchanges dev (b # bs) d =
     res_bind (dev_write dev () b d) (\<lambda>d.
     res_bind (dev_read dev () d) (\<lambda>(r, d).
     res_map (\<lambda>(rs, d). (r # rs, d)) (exchanges dev bs d)))"

text \<open>Between bits the clock is low and the bus is selected.\<close>

definition bus_idle :: "sw_spi \<Rightarrow> bool" where
  "bus_idle s \<longleftrightarrow> \<not> sw_cs s \<and> \<not> sw_clk s"

definition shift_in :: "u8 \<Rightarrow> bool \<Rightarrow> u8" where
  "shift_in w b = push_bit 1 w OR (if b then 1 else 0)"

lemma bit_0x80 [simp]: "w AND 0x80 = 0 \<longleftrightarrow> \<not> bit w 7" for w :: u8
  using and_exp_eq_0_iff_not_bit [of w 7] by simp

lemma send_bit_step:
  assumes "bus_idle s" "bit_index s + 1 \<noteq> 8"
  shows "\<exists>s'. send_bit dev b (s, d) = Inr (bit (data_miso s) 7, (s', d)) \<and> bus_idle s' \<and>
    data_mosi s' = shift_in (data_mosi s) b \<and> data_miso s' = push_bit 1 (data_miso s) \<and>
    bit_index s' = bit_index s + 1"
  using assms by (auto simp: send_bit_def write_clk_def write_mosi_def read_miso_def bus_idle_def
      shift_in_def Let_def)

lemma send_bit_last:
  assumes "bus_idle s" "bit_index s + 1 = 8"
    and "dev_write dev () (shift_in (data_mosi s) b) d = Inr d1" "dev_read dev () d1 = Inr (r, d2)"
  shows "\<exists>s'. send_bit dev b (s, Some d) = Inr (bit (data_miso s) 7, (s', Some d2)) \<and> bus_idle s' \<and>
    data_miso s' = r \<and> bit_index s' = 0"
proof -
  let ?s1 = "s\<lparr>sw_mosi := b, sw_miso := bit (data_miso s) 7, data_mosi := shift_in (data_mosi s) b,
      bit_index := 0, data_miso := r, sw_clk := True\<rparr>"
  have "write_clk dev True (write_mosi b (s, Some d)) = Inr (?s1, Some d2)"
    using assms by (cases b) (simp_all add: write_clk_def write_mosi_def bus_idle_def sw_xfer_def
        shift_in_def Let_def)
  moreover have "write_clk dev False (?s1, Some d2) = Inr (?s1\<lparr>sw_clk := False\<rparr>, Some d2)"
    using assms by (simp add: write_clk_def bus_idle_def Let_def)
  ultimately show ?thesis using assms
    by (simp add: send_bit_def read_miso_def bus_idle_def)
qed

lemma bit_shift_in: "bit (shift_in w b) i \<longleftrightarrow> i < 8 \<and> (if i = 0 then b else bit w (i - 1))"
proof -
  have "bit (shift_in w b) i \<longleftrightarrow> bit (push_bit 1 w) i \<or> b \<and> i = 0"
    unfolding shift_in_def bit_or_iff by (auto simp: bit_1_iff)
  then show ?thesis unfolding bit_push_bit_iff by auto
qed

lemma bit_foldl_shift_in:
  "bit (foldl shift_in w bs) i \<longleftrightarrow>
     i < 8 \<and> (if i < length bs then bs ! (length bs - 1 - i) else bit w (i - length bs))"
proof (induction bs arbitrary: i rule: rev_induct)
  case (snoc b bs)
  show ?case
    by (cases i) (auto simp: bit_shift_in snoc nth_append)
qed (auto dest: bit_imp_less)

lemma foldl_msb_bits: "foldl shift_in w (msb_bits v) = v"
  by (rule word_eqI_bits) (auto simp: bit_foldl_shift_in msb_bits_def)

lemma send_bits_partial:
  assumes "bus_idle s" "unat (bit_index s) + length bs < 8"
  shows "\<exists>s'. send_bits dev bs (s, d) =
      Inr (map (\<lambda>j. bit (data_miso s) (7 - j)) [0..<length bs], (s', d)) \<and> bus_idle s' \<and>
    data_mosi s' = foldl shift_in (data_mosi s) bs \<and>
    data_miso s' = push_bit (length bs) (data_miso s) \<and>
    unat (bit_index s') = unat (bit_index s) + length bs"
  using assms
proof (induction bs arbitrary: s)
  case (Cons b bs)
  have u: "unat (bit_index s + 1) = unat (bit_index s) + 1"
    using Cons.prems(2) by (subst unat_add_lem [THEN iffD1]) simp_all
  then have "bit_index s + 1 \<noteq> 8" using Cons.prems(2) by (auto simp: word_unat_eq_iff)
  from send_bit_step [OF Cons.prems(1) this, of dev b d] obtain s1 where
    s1: "send_bit dev b (s, d) = Inr (bit (data_miso s) 7, (s1, d))" "bus_idle s1"
    "data_mosi s1 = shift_in (data_mosi s) b" "data_miso s1 = push_bit 1 (data_miso s)"
    "bit_index s1 = bit_index s + 1" by blast
  from Cons.IH [OF s1(2)] Cons.prems(2) u s1(5) obtain s2 where
    s2: "send_bits dev bs (s1, d) = Inr (map (\<lambda>j. bit (data_miso s1) (7 - j)) [0..<length bs], (s2, d))"
    "bus_idle s2" "data_mosi s2 = foldl shift_in (data_mosi s1) bs"
    "data_miso s2 = push_bit (length bs) (data_miso s1)"
    "unat (bit_index s2) = unat (bit_index s1) + length bs" by fastforce
  have "map (\<lambda>j. bit (data_miso s) (7 - j)) [0..<length (b # bs)] =
      bit (data_miso s) 7 # map (\<lambda>j. bit (data_miso s1) (7 - j)) [0..<length bs]"
  proof (rule nth_equalityI)
    fix j assume "j < length (map (\<lambda>j. bit (data_miso s) (7 - j)) [0..<length (b # bs)])"
    then have j: "j < Suc (length bs)" by simp
    have "bit (push_bit 1 (data_miso s)) (7 - k) \<longleftrightarrow> bit (data_miso s) (7 - Suc k)" if "k < length bs" for k
      unfolding bit_push_bit_iff using that Cons.prems(2) by auto
    with j show "map (\<lambda>j. bit (data_miso s) (7 - j)) [0..<length (b # bs)] ! j =
      (bit (data_miso s) 7 # map (\<lambda>j. bit (data_miso s1) (7 - j)) [0..<length bs]) ! j"
      unfolding s1(4) by (cases j) (simp_all del: push_bit_of_1 upt_Suc)
  qed simp
  then show ?case using s1 s2 u by (intro exI [of _ s2]) (simp add: push_bit_push_bit)
qed (simp add: push_bit_eq_mult)

lemma send_bits_append:
  "send_bits dev (xs @ ys) st =
     res_bind (send_bits dev xs st) (\<lambda>(m, st1). res_map (\<lambda>(ms, st2). (m @ ms, st2)) (send_bits dev ys st1))"
proof (induction xs arbitrary: st)
  case Nil
  then show ?case by (cases "send_bits dev ys st") auto
next
  case (Cons x xs)
  show ?case
  proof (cases "send_bit dev x st")
    case (Inr p)
    obtain m st1 where p: "p = (m, st1)" by (cases p)
    show ?thesis
    proof (cases "send_bits dev xs st1")
      case Inr': (Inr q)
      obtain ms st2 where q: "q = (ms, st2)" by (cases q)
      show ?thesis using Inr Inr' p q Cons [of st1]
        by (cases "send_bits dev ys st2") (auto simp: split_def)
    qed (simp add: Inr p Cons)
  qed simp
qed

lemma send_byte:
  assumes "bus_idle s" "bit_index s = 0"
    and "dev_write dev () b d = Inr d1" "dev_read dev () d1 = Inr (r, d2)"
  shows "\<exists>s'. send_bits dev (msb_bits b) (s, Some d) =
      Inr (msb_bits (data_miso s), (s', Some d2)) \<and> bus_idle s' \<and> bit_index s' = 0 \<and> data_miso s' = r"
proof -
  let ?xs = "map (\<lambda>i. bit b (7 - i)) [0..<7]"
  have bits: "msb_bits v = map (\<lambda>i. bit v (7 - i)) [0..<7] @ [bit v 0]" for v
  proof -
    have "[0..<8] = [0..<7] @ [7 :: nat]" using upt_Suc_append [of 0 7] by simp
    then show ?thesis by (simp add: msb_bits_def)
  qed
  from send_bits_partial [OF assms(1), of ?xs dev "Some d"] assms(2) obtain s1 where
    s1: "send_bits dev ?xs (s, Some d) = Inr (map (\<lambda>j. bit (data_miso s) (7 - j)) [0..<7], (s1, Some d))"
    "bus_idle s1" "data_mosi s1 = foldl shift_in (data_mosi s) ?xs"
    "data_miso s1 = push_bit 7 (data_miso s)" "unat (bit_index s1) = 7" by auto
  have sent: "shift_in (data_mosi s1) (bit b 0) = b"
    using foldl_msb_bits [of "data_mosi s" b] s1(3) by (simp add: bits)
  have "bit_index s1 + 1 = 8"
  proof -
    from s1(5) have "bit_index s1 = 7" by (simp add: word_unat_eq_iff)
    then show ?thesis by simp
  qed
  moreover have "bit (data_miso s1) 7 = bit (data_miso s) 0"
    unfolding s1(4) by (simp only: bit_push_bit_iff) simp
  ultimately obtain s2 where
    "send_bit dev (bit b 0) (s1, Some d) = Inr (bit (data_miso s) 0, (s2, Some d2))" "bus_idle s2"
    "data_miso s2 = r" "bit_index s2 = 0"
    using send_bit_last [OF s1(2), of dev "bit b 0" d d1 r d2] assms(3,4) sent by auto
  with s1 show ?thesis by (simp add: bits send_bits_append)
qed

lemma send_bytes_exchanges:
  "bus_idle s \<Longrightarrow> bit_index s = 0 \<Longrightarrow> exchanges dev bs d = Inr (rs, d') \<Longrightarrow>
   \<exists>s'. send_bytes dev bs (s, Some d) =
     Inr (map msb_bits (butlast (data_miso s # rs)), (s', Some d')) \<and> bus_idle s' \<and>
     bit_index s' = 0 \<and> data_miso s' = last (data_miso s # rs)"
proof (induction bs arbitrary: s d rs)
  case (Cons b bs)
  then obtain d1 r d2 rs' where x: "dev_write dev () b d = Inr d1" "dev_read dev () d1 = Inr (r, d2)"
    "exchanges dev bs d2 = Inr (rs', d')" "rs = r # rs'" by (auto simp: split_def)
  from send_byte [OF Cons.prems(1,2) x(1,2)] obtain s1 where
    s1: "send_bits dev (msb_bits b) (s, Some d) = Inr (msb_bits (data_miso s), (s1, Some d2))"
    "bus_idle s1" "bit_index s1 = 0" "data_miso s1 = r" by blast
  from Cons.IH [OF s1(2,3) x(3)] s1 x(4) show ?case by auto
qed auto

section \<open>Properties\<close>

text \<open>C32: The software bus moves whole bytes, most significant bit first, in both directions. After
  chip select goes high and low, whatever was clocked before, clocking out bytes bit by bit makes
  the device see exactly those bytes, each followed by one read, and nothing else; the levels
  firmware samples are a zero byte and then the device's replies, one byte late.\<close>

theorem sw_spi_transfers_bytes:
  assumes "exchanges dev bs d = Inr (rs, d')"
  shows "\<exists>s'. send_bytes dev bs (write_cs False (write_cs True (s, Some d))) =
      Inr (map msb_bits (butlast (0 # rs)), (s', Some d')) \<and>
    bit_index s' = 0 \<and> data_miso s' = last (0 # rs)"
proof -
  obtain s0 where s0: "write_cs False (write_cs True (s, Some d)) = (s0, Some d)"
    "bus_idle s0" "bit_index s0 = 0" "data_miso s0 = 0"
    by (auto simp: write_cs_def bus_idle_def Let_def)
  from send_bytes_exchanges [OF s0(2,3) assms] s0(1,4) show ?thesis by auto
qed

text \<open>An echo device, for the witness: it answers with the last byte written.\<close>

definition echo_dev :: "(unit, u8, u8) ext_device" where
  "echo_dev = \<lparr>dev_read = (\<lambda>_ d. Inr (d, d)), dev_write = (\<lambda>_ v d. Inr v)\<rparr>"

theorem sw_spi_transfers_bytes_witness:
  "\<exists>s'. send_bytes echo_dev [0xA5, 0x3C] (write_cs False (write_cs True (sw_spi_default, Some 0))) =
      Inr ([msb_bits 0, msb_bits 0xA5], (s', Some 0x3C))"
  using sw_spi_transfers_bytes [of echo_dev "[0xA5, 0x3C]" 0 "[0xA5, 0x3C]" "0x3C" sw_spi_default]
  by (auto simp: echo_dev_def)

end
