(* ===== verification/SerialDevices.thy ===== *)
theory SerialDevices
  imports SwSpi
begin

text \<open>
  The byte-serial side: the SPI NOR flash (\<open>src/ext_devices/spi_flash.rs\<close>) and the USART probe
  (\<open>src/ext_devices/usart_probe.rs\<close>) as external devices, and the SPI and USART peripherals
  (\<open>src/peripherals/spi.rs\<close>, \<open>src/peripherals/usart.rs\<close>) that talk to whichever device is attached.
\<close>

section \<open>SPI flash\<close>

record spi_flash_config =
  sf_peripheral :: string
  sf_jedec_id :: u32
  sf_file :: string
  sf_size :: nat

datatype flash_command = ReadData | ReadJEDECID | ReadDeviceID

datatype flash_reply = FileContent nat | ReplyData "u8 list"

record spi_flash =
  sf_config :: spi_flash_config
  sf_name :: string
  sf_content :: "u8 list"
  sf_reply :: "flash_reply option"
  sf_cmd :: "(flash_command \<times> u8 list) option"

text \<open>\<open>Vec::resize(n, 0)\<close>, and the constructor on the bytes \<open>util::read_file\<close> returns.\<close>

definition resize0 :: "nat \<Rightarrow> u8 list \<Rightarrow> u8 list" where
  "resize0 n xs = take n xs @ replicate (n - length xs) 0"

definition spi_flash_new :: "u8 list \<Rightarrow> spi_flash_config \<Rightarrow> spi_flash" where
  "spi_flash_new file config = \<lparr>sf_config = config, sf_name = '''',
     sf_content = resize0 (sf_size config) file, sf_reply = None, sf_cmd = None\<rparr>"

definition flash_command_from :: "u8 \<Rightarrow> flash_command option" where
  "flash_command_from v =
     (if v = 0x03 then Some ReadData else if v = 0x9F then Some ReadJEDECID
      else if v = 0x90 then Some ReadDeviceID else None)"

definition try_process_command ::
  "flash_command \<Rightarrow> u8 list \<Rightarrow> spi_flash \<Rightarrow> flash_reply option res" where
  "try_process_command cmd args f =
     (case (cmd, args) of
        (ReadJEDECID, []) \<Rightarrow> Inr (Some (ReplyData (to_be_bytes (sf_jedec_id (sf_config f)))))
      | (ReadDeviceID, []) \<Rightarrow> Inr (Some (ReplyData (to_be_bytes 0xAABBCC)))
      | (ReadData, [a, b, c]) \<Rightarrow>
          let addr = unat (from_be_bytes [0, a, b, c]); size = sf_size (sf_config f) in
          if size \<le> addr
          then (if size = 0 then Inl DivByZero else Inr (Some (FileContent (addr mod size))))
          else Inr (Some (FileContent addr))
      | _ \<Rightarrow> Inr None)"

definition spi_flash_read :: "unit \<Rightarrow> spi_flash \<Rightarrow> (u8 \<times> spi_flash) res" where
  "spi_flash_read addr f =
     (case sf_reply f of
        Some (ReplyData []) \<Rightarrow> Inr (0, f)
      | Some (ReplyData (b # bs)) \<Rightarrow> Inr (b, f\<lparr>sf_reply := Some (ReplyData bs)\<rparr>)
      | Some (FileContent a) \<Rightarrow>
          res_bind (index_res (sf_content f) a) (\<lambda>c.
            if sf_size (sf_config f) = 0 then Inl DivByZero
            else Inr (c, f\<lparr>sf_reply := Some (FileContent ((a + 1) mod sf_size (sf_config f)))\<rparr>))
      | None \<Rightarrow> Inr (0, f))"

definition spi_flash_write :: "unit \<Rightarrow> u8 \<Rightarrow> spi_flash \<Rightarrow> spi_flash res" where
  "spi_flash_write addr v f =
     (case sf_cmd f of
        Some (cmd, args) \<Rightarrow>
          let args = args @ [v] in
          res_map (\<lambda>r. case r of
              Some reply \<Rightarrow> f\<lparr>sf_cmd := None, sf_reply := Some reply\<rparr>
            | None \<Rightarrow> f\<lparr>sf_cmd := Some (cmd, args)\<rparr>) (try_process_command cmd args f)
      | None \<Rightarrow>
          (case flash_command_from v of
             Some cmd \<Rightarrow>
               res_map (\<lambda>r. case r of
                   Some reply \<Rightarrow> f\<lparr>sf_reply := Some reply\<rparr>
                 | None \<Rightarrow> f\<lparr>sf_cmd := Some (cmd, [])\<rparr>) (try_process_command cmd [] f)
           | None \<Rightarrow> Inr f))"

definition spi_flash_dev :: "(unit, u8, spi_flash) ext_device" where
  "spi_flash_dev = \<lparr>dev_read = spi_flash_read, dev_write = spi_flash_write\<rparr>"

fun reply_ok :: "nat \<Rightarrow> flash_reply option \<Rightarrow> bool" where
  "reply_ok n (Some (FileContent a)) \<longleftrightarrow> a < n"
| "reply_ok n _ \<longleftrightarrow> True"

definition flash_inv :: "spi_flash \<Rightarrow> bool" where
  "flash_inv f \<longleftrightarrow> 0 < sf_size (sf_config f) \<and> length (sf_content f) = sf_size (sf_config f) \<and>
     reply_ok (sf_size (sf_config f)) (sf_reply f)"

lemma flash_inv_new: "0 < sf_size c \<Longrightarrow> flash_inv (spi_flash_new file c)"
  by (simp add: flash_inv_def spi_flash_new_def resize0_def)

lemma try_process_ok:
  assumes "flash_inv f"
  shows "\<exists>r. try_process_command cmd args f = Inr r \<and>
    reply_ok (sf_size (sf_config f)) r"
  using assms by (auto simp: try_process_command_def flash_inv_def Let_def
      split: flash_command.split list.split)

lemma spi_flash_read_ok:
  assumes inv: "flash_inv f"
  shows "\<exists>v f'. spi_flash_read a f = Inr (v, f') \<and> flash_inv f'"
proof (cases "sf_reply f")
  case None
  then show ?thesis using inv by (simp add: spi_flash_read_def)
next
  case (Some r)
  show ?thesis
  proof (cases r)
    case (FileContent a)
    then show ?thesis using inv Some by (simp add: spi_flash_read_def flash_inv_def)
  next
    case (ReplyData bs)
    then show ?thesis using inv Some by (cases bs) (simp_all add: spi_flash_read_def flash_inv_def)
  qed
qed

lemma spi_flash_write_ok:
  assumes inv: "flash_inv f"
  shows "\<exists>f'. spi_flash_write a v f = Inr f' \<and> flash_inv f'"
proof (cases "sf_cmd f")
  case None
  show ?thesis
  proof (cases "flash_command_from v")
    case (Some cmd)
    from try_process_ok [OF inv, of cmd "[]"] obtain r where
      "try_process_command cmd [] f = Inr r"
      "reply_ok (sf_size (sf_config f)) r" by blast
    with None Some inv show ?thesis by (cases r) (simp_all add: spi_flash_write_def flash_inv_def)
  qed (use None inv in \<open>simp add: spi_flash_write_def\<close>)
next
  case (Some ca)
  obtain cmd args where ca: "ca = (cmd, args)" by (cases ca)
  from try_process_ok [OF inv, of cmd "args @ [v]"] obtain r where
    "try_process_command cmd (args @ [v]) f = Inr r"
    "reply_ok (sf_size (sf_config f)) r" by blast
  with ca Some inv show ?thesis by (cases r) (simp_all add: spi_flash_write_def flash_inv_def Let_def)
qed

interpretation flash_contract: device_contract spi_flash_dev flash_inv
proof
  fix a d assume inv: "flash_inv d"
  then show "\<exists>v d'. dev_read spi_flash_dev a d = Inr (v, d') \<and> flash_inv d'"
    by (simp add: spi_flash_dev_def spi_flash_read_ok)
next
  fix a v d assume inv: "flash_inv d"
  show "\<exists>d'. dev_write spi_flash_dev a v d = Inr d' \<and> flash_inv d'"
    by (simp add: spi_flash_dev_def spi_flash_write_ok [OF inv])
qed

section \<open>USART probe\<close>

record usart_probe =
  up_peripheral :: string
  up_name :: string
  up_rx :: "u8 list"

definition usart_probe_new :: "string \<Rightarrow> usart_probe" where
  "usart_probe_new peripheral = \<lparr>up_peripheral = peripheral, up_name = '''', up_rx = []\<rparr>"

definition usart_probe_read :: "unit \<Rightarrow> usart_probe \<Rightarrow> (u8 \<times> usart_probe) res" where
  "usart_probe_read addr p = Inr (0, p)"

definition usart_probe_write :: "unit \<Rightarrow> u8 \<Rightarrow> usart_probe \<Rightarrow> usart_probe res" where
  "usart_probe_write addr v p =
     (if v = 0x0a then Inr (p\<lparr>up_rx := []\<rparr>) else Inr (p\<lparr>up_rx := up_rx p @ [v]\<rparr>))"

definition usart_probe_dev :: "(unit, u8, usart_probe) ext_device" where
  "usart_probe_dev = \<lparr>dev_read = usart_probe_read, dev_write = usart_probe_write\<rparr>"

interpretation probe_contract: device_contract usart_probe_dev "\<lambda>_. True"
  by unfold_locales (simp_all add: usart_probe_dev_def usart_probe_read_def usart_probe_write_def)

section \<open>SPI peripheral\<close>

record spi =
  spi_name :: string
  spi_cr1 :: u32
  rx_buffer :: u32
  ready_toggle :: bool

definition spi_new :: "string \<Rightarrow> string option \<Rightarrow> spi option" where
  "spi_new name device_name =
     (if starts_with name ''SPI''
      then Some \<lparr>spi_name = (case device_name of Some n \<Rightarrow> n | None \<Rightarrow> name), spi_cr1 = 0, rx_buffer = 0,
                 ready_toggle = False\<rparr>
      else None)"

definition is_16bits :: "spi \<Rightarrow> bool" where
  "is_16bits s \<longleftrightarrow> spi_cr1 s AND bit_mask 11 \<noteq> 0"

definition spi_read :: "u32 \<Rightarrow> spi \<Rightarrow> u32 \<times> spi" where
  "spi_read offset s =
     (if offset = 0x0 then (spi_cr1 s, s)
      else if offset = 0x8 then
        let s = s\<lparr>ready_toggle := \<not> ready_toggle s\<rparr> in (if ready_toggle s then 3 else 0, s)
      else if offset = 0xC then (rx_buffer s, s)
      else (0, s))"

definition spi_write ::
  "(unit, u8, 'd) ext_device \<Rightarrow> u32 \<Rightarrow> u32 \<Rightarrow> spi \<times> 'd option \<Rightarrow> (spi \<times> 'd option) res" where
  "spi_write dev offset value st =
     (let s = fst st in
      if offset = 0x0 then Inr (s\<lparr>spi_cr1 := value\<rparr>, snd st)
      else if offset = 0xC then
        (case snd st of
           None \<Rightarrow> Inr (s\<lparr>rx_buffer := 0\<rparr>, None)
         | Some d \<Rightarrow>
             if is_16bits s then
               res_bind (dev_read dev () d) (\<lambda>(h, d).
               res_bind (dev_read dev () d) (\<lambda>(l, d).
               res_bind (dev_write dev () (ucast (drop_bit 8 value)) d) (\<lambda>d.
               res_bind (dev_write dev () (ucast value) d) (\<lambda>d.
               Inr (s\<lparr>rx_buffer := push_bit 8 (ucast h) OR ucast l\<rparr>, Some d)))))
             else
               res_bind (dev_read dev () d) (\<lambda>(v, d).
               res_bind (dev_write dev () (ucast value) d) (\<lambda>d.
               Inr (s\<lparr>rx_buffer := ucast v\<rparr>, Some d))))
      else Inr st)"

section \<open>USART peripheral\<close>

record usart =
  usart_name :: string

definition usart_new :: "string \<Rightarrow> string option \<Rightarrow> usart option" where
  "usart_new name device_name =
     (if starts_with name ''USART''
      then Some \<lparr>usart_name = (case device_name of Some n \<Rightarrow> n | None \<Rightarrow> name)\<rparr> else None)"

definition usart_read :: "(unit, u8, 'd) ext_device \<Rightarrow> u32 \<Rightarrow> 'd option \<Rightarrow> (u32 \<times> 'd option) res" where
  "usart_read dev offset d =
     (if offset = 0x0 then Inr (bit_mask 7 OR bit_mask 6 OR bit_mask 5 OR bit_mask 4, d)
      else if offset = 0x4 then
        (case d of None \<Rightarrow> Inr (0, None)
         | Some d \<Rightarrow> res_map (\<lambda>(v, d). (ucast v, Some d)) (dev_read dev () d))
      else Inr (0, d))"

definition usart_write ::
  "(unit, u8, 'd) ext_device \<Rightarrow> u32 \<Rightarrow> u32 \<Rightarrow> 'd option \<Rightarrow> 'd option res" where
  "usart_write dev offset value d =
     (if offset = 0x4 then
        (case d of None \<Rightarrow> Inr None | Some d \<Rightarrow> res_map Some (dev_write dev () (ucast value) d))
      else Inr d)"

section \<open>Lemmas\<close>

text \<open>Firmware's byte transfer: write DR, then read back what came in.\<close>

fun spi_transfer ::
  "(unit, u8, 'd) ext_device \<Rightarrow> u8 list \<Rightarrow> spi \<times> 'd option \<Rightarrow> (u32 list \<times> (spi \<times> 'd option)) res" where
  "spi_transfer dev [] st = Inr ([], st)"
| "spi_transfer dev (v # vs) st =
     res_bind (spi_write dev 0xC (ucast v) st) (\<lambda>st1.
     res_map (\<lambda>(rs, st2). (fst (spi_read 0xC (fst st1)) # rs, st2)) (spi_transfer dev vs st1))"

declare spi_transfer.simps(2) [simp del]

lemma ucast_u8_u32 [simp]: "(ucast (ucast (v :: u8) :: u32) :: u8) = v"
  by (rule word_eqI_bits) (auto simp: bit_unsigned_iff)

lemma spi_step:
  "\<not> is_16bits s \<Longrightarrow> dev_read dev () d = Inr (r, d1) \<Longrightarrow> dev_write dev () v d1 = Inr d2 \<Longrightarrow>
   spi_transfer dev (v # vs) (s, Some d) =
     res_map (\<lambda>(rs, st2). (ucast r # rs, st2))
       (spi_transfer dev vs (s\<lparr>rx_buffer := ucast r\<rparr>, Some d2))"
  by (simp add: spi_transfer.simps(2) spi_write_def spi_read_def)

lemma is_16bits_rx [simp]: "is_16bits (s\<lparr>rx_buffer := x\<rparr>) = is_16bits s"
  by (simp add: is_16bits_def)

lemma spi_transfer_ok:
  assumes "flash_inv d" "\<not> is_16bits s"
  shows "\<exists>rs s' d'. spi_transfer spi_flash_dev vs (s, Some d) = Inr (rs, (s', Some d')) \<and>
    length rs = length vs \<and> flash_inv d' \<and> \<not> is_16bits s'"
  using assms
proof (induction vs arbitrary: s d)
  case (Cons v vs)
  from flash_contract.read_ok [OF Cons.prems(1)] obtain r d1 where
    r: "dev_read spi_flash_dev () d = Inr (r, d1)" "flash_inv d1" by blast
  from flash_contract.write_ok [OF r(2)] obtain d2 where
    w: "dev_write spi_flash_dev () v d1 = Inr d2" "flash_inv d2" by blast
  from Cons.IH [OF w(2), of "s\<lparr>rx_buffer := ucast r\<rparr>"] Cons.prems(2) show ?case
    unfolding spi_step [OF Cons.prems(2) r(1) w(1)] by fastforce
qed simp

lemma flash_streams:
  assumes "flash_inv d" "\<not> is_16bits s" "sf_cmd d = None" "sf_reply d = Some (FileContent a)"
    "\<forall>v \<in> set vs. flash_command_from v = None"
  shows "\<exists>st. spi_transfer spi_flash_dev vs (s, Some d) =
     Inr (map (\<lambda>i. ucast (sf_content d ! ((a + i) mod sf_size (sf_config d)))) [0..<length vs], st)"
  using assms
proof (induction vs arbitrary: s d a)
  case (Cons v vs)
  let ?n = "sf_size (sf_config d)"
  have n: "0 < ?n" "a < ?n" "length (sf_content d) = ?n" using Cons.prems by (simp_all add: flash_inv_def)
  define d1 where "d1 = d\<lparr>sf_reply := Some (FileContent ((a + 1) mod ?n))\<rparr>"
  have r: "dev_read spi_flash_dev () d = Inr (sf_content d ! a, d1)"
    using n Cons.prems(4) by (simp add: spi_flash_dev_def spi_flash_read_def d1_def)
  have w: "dev_write spi_flash_dev () v d1 = Inr d1"
    using Cons.prems(3,5) by (simp add: spi_flash_dev_def spi_flash_write_def d1_def)
  have "flash_inv d1" using Cons.prems(1) n by (simp add: d1_def flash_inv_def)
  from Cons.IH [OF this, of "s\<lparr>rx_buffer := ucast (sf_content d ! a)\<rparr>" "(a + 1) mod ?n"] Cons.prems
  obtain st where st: "spi_transfer spi_flash_dev vs (s\<lparr>rx_buffer := ucast (sf_content d ! a)\<rparr>, Some d1) =
     Inr (map (\<lambda>i. ucast (sf_content d ! (((a + 1) mod ?n + i) mod ?n))) [0..<length vs], st)"
    by (auto simp: d1_def)
  have eq: "map (\<lambda>i. ucast (sf_content d ! ((a + i) mod ?n))) [0..<length (v # vs)] =
      ucast (sf_content d ! a) # map (\<lambda>i. ucast (sf_content d ! (((a + 1) mod ?n + i) mod ?n))) [0..<length vs]"
    unfolding length_Cons map_upt_Suc using n by (simp add: mod_simps)
  show ?case unfolding spi_step [OF Cons.prems(2) r w] eq by (simp add: st)
qed simp

lemma spi_transfer_append:
  "spi_transfer dev (us @ vs) st =
     res_bind (spi_transfer dev us st) (\<lambda>(rs, st1).
     res_map (\<lambda>(qs, st2). (rs @ qs, st2)) (spi_transfer dev vs st1))"
proof (induction us arbitrary: st)
  case Nil
  then show ?case by (cases "spi_transfer dev vs st") auto
next
  case (Cons u us)
  note [simp] = spi_transfer.simps(2)
  show ?case
  proof (cases "spi_write dev 0xC (ucast u) st")
    case (Inr st1)
    show ?thesis
    proof (cases "spi_transfer dev us st1")
      case Inr': (Inr q)
      obtain rs st2 where q: "q = (rs, st2)" by (cases q)
      show ?thesis using Inr Inr' q Cons [of st1]
        by (cases "spi_transfer dev vs st2") (auto simp: split_def)
    qed (simp add: Inr Cons)
  qed simp
qed

definition flash_addr :: "u8 \<Rightarrow> u8 \<Rightarrow> u8 \<Rightarrow> nat" where
  "flash_addr a b c = unat (from_be_bytes [0, a, b, c])"

text \<open>The command phase: four bytes in, after which the device streams from the address.\<close>

lemma flash_command_phase:
  assumes "flash_inv d" "\<not> is_16bits s" "sf_cmd d = None"
  shows "\<exists>rs s' d'. spi_transfer spi_flash_dev [0x03, a, b, c] (s, Some d) = Inr (rs, (s', Some d')) \<and>
    length rs = 4 \<and> flash_inv d' \<and> \<not> is_16bits s' \<and> sf_cmd d' = None \<and>
    sf_content d' = sf_content d \<and> sf_config d' = sf_config d \<and>
    sf_reply d' = Some (FileContent (flash_addr a b c mod sf_size (sf_config d)))"
proof -
  have keep: "\<exists>r d'. dev_read spi_flash_dev () f = Inr (r, d') \<and> flash_inv d' \<and> sf_cmd d' = sf_cmd f \<and>
      sf_content d' = sf_content f \<and> sf_config d' = sf_config f" if "flash_inv f" for f
  proof (cases "sf_reply f")
    case (Some r)
    show ?thesis
    proof (cases r)
      case (FileContent a)
      then show ?thesis using that Some by (simp add: spi_flash_dev_def spi_flash_read_def flash_inv_def)
    next
      case (ReplyData bs)
      then show ?thesis using that Some
        by (cases bs) (simp_all add: spi_flash_dev_def spi_flash_read_def flash_inv_def)
    qed
  qed (use that in \<open>simp add: spi_flash_dev_def spi_flash_read_def\<close>)
  have collect: "dev_write spi_flash_dev () v f = Inr (f\<lparr>sf_cmd := Some (ReadData, args @ [v])\<rparr>)"
    if "sf_cmd f = Some (ReadData, args)" "length args < 2" for f v args
    using that by (auto simp: spi_flash_dev_def spi_flash_write_def try_process_command_def Let_def
        split: list.split)
  have start: "dev_write spi_flash_dev () 0x03 f = Inr (f\<lparr>sf_cmd := Some (ReadData, [])\<rparr>)"
    if "sf_cmd f = None" for f
    using that by (simp add: spi_flash_dev_def spi_flash_write_def flash_command_from_def
        try_process_command_def)
  have finish: "dev_write spi_flash_dev () c f = Inr (f\<lparr>sf_cmd := None,
      sf_reply := Some (FileContent (flash_addr a b c mod sf_size (sf_config f)))\<rparr>)"
    if "sf_cmd f = Some (ReadData, [a, b])" "flash_inv f" for f
    using that by (auto simp: spi_flash_dev_def spi_flash_write_def try_process_command_def Let_def
        flash_addr_def flash_inv_def)
  from keep [OF assms(1)] obtain r1 d1 where 1: "dev_read spi_flash_dev () d = Inr (r1, d1)"
    "flash_inv d1" "sf_cmd d1 = None" "sf_content d1 = sf_content d" "sf_config d1 = sf_config d"
    using assms(3) by auto
  let ?d1 = "d1\<lparr>sf_cmd := Some (ReadData, [])\<rparr>"
  have "flash_inv ?d1" using 1(2) by (simp add: flash_inv_def)
  from keep [OF this] 1 obtain r2 d2 where 2: "dev_read spi_flash_dev () ?d1 = Inr (r2, d2)"
    "flash_inv d2" "sf_cmd d2 = Some (ReadData, [])" "sf_content d2 = sf_content d"
    "sf_config d2 = sf_config d" by auto
  let ?d2 = "d2\<lparr>sf_cmd := Some (ReadData, [a])\<rparr>"
  have "flash_inv ?d2" using 2(2) by (simp add: flash_inv_def)
  from keep [OF this] 2 obtain r3 d3 where 3: "dev_read spi_flash_dev () ?d2 = Inr (r3, d3)"
    "flash_inv d3" "sf_cmd d3 = Some (ReadData, [a])" "sf_content d3 = sf_content d"
    "sf_config d3 = sf_config d" by auto
  let ?d3 = "d3\<lparr>sf_cmd := Some (ReadData, [a, b])\<rparr>"
  have "flash_inv ?d3" using 3(2) by (simp add: flash_inv_def)
  from keep [OF this] 3 obtain r4 d4 where 4: "dev_read spi_flash_dev () ?d3 = Inr (r4, d4)"
    "flash_inv d4" "sf_cmd d4 = Some (ReadData, [a, b])" "sf_content d4 = sf_content d"
    "sf_config d4 = sf_config d" by auto
  have inv4: "flash_inv (d4\<lparr>sf_cmd := None,
      sf_reply := Some (FileContent (flash_addr a b c mod sf_size (sf_config d4)))\<rparr>)"
    using 4(2) by (simp add: flash_inv_def)
  have nb: "\<not> is_16bits (s\<lparr>rx_buffer := x\<rparr>)" for x using assms(2) by simp
  note steps = spi_step [OF assms(2) 1(1) start [OF 1(3)], of "[a, b, c]"]
    spi_step [OF nb [of "ucast r1"] 2(1) collect [OF 2(3)], of a "[b, c]", simplified]
    spi_step [OF nb [of "ucast r2"] 3(1) collect [OF 3(3)], of b "[c]", simplified]
    spi_step [OF nb [of "ucast r3"] 4(1) finish [OF 4(3,2)], of "[]"]
  show ?thesis unfolding steps using inv4 4 assms(2) by simp
qed

section \<open>Properties\<close>

text \<open>Reading the flash over SPI returns its contents. From any state in which the device is not
  collecting a command, sending the read command with a 24-bit address and then any bytes that
  are not command codes never panics and delivers, from the fifth byte on, the file's bytes from
  that address, wrapping at the configured size.\<close>

theorem spi_flash_read_back:
  assumes "flash_inv d" "\<not> is_16bits s" "sf_cmd d = None"
    and "\<forall>v \<in> set vs. flash_command_from v = None"
  shows "\<exists>rs st. spi_transfer spi_flash_dev ([0x03, a, b, c] @ vs) (s, Some d) = Inr (rs, st) \<and>
    drop 4 rs = map (\<lambda>i. ucast (sf_content d ! ((flash_addr a b c + i) mod sf_size (sf_config d))))
      [0..<length vs]"
proof -
  from flash_command_phase [OF assms(1-3)] obtain rs s1 d1 where
    1: "spi_transfer spi_flash_dev [0x03, a, b, c] (s, Some d) = Inr (rs, (s1, Some d1))" "length rs = 4"
    "flash_inv d1" "\<not> is_16bits s1" "sf_cmd d1 = None" "sf_content d1 = sf_content d"
    "sf_config d1 = sf_config d"
    "sf_reply d1 = Some (FileContent (flash_addr a b c mod sf_size (sf_config d)))" by blast
  from flash_streams [OF 1(3,4,5,8) assms(4)] 1 show ?thesis
    unfolding spi_transfer_append by (auto simp: mod_simps)
qed

theorem spi_flash_read_back_witness:
  "\<exists>rs st. spi_transfer spi_flash_dev ([0x03, 0, 0, 2] @ [0xFF, 0xFF])
      (\<lparr>spi_name = ''SPI1'', spi_cr1 = 0, rx_buffer = 0, ready_toggle = False\<rparr>,
       Some (spi_flash_new [1, 2, 3] \<lparr>sf_peripheral = ''SPI1'', sf_jedec_id = 0, sf_file = ''f'', sf_size = 3\<rparr>))
      = Inr (rs, st) \<and> drop 4 rs = [3, 1]"
proof -
  define d where "d = spi_flash_new [1, 2, 3]
      \<lparr>sf_peripheral = ''SPI1'', sf_jedec_id = 0, sf_file = ''f'', sf_size = 3\<rparr>"
  have "flash_inv d" "sf_cmd d = None" "sf_content d = [1, 2, 3]" "sf_size (sf_config d) = 3"
    by (simp_all add: d_def flash_inv_new) (simp_all add: spi_flash_new_def resize0_def)
  moreover have "flash_addr 0 0 2 = 2" by (simp add: flash_addr_def from_be_bytes_def)
  moreover have "[0..<2] = [0, 1 :: nat]" by (simp add: upt_rec)
  ultimately show ?thesis
    using spi_flash_read_back [of d "\<lparr>spi_name = ''SPI1'', spi_cr1 = 0, rx_buffer = 0,
        ready_toggle = False\<rparr>" "[0xFF, 0xFF]" 0 0 2]
    by (auto simp: is_16bits_def flash_command_from_def d_def [symmetric])
qed

end
