(* ===== verification/Adc.thy ===== *)
theory Adc
  imports Gpio
begin

text \<open>
  The analog-to-digital converters, \<open>src/peripherals/adc.rs\<close>: a channel sequence programmed in
  SQR1 to SQR3 and stepped by every read of DR or by a DMA request. The millivolt source is the
  ECU I/O device, if one is configured: the argument \<open>io\<close>, a function of the pin.
\<close>

section \<open>State and registers\<close>

record adc =
  adc_cr1 :: u32
  adc_cr2 :: u32
  adc_smpr1 :: u32
  adc_smpr2 :: u32
  adc_sqr1 :: u32
  adc_sqr2 :: u32
  adc_sqr3 :: u32
  adc_sr :: u32
  sequence_index :: u32

definition CR2_SWSTART :: u32 where "CR2_SWSTART = bit_mask 30"
definition SR_EOC :: u32 where "SR_EOC = bit_mask 1"

text \<open>The pins of channels 0 to 15: PA0 to PA7, PB0, PB1, PC0 to PC5.\<close>

definition channel_pins :: "pin list" where
  "channel_pins =
     map (\<lambda>n. \<lparr>pin_port = 0, pin_number = n\<rparr>) [0, 1, 2, 3, 4, 5, 6, 7] @
     map (\<lambda>n. \<lparr>pin_port = 1, pin_number = n\<rparr>) [0, 1] @
     map (\<lambda>n. \<lparr>pin_port = 2, pin_number = n\<rparr>) [0, 1, 2, 3, 4, 5]"

definition adc_default :: adc where
  "adc_default = \<lparr>adc_cr1 = 0, adc_cr2 = 0, adc_smpr1 = 0, adc_smpr2 = 0, adc_sqr1 = 0, adc_sqr2 = 0,
     adc_sqr3 = 0, adc_sr = 0, sequence_index = 0\<rparr>"

definition adc_new :: "string \<Rightarrow> adc option" where
  "adc_new name = (if name = ''ADC1'' \<or> name = ''ADC2'' then Some adc_default else None)"

definition millivolts_to_counts :: "int \<Rightarrow> u32" where
  "millivolts_to_counts millivolts =
     (let clamped = word_of_int (max 0 (min 3300 millivolts)) :: u32 in (clamped * 4095) div 3300)"

definition num_channels :: "adc \<Rightarrow> u32" where
  "num_channels a = min ((drop_bit 20 (adc_sqr1 a) AND 0xF) + 1) 16"

definition channel_at :: "u32 \<Rightarrow> adc \<Rightarrow> u32" where
  "channel_at n a =
     (if n < 6 then drop_bit (unat n * 5) (adc_sqr3 a) AND 0x1F
      else if n < 12 then drop_bit (unat (n - 6) * 5) (adc_sqr2 a) AND 0x1F
      else drop_bit (unat (n - 12) * 5) (adc_sqr1 a) AND 0x1F)"

definition conversion :: "(pin \<Rightarrow> int) option \<Rightarrow> nat \<Rightarrow> u32" where
  "conversion io channel =
     millivolts_to_counts
       (if channel < 16
        then (case io of Some mv \<Rightarrow> mv (channel_pins ! channel) | None \<Rightarrow> 0) else 0)"

definition next_conversion_value :: "(pin \<Rightarrow> int) option \<Rightarrow> adc \<Rightarrow> u32 \<times> adc" where
  "next_conversion_value io a =
     (let n = num_channels a;
          channel = unat (channel_at (sequence_index a mod n) a)
      in (conversion io channel, a\<lparr>sequence_index := (sequence_index a + 1) mod n\<rparr>))"

definition adc_read :: "(pin \<Rightarrow> int) option \<Rightarrow> u32 \<Rightarrow> adc \<Rightarrow> u32 \<times> adc" where
  "adc_read io offset a =
     (if offset = 0x00 then (adc_sr a, a)
      else if offset = 0x04 then (adc_cr1 a, a)
      else if offset = 0x08 then (adc_cr2 a, a)
      else if offset = 0x0C then (adc_smpr1 a, a)
      else if offset = 0x10 then (adc_smpr2 a, a)
      else if offset = 0x2C then (adc_sqr1 a, a)
      else if offset = 0x30 then (adc_sqr2 a, a)
      else if offset = 0x34 then (adc_sqr3 a, a)
      else if offset = 0x4C then
        let (value, a) = next_conversion_value io a in (value, a\<lparr>adc_sr := adc_sr a OR SR_EOC\<rparr>)
      else (0, a))"

definition adc_write :: "u32 \<Rightarrow> u32 \<Rightarrow> adc \<Rightarrow> adc" where
  "adc_write offset value a =
     (if offset = 0x00 then a\<lparr>adc_sr := value\<rparr>
      else if offset = 0x04 then a\<lparr>adc_cr1 := value\<rparr>
      else if offset = 0x08 then
        let a = (if value AND CR2_SWSTART \<noteq> 0 then a\<lparr>sequence_index := 0\<rparr> else a)
        in a\<lparr>adc_cr2 := value\<rparr>
      else if offset = 0x0C then a\<lparr>adc_smpr1 := value\<rparr>
      else if offset = 0x10 then a\<lparr>adc_smpr2 := value\<rparr>
      else if offset = 0x2C then a\<lparr>adc_sqr1 := value\<rparr>
      else if offset = 0x30 then a\<lparr>adc_sqr2 := value\<rparr>
      else if offset = 0x34 then a\<lparr>adc_sqr3 := value\<rparr>
      else a)"

fun read_each :: "(pin \<Rightarrow> int) option \<Rightarrow> u32 \<Rightarrow> nat \<Rightarrow> adc \<Rightarrow> u8 list \<times> adc" where
  "read_each io offset 0 a = ([], a)"
| "read_each io offset (Suc k) a =
     (let (v, a) = adc_read io offset a; (vs, a) = read_each io offset k a in (ucast v # vs, a))"

fun convert_halfwords :: "(pin \<Rightarrow> int) option \<Rightarrow> nat \<Rightarrow> adc \<Rightarrow> u8 list \<times> adc" where
  "convert_halfwords io (Suc (Suc remaining)) a =
     (let (value, a) = next_conversion_value io a; (vs, a) = convert_halfwords io remaining a
      in (ucast (value AND 0xFF) # ucast (drop_bit 8 value AND 0xFF) # vs, a))"
| "convert_halfwords io remaining a = ([], a)"

definition dma_read_bytes :: "(pin \<Rightarrow> int) option \<Rightarrow> u32 \<Rightarrow> nat \<Rightarrow> adc \<Rightarrow> u8 list \<times> adc" where
  "dma_read_bytes io offset n a =
     (if offset \<noteq> 0x4C then read_each io offset n a else convert_halfwords io n a)"

section \<open>Interfaces provided\<close>

interpretation adc_regs: register_cells "\<lambda>c a. fst (adc_read io c a)" adc_write
  "{0x04, 0x08, 0x0C, 0x10, 0x2C, 0x30, 0x34}" "\<lambda>_ v. v" for io
  by unfold_locales (auto simp: adc_read_def adc_write_def Let_def)

section \<open>Lemmas\<close>

lemma num_channels_pos: "0 < unat (num_channels a)" "unat (num_channels a) \<le> 16"
proof -
  have "unat (drop_bit 20 (adc_sqr1 a) AND 0xF) \<le> 15"
    using word_and_le1 [of "drop_bit 20 (adc_sqr1 a)" "0xF"] by (simp add: word_le_nat_alt and.commute)
  then have "unat ((drop_bit 20 (adc_sqr1 a) AND 0xF) + 1) = unat (drop_bit 20 (adc_sqr1 a) AND 0xF) + 1"
    by (subst unat_add_lem [THEN iffD1]) simp_all
  then show "0 < unat (num_channels a)" "unat (num_channels a) \<le> 16"
    by (auto simp: num_channels_def min_def word_le_nat_alt)
qed

text \<open>The channels of successive conversions from a position of the sequence.\<close>

definition scan_value :: "(pin \<Rightarrow> int) option \<Rightarrow> adc \<Rightarrow> nat \<Rightarrow> u32" where
  "scan_value io a i =
     conversion io (unat (channel_at (of_nat ((unat (sequence_index a) + i) mod unat (num_channels a))) a))"

definition adc_inv :: "adc \<Rightarrow> bool" where
  "adc_inv a \<longleftrightarrow> unat (sequence_index a) < 16"

lemma next_conversion_scan:
  assumes "adc_inv a"
  shows "next_conversion_value io a = (scan_value io a 0,
     a\<lparr>sequence_index := of_nat (Suc (unat (sequence_index a)) mod unat (num_channels a))\<rparr>)"
proof -
  let ?n = "num_channels a" and ?i = "sequence_index a"
  have "unat (?i + 1) = unat ?i + 1"
    using assms by (subst unat_add_lem [THEN iffD1]) (simp_all add: adc_inv_def)
  then have "(?i + 1) mod ?n = of_nat (Suc (unat ?i) mod unat ?n)" by (simp add: word_arith_nat_mod)
  moreover have "?i mod ?n = of_nat (unat ?i mod unat ?n)" by (simp add: word_arith_nat_mod)
  ultimately show ?thesis by (simp add: next_conversion_value_def scan_value_def Let_def)
qed

lemma num_channels_index [simp]: "num_channels (a\<lparr>sequence_index := i\<rparr>) = num_channels a"
  "channel_at c (a\<lparr>sequence_index := i\<rparr>) = channel_at c a"
  "num_channels (a\<lparr>adc_sr := v\<rparr>) = num_channels a" "channel_at c (a\<lparr>adc_sr := v\<rparr>) = channel_at c a"
  by (simp_all add: num_channels_def channel_at_def)

lemma unat_index: "unat (of_nat (k mod unat (num_channels a)) :: u32) = k mod unat (num_channels a)"
proof -
  have "k mod unat (num_channels a) < 16"
    using num_channels_pos [of a] by (meson mod_less_divisor order_less_le_trans)
  then show ?thesis unfolding unat_of_nat by simp
qed

lemma scan_shift:
  "scan_value io (a\<lparr>sequence_index := of_nat (Suc (unat (sequence_index a)) mod unat (num_channels a))\<rparr>) i =
     scan_value io a (Suc i)"
  by (simp add: scan_value_def unat_index mod_simps)

lemma adc_inv_next:
  "adc_inv (a\<lparr>sequence_index := of_nat (k mod unat (num_channels a))\<rparr>)"
  using num_channels_pos [of a] unfolding adc_inv_def
  by (simp add: unat_index) (meson mod_less_divisor order_less_le_trans)

lemma convert_halfwords_scan:
  "adc_inv a \<Longrightarrow> fst (convert_halfwords io (2 * k) a) =
     concat (map (\<lambda>i. [ucast (scan_value io a i AND 0xFF), ucast (drop_bit 8 (scan_value io a i) AND 0xFF)]) [0..<k])"
proof (induction k arbitrary: a)
  case (Suc k)
  let ?a = "a\<lparr>sequence_index := of_nat (Suc (unat (sequence_index a)) mod unat (num_channels a))\<rparr>"
  have "2 * Suc k = Suc (Suc (2 * k))" by simp
  then have "fst (convert_halfwords io (2 * Suc k) a) =
      ucast (scan_value io a 0 AND 0xFF) # ucast (drop_bit 8 (scan_value io a 0) AND 0xFF) #
      fst (convert_halfwords io (2 * k) ?a)"
    using next_conversion_scan [OF Suc.prems] by (simp add: Let_def split_def)
  then show ?case using Suc.IH [OF adc_inv_next [of "Suc (unat (sequence_index a))" a]] unfolding map_upt_Suc by (simp add: scan_shift)
qed simp

fun dr_reads :: "(pin \<Rightarrow> int) option \<Rightarrow> nat \<Rightarrow> adc \<Rightarrow> u32 list \<times> adc" where
  "dr_reads io 0 a = ([], a)"
| "dr_reads io (Suc k) a =
     (let (v, a) = adc_read io 0x4C a; (vs, a) = dr_reads io k a in (v # vs, a))"

lemma scan_value_sr [simp]: "scan_value io (a\<lparr>adc_sr := v\<rparr>) i = scan_value io a i"
  by (simp add: scan_value_def)

lemma dr_reads_scan: "adc_inv a \<Longrightarrow> fst (dr_reads io k a) = map (scan_value io a) [0..<k]"
proof (induction k arbitrary: a)
  case (Suc k)
  let ?a = "a\<lparr>sequence_index := of_nat (Suc (unat (sequence_index a)) mod unat (num_channels a))\<rparr>"
  let ?b = "?a\<lparr>adc_sr := adc_sr a OR SR_EOC\<rparr>"
  have "adc_inv ?b" using adc_inv_next [of "Suc (unat (sequence_index a))" a] by (simp add: adc_inv_def)
  moreover have "fst (dr_reads io (Suc k) a) = scan_value io a 0 # fst (dr_reads io k ?b)"
    using next_conversion_scan [OF Suc.prems] by (simp add: adc_read_def Let_def split_def)
  ultimately show ?case using Suc.IH [of ?b] scan_shift [of io a] unfolding map_upt_Suc
    by simp
qed simp

lemma unat_counts:
  "unat (millivolts_to_counts mv) = nat (max 0 (min 3300 mv)) * 4095 div 3300"
proof -
  define c where "c = nat (max 0 (min 3300 mv))"
  have c: "c \<le> 3300" "max 0 (min 3300 mv) = int c" by (simp_all add: c_def)
  have "unat (of_nat (c * 4095) :: u32) = c * 4095" unfolding unat_of_nat using c(1) by simp
  then have "unat (of_nat c * 4095 :: u32) = c * 4095" by simp
  then show ?thesis by (simp add: millivolts_to_counts_def c(2) unat_div_distrib)
qed

section \<open>Properties\<close>

text \<open>C35: The scan order is the programmed one. After a software start, the j-th read of DR converts
  entry j modulo the sequence length of the SQR registers, whatever the sequence; and a DMA
  request for 2k bytes delivers the same k conversions, each as a low and a high byte, advancing
  once per half-word.\<close>

theorem adc_scan_sequence:
  assumes "bit v 30"
  shows "fst (dr_reads io k (adc_write 0x08 v a)) =
      map (\<lambda>j. conversion io (unat (channel_at (of_nat (j mod unat (num_channels a))) a))) [0..<k] \<and>
    fst (dma_read_bytes io 0x4C (2 * k) (adc_write 0x08 v a)) =
      concat (map (\<lambda>w. [ucast (w AND 0xFF), ucast (drop_bit 8 w AND 0xFF)])
        (fst (dr_reads io k (adc_write 0x08 v a))))"
proof -
  let ?a = "adc_write 0x08 v a"
  have a: "?a = a\<lparr>sequence_index := 0, adc_cr2 := v\<rparr>"
    using assms by (simp add: adc_write_def CR2_SWSTART_def)
  then have inv: "adc_inv ?a" by (simp add: adc_inv_def)
  have "scan_value io ?a j = conversion io (unat (channel_at (of_nat (j mod unat (num_channels a))) a))" for j
    unfolding a by (simp add: scan_value_def num_channels_def channel_at_def)
  with dr_reads_scan [OF inv] convert_halfwords_scan [OF inv] show ?thesis
    by (simp add: dma_read_bytes_def comp_def)
qed

theorem adc_scan_sequence_witness:
  "fst (dr_reads None 2 (adc_write 0x08 0x40000000 adc_default)) = [0, 0]"
proof -
  have "[0..<2] = [0, 1 :: nat]" by (simp add: upt_rec)
  moreover have "millivolts_to_counts 0 = 0" by (simp add: millivolts_to_counts_def)
  ultimately show ?thesis
    using adc_scan_sequence [of "0x40000000" None 2 adc_default] by (simp add: conversion_def)
qed

text \<open>The conversion is the 12-bit scale of the 3.3 V reference: the result is the floor of
  mV * 4095 / 3300 for inputs in range, never exceeds 4095, reaches 0 and 4095 exactly at and
  beyond the two ends, and is monotone in the input.\<close>

theorem adc_counts_scale:
  "int (unat (millivolts_to_counts mv)) = max 0 (min 3300 mv) * 4095 div 3300 \<and>
   unat (millivolts_to_counts mv) \<le> 4095 \<and>
   (unat (millivolts_to_counts mv) = 4095 \<longleftrightarrow> 3300 \<le> mv) \<and>
   unat (millivolts_to_counts mv) \<le> unat (millivolts_to_counts (mv + int k))"
proof -
  have e: "int (unat (millivolts_to_counts x)) = max 0 (min 3300 x) * 4095 div 3300" for x
    by (simp add: unat_counts zdiv_int)
  have "max 0 (min 3300 mv) * 4095 \<le> max 0 (min 3300 (mv + int k)) * 4095" by simp
  then have "int (unat (millivolts_to_counts mv)) \<le> int (unat (millivolts_to_counts (mv + int k)))"
    unfolding e by (intro zdiv_mono1) simp_all
  moreover have "int (unat (millivolts_to_counts mv)) \<le> 4095"
    unfolding e by (auto simp: max_def min_def)
  moreover have "int (unat (millivolts_to_counts mv)) = 4095 \<longleftrightarrow> 3300 \<le> mv"
    unfolding e by (auto simp: max_def min_def)
  ultimately show ?thesis using e [of mv] by linarith
qed

end
