(* ===== verification/Dma.thy ===== *)
theory Dma
  imports Interfaces
begin

text \<open>
  The DMA controllers, \<open>src/peripherals/dma.rs\<close>: eight streams, armed by a register write and
  carried out by a later poll once their deadline is reached. A transfer moves bytes between
  CPU memory and other peripherals, so it runs on the whole machine: \<open>'w\<close> is the rest of the
  system and \<open>dma_system\<close> holds the calls the source makes on it (the peripherals' DMA ports found by
  address, the engine's memory, the NVIC).
\<close>

section \<open>The rest of the system\<close>

record 'w dma_system =
  sys_peri_present :: "u32 \<Rightarrow> 'w \<Rightarrow> bool"
  sys_read_dma :: "u32 \<Rightarrow> nat \<Rightarrow> 'w \<Rightarrow> (u8 list \<times> 'w) res"
  sys_write_dma :: "u32 \<Rightarrow> u8 list \<Rightarrow> 'w \<Rightarrow> 'w res"
  sys_mem_read :: "u32 \<Rightarrow> nat \<Rightarrow> 'w \<Rightarrow> u8 list option"
  sys_mem_write :: "u32 \<Rightarrow> u8 list \<Rightarrow> 'w \<Rightarrow> 'w option"
  sys_pend :: "int \<Rightarrow> 'w \<Rightarrow> 'w res"

section \<open>Streams\<close>

datatype dir = DirRead | DirWrite | DirMemCopy | DirInvalid

record stream =
  s_cr :: u32
  s_next_cr :: "u32 option"
  s_ndtr :: u32
  s_par :: u32
  s_m0ar :: u32
  s_m1ar :: u32
  s_fcr :: u32

definition stream_default :: stream where
  "stream_default = \<lparr>s_cr = 0, s_next_cr = None, s_ndtr = 0, s_par = 0, s_m0ar = 0, s_m1ar = 0, s_fcr = 0\<rparr>"

definition stream_dir :: "stream \<Rightarrow> dir" where
  "stream_dir s =
     (let d = drop_bit 6 (s_cr s) AND 3 in
      if d = 0 then DirRead else if d = 1 then DirWrite else if d = 2 then DirMemCopy else DirInvalid)"

definition word_size_bytes :: "stream \<Rightarrow> nat" where
  "word_size_bytes s =
     (let w = drop_bit 11 (s_cr s) AND 3 in
      if w = 0 then 1 else if w = 1 then 2 else if w = 2 then 4 else 1)"

definition data_size :: "stream \<Rightarrow> nat" where
  "data_size s = word_size_bytes s * unat (s_ndtr s)"

definition data_addr :: "stream \<Rightarrow> u32" where
  "data_addr s = (if drop_bit 19 (s_cr s) AND 1 \<noteq> 0 then s_m1ar s else s_m0ar s)"

definition do_xfer :: "'w dma_system \<Rightarrow> stream \<Rightarrow> 'w \<Rightarrow> 'w res" where
  "do_xfer sys s w =
     (let dir = stream_dir s; addr = data_addr s; n = data_size s; peri_addr = s_par s;
          peri = sys_peri_present sys peri_addr w;
          (src, dst) = (case dir of
              DirRead \<Rightarrow> (peri_addr, addr)
            | DirWrite \<Rightarrow> (addr, peri_addr)
            | DirMemCopy \<Rightarrow> (peri_addr, addr)
            | DirInvalid \<Rightarrow> (0, 0))
      in res_bind
           (case dir of
              DirRead \<Rightarrow>
                (if peri then res_map (\<lambda>(buf, w). (Some buf, w)) (sys_read_dma sys peri_addr n w)
                 else Inr (None, w))
            | DirInvalid \<Rightarrow> Inr (Some [], w)
            | _ \<Rightarrow> Inr (sys_mem_read sys src n w, w))
           (\<lambda>(buf, w).
             let buf = (case buf of Some b \<Rightarrow> b | None \<Rightarrow> replicate n 0) in
             case dir of
               DirWrite \<Rightarrow> (if peri then sys_write_dma sys peri_addr buf w else Inr w)
             | DirInvalid \<Rightarrow> Inr w
             | _ \<Rightarrow> (case sys_mem_write sys dst buf w of Some w \<Rightarrow> Inr w | None \<Rightarrow> Inr w)))"

definition stream_read :: "u32 \<Rightarrow> stream \<Rightarrow> u32 \<times> stream" where
  "stream_read offset s =
     (if offset = 0x00 then
        let v = s_cr s;
            s = (case s_next_cr s of Some c \<Rightarrow> s\<lparr>s_next_cr := None, s_cr := c\<rparr> | None \<Rightarrow> s);
            s = (if stream_dir s = DirWrite \<and> data_size s = 0
                 then s\<lparr>s_next_cr := Some (s_cr s XOR 1)\<rparr> else s)
        in (v, s)
      else if offset = 0x04 then (s_ndtr s, s)
      else if offset = 0x08 then (s_par s, s)
      else if offset = 0x0c then (s_m0ar s, s)
      else if offset = 0x10 then (s_m1ar s, s)
      else if offset = 0x14 then (s_fcr s, s)
      else (0, s))"

definition stream_write :: "u32 \<Rightarrow> u32 \<Rightarrow> stream \<Rightarrow> bool \<times> stream" where
  "stream_write offset value s =
     (if offset = 0x00 then (value AND 1 \<noteq> 0, s\<lparr>s_cr := value\<rparr>)
      else if offset = 0x04 then (False, s\<lparr>s_ndtr := value AND 0xFFFF\<rparr>)
      else if offset = 0x08 then (False, s\<lparr>s_par := value\<rparr>)
      else if offset = 0x0c then (False, s\<lparr>s_m0ar := value\<rparr>)
      else if offset = 0x10 then (False, s\<lparr>s_m1ar := value\<rparr>)
      else if offset = 0x14 then (False, s\<lparr>s_fcr := value\<rparr>)
      else (False, s))"

definition finish_transfer :: "stream \<Rightarrow> stream" where
  "finish_transfer s = s\<lparr>s_cr := s_cr s AND NOT 1, s_ndtr := 0, s_next_cr := None\<rparr>"

section \<open>The controller\<close>

record dma =
  dma_name :: string
  streams :: "stream list"
  lisr :: u32
  hisr :: u32
  complete_at :: "u64 option list"
  last_now :: u64

definition dma_new :: "string \<Rightarrow> dma option" where
  "dma_new name =
     (if starts_with name ''DMA''
      then Some \<lparr>dma_name = name, streams = replicate 8 stream_default, lisr = 0, hisr = 0,
                 complete_at = replicate 8 None, last_now = 0\<rparr>
      else None)"

definition tcif_bit :: "nat \<Rightarrow> u32" where
  "tcif_bit local_index =
     (let base = (if local_index < 2 then local_index * 6 else 16 + (local_index - 2) * 6)
      in bit_mask (base + 5))"

definition TRANSFER_COMPLETE_DELAY :: u64 where "TRANSFER_COMPLETE_DELAY = 10000"

definition set_transfer_complete_flag :: "nat \<Rightarrow> dma \<Rightarrow> dma" where
  "set_transfer_complete_flag i d =
     (let b = tcif_bit (i mod 4) in
      if i < 4 then d\<lparr>lisr := lisr d OR b\<rparr> else d\<lparr>hisr := hisr d OR b\<rparr>)"

definition stream_irq :: "string \<Rightarrow> nat \<Rightarrow> int option" where
  "stream_irq name i =
     (if i < 8 \<and> name = ''DMA1'' then Some ([11, 12, 13, 14, 15, 16, 17, 47] ! i)
      else if i < 8 \<and> name = ''DMA2'' then Some ([56, 57, 58, 59, 60, 68, 69, 70] ! i)
      else None)"

definition advance_stream :: "'w dma_system \<Rightarrow> u64 \<Rightarrow> nat \<Rightarrow> dma \<times> 'w \<Rightarrow> (dma \<times> 'w) res" where
  "advance_stream sys now i st =
     (let d = fst st; w = snd st in
      if (case complete_at d ! i of Some t \<Rightarrow> t \<le> now | None \<Rightarrow> False) then
        let d = d\<lparr>complete_at := (complete_at d)[i := None]\<rparr>; s = streams d ! i in
        res_bind (do_xfer sys s w) (\<lambda>w.
        let tcie = (s_cr s AND bit_mask 4 \<noteq> 0);
            d = d\<lparr>streams := (streams d)[i := finish_transfer s]\<rparr>;
            d = set_transfer_complete_flag i d
        in if tcie
           then (case stream_irq (dma_name d) i of
                   Some irq \<Rightarrow> res_map (Pair d) (sys_pend sys irq w)
                 | None \<Rightarrow> Inr (d, w))
           else Inr (d, w))
      else Inr (d, w))"

definition advance_to :: "'w dma_system \<Rightarrow> u64 \<Rightarrow> dma \<times> 'w \<Rightarrow> (dma \<times> 'w) res" where
  "advance_to sys now st =
     fold_res (advance_stream sys now) [0..<8] ((fst st)\<lparr>last_now := now\<rparr>, snd st)"

datatype dma_access = DmaReg u32 | StreamReg nat u32

definition from_offset :: "u32 \<Rightarrow> dma_access" where
  "from_offset offset =
     (if offset < 0x28 then DmaReg offset
      else let offset = offset - 0x10 in StreamReg (unat (offset div 0x18)) (offset mod 0x18))"

definition dma_read :: "u32 \<Rightarrow> dma \<Rightarrow> (u32 \<times> dma) res" where
  "dma_read offset d =
     (case from_offset offset of
        DmaReg r \<Rightarrow> Inr (if r = 0x00 then lisr d else if r = 0x04 then hisr d else 0, d)
      | StreamReg i r \<Rightarrow>
          res_bind (index_res (streams d) i) (\<lambda>s.
          let (v, s) = stream_read r s in Inr (v, d\<lparr>streams := (streams d)[i := s]\<rparr>)))"

definition dma_write :: "u32 \<Rightarrow> u32 \<Rightarrow> dma \<Rightarrow> dma res" where
  "dma_write offset value d =
     (case from_offset offset of
        DmaReg r \<Rightarrow>
          Inr (if r = 0x08 then d\<lparr>lisr := lisr d AND NOT value\<rparr>
               else if r = 0x0c then d\<lparr>hisr := hisr d AND NOT value\<rparr> else d)
      | StreamReg i r \<Rightarrow>
          res_bind (index_res (streams d) i) (\<lambda>s.
          let (armed, s) = stream_write r value s; d = d\<lparr>streams := (streams d)[i := s]\<rparr> in
          if armed
          then res_map (\<lambda>c. d\<lparr>complete_at := c\<rparr>)
                 (update_res (complete_at d) i (Some (last_now d + TRANSFER_COMPLETE_DELAY)))
          else Inr d))"

definition dma_poll :: "'w dma_system \<Rightarrow> u64 \<Rightarrow> dma \<times> 'w \<Rightarrow> (dma \<times> 'w) res" where
  "dma_poll sys now st = advance_to sys now st"

section \<open>Interfaces provided\<close>

interpretation stream_regs: register_cells "\<lambda>c s. fst (stream_read c s)" "\<lambda>c v s. snd (stream_write c v s)"
  "{0x00, 0x04, 0x08, 0x0c, 0x10, 0x14}" "\<lambda>c v. if c = 0x04 then v AND 0xFFFF else v"
  by unfold_locales (auto simp: stream_read_def stream_write_def Let_def)

interpretation dma_low_flags: flag_register lisr "\<lambda>m d. projr (dma_write 0x08 m d)"
  "\<lambda>m d. d\<lparr>lisr := lisr d OR m\<rparr>"
  by unfold_locales (simp_all add: dma_write_def from_offset_def)

interpretation dma_high_flags: flag_register hisr "\<lambda>m d. projr (dma_write 0x0c m d)"
  "\<lambda>m d. d\<lparr>hisr := hisr d OR m\<rparr>"
  by unfold_locales (simp_all add: dma_write_def from_offset_def)

section \<open>Lemmas\<close>

definition dma_inv :: "dma \<Rightarrow> bool" where
  "dma_inv d \<longleftrightarrow> length (streams d) = 8 \<and> length (complete_at d) = 8"

lemma dma_inv_new: "dma_new name = Some d \<Longrightarrow> dma_inv d"
  by (auto simp: dma_new_def dma_inv_def split: if_splits)

definition due :: "u64 \<Rightarrow> dma \<Rightarrow> nat \<Rightarrow> bool" where
  "due now d i \<longleftrightarrow> (case complete_at d ! i of Some t \<Rightarrow> t \<le> now | None \<Rightarrow> False)"

text \<open>What a poll does to the rest of the system: the due streams' transfers and interrupts, in
  stream order.\<close>

definition complete_effect :: "'w dma_system \<Rightarrow> dma \<Rightarrow> nat \<Rightarrow> 'w \<Rightarrow> 'w res" where
  "complete_effect sys d i w =
     res_bind (do_xfer sys (streams d ! i) w) (\<lambda>w.
       if bit (s_cr (streams d ! i)) 4
       then (case stream_irq (dma_name d) i of Some irq \<Rightarrow> sys_pend sys irq w | None \<Rightarrow> Inr w)
       else Inr w)"

text \<open>The controller once the due streams below \<open>k\<close> are completed.\<close>

definition low_flags :: "u64 \<Rightarrow> nat \<Rightarrow> dma \<Rightarrow> u32" where
  "low_flags now k d = fold (\<lambda>i x. if i < 4 \<and> due now d i then x OR tcif_bit (i mod 4) else x) [0..<k] (lisr d)"

definition high_flags :: "u64 \<Rightarrow> nat \<Rightarrow> dma \<Rightarrow> u32" where
  "high_flags now k d = fold (\<lambda>i x. if 4 \<le> i \<and> due now d i then x OR tcif_bit (i mod 4) else x) [0..<k] (hisr d)"

definition completed :: "u64 \<Rightarrow> nat \<Rightarrow> dma \<Rightarrow> dma" where
  "completed now k d = d\<lparr>last_now := now,
     complete_at := map (\<lambda>i. if i < k \<and> due now d i then None else complete_at d ! i) [0..<8],
     streams := map (\<lambda>i. if i < k \<and> due now d i then finish_transfer (streams d ! i) else streams d ! i) [0..<8],
     lisr := low_flags now k d, hisr := high_flags now k d\<rparr>"

lemma completed_0:
  assumes "dma_inv d"
  shows "completed now 0 d = d\<lparr>last_now := now\<rparr>"
proof -
  have "map (\<lambda>i. complete_at d ! i) [0..<8] = complete_at d" "map (\<lambda>i. streams d ! i) [0..<8] = streams d"
    using assms map_nth [of "complete_at d"] map_nth [of "streams d"] by (simp_all add: dma_inv_def)
  then show ?thesis by (simp add: completed_def low_flags_def high_flags_def)
qed

lemma completed_keep:
  assumes "\<not> due now d k"
  shows "completed now (Suc k) d = completed now k d"
proof -
  have "i < Suc k \<and> due now d i \<longleftrightarrow> i < k \<and> due now d i" for i
    using assms by (auto simp: less_Suc_eq)
  then show ?thesis using assms by (simp add: completed_def low_flags_def high_flags_def)
qed

lemma map_update: "k < n \<Longrightarrow> (map f [0..<n])[k := v] = map (\<lambda>i. if i = k then v else f i) [0..<n]"
  by (intro nth_equalityI) (auto simp: nth_list_update)

lemma completed_step:
  assumes "k < 8" "due now d k"
  shows "completed now (Suc k) d =
     set_transfer_complete_flag k ((completed now k d)\<lparr>complete_at := (complete_at (completed now k d))[k := None],
       streams := (streams (completed now k d))[k := finish_transfer (streams d ! k)]\<rparr>)"
proof -
  have c: "(map (\<lambda>i. if i < k \<and> due now d i then None else complete_at d ! i) [0..<8])[k := None] =
      map (\<lambda>i. if i < Suc k \<and> due now d i then None else complete_at d ! i) [0..<8]"
    using assms unfolding map_update [OF assms(1)] by (intro map_cong) (auto simp: less_Suc_eq)
  have t: "(map (\<lambda>i. if i < k \<and> due now d i then finish_transfer (streams d ! i) else streams d ! i)
        [0..<8])[k := finish_transfer (streams d ! k)] =
      map (\<lambda>i. if i < Suc k \<and> due now d i then finish_transfer (streams d ! i) else streams d ! i) [0..<8]"
    using assms unfolding map_update [OF assms(1)] by (intro map_cong) (auto simp: less_Suc_eq)
  show ?thesis using assms c t
    by (simp add: completed_def set_transfer_complete_flag_def Let_def low_flags_def high_flags_def
        cong: if_cong)
qed

lemma advance_stream_step:
  assumes "k < 8"
  shows "advance_stream sys now k (completed now k d, w) =
    (if due now d k then res_map (Pair (completed now (Suc k) d)) (complete_effect sys d k w)
     else Inr (completed now (Suc k) d, w))"
proof -
  have at: "complete_at (completed now k d) ! k = complete_at d ! k"
    "streams (completed now k d) ! k = streams d ! k" "dma_name (completed now k d) = dma_name d"
    using assms by (simp_all add: completed_def)
  have nm: "dma_name (set_transfer_complete_flag k e) = dma_name e" for e
    by (simp add: set_transfer_complete_flag_def Let_def)
  show ?thesis
  proof (cases "due now d k")
    case True
    then have "(case complete_at (completed now k d) ! k of Some t \<Rightarrow> t \<le> now | None \<Rightarrow> False)"
      by (simp add: at due_def)
    then show ?thesis using True completed_step [OF assms True]
      by (cases "do_xfer sys (streams d ! k) w")
        (auto simp: advance_stream_def complete_effect_def Let_def at nm split: option.split)
  next
    case False
    then have "\<not> (case complete_at (completed now k d) ! k of Some t \<Rightarrow> t \<le> now | None \<Rightarrow> False)"
      by (simp add: at due_def)
    then show ?thesis using False completed_keep [OF False] by (simp add: advance_stream_def)
  qed
qed

lemma advance_from:
  "k \<le> 8 \<Longrightarrow> fold_res (advance_stream sys now) [k..<8] (completed now k d, w) =
     res_map (Pair (completed now 8 d)) (fold_res (complete_effect sys d) (filter (due now d) [k..<8]) w)"
proof (induction "8 - k" arbitrary: k w)
  case 0
  then show ?case by simp
next
  case (Suc m)
  then have k: "k < 8" "m = 8 - Suc k" by simp_all
  note IH = Suc.hyps(1) [OF k(2)]
  show ?case
  proof (cases "due now d k")
    case True
    then show ?thesis using k IH unfolding upt_conv_Cons [OF k(1)]
      by (cases "complete_effect sys d k w") (simp_all add: advance_stream_step)
  next
    case False
    then show ?thesis using k IH unfolding upt_conv_Cons [OF k(1)]
      by (simp add: advance_stream_step)
  qed
qed

lemma advance_to_eq:
  "dma_inv d \<Longrightarrow> advance_to sys now (d, w) =
     res_map (Pair (completed now 8 d)) (fold_res (complete_effect sys d) (filter (due now d) [0..<8]) w)"
  using advance_from [of 0 sys now d w] by (simp add: advance_to_def completed_0)

text \<open>The position of a stream's flag in its status word.\<close>

definition tcif_pos :: "nat \<Rightarrow> nat" where
  "tcif_pos i = [5, 11, 21, 27] ! (i mod 4)"

lemma tcif_bit_pos: "tcif_bit (i mod 4) = bit_mask (tcif_pos i)"
proof -
  have "i mod 4 = 0 \<or> i mod 4 = 1 \<or> i mod 4 = 2 \<or> i mod 4 = 3" by presburger
  then show ?thesis by (auto simp: tcif_bit_def tcif_pos_def Let_def)
qed

lemma bit_fold_flags:
  "bit (fold (\<lambda>i x. if P i then x OR tcif_bit (i mod 4) else x) is x) b \<longleftrightarrow>
     bit (x :: u32) b \<or> (b < 32 \<and> (\<exists>i \<in> set is. P i \<and> b = tcif_pos i))"
proof (induction "is" arbitrary: x)
  case (Cons i "is")
  show ?case by (simp add: Cons tcif_bit_pos bit_or_iff) blast
qed simp

lemma tcif_pos_less: "tcif_pos i < 32"
proof -
  have "i mod 4 = 0 \<or> i mod 4 = 1 \<or> i mod 4 = 2 \<or> i mod 4 = 3" by presburger
  then show ?thesis by (auto simp: tcif_pos_def)
qed

lemma tcif_pos_inj: "i < 4 \<Longrightarrow> j < 4 \<Longrightarrow> tcif_pos i = tcif_pos j \<Longrightarrow> i = j"
proof -
  assume "i < 4" "j < 4" "tcif_pos i = tcif_pos j"
  moreover from this have "i \<in> {0, 1, 2, 3}" "j \<in> {0, 1, 2, 3}" by auto
  ultimately show ?thesis by (auto simp: tcif_pos_def)
qed

lemma from_offset_stream:
  assumes "1 \<le> i" "i < 8" "r < 6"
  shows "from_offset (0x10 + 0x18 * of_nat i + 4 * of_nat r) = StreamReg i (4 * of_nat r)"
proof -
  define n where "n = 0x18 * i + 4 * r"
  have n: "24 \<le> n" "n < 24 * 8" "n div 24 = i" "n mod 24 = 4 * r" using assms by (auto simp: n_def)
  have w: "0x10 + 0x18 * of_nat i + 4 * of_nat r = (of_nat (16 + n) :: u32)" by (simp add: n_def)
  have u: "unat (of_nat (16 + n) :: u32) = 16 + n" "unat (of_nat n :: u32) = n"
    unfolding unat_of_nat using n by simp_all
  have "\<not> (of_nat (16 + n) :: u32) < 0x28" using u n by (simp add: word_less_nat_alt)
  moreover have "(of_nat (16 + n) :: u32) - 0x10 = of_nat n" by simp
  moreover have "unat ((of_nat n :: u32) div 0x18) = i" using n by (simp add: unat_div_distrib u)
  moreover have "(of_nat n :: u32) mod 0x18 = 4 * of_nat r"
  proof -
    have "unat ((of_nat n :: u32) mod 0x18) = 4 * r" using n by (simp add: unat_mod_distrib u)
    moreover have "unat (4 * of_nat r :: u32) = 4 * r"
    proof -
      have "unat (of_nat (4 * r) :: u32) = 4 * r" unfolding unat_of_nat using assms(3) by simp
      then show ?thesis by simp
    qed
    ultimately show ?thesis by (simp add: word_unat_eq_iff)
  qed
  ultimately show ?thesis unfolding w by (simp add: from_offset_def Let_def)
qed

section \<open>Properties\<close>

text \<open>C22: A poll completes exactly the transfers whose deadline has come. Each due stream makes its
  transfer and, with TCIE, raises its vector, in stream order; its deadline is cleared, its EN bit
  and count are reset and its TCIF flag is set; every other stream, deadline and flag is as before.
  The poll panics only if one of those transfers does.\<close>

theorem dma_poll_completes:
  assumes "dma_inv d"
  shows "\<exists>d'. dma_poll sys now (d, w) =
      res_map (Pair d') (fold_res (complete_effect sys d) (filter (due now d) [0..<8]) w) \<and>
    dma_inv d' \<and> last_now d' = now \<and>
    (\<forall>i < 8. complete_at d' ! i = (if due now d i then None else complete_at d ! i) \<and>
      streams d' ! i = (if due now d i
        then (streams d ! i)\<lparr>s_cr := s_cr (streams d ! i) AND NOT 1, s_ndtr := 0, s_next_cr := None\<rparr>
        else streams d ! i)) \<and>
    (\<forall>b. bit (lisr d') b \<longleftrightarrow> bit (lisr d) b \<or> (\<exists>i < 4. due now d i \<and> b = tcif_pos i)) \<and>
    (\<forall>b. bit (hisr d') b \<longleftrightarrow> bit (hisr d) b \<or> (\<exists>i < 8. 4 \<le> i \<and> due now d i \<and> b = tcif_pos i))"
proof (intro exI [of _ "completed now 8 d"] conjI)
  show "\<forall>b. bit (lisr (completed now 8 d)) b \<longleftrightarrow>
      bit (lisr d) b \<or> (\<exists>i < 4. due now d i \<and> b = tcif_pos i)"
    by (auto simp: completed_def low_flags_def bit_fold_flags tcif_pos_less intro: order.strict_trans)
  show "\<forall>b. bit (hisr (completed now 8 d)) b \<longleftrightarrow>
      bit (hisr d) b \<or> (\<exists>i < 8. 4 \<le> i \<and> due now d i \<and> b = tcif_pos i)"
    by (auto simp: completed_def high_flags_def bit_fold_flags tcif_pos_less)
qed (use assms in \<open>simp_all add: dma_poll_def advance_to_eq\<close>, simp_all add: completed_def dma_inv_def finish_transfer_def)

text \<open>A system with no peripherals and no memory, for witnesses: the interrupts pended so far.\<close>

definition quiet_system :: "int list dma_system" where
  "quiet_system = \<lparr>sys_peri_present = (\<lambda>_ _. False), sys_read_dma = (\<lambda>_ _ w. Inr ([], w)),
     sys_write_dma = (\<lambda>_ _ w. Inr w), sys_mem_read = (\<lambda>_ _ _. None), sys_mem_write = (\<lambda>_ _ _. None),
     sys_pend = (\<lambda>i w. Inr (w @ [i]))\<rparr>"

definition dma_example :: dma where
  "dma_example = \<lparr>dma_name = ''DMA2'',
     streams = (replicate 8 stream_default)[4 := stream_default\<lparr>s_cr := 0x11\<rparr>], lisr = 0, hisr = 0,
     complete_at = (replicate 8 None)[4 := Some 10000], last_now = 0\<rparr>"

lemma dma_example_due: "filter (due 10000 dma_example) [0..<8] = [4]"
proof -
  have "[0..<8] = [0, 1, 2, 3, 4, 5, 6, 7 :: nat]" by (simp add: upt_rec)
  then show ?thesis by (simp add: due_def dma_example_def)
qed

theorem dma_poll_completes_witness:
  "\<exists>d'. dma_poll quiet_system 10000 (dma_example, []) = Inr (d', [60]) \<and> bit (hisr d') 5"
proof -
  have e: "complete_effect quiet_system dma_example 4 [] = Inr [60]"
    by (simp add: complete_effect_def do_xfer_def quiet_system_def dma_example_def stream_dir_def
        stream_irq_def data_size_def Let_def)
  have u: "due 10000 dma_example 4" by (simp add: due_def dma_example_def)
  have t: "tcif_pos 4 = 5" by (simp add: tcif_pos_def)
  have "dma_inv dma_example" by (simp add: dma_inv_def dma_example_def)
  from dma_poll_completes [OF this, of quiet_system 10000 "[]"] obtain d' where
    "dma_poll quiet_system 10000 (dma_example, []) = res_map (Pair d') (fold_res (complete_effect quiet_system dma_example) [4] [])"
    "\<forall>b. bit (hisr d') b \<longleftrightarrow>
       bit (hisr dma_example) b \<or> (\<exists>i < 8. 4 \<le> i \<and> due 10000 dma_example i \<and> b = tcif_pos i)"
    unfolding dma_example_due by blast
  with e u t show ?thesis by (intro exI [of _ d']) (auto intro!: exI [of _ 4])
qed

text \<open>Arming and acknowledging a stream. For the streams 1 to 7, setting EN in the control
  register schedules completion exactly 10,000 instructions after the last poll, and at no poll
  before that; the configuration registers of the stream read back as written; and writing the
  stream's flag bit to the clear register clears that flag and no other flag of either word.\<close>

theorem dma_stream_arm:
  assumes "dma_inv d" "1 \<le> i" "i < 8" "bit v 0" "unat (last_now d) + 10000 < 2 ^ 64"
  shows "\<exists>d'. dma_write (0x10 + 0x18 * of_nat i) v d = Inr d' \<and> dma_inv d' \<and>
    (\<forall>now. due now d' i \<longleftrightarrow> unat (last_now d) + 10000 \<le> unat now) \<and>
    (\<forall>j < 8. j \<noteq> i \<longrightarrow> complete_at d' ! j = complete_at d ! j \<and> streams d' ! j = streams d ! j) \<and>
    (\<exists>d''. dma_read (0x10 + 0x18 * of_nat i) d' = Inr (v, d'')) \<and>
    (\<exists>e. dma_write (if i < 4 then 0x08 else 0x0c) (tcif_bit (i mod 4)) d = Inr e \<and>
      (\<forall>b. bit (lisr e) b \<longleftrightarrow> bit (lisr d) b \<and> \<not> (i < 4 \<and> b = tcif_pos i)) \<and>
      (\<forall>b. bit (hisr e) b \<longleftrightarrow> bit (hisr d) b \<and> \<not> (4 \<le> i \<and> b = tcif_pos i)))"
proof -
  have off: "from_offset (0x10 + 0x18 * of_nat i) = StreamReg i 0"
    using from_offset_stream [OF assms(2,3), of 0] by simp
  define d' where "d' = d\<lparr>streams := (streams d)[i := (streams d ! i)\<lparr>s_cr := v\<rparr>],
     complete_at := (complete_at d)[i := Some (last_now d + 10000)]\<rparr>"
  have w: "dma_write (0x10 + 0x18 * of_nat i) v d = Inr d'"
    using assms by (simp add: dma_write_def off dma_inv_def stream_write_def d'_def
        TRANSFER_COMPLETE_DELAY_def)
  have "unat (last_now d + 10000) = unat (last_now d) + 10000"
    using assms(5) by (subst unat_add_lem [THEN iffD1]) simp_all
  then have due: "due now d' i \<longleftrightarrow> unat (last_now d) + 10000 \<le> unat now" for now
    using assms by (simp add: due_def d'_def dma_inv_def word_le_nat_alt)
  have r: "\<exists>d''. dma_read (0x10 + 0x18 * of_nat i) d' = Inr (v, d'')"
    using assms by (simp add: dma_read_def off d'_def dma_inv_def stream_read_def Let_def)
  have clr: "bit (x AND NOT (bit_mask p)) b \<longleftrightarrow> bit x b \<and> b \<noteq> p" for x :: u32 and p b
    by (cases "b < 32") (auto simp: bit_and_iff bit_not_iff)
  have "\<exists>e. dma_write (if i < 4 then 0x08 else 0x0c) (tcif_bit (i mod 4)) d = Inr e \<and>
      (\<forall>b. bit (lisr e) b \<longleftrightarrow> bit (lisr d) b \<and> \<not> (i < 4 \<and> b = tcif_pos i)) \<and>
      (\<forall>b. bit (hisr e) b \<longleftrightarrow> bit (hisr d) b \<and> \<not> (4 \<le> i \<and> b = tcif_pos i))"
    unfolding tcif_bit_pos by (cases "i < 4") (auto simp: dma_write_def from_offset_def clr)
  with w due r assms show ?thesis
    by (intro exI [of _ d']) (simp add: d'_def dma_inv_def)
qed

theorem dma_stream_arm_witness:
  "\<exists>d'. dma_write (0x10 + 0x18 * of_nat 4) 1 dma_example = Inr d' \<and> due 10000 d' 4 \<and> \<not> due 9999 d' 4"
proof -
  have "dma_inv dma_example" by (simp add: dma_inv_def dma_example_def)
  from dma_stream_arm [OF this, of 4 1] show ?thesis by (auto simp: dma_example_def)
qed

text \<open>Which stream an offset reaches. Register r of stream i decodes to stream i for i from 1 to 7.
  The registers of stream 0 (offsets 0x10 to 0x27) decode to no stream: they read as zero and
  writing them changes nothing, so stream 0 can never be armed; and the first offset past the last
  stream, which the bus still routes here, panics.\<close>

theorem dma_stream_decode:
  assumes "1 \<le> i" "i < 8" "r < 6" "0x10 \<le> off" "off < 0x28" "dma_inv d"
  shows "from_offset (0x10 + 0x18 * of_nat i + 4 * of_nat r) = StreamReg i (4 * of_nat r) \<and>
    dma_read off d = Inr (0, d) \<and> dma_write off v d = Inr d \<and>
    dma_read 0xd0 d = Inl OutOfBounds \<and> dma_write 0xd0 v d = Inl OutOfBounds"
proof -
  have "off \<noteq> 0x00" "off \<noteq> 0x04" "off \<noteq> 0x08" "off \<noteq> 0x0c" using assms(4) by auto
  then show ?thesis using from_offset_stream [OF assms(1-3)] assms(5,6)
    by (simp add: dma_read_def dma_write_def from_offset_def dma_inv_def index_res_def)
qed

theorem dma_stream_decode_witness:
  "dma_write 0x10 1 dma_example = Inr dma_example"
proof -
  have "dma_inv dma_example" by (simp add: dma_inv_def dma_example_def)
  with dma_stream_decode [of 1 0 "0x10" dma_example 1] show ?thesis by simp
qed

end
