(* ===== verification/Flash.thy ===== *)
theory Flash
  imports Unicorn Interfaces
begin

text \<open>
  The flash controller, \<open>src/peripherals/flash.rs\<close>: its lock, sector erase in CPU memory and
  the backing file of the persistent bank. CPU memory is the engine state \<open>'u\<close>; the file system
  is a state \<open>'f\<close> with the four standard-library calls the source makes, each of which can fail.
\<close>

section \<open>Configuration and file system\<close>

datatype internal_flash_model = Stm32F7DualBank

record flash_persistence =
  fp_start :: u32
  fp_size :: u32
  backing_file :: "string option"

record internal_flash_config =
  if_model :: internal_flash_model
  if_start :: u32
  if_size :: u32
  if_aliases :: "u32 list"
  if_persistent :: "flash_persistence option"

datatype file_read = FileBytes "u8 list" | FileNotFound | FileError string

text \<open>An effect that may fail leaves a state in both cases: \<open>Some\<close> is the error's message.\<close>

type_synonym 's attempt = "'s \<times> string option"

definition and_then :: "'s attempt \<Rightarrow> ('s \<Rightarrow> 's attempt) \<Rightarrow> 's attempt" where
  "and_then r k = (case snd r of None \<Rightarrow> k (fst r) | Some e \<Rightarrow> (fst r, Some e))"

fun attempt_all :: "('a \<Rightarrow> 's \<Rightarrow> 's attempt) \<Rightarrow> 'a list \<Rightarrow> 's \<Rightarrow> 's attempt" where
  "attempt_all k [] s = (s, None)"
| "attempt_all k (x # xs) s = and_then (k x s) (attempt_all k xs)"

record 'f fs_ops =
  fs_read :: "string \<Rightarrow> 'f \<Rightarrow> file_read"
  fs_create_dir_all_of_parent :: "string \<Rightarrow> 'f \<Rightarrow> 'f attempt"
  fs_create :: "string \<Rightarrow> 'f \<Rightarrow> 'f attempt"
  fs_write_all :: "string \<Rightarrow> u8 list \<Rightarrow> 'f \<Rightarrow> 'f attempt"
  fs_sync_all :: "string \<Rightarrow> 'f \<Rightarrow> 'f attempt"

section \<open>State\<close>

definition KEY1 :: u32 where "KEY1 = 0x45670123"
definition KEY2 :: u32 where "KEY2 = 0xcdef89ab"
definition CR_SER :: u32 where "CR_SER = bit_mask 1"
definition CR_SNB_MASK :: u32 where "CR_SNB_MASK = push_bit 3 0x1f"
definition CR_STRT :: u32 where "CR_STRT = bit_mask 16"
definition CR_LOCK :: u32 where "CR_LOCK = bit_mask 31"
definition SR_OPERR :: u32 where "SR_OPERR = bit_mask 1"
definition OPTCR_OPTLOCK :: u32 where "OPTCR_OPTLOCK = 1"
definition ERASED :: u8 where "ERASED = 0xff"
definition IO_CHUNK :: nat where "IO_CHUNK = 64 * 1024"

record flash =
  fl_acr :: u32
  fl_sr :: u32
  fl_cr :: u32
  fl_optcr :: u32
  key_stage :: u8
  internal :: "internal_flash_config option"

definition flash_new :: "string \<Rightarrow> internal_flash_config option \<Rightarrow> flash option" where
  "flash_new name cfg =
     (if name = ''FLASH''
      then Some \<lparr>fl_acr = 0, fl_sr = 0, fl_cr = CR_LOCK, fl_optcr = 0x0fffaaec OR OPTCR_OPTLOCK,
                 key_stage = 0, internal = cfg\<rparr>
      else None)"

section \<open>Memory\<close>

definition checked_add :: "u32 \<Rightarrow> u32 \<Rightarrow> u32 option" where
  "checked_add a b = (if unat a + unat b < 2 ^ 32 then Some (a + b) else None)"

definition saturating_add_u32 :: "u32 \<Rightarrow> u32 \<Rightarrow> u32" where
  "saturating_add_u32 a b = (if unat a + unat b < 2 ^ 32 then a + b else - 1)"

definition validate_config :: "internal_flash_config \<Rightarrow> unit fallible" where
  "validate_config c =
     (if if_model c \<noteq> Stm32F7DualBank then Inl ''Unsupported internal flash model''
      else if if_size c \<noteq> 0x200000 then Inl ''STM32F7 dual-bank flash requires 0x200000 bytes''
      else case if_persistent c of
          None \<Rightarrow> Inr ()
        | Some p \<Rightarrow>
            (case checked_add (if_start c) (if_size c) of
               None \<Rightarrow> Inl ''Internal-flash address range overflows''
             | Some flash_end \<Rightarrow>
                 (case checked_add (fp_start p) (fp_size p) of
                    None \<Rightarrow> Inl ''Persistent internal-flash address range overflows''
                  | Some persistent_end \<Rightarrow>
                      if fp_start p < if_start c \<or> flash_end < persistent_end
                      then Inl ''Persistent internal-flash range lies outside internal flash''
                      else Inr ())))"

definition is_flash_mapping :: "internal_flash_config \<Rightarrow> u32 \<Rightarrow> u32 \<Rightarrow> bool" where
  "is_flash_mapping c start sz =
     (let region_end = checked_add start sz;
          contains = (\<lambda>base. case region_end of None \<Rightarrow> False
            | Some e \<Rightarrow> base \<le> start \<and> e \<le> saturating_add_u32 base (if_size c))
      in contains (if_start c) \<or> list_ex contains (if_aliases c))"

text \<open>The fill loop: one write per chunk of at most 64 KiB.\<close>

function fill_from :: "'u uc_ops \<Rightarrow> u32 \<Rightarrow> nat \<Rightarrow> u8 \<Rightarrow> nat \<Rightarrow> 'u \<Rightarrow> 'u attempt" where
  "fill_from ops start sz v offset u =
     (if offset < sz
      then let count = min (min IO_CHUNK sz) (sz - offset) in
           (case uc_mem_write ops (of_nat (unat start + offset)) (replicate count v) u of
              None \<Rightarrow> (u, Some ''mem_write'')
            | Some u \<Rightarrow> fill_from ops start sz v (offset + count) u)
      else (u, None))"
  by pat_completeness auto
termination
  by (relation "measure (\<lambda>(ops, start, sz, v, offset, u). sz - offset)") (auto simp: IO_CHUNK_def)

declare fill_from.simps [simp del]

definition fill :: "'u uc_ops \<Rightarrow> u32 \<Rightarrow> u32 \<Rightarrow> u8 \<Rightarrow> 'u \<Rightarrow> 'u attempt" where
  "fill ops start sz v u = fill_from ops start (unat sz) v 0 u"

definition initialize_memory ::
  "'u uc_ops \<Rightarrow> internal_flash_config \<Rightarrow> (u32 \<times> u32) list \<Rightarrow> 'u \<Rightarrow> 'u attempt" where
  "initialize_memory ops c regions u =
     (case validate_config c of
        Inl e \<Rightarrow> (u, Some e)
      | Inr _ \<Rightarrow>
          attempt_all (\<lambda>(start, sz) u.
            if is_flash_mapping c start sz then fill ops start sz ERASED u else (u, None)) regions u)"

definition mem_write_or :: "'u uc_ops \<Rightarrow> u32 \<Rightarrow> u8 list \<Rightarrow> 'u \<Rightarrow> 'u attempt" where
  "mem_write_or ops a bs u =
     (case uc_mem_write ops (ucast a) bs u of Some u \<Rightarrow> (u, None) | None \<Rightarrow> (u, Some ''mem_write''))"

definition load_persistent ::
  "'u uc_ops \<Rightarrow> 'f fs_ops \<Rightarrow> internal_flash_config \<Rightarrow> 'f \<Rightarrow> 'u \<Rightarrow> 'u attempt" where
  "load_persistent ops fs c files u =
     (case if_persistent c of None \<Rightarrow> (u, None) | Some p \<Rightarrow>
     (case backing_file p of None \<Rightarrow> (u, None) | Some path \<Rightarrow>
     (case fs_read fs path files of
        FileNotFound \<Rightarrow> (u, None)
      | FileError e \<Rightarrow> (u, Some e)
      | FileBytes bytes \<Rightarrow>
          if length bytes \<noteq> unat (fp_size p)
          then (u, Some ''Internal-flash backing file has wrong size'')
          else let offset = fp_start p - if_start c in
            and_then (mem_write_or ops (fp_start p) bytes u)
              (attempt_all (\<lambda>a. mem_write_or ops (a + offset) bytes) (if_aliases c)))))"

section \<open>Sectors\<close>

definition sector_range :: "u8 \<Rightarrow> (u32 \<times> u32) option" where
  "sector_range r =
     (let bank = (if r \<le> 11 then Some (0, r)
                  else if 0x10 \<le> r \<and> r \<le> 0x1b then Some (0x100000, r - 0x10) else None)
      in case bank of None \<Rightarrow> None
         | Some (bank_offset, bank_sector) \<Rightarrow>
             let sector_size = (if bank_sector \<le> 3 then Some (16 * 1024)
                                else if bank_sector = 4 then Some (64 * 1024)
                                else if 5 \<le> bank_sector \<and> bank_sector \<le> 11 then Some (128 * 1024)
                                else None);
                 sector_offset = (if bank_sector \<le> 3 then Some (ucast bank_sector * 16 * 1024)
                                  else if bank_sector = 4 then Some (64 * 1024)
                                  else if 5 \<le> bank_sector \<and> bank_sector \<le> 11
                                  then Some (128 * 1024 + ucast (bank_sector - 5) * 128 * 1024)
                                  else None)
             in (case (sector_size, sector_offset) of
                   (Some sz, Some off) \<Rightarrow> Some (bank_offset + off, sz) | _ \<Rightarrow> None))"

definition erase_sector :: "'u uc_ops \<Rightarrow> u8 \<Rightarrow> flash \<Rightarrow> 'u \<Rightarrow> 'u attempt" where
  "erase_sector ops r f u =
     (case internal f of
        None \<Rightarrow> (u, Some ''FLASH erase requested without internal_flash configuration'')
      | Some c \<Rightarrow>
          (case sector_range r of
             None \<Rightarrow> (u, Some ''Invalid STM32F7 sector register value'')
           | Some (offset, sz) \<Rightarrow>
               attempt_all (\<lambda>base. fill ops (base + offset) sz ERASED) (if_start c # if_aliases c) u))"

definition persist :: "'u uc_ops \<Rightarrow> 'f fs_ops \<Rightarrow> flash \<Rightarrow> 'u \<Rightarrow> 'f \<Rightarrow> 'f attempt" where
  "persist ops fs f u files =
     (case internal f of None \<Rightarrow> (files, None) | Some c \<Rightarrow>
     (case if_persistent c of None \<Rightarrow> (files, None) | Some p \<Rightarrow>
     (case backing_file p of None \<Rightarrow> (files, None) | Some path \<Rightarrow>
        and_then (fs_create_dir_all_of_parent fs path files) (\<lambda>files.
        (case uc_mem_read ops (ucast (fp_start p)) (unat (fp_size p)) u of
           None \<Rightarrow> (files, Some ''mem_read'')
         | Some bytes \<Rightarrow>
             and_then (fs_create fs path files) (\<lambda>files.
             and_then (fs_write_all fs path bytes files) (fs_sync_all fs path)))))))"

section \<open>Registers\<close>

definition write_key :: "u32 \<Rightarrow> flash \<Rightarrow> flash" where
  "write_key value f =
     (if key_stage f = 0 \<and> value = KEY1 then f\<lparr>key_stage := 1\<rparr>
      else if key_stage f = 1 \<and> value = KEY2
      then f\<lparr>key_stage := 0, fl_cr := fl_cr f AND NOT CR_LOCK\<rparr>
      else f\<lparr>key_stage := 0\<rparr>)"

definition op_error :: "string option \<Rightarrow> flash \<Rightarrow> flash" where
  "op_error e f = (case e of None \<Rightarrow> f | Some _ \<Rightarrow> f\<lparr>fl_sr := fl_sr f OR SR_OPERR\<rparr>)"

definition write_control ::
  "'u uc_ops \<Rightarrow> 'f fs_ops \<Rightarrow> u32 \<Rightarrow> flash \<times> 'u \<times> 'f \<Rightarrow> flash \<times> 'u \<times> 'f" where
  "write_control ops fs value st =
     (let (f, u, files) = st; was_locked = (fl_cr f AND CR_LOCK \<noteq> 0) in
      if was_locked \<and> value AND CR_LOCK = 0 then st
      else
        let f = f\<lparr>fl_cr := value AND NOT CR_STRT\<rparr>;
            (f, u) =
              (if \<not> was_locked \<and> value AND CR_STRT \<noteq> 0 \<and> value AND CR_SER \<noteq> 0
               then let register_sector = drop_bit 3 (value AND CR_SNB_MASK);
                        (u, e) = erase_sector ops (ucast register_sector) f u
                    in (op_error e f, u)
               else (f, u));
            (f, files) =
              (if \<not> was_locked \<and> value AND CR_LOCK \<noteq> 0
               then let (files, e) = persist ops fs f u files in (op_error e f, files)
               else (f, files))
        in (f, u, files))"

definition flash_read :: "u32 \<Rightarrow> flash \<Rightarrow> u32" where
  "flash_read offset f =
     (if offset = 0x00 then fl_acr f
      else if offset = 0x04 \<or> offset = 0x08 then 0
      else if offset = 0x0c then fl_sr f
      else if offset = 0x10 then fl_cr f
      else if offset = 0x14 then fl_optcr f
      else 0)"

definition flash_write ::
  "'u uc_ops \<Rightarrow> 'f fs_ops \<Rightarrow> u32 \<Rightarrow> u32 \<Rightarrow> flash \<times> 'u \<times> 'f \<Rightarrow> flash \<times> 'u \<times> 'f" where
  "flash_write ops fs offset value st =
     (let (f, u, files) = st in
      if offset = 0x00 then (f\<lparr>fl_acr := value\<rparr>, u, files)
      else if offset = 0x04 then (write_key value f, u, files)
      else if offset = 0x0c then (f\<lparr>fl_sr := fl_sr f AND NOT value\<rparr>, u, files)
      else if offset = 0x10 then write_control ops fs value st
      else if offset = 0x14 \<and> fl_optcr f AND OPTCR_OPTLOCK = 0 then (f\<lparr>fl_optcr := value\<rparr>, u, files)
      else st)"

section \<open>Interfaces provided\<close>

interpretation flash_status: flag_register "\<lambda>(f, u, files). flash_read 0x0c f"
  "flash_write ops fs 0x0c" "\<lambda>m (f, u, files). (f\<lparr>fl_sr := fl_sr f OR m\<rparr>, u, files)" for ops fs
  by unfold_locales (auto simp: flash_read_def flash_write_def)

section \<open>Lemmas\<close>

subsection \<open>The lock\<close>

definition locked :: "flash \<Rightarrow> bool" where
  "locked f \<longleftrightarrow> bit (fl_cr f) 31"

definition flash_writes ::
  "'u uc_ops \<Rightarrow> 'f fs_ops \<Rightarrow> (u32 \<times> u32) list \<Rightarrow> flash \<times> 'u \<times> 'f \<Rightarrow> flash \<times> 'u \<times> 'f" where
  "flash_writes ops fs ws st = fold (\<lambda>(c, v). flash_write ops fs c v) ws st"

definition keyr_values :: "(u32 \<times> u32) list \<Rightarrow> u32 list" where
  "keyr_values ws = map snd (filter (\<lambda>w. fst w = 0x04) ws)"

definition unlock_sequence :: "u32 list \<Rightarrow> bool" where
  "unlock_sequence ks \<longleftrightarrow> (\<exists>xs ys. ks = xs @ [KEY1, KEY2] @ ys)"

lemma unlock_sequence_append: "unlock_sequence xs \<Longrightarrow> unlock_sequence (xs @ ys)"
  unfolding unlock_sequence_def by (metis append.assoc)

lemma flash_write_locked:
  assumes "locked f"
  shows "\<exists>f'. flash_write ops fs c v (f, u, files) = (f', u, files) \<and>
    (locked f' \<or> c = 0x04 \<and> v = KEY2 \<and> key_stage f = 1) \<and>
    (key_stage f' = 1 \<longrightarrow> c = 0x04 \<and> v = KEY1 \<or> c \<noteq> 0x04 \<and> key_stage f = 1) \<and>
    (bit (fl_optcr f) 0 \<longrightarrow> fl_optcr f' = fl_optcr f)"
proof (cases "c = 0x10")
  case True
  have "bit (v AND NOT (bit_mask 16)) 31 \<longleftrightarrow> bit v 31" by (simp add: bit_and_iff bit_not_iff)
  then show ?thesis using True assms
    by (cases "bit v 31")
      (simp_all add: flash_write_def write_control_def locked_def CR_LOCK_def CR_STRT_def Let_def)
next
  case False
  then show ?thesis using assms
    by (auto simp: flash_write_def write_key_def locked_def OPTCR_OPTLOCK_def)
qed

lemma flash_writes_locked:
  assumes "\<not> unlock_sequence (keyr_values ws)" "locked f" "key_stage f = 0" "bit (fl_optcr f) 0"
  shows "\<exists>f'. flash_writes ops fs ws (f, u, files) = (f', u, files) \<and> locked f' \<and>
    (key_stage f' = 1 \<longrightarrow> (\<exists>xs. keyr_values ws = xs @ [KEY1])) \<and> fl_optcr f' = fl_optcr f"
  using assms(1)
proof (induction ws rule: rev_induct)
  case Nil
  then show ?case using assms by (simp add: flash_writes_def)
next
  case (snoc w ws)
  obtain c v where w: "w = (c, v)" by (cases w)
  have k: "keyr_values (ws @ [w]) = keyr_values ws @ (if c = 0x04 then [v] else [])"
    by (simp add: keyr_values_def w)
  with snoc.prems have "\<not> unlock_sequence (keyr_values ws)" using unlock_sequence_append by fastforce
  with snoc.IH obtain f1 where f1: "flash_writes ops fs ws (f, u, files) = (f1, u, files)" "locked f1"
    "key_stage f1 = 1 \<longrightarrow> (\<exists>xs. keyr_values ws = xs @ [KEY1])" "fl_optcr f1 = fl_optcr f" by blast
  from flash_write_locked [OF f1(2), of ops fs c v u files] obtain f2 where
    f2: "flash_write ops fs c v (f1, u, files) = (f2, u, files)"
    "locked f2 \<or> c = 0x04 \<and> v = KEY2 \<and> key_stage f1 = 1"
    "key_stage f2 = 1 \<longrightarrow> c = 0x04 \<and> v = KEY1 \<or> c \<noteq> 0x04 \<and> key_stage f1 = 1"
    "bit (fl_optcr f1) 0 \<longrightarrow> fl_optcr f2 = fl_optcr f1" by blast
  have "\<not> (c = 0x04 \<and> v = KEY2 \<and> key_stage f1 = 1)"
  proof
    assume h: "c = 0x04 \<and> v = KEY2 \<and> key_stage f1 = 1"
    with f1(3) obtain xs where "keyr_values ws = xs @ [KEY1]" by blast
    with h k have "keyr_values (ws @ [w]) = xs @ [KEY1, KEY2] @ []" by simp
    with snoc.prems show False unfolding unlock_sequence_def by blast
  qed
  then have "locked f2" using f2(2) by blast
  moreover have "flash_writes ops fs (ws @ [w]) (f, u, files) = (f2, u, files)"
    using f1(1) f2(1) by (simp add: flash_writes_def w)
  moreover have "\<exists>xs. keyr_values (ws @ [w]) = xs @ [KEY1]" if "key_stage f2 = 1"
    using that f2(3) f1(3) k by (auto split: if_splits)
  ultimately show ?case using f2(4) f1(4) assms(4) by simp
qed

subsection \<open>Fill and erase\<close>

lemma fill_from_ok:
  assumes "ram_laws ops R" "ram_bytes ops R"
  shows "{unat start + offset ..< unat start + sz} \<subseteq> R \<Longrightarrow> sz < 2 ^ 32 \<Longrightarrow>
    \<exists>u'. fill_from ops start sz v offset u = (u', None) \<and>
      (\<forall>k \<in> R. byte_at ops u' k =
         (if unat start + offset \<le> k \<and> k < unat start + sz then v else byte_at ops u k))"
proof (induction "sz - offset" arbitrary: offset u rule: less_induct)
  case less
  show ?case
  proof (cases "offset < sz")
    case False
    then show ?thesis by (subst fill_from.simps) auto
  next
    case True
    define n where "n = min (min IO_CHUNK sz) (sz - offset)"
    define a :: u64 where "a = of_nat (unat start + offset)"
    have n: "0 < n" "offset + n \<le> sz" using True by (auto simp: n_def IO_CHUNK_def)
    have a: "unat a = unat start + offset"
      unfolding a_def by (rule unat_of_nat_64)
        (use True less.prems(2) unat_u32_less [of start] in simp)
    have "span a (length (replicate n v)) \<subseteq> R" using less.prems(1) n by (auto simp: span_def a)
    from ram_write_bytes [OF assms this, of u] obtain u1 where
      w: "uc_mem_write ops a (replicate n v) u = Some u1" and
      i: "\<forall>i < n. byte_at ops u1 (unat a + i) = v" and
      o: "\<forall>k \<in> R. k \<notin> span a n \<longrightarrow> byte_at ops u1 k = byte_at ops u k" by auto
    have "{unat start + (offset + n)..<unat start + sz} \<subseteq> R" using less.prems(1) by auto
    moreover have "sz - (offset + n) < sz - offset" using n True by linarith
    ultimately have "\<exists>u'. fill_from ops start sz v (offset + n) u1 = (u', None) \<and>
      (\<forall>k \<in> R. byte_at ops u' k =
         (if unat start + (offset + n) \<le> k \<and> k < unat start + sz then v else byte_at ops u1 k))"
      using less.hyps less.prems(2) by blast
    then obtain u' where
      f: "fill_from ops start sz v (offset + n) u1 = (u', None)" and
      b: "\<forall>k \<in> R. byte_at ops u' k =
         (if unat start + (offset + n) \<le> k \<and> k < unat start + sz then v else byte_at ops u1 k)"
      by blast
    have "fill_from ops start sz v offset u = (u', None)"
      using True w f by (subst fill_from.simps) (simp add: Let_def n_def a_def)
    moreover have "byte_at ops u' k =
        (if unat start + offset \<le> k \<and> k < unat start + sz then v else byte_at ops u k)"
      if "k \<in> R" for k
    proof (cases "k \<in> span a n")
      case True
      then have k: "unat a \<le> k" "k < unat a + n" by (simp_all add: span_def)
      have "byte_at ops u1 k = v" using i [rule_format, of "k - unat a"] k by simp
      then show ?thesis using b that k n by (simp add: a)
    next
      case False
      then have "k < unat start + offset \<or> unat start + offset + n \<le> k" by (auto simp: span_def a)
      then show ?thesis using b o that False n by auto
    qed
    ultimately show ?thesis by blast
  qed
qed

text \<open>The addresses a list of bases covers at an offset.\<close>

definition mirrored :: "u32 list \<Rightarrow> u32 \<Rightarrow> nat \<Rightarrow> nat set" where
  "mirrored bases off n = (\<Union>b \<in> set bases. {unat (b + off) ..< unat (b + off) + n})"

lemma fill_mirrors:
  assumes "ram_laws ops R" "ram_bytes ops R"
  shows "mirrored bases off (unat sz) \<subseteq> R \<Longrightarrow>
    \<exists>u'. attempt_all (\<lambda>base. fill ops (base + off) sz v) bases u = (u', None) \<and>
      (\<forall>k \<in> R. byte_at ops u' k =
         (if k \<in> mirrored bases off (unat sz) then v else byte_at ops u k))"
proof (induction bases arbitrary: u)
  case Nil
  then show ?case by (simp add: mirrored_def)
next
  case (Cons b bs)
  have m: "mirrored (b # bs) off (unat sz) =
      {unat (b + off) ..< unat (b + off) + unat sz} \<union> mirrored bs off (unat sz)"
    by (simp add: mirrored_def)
  have "{unat (b + off) + 0 ..< unat (b + off) + unat sz} \<subseteq> R" using Cons.prems m by auto
  from fill_from_ok [OF assms this unat_u32_less, of v u] obtain u1 where
    u1: "fill ops (b + off) sz v u = (u1, None)"
    "\<forall>k \<in> R. byte_at ops u1 k =
       (if unat (b + off) \<le> k \<and> k < unat (b + off) + unat sz then v else byte_at ops u k)"
    by (auto simp: fill_def)
  from Cons.IH [of u1] Cons.prems m obtain u2 where
    u2: "attempt_all (\<lambda>base. fill ops (base + off) sz v) bs u1 = (u2, None)"
    "\<forall>k \<in> R. byte_at ops u2 k = (if k \<in> mirrored bs off (unat sz) then v else byte_at ops u1 k)"
    by auto
  have "attempt_all (\<lambda>base. fill ops (base + off) sz v) (b # bs) u = (u2, None)"
    using u1(1) u2(1) by (simp add: and_then_def)
  moreover have "byte_at ops u2 k =
      (if k \<in> mirrored (b # bs) off (unat sz) then v else byte_at ops u k)" if "k \<in> R" for k
    using u1(2) u2(2) that unfolding m by auto
  ultimately show ?case by blast
qed

subsection \<open>The backing file\<close>

text \<open>What the file system promises for a path that can be written: creating the directory and
  the file, writing and syncing succeed, and the bytes written are read back.\<close>

definition fs_writable :: "'f fs_ops \<Rightarrow> string \<Rightarrow> bool" where
  "fs_writable fs path \<longleftrightarrow>
     (\<forall>files. snd (fs_create_dir_all_of_parent fs path files) = None) \<and>
     (\<forall>files. snd (fs_create fs path files) = None) \<and>
     (\<forall>files bs. snd (fs_write_all fs path bs files) = None) \<and>
     (\<forall>files. snd (fs_sync_all fs path files) = None) \<and>
     (\<forall>files bs. fs_read fs path (fst (fs_sync_all fs path
        (fst (fs_write_all fs path bs (fst (fs_create fs path files)))))) = FileBytes bs)"

lemma persist_writes:
  assumes "internal f = Some c" "if_persistent c = Some p" "backing_file p = Some path"
    "fs_writable fs path" "uc_mem_read ops (ucast (fp_start p)) (unat (fp_size p)) u = Some bs"
  shows "\<exists>files'. persist ops fs f u files = (files', None) \<and> fs_read fs path files' = FileBytes bs"
  using assms by (auto simp: persist_def and_then_def fs_writable_def intro!: prod_eqI)

lemma load_windows:
  assumes "ram_laws ops R" "ram_bytes ops R"
  shows "\<forall>b \<in> set bases. span (ucast b) (length bs) \<subseteq> R \<Longrightarrow>
    \<forall>x \<in> set bases. \<forall>y \<in> set bases. x \<noteq> y \<longrightarrow>
      span (ucast x) (length bs) \<inter> span (ucast y) (length bs) = {} \<Longrightarrow>
    \<exists>u'. attempt_all (\<lambda>b. mem_write_or ops b bs) bases u = (u', None) \<and>
      (\<forall>b \<in> set bases. \<forall>i < length bs. byte_at ops u' (unat b + i) = bs ! i) \<and>
      (\<forall>k \<in> R. (\<forall>b \<in> set bases. k \<notin> span (ucast b) (length bs)) \<longrightarrow>
         byte_at ops u' k = byte_at ops u k)"
proof (induction bases arbitrary: u)
  case (Cons b bases)
  from Cons.prems(1) have "span (ucast b) (length bs) \<subseteq> R" by simp
  from ram_write_bytes [OF assms this, of u] obtain u1 where
    u1: "uc_mem_write ops (ucast b) bs u = Some u1"
    "\<forall>i < length bs. byte_at ops u1 (unat b + i) = bs ! i"
    "\<forall>k \<in> R. k \<notin> span (ucast b) (length bs) \<longrightarrow> byte_at ops u1 k = byte_at ops u k" by auto
  have "\<forall>b \<in> set bases. span (ucast b) (length bs) \<subseteq> R" using Cons.prems(1) by simp
  moreover have "\<forall>x \<in> set bases. \<forall>y \<in> set bases. x \<noteq> y \<longrightarrow>
      span (ucast x) (length bs) \<inter> span (ucast y) (length bs) = {}" using Cons.prems(2) by simp
  ultimately obtain u2 where
    u2: "attempt_all (\<lambda>b. mem_write_or ops b bs) bases u1 = (u2, None)"
    "\<forall>b \<in> set bases. \<forall>i < length bs. byte_at ops u2 (unat b + i) = bs ! i"
    "\<forall>k \<in> R. (\<forall>b \<in> set bases. k \<notin> span (ucast b) (length bs)) \<longrightarrow>
       byte_at ops u2 k = byte_at ops u1 k" using Cons.IH [of u1] by blast
  have "byte_at ops u2 (unat b + i) = bs ! i" if i: "i < length bs" for i
  proof (cases "b \<in> set bases")
    case False
    have k: "unat b + i \<in> span (ucast b) (length bs)" using i by (simp add: span_def)
    have "\<forall>x \<in> set bases. unat b + i \<notin> span (ucast x) (length bs)"
    proof
      fix x assume "x \<in> set bases"
      with False Cons.prems(2) have "span (ucast b) (length bs) \<inter> span (ucast x) (length bs) = {}"
        by auto
      with k show "unat b + i \<notin> span (ucast x) (length bs)" by blast
    qed
    moreover have "unat b + i \<in> R" using k Cons.prems(1) by auto
    ultimately show ?thesis using u1(2) u2(3) i by simp
  qed (use u2 i in blast)
  moreover have "attempt_all (\<lambda>b. mem_write_or ops b bs) (b # bases) u = (u2, None)"
    using u1(1) u2(1) by (simp add: and_then_def mem_write_or_def)
  ultimately show ?case using u1(3) u2(2,3) by auto
qed simp

subsection \<open>Sectors\<close>

definition sector_table :: "(u8 \<times> u32 \<times> u32) list" where
  "sector_table =
     [(0, 0, 0x4000), (1, 0x4000, 0x4000), (2, 0x8000, 0x4000), (3, 0xc000, 0x4000),
      (4, 0x10000, 0x10000), (5, 0x20000, 0x20000), (6, 0x40000, 0x20000), (7, 0x60000, 0x20000),
      (8, 0x80000, 0x20000), (9, 0xa0000, 0x20000), (10, 0xc0000, 0x20000), (11, 0xe0000, 0x20000),
      (16, 0x100000, 0x4000), (17, 0x104000, 0x4000), (18, 0x108000, 0x4000), (19, 0x10c000, 0x4000),
      (20, 0x110000, 0x10000), (21, 0x120000, 0x20000), (22, 0x140000, 0x20000),
      (23, 0x160000, 0x20000), (24, 0x180000, 0x20000), (25, 0x1a0000, 0x20000),
      (26, 0x1c0000, 0x20000), (27, 0x1e0000, 0x20000)]"

lemma sector_range_table: "sector_range r = map_of sector_table r"
proof -
  have r: "r = of_nat (unat r)" by simp
  consider "unat r < 12" | "12 \<le> unat r" "unat r < 16" | "16 \<le> unat r" "unat r < 28" | "28 \<le> unat r"
    by linarith
  then show ?thesis
  proof cases
    case 1
    then have "unat r = 0 \<or> unat r = 1 \<or> unat r = 2 \<or> unat r = 3 \<or> unat r = 4 \<or> unat r = 5 \<or>
      unat r = 6 \<or> unat r = 7 \<or> unat r = 8 \<or> unat r = 9 \<or> unat r = 10 \<or> unat r = 11" by arith
    then show ?thesis
      by (elim disjE) (subst (1 2) r, simp, simp add: sector_range_def sector_table_def)+
  next
    case 3
    then have "unat r = 16 \<or> unat r = 17 \<or> unat r = 18 \<or> unat r = 19 \<or> unat r = 20 \<or> unat r = 21 \<or>
      unat r = 22 \<or> unat r = 23 \<or> unat r = 24 \<or> unat r = 25 \<or> unat r = 26 \<or> unat r = 27" by arith
    then show ?thesis
      by (elim disjE) (subst (1 2) r, simp, simp add: sector_range_def sector_table_def)+
  next
    case 2
    then have "\<not> r \<le> 11" "\<not> 0x10 \<le> r" by (simp_all add: word_le_nat_alt)
    moreover have "map_of sector_table r = None"
      using 2 by (auto simp: sector_table_def)
    ultimately show ?thesis by (simp add: sector_range_def)
  next
    case 4
    then have "\<not> r \<le> 11" "\<not> r \<le> 0x1b" by (simp_all add: word_le_nat_alt)
    moreover have "map_of sector_table r = None"
      using 4 by (auto simp: sector_table_def)
    ultimately show ?thesis by (simp add: sector_range_def)
  qed
qed

definition sector_covers :: "u8 \<Rightarrow> nat \<Rightarrow> bool" where
  "sector_covers r a \<longleftrightarrow> (case sector_range r of None \<Rightarrow> False
     | Some (off, sz) \<Rightarrow> unat off \<le> a \<and> a < unat off + unat sz)"

text \<open>The table's ranges follow each other without a gap.\<close>

fun contiguous :: "nat \<Rightarrow> (u8 \<times> u32 \<times> u32) list \<Rightarrow> nat \<Rightarrow> bool" where
  "contiguous s [] e \<longleftrightarrow> s = e"
| "contiguous s ((r, off, sz) # xs) e \<longleftrightarrow> unat off = s \<and> contiguous (s + unat sz) xs e"

fun holds_addr :: "nat \<Rightarrow> u8 \<times> u32 \<times> u32 \<Rightarrow> bool" where
  "holds_addr a (r, off, sz) \<longleftrightarrow> unat off \<le> a \<and> a < unat off + unat sz"

lemma contiguous_le: "contiguous s xs e \<Longrightarrow> s \<le> e"
proof (induction xs arbitrary: s)
  case (Cons x xs)
  obtain r off sz where x: "x = (r, off, sz)" by (cases x)
  with Cons.prems have "contiguous (s + unat sz) xs e" by simp
  from Cons.IH [OF this] show ?case by simp
qed simp

lemma contiguous_covers: "contiguous s xs e \<Longrightarrow> (\<exists>x \<in> set xs. holds_addr a x) \<longleftrightarrow> s \<le> a \<and> a < e"
proof (induction xs arbitrary: s)
  case (Cons x xs)
  obtain r off sz where x: "x = (r, off, sz)" by (cases x)
  with Cons.prems have c: "unat off = s" "contiguous (s + unat sz) xs e" by simp_all
  show ?case using Cons.IH [OF c(2)] contiguous_le [OF c(2)] c(1) by (auto simp: x)
qed simp

lemma contiguous_unique:
  "contiguous s xs e \<Longrightarrow> x \<in> set xs \<Longrightarrow> y \<in> set xs \<Longrightarrow> holds_addr a x \<Longrightarrow> holds_addr a y \<Longrightarrow> x = y"
proof (induction xs arbitrary: s)
  case (Cons z xs)
  obtain r off sz where z: "z = (r, off, sz)" by (cases z)
  with Cons.prems have c: "unat off = s" "contiguous (s + unat sz) xs e" by simp_all
  have tail: "w \<notin> set xs" if "holds_addr a z" "holds_addr a w" for w
    using contiguous_covers [OF c(2), of a] that c(1) by (auto simp: z)
  show ?case using Cons.prems Cons.IH [OF c(2)] tail by (metis set_ConsD)
qed simp

lemma sector_covers_table: "sector_covers r a \<longleftrightarrow> (\<exists>x \<in> set sector_table. fst x = r \<and> holds_addr a x)"
proof -
  have d: "distinct (map fst sector_table)" by (simp add: sector_table_def)
  show ?thesis
  proof (cases "map_of sector_table r")
    case None
    then have "\<not> sector_covers r a" by (simp add: sector_covers_def sector_range_table)
    moreover have "r \<notin> fst ` set sector_table" using None by (simp add: map_of_eq_None_iff)
    ultimately show ?thesis by force
  next
    case (Some x)
    obtain off sz where x: "x = (off, sz)" by (cases x)
    have "sector_covers r a \<longleftrightarrow> holds_addr a (r, off, sz)"
      using Some by (simp add: sector_covers_def sector_range_table x)
    moreover have "y = (r, off, sz)" if "y \<in> set sector_table" "fst y = r" for y
    proof -
      have m: "(r, snd y) \<in> set sector_table" using that by (metis prod.collapse)
      have "snd y = (off, sz)" using map_of_is_SomeI [OF d m] Some by (simp add: x)
      with that(2) show ?thesis by (metis prod.collapse)
    qed
    moreover have "(r, off, sz) \<in> set sector_table" using Some x by (simp add: map_of_SomeD)
    ultimately show ?thesis by (metis fst_conv)
  qed
qed

lemma sector_table_contiguous: "contiguous 0 sector_table 0x200000"
  by (simp add: sector_table_def)

text \<open>The sector registers partition the flash. An offset lies in a sector exactly when it is
  below the 2 MiB of the dual-bank array, and then in the sector of exactly one register value:
  no erase touches a neighbour and no byte is out of reach.\<close>

theorem sectors_partition:
  "((\<exists>r. sector_covers r a) \<longleftrightarrow> a < 0x200000) \<and> ((\<exists>!r. sector_covers r a) \<longleftrightarrow> a < 0x200000)"
proof -
  have "(\<exists>r. sector_covers r a) \<longleftrightarrow> a < 0x200000"
    using contiguous_covers [OF sector_table_contiguous, of a] by (auto simp: sector_covers_table)
  moreover have "r = s" if "sector_covers r a" "sector_covers s a" for r s
    using that contiguous_unique [OF sector_table_contiguous, of _ _ a]
    unfolding sector_covers_table by blast
  ultimately show ?thesis by blast
qed

text \<open>C18: The lock holds. From the locked state with no key accepted yet, as long as the values
  written to KEYR never contain KEY1 immediately followed by KEY2, no sequence of register writes
  changes CPU memory, the file system or the option bytes, and the controller stays locked; a write
  of KEY1 and then KEY2 does unlock it.\<close>

theorem flash_lock_holds:
  assumes "locked f" "key_stage f = 0" "bit (fl_optcr f) 0"
  shows "(\<not> unlock_sequence (keyr_values ws) \<longrightarrow>
      (\<exists>f'. flash_writes ops fs ws (f, u, files) = (f', u, files) \<and> locked f' \<and> fl_optcr f' = fl_optcr f)) \<and>
    (\<exists>f'. flash_writes ops fs [(0x04, KEY1), (0x04, KEY2)] (f, u, files) = (f', u, files) \<and> \<not> locked f')"
proof
  show "\<not> unlock_sequence (keyr_values ws) \<longrightarrow>
    (\<exists>f'. flash_writes ops fs ws (f, u, files) = (f', u, files) \<and> locked f' \<and> fl_optcr f' = fl_optcr f)"
    using flash_writes_locked [OF _ assms, of ws ops fs u files] by meson
  show "\<exists>f'. flash_writes ops fs [(0x04, KEY1), (0x04, KEY2)] (f, u, files) = (f', u, files) \<and> \<not> locked f'"
    using assms(2) by (simp add: flash_writes_def flash_write_def write_key_def locked_def CR_LOCK_def
        bit_and_iff bit_not_iff)
qed

definition flash_example :: "internal_flash_config \<Rightarrow> flash" where
  "flash_example c = \<lparr>fl_acr = 0, fl_sr = 0, fl_cr = 0, fl_optcr = 1, key_stage = 0, internal = Some c\<rparr>"

definition flash_layout :: internal_flash_config where
  "flash_layout = \<lparr>if_model = Stm32F7DualBank, if_start = 0x08000000, if_size = 0x200000,
     if_aliases = [0x200000],
     if_persistent = Some \<lparr>fp_start = 0x08010000, fp_size = 4, backing_file = Some ''state''\<rparr>\<rparr>"

theorem flash_lock_holds_witness:
  "\<forall>fs :: 'f fs_ops. \<forall>cpu files. \<exists>f'. flash_writes flat_ops fs [(0x10, 0), (0x04, KEY1), (0x04, 0), (0x04, KEY2), (0x10, 0x10002)]
      (flash_example flash_layout \<lparr>fl_cr := CR_LOCK\<rparr>, cpu, files) = (f', cpu, files) \<and> locked f'"
proof (intro allI)
  fix fs :: "'f fs_ops" and cpu files
  have l: "locked (flash_example flash_layout \<lparr>fl_cr := CR_LOCK\<rparr>)"
    "key_stage (flash_example flash_layout \<lparr>fl_cr := CR_LOCK\<rparr>) = 0"
    "bit (fl_optcr (flash_example flash_layout \<lparr>fl_cr := CR_LOCK\<rparr>)) 0"
    by (simp_all add: locked_def flash_example_def CR_LOCK_def)
  have "\<not> unlock_sequence (keyr_values [(0x10, 0), (0x04, KEY1), (0x04, 0), (0x04, KEY2), (0x10, 0x10002)])"
    by (auto simp: unlock_sequence_def keyr_values_def KEY1_def KEY2_def Cons_eq_append_conv)
  with flash_lock_holds [OF l, of "[(0x10, 0), (0x04, KEY1), (0x04, 0), (0x04, KEY2), (0x10, 0x10002)]"
      flat_ops fs cpu files]
  show "\<exists>f'. flash_writes flat_ops fs [(0x10, 0), (0x04, KEY1), (0x04, 0), (0x04, KEY2), (0x10, 0x10002)]
      (flash_example flash_layout \<lparr>fl_cr := CR_LOCK\<rparr>, cpu, files) = (f', cpu, files) \<and> locked f'"
    by blast
qed

text \<open>C17: A sector erase erases that sector. With the controller unlocked, a write to CR with SER
  and STRT and without LOCK, whose sector field names a sector lying in RAM, fills that sector with
  0xFF in the bank and at every alias, changes no other byte, reports no error and leaves STRT
  clear.\<close>

theorem flash_erases_sector:
  assumes "ram_laws ops R" "ram_bytes ops R"
    and "\<not> locked f" "internal f = Some c"
    and "bit v 1" "bit v 16" "\<not> bit v 31"
    and "sector_range (ucast (drop_bit 3 (v AND CR_SNB_MASK))) = Some (off, sz)"
    and "mirrored (if_start c # if_aliases c) off (unat sz) \<subseteq> R"
  shows "\<exists>u'. flash_write ops fs 0x10 v (f, u, files) = (f\<lparr>fl_cr := v AND NOT CR_STRT\<rparr>, u', files) \<and>
    (\<forall>k \<in> R. byte_at ops u' k =
       (if k \<in> mirrored (if_start c # if_aliases c) off (unat sz) then 0xff else byte_at ops u k))"
proof -
  obtain u' where u':
    "attempt_all (\<lambda>base. fill ops (base + off) sz ERASED) (if_start c # if_aliases c) u = (u', None)"
    "\<forall>k \<in> R. byte_at ops u' k =
       (if k \<in> mirrored (if_start c # if_aliases c) off (unat sz) then ERASED else byte_at ops u k)"
    using fill_mirrors [OF assms(1,2,9), of ERASED u] by blast
  have "erase_sector ops (ucast (drop_bit 3 (v AND CR_SNB_MASK))) (f\<lparr>fl_cr := v AND NOT CR_STRT\<rparr>) u
      = (u', None)"
    using assms(4,8) u'(1) by (simp add: erase_sector_def del: attempt_all.simps)
  then have "flash_write ops fs 0x10 v (f, u, files) = (f\<lparr>fl_cr := v AND NOT CR_STRT\<rparr>, u', files)"
    using assms(3,5-7)
    by (simp add: flash_write_def write_control_def Let_def locked_def CR_LOCK_def CR_STRT_def CR_SER_def
        op_error_def)
  with u'(2) show ?thesis by (auto simp: ERASED_def)
qed

theorem flash_erases_sector_witness:
  "\<forall>fs :: 'f fs_ops. \<forall>cpu files. \<exists>u'.
    flash_write flat_ops fs 0x10 0x10022 (flash_example flash_layout, cpu, files) =
      (flash_example flash_layout \<lparr>fl_cr := 0x22\<rparr>, u', files) \<and> byte_at flat_ops u' 0x08010000 = 0xff"
proof (intro allI)
  fix fs :: "'f fs_ops" and cpu files
  let ?R = "{0..<2 ^ 32}"
  have s: "sector_range (ucast (drop_bit 3 (0x10022 AND CR_SNB_MASK :: u32))) = Some (0x10000, 0x10000)"
    by (simp add: CR_SNB_MASK_def sector_range_def)
  have m: "mirrored (if_start flash_layout # if_aliases flash_layout) 0x10000 (unat (0x10000 :: u32)) \<subseteq> ?R"
    by (auto simp: mirrored_def flash_layout_def)
  have b: "bit (0x10022 :: u32) 1" "bit (0x10022 :: u32) 16" "\<not> bit (0x10022 :: u32) 31"
    "\<not> locked (flash_example flash_layout)" "internal (flash_example flash_layout) = Some flash_layout"
    by (simp_all add: locked_def flash_example_def)
  have "ram_bytes flat_ops ?R" by (rule flat_ram_bytes) simp
  from flash_erases_sector [OF flat_ram_laws this b(4,5,1,2,3) s m, of fs cpu files]
  obtain u' where "flash_write flat_ops fs 0x10 0x10022 (flash_example flash_layout, cpu, files) =
      (flash_example flash_layout \<lparr>fl_cr := 0x10022 AND NOT CR_STRT\<rparr>, u', files)"
    "\<forall>k \<in> ?R. byte_at flat_ops u' k = (if k \<in> mirrored (if_start flash_layout # if_aliases flash_layout)
       0x10000 (unat (0x10000 :: u32)) then 0xff else byte_at flat_ops cpu k)" by blast
  then show "\<exists>u'. flash_write flat_ops fs 0x10 0x10022 (flash_example flash_layout, cpu, files) =
      (flash_example flash_layout \<lparr>fl_cr := 0x22\<rparr>, u', files) \<and> byte_at flat_ops u' 0x08010000 = 0xff"
    by (simp add: CR_STRT_def bit_mask_def mirrored_def flash_layout_def)
qed

text \<open>C16: Locking saves the persistent bank and a later boot restores it. When the unlocked
  controller is locked again, the persistent range is written to the backing file without error;
  loading it into another engine puts every byte back at its address and at its mirror under each
  alias, and changes nothing outside these windows.\<close>

theorem flash_persist_round_trip:
  assumes "ram_laws ops R" "ram_bytes ops R" "fs_writable fs path"
    and "\<not> locked f" "internal f = Some c" "if_persistent c = Some p" "backing_file p = Some path"
    and "bit v 31" "\<not> bit v 16"
    and "bases = fp_start p # map (\<lambda>a. a + (fp_start p - if_start c)) (if_aliases c)"
    and "\<forall>b \<in> set bases. span (ucast b) (unat (fp_size p)) \<subseteq> R"
    and "\<forall>x \<in> set bases. \<forall>y \<in> set bases. x \<noteq> y \<longrightarrow>
      span (ucast x) (unat (fp_size p)) \<inter> span (ucast y) (unat (fp_size p)) = {}"
  shows "\<exists>f' files' boot'. flash_write ops fs 0x10 v (f, u, files) = (f', u, files') \<and>
    locked f' \<and> fl_sr f' = fl_sr f \<and> load_persistent ops fs c files' boot = (boot', None) \<and>
    (\<forall>b \<in> set bases. \<forall>i < unat (fp_size p).
       byte_at ops boot' (unat b + i) = byte_at ops u (unat (fp_start p) + i)) \<and>
    (\<forall>k \<in> R. (\<forall>b \<in> set bases. k \<notin> span (ucast b) (unat (fp_size p))) \<longrightarrow>
       byte_at ops boot' k = byte_at ops boot k)"
proof -
  define bs where "bs = map (byte_at ops u) [unat (fp_start p)..<unat (fp_start p) + unat (fp_size p)]"
  have len: "length bs = unat (fp_size p)" by (simp add: bs_def)
  have "uc_mem_read ops (ucast (fp_start p)) (unat (fp_size p)) u = Some bs"
    using assms(2,10,11) by (simp add: ram_bytes_def bs_def)
  from persist_writes [OF _ assms(6,7,3) this, of "f\<lparr>fl_cr := v AND NOT CR_STRT\<rparr>" files] assms(5)
  obtain files' where p: "persist ops fs (f\<lparr>fl_cr := v AND NOT CR_STRT\<rparr>) u files = (files', None)"
    and r: "fs_read fs path files' = FileBytes bs" by auto
  have w: "flash_write ops fs 0x10 v (f, u, files) = (f\<lparr>fl_cr := v AND NOT CR_STRT\<rparr>, u, files')"
    using assms(4,8,9) p by (simp add: flash_write_def write_control_def Let_def locked_def CR_LOCK_def
        CR_STRT_def op_error_def)
  have lk: "locked (f\<lparr>fl_cr := v AND NOT CR_STRT\<rparr>)"
    using assms(8) by (simp add: locked_def CR_STRT_def bit_and_iff bit_not_iff)
  obtain boot' where b: "attempt_all (\<lambda>b. mem_write_or ops b bs) bases boot = (boot', None)"
    "\<forall>b \<in> set bases. \<forall>i < length bs. byte_at ops boot' (unat b + i) = bs ! i"
    "\<forall>k \<in> R. (\<forall>b \<in> set bases. k \<notin> span (ucast b) (length bs)) \<longrightarrow>
       byte_at ops boot' k = byte_at ops boot k"
    using load_windows [OF assms(1,2), of bases bs boot] assms(11,12) len by metis
  have am: "attempt_all (\<lambda>a. mem_write_or ops (a + d) bs) al =
      attempt_all (\<lambda>b. mem_write_or ops b bs) (map (\<lambda>a. a + d) al)" for d al
    by (induction al) (auto intro!: ext)
  have "load_persistent ops fs c files' boot = (boot', None)"
    using assms(6,7) r len b(1) unfolding assms(10)
    by (simp add: load_persistent_def Let_def am)
  with w lk b(2,3) len show ?thesis by (auto simp: bs_def)
qed

definition flat_fs :: "(string \<Rightarrow> u8 list option) fs_ops" where
  "flat_fs = \<lparr>fs_read = (\<lambda>p m. case m p of None \<Rightarrow> FileNotFound | Some bs \<Rightarrow> FileBytes bs),
     fs_create_dir_all_of_parent = (\<lambda>p m. (m, None)), fs_create = (\<lambda>p m. (m(p \<mapsto> []), None)),
     fs_write_all = (\<lambda>p bs m. (m(p \<mapsto> (case m p of None \<Rightarrow> [] | Some xs \<Rightarrow> xs) @ bs), None)),
     fs_sync_all = (\<lambda>p m. (m, None))\<rparr>"

theorem flash_persist_round_trip_witness:
  "\<forall>cpu boot. \<exists>f' files' boot'. flash_write flat_ops flat_fs 0x10 CR_LOCK
      (flash_example flash_layout, cpu, Map.empty) = (f', cpu, files') \<and> locked f' \<and>
    load_persistent flat_ops flat_fs flash_layout files' boot = (boot', None) \<and>
    byte_at flat_ops boot' (0x08010000 + 3) = byte_at flat_ops cpu (0x08010000 + 3) \<and>
    byte_at flat_ops boot' (0x210000 + 3) = byte_at flat_ops cpu (0x08010000 + 3)"
proof (intro allI)
  fix cpu boot
  let ?R = "{0..<2 ^ 32}" and ?f = "flash_example flash_layout"
    and ?p = "\<lparr>fp_start = 0x08010000, fp_size = 4, backing_file = Some ''state''\<rparr>"
    and ?bases = "[0x08010000, 0x210000] :: u32 list"
  have b: "ram_bytes flat_ops ?R" by (rule flat_ram_bytes) simp
  have fs: "fs_writable flat_fs ''state''" by (simp add: fs_writable_def flat_fs_def)
  have c: "\<not> locked ?f" "internal ?f = Some flash_layout" "if_persistent flash_layout = Some ?p"
    "backing_file ?p = Some ''state''" "bit CR_LOCK 31" "\<not> bit CR_LOCK 16"
    "?bases = fp_start ?p # map (\<lambda>a. a + (fp_start ?p - if_start flash_layout)) (if_aliases flash_layout)"
    by (simp_all add: locked_def flash_example_def flash_layout_def CR_LOCK_def)
  have w: "\<forall>b \<in> set ?bases. span (ucast b) (unat (fp_size ?p)) \<subseteq> ?R"
    "\<forall>x \<in> set ?bases. \<forall>y \<in> set ?bases. x \<noteq> y \<longrightarrow>
      span (ucast x) (unat (fp_size ?p)) \<inter> span (ucast y) (unat (fp_size ?p)) = {}"
    by (auto simp: span_def)
  from flash_persist_round_trip [OF flat_ram_laws b fs c w, of cpu Map.empty boot]
  obtain f' files' boot' where
    e: "flash_write flat_ops flat_fs 0x10 CR_LOCK (?f, cpu, Map.empty) = (f', cpu, files')" "locked f'"
    "load_persistent flat_ops flat_fs flash_layout files' boot = (boot', None)" and
    r: "\<forall>b \<in> set ?bases. \<forall>i < unat (fp_size ?p).
       byte_at flat_ops boot' (unat b + i) = byte_at flat_ops cpu (unat (fp_start ?p) + i)" by blast
  have "byte_at flat_ops boot' (0x08010000 + 3) = byte_at flat_ops cpu (0x08010000 + 3)"
    using r [THEN bspec, of "0x08010000", THEN spec, of 3] by simp
  moreover have "byte_at flat_ops boot' (0x210000 + 3) = byte_at flat_ops cpu (0x08010000 + 3)"
    using r [THEN bspec, of "0x210000", THEN spec, of 3] by simp
  ultimately show "\<exists>f' files' boot'. flash_write flat_ops flat_fs 0x10 CR_LOCK
      (flash_example flash_layout, cpu, Map.empty) = (f', cpu, files') \<and> locked f' \<and>
    load_persistent flat_ops flat_fs flash_layout files' boot = (boot', None) \<and>
    byte_at flat_ops boot' (0x08010000 + 3) = byte_at flat_ops cpu (0x08010000 + 3) \<and>
    byte_at flat_ops boot' (0x210000 + 3) = byte_at flat_ops cpu (0x08010000 + 3)" using e by blast
qed

end
