(* ===== verification/Bus.thy ===== *)
theory Bus
  imports Prelude
begin

text \<open>
  The memory-mapped bus, \<open>src/peripherals/mod.rs\<close>: the sorted list of peripheral slots, the lookup
  of an address by binary search, bit-band aliases, sub-word accesses, and the polling loop.

  The bus is generic in the peripheral handle \<open>'p\<close> (an \<open>Rc<RefCell<..>>\<close> of a trait object) and in
  the state \<open>'s\<close> behind all handles: the trait's methods are a record of functions, and the borrow
  flag of a \<open>RefCell\<close> is explicit, because a peripheral may access the bus while it is borrowed.
\<close>

section \<open>Slots and lookup\<close>

record 'p slot =
  slot_start :: u32
  slot_end :: u32
  slot_peripheral :: 'p

definition MEMORY_MAPS :: "(u32 \<times> u32) list" where
  "MEMORY_MAPS = [(0x40000000, 0xB0000000), (0xE0000000, 0xE1000000)]"

text \<open>\<open>slice::binary_search_by_key\<close>: the branch-free loop of the standard library.\<close>

function search_loop :: "(nat \<Rightarrow> u32) \<Rightarrow> u32 \<Rightarrow> nat \<Rightarrow> nat \<Rightarrow> nat" where
  "search_loop key x base sz =
     (if sz \<le> 1 then base
      else let half = sz div 2; mid = base + half in
           search_loop key x (if x < key mid then base else mid) (sz - half))"
  by pat_completeness auto
termination
  by (relation "measure (\<lambda>(key, x, base, sz). sz)") auto

declare search_loop.simps [simp del]

definition binary_search_by_key :: "u32 \<Rightarrow> ('a \<Rightarrow> u32) \<Rightarrow> 'a list \<Rightarrow> nat + nat" where
  "binary_search_by_key x key xs =
     (if xs = [] then Inl 0
      else let base = search_loop (\<lambda>i. key (xs ! i)) x 0 (length xs); k = key (xs ! base) in
           if k = x then Inr base else Inl (if k < x then base + 1 else base))"

definition get_peripheral :: "'p slot list \<Rightarrow> u32 \<Rightarrow> 'p slot option" where
  "get_peripheral slots addr =
     (let index = (case binary_search_by_key addr slot_start slots of
                     Inl e \<Rightarrow> (if e = 0 then None else Some (e - 1))
                   | Inr v \<Rightarrow> Some v)
      in case index of None \<Rightarrow> None
         | Some i \<Rightarrow> if i < length slots \<and> addr \<le> slot_end (slots ! i) then Some (slots ! i) else None)"

definition modeled_range :: "string \<Rightarrow> u32 \<Rightarrow> u32 \<Rightarrow> u32 \<times> u32" where
  "modeled_range name base sz =
     (if name = ''FSMC'' then (0x60000000, 0xA0001000)
      else if name = ''OTG_FS_GLOBAL'' then (base, base + 0x7000)
      else if name = ''SCB'' then (base, base + 0x008f)
      else (base, base + sz))"

text \<open>The debug-only peripheral keeps the SVD's register names; its size decides the slot's range.
  A \<open>RegisterInfo\<close> is its address offset and its name.\<close>

record generic_peripheral =
  gp_name :: string
  gp_registers :: "u32 \<rightharpoonup> string"
  gp_offsets :: "u32 list"

definition generic_new :: "string \<Rightarrow> (u32 \<times> string) list \<Rightarrow> generic_peripheral" where
  "generic_new name registers =
     \<lparr>gp_name = name, gp_registers = map_of (rev registers), gp_offsets = map fst registers\<rparr>"

definition generic_size :: "generic_peripheral \<Rightarrow> u32" where
  "generic_size p = fold max (gp_offsets p) 0 + 4"

definition generic_reg_name :: "u32 \<Rightarrow> generic_peripheral \<Rightarrow> string option res" where
  "generic_reg_name offset p =
     (if offset mod 4 \<noteq> 0 then Inl AssertFailed else Inr (gp_registers p offset))"

text \<open>Registration pushes one debug slot and, when some model claims the name, one real slot.\<close>

definition register_peripheral ::
  "(string \<Rightarrow> 'p option) \<Rightarrow> string \<Rightarrow> u32 \<Rightarrow> (u32 \<times> string) list \<Rightarrow>
   generic_peripheral slot list \<times> 'p slot list \<Rightarrow> generic_peripheral slot list \<times> 'p slot list" where
  "register_peripheral new_model name base registers st =
     (let (debug, real) = st;
          p = generic_new name registers;
          debug = debug @ [\<lparr>slot_start = base, slot_end = base + generic_size p, slot_peripheral = p\<rparr>];
          (start, fin) = modeled_range name base (base + generic_size p - base)
      in (debug, case new_model name of None \<Rightarrow> real
                 | Some m \<Rightarrow> real @ [\<lparr>slot_start = start, slot_end = fin, slot_peripheral = m\<rparr>]))"

fun no_overlap :: "'p slot list \<Rightarrow> unit res" where
  "no_overlap (p1 # p2 # ps) =
     (if slot_end p1 < slot_start p2 then no_overlap (p2 # ps) else Inl AssertFailed)"
| "no_overlap ps = Inr ()"

definition finish_registration ::
  "'d slot list \<times> 'p slot list \<Rightarrow> ('d slot list \<times> 'p slot list) res" where
  "finish_registration st =
     (let (debug, real) = st; debug = sort_key slot_start debug; real = sort_key slot_start real
      in res_map (\<lambda>_. (debug, real)) (no_overlap debug))"

section \<open>Accesses\<close>

record ('p, 's) peripheral_ops =
  per_read :: "'p \<Rightarrow> u32 \<Rightarrow> 's \<Rightarrow> (u32 \<times> 's) res"
  per_write :: "'p \<Rightarrow> u32 \<Rightarrow> u32 \<Rightarrow> 's \<Rightarrow> 's res"
  per_poll :: "'p \<Rightarrow> 's \<Rightarrow> 's res"
  cell_borrowed :: "'p \<Rightarrow> 's \<Rightarrow> bool"
  set_borrowed :: "'p \<Rightarrow> bool \<Rightarrow> 's \<Rightarrow> 's"

definition slot_read :: "('p, 's) peripheral_ops \<Rightarrow> 'p \<Rightarrow> u32 \<Rightarrow> 's \<Rightarrow> (u32 \<times> 's) res" where
  "slot_read ops p offset s =
     (if cell_borrowed ops p s then Inl BorrowConflict
      else res_map (\<lambda>(v, s). (v, set_borrowed ops p False s))
             (per_read ops p offset (set_borrowed ops p True s)))"

definition slot_write :: "('p, 's) peripheral_ops \<Rightarrow> 'p \<Rightarrow> u32 \<Rightarrow> u32 \<Rightarrow> 's \<Rightarrow> 's res" where
  "slot_write ops p offset value s =
     (if cell_borrowed ops p s then Inl BorrowConflict
      else res_map (set_borrowed ops p False) (per_write ops p offset value (set_borrowed ops p True s)))"

definition slot_poll :: "('p, 's) peripheral_ops \<Rightarrow> 'p \<Rightarrow> 's \<Rightarrow> 's res" where
  "slot_poll ops p s =
     (if cell_borrowed ops p s then Inl BorrowConflict
      else res_map (set_borrowed ops p False) (per_poll ops p (set_borrowed ops p True s)))"

definition bitbanding :: "u32 \<Rightarrow> (u32 \<times> u8) option" where
  "bitbanding addr =
     (if 0x42000000 \<le> addr \<and> addr < 0x44000000
      then let bit_number = (addr mod 32) div 4; addr = 0x40000000 + (addr - 0x42000000) div 32
           in Some (addr, ucast bit_number)
      else None)"

definition is_register :: "u32 \<Rightarrow> bool" where
  "is_register addr \<longleftrightarrow> \<not> (0x60000000 \<le> addr \<and> addr < 0xA0000000)"

definition align_addr_4 :: "u32 \<Rightarrow> u32 \<times> u8" where
  "align_addr_4 addr = (let byte_offset = ucast (addr mod 4) in (addr - ucast byte_offset, byte_offset))"

lemma bitband_target_less:
  assumes "0x42000000 \<le> (addr :: u32)" "addr < 0x44000000"
  shows "unat (0x40000000 + (addr - 0x42000000) div 32) = 0x40000000 + (unat addr - 0x42000000) div 32"
    and "(unat addr - 0x42000000) div 32 < 0x100000"
proof -
  have s: "unat (addr - 0x42000000) = unat addr - 0x42000000"
    using assms(1) by (simp add: unat_sub)
  have d: "unat ((addr - 0x42000000) div 32) = (unat addr - 0x42000000) div 32"
    by (simp add: unat_div s)
  show l: "(unat addr - 0x42000000) div 32 < 0x100000"
    using assms(2) by (simp add: word_less_nat_alt)
  show "unat (0x40000000 + (addr - 0x42000000) div 32) = 0x40000000 + (unat addr - 0x42000000) div 32"
    using l d by (subst unat_add_lem [THEN iffD1]) simp_all
qed

lemma bitbanding_once: "bitbanding addr = Some (a, n) \<Longrightarrow> bitbanding a = None"
  using bitband_target_less [of addr]
  by (auto simp: bitbanding_def word_le_nat_alt word_less_nat_alt split: if_splits)

lemma bitbanding_target: "bitbanding addr = Some x \<Longrightarrow> (a, n) = x \<Longrightarrow> bitbanding a = None"
  by (auto dest: bitbanding_once)

text \<open>A bit-band access is an access to the byte behind the alias, which is not itself an alias, so
  the recursion is at most one deep.\<close>

function bus_read ::
  "('p, 's) peripheral_ops \<Rightarrow> 'p slot list \<Rightarrow> u32 \<Rightarrow> u8 \<Rightarrow> 's \<Rightarrow> (u32 \<times> 's) res" where
  "bus_read ops slots addr sz s =
     (case bitbanding addr of
        Some (a, bit_number) \<Rightarrow>
          res_map (\<lambda>(v, s). (drop_bit (unat bit_number) v AND 1, s)) (bus_read ops slots a 1 s)
      | None \<Rightarrow>
          let (addr, byte_offset) = (if is_register addr then align_addr_4 addr else (addr, 0)) in
          if 4 < byte_offset + sz then Inl AssertFailed
          else case get_peripheral slots addr of
                 Some p \<Rightarrow> res_map (\<lambda>(v, s). (drop_bit (unat (8 * byte_offset)) v, s))
                             (slot_read ops (slot_peripheral p) (addr - slot_start p) s)
               | None \<Rightarrow> Inr (0, s))"
  by pat_completeness auto
termination
  by (relation "measure (\<lambda>(ops, slots, addr, sz, s). if bitbanding addr = None then 0 else 1)")
    (rule wf_measure, frule (1) bitbanding_target, simp)

declare bus_read.simps [simp del]

function bus_write ::
  "('p, 's) peripheral_ops \<Rightarrow> 'p slot list \<Rightarrow> u32 \<Rightarrow> u8 \<Rightarrow> u32 \<Rightarrow> 's \<Rightarrow> 's res" where
  "bus_write ops slots addr sz value s =
     (case bitbanding addr of
        Some (a, bit_number) \<Rightarrow>
          res_bind (bus_read ops slots a 1 s) (\<lambda>(v, s).
            let v = v AND bit_mask (unat bit_number);
                v = v OR push_bit (unat bit_number) (value AND 1)
            in bus_write ops slots a 1 v s)
      | None \<Rightarrow>
          let (addr, byte_offset) = (if is_register addr then align_addr_4 addr else (addr, 0)) in
          if 4 < byte_offset + sz then Inl AssertFailed
          else res_bind
            (if is_register addr \<and> sz < 4 then
               res_map (\<lambda>(old_value, s).
                 let shift = 8 * unat byte_offset; width = 8 * unat sz;
                     write_mask = push_bit shift (push_bit width 1 - 1)
                 in ((old_value AND NOT write_mask) OR (push_bit shift value AND write_mask), s))
                 (bus_read ops slots addr 4 s)
             else Inr (value, s))
            (\<lambda>(value, s).
               case get_peripheral slots addr of
                 Some p \<Rightarrow> slot_write ops (slot_peripheral p) (addr - slot_start p) value s
               | None \<Rightarrow> Inr s))"
  by pat_completeness auto
termination
  by (relation "measure (\<lambda>(ops, slots, addr, sz, value, s). if bitbanding addr = None then 0 else 1)")
    (rule wf_measure, frule (1) bitbanding_target, simp)

declare bus_write.simps [simp del]

definition bus_poll :: "('p, 's) peripheral_ops \<Rightarrow> 'p slot list \<Rightarrow> 's \<Rightarrow> 's res" where
  "bus_poll ops slots s = fold_res (\<lambda>p. slot_poll ops (slot_peripheral p)) slots s"

text \<open>The default DMA methods of the \<open>Peripheral\<close> trait: one register access per byte.\<close>

fun read_dma :: "('s \<Rightarrow> (u32 \<times> 's) res) \<Rightarrow> nat \<Rightarrow> 's \<Rightarrow> (u8 list \<times> 's) res" where
  "read_dma rd 0 s = Inr ([], s)"
| "read_dma rd (Suc n) s =
     res_bind (rd s) (\<lambda>(v, s). res_map (\<lambda>(vs, s). (ucast v # vs, s)) (read_dma rd n s))"

definition write_dma :: "(u32 \<Rightarrow> 's \<Rightarrow> 's res) \<Rightarrow> u8 list \<Rightarrow> 's \<Rightarrow> 's res" where
  "write_dma wr bs s = fold_res (\<lambda>b. wr (ucast b)) bs s"

section \<open>Lemmas\<close>

subsection \<open>Lookup\<close>

lemma search_loop_props:
  "0 < sz \<Longrightarrow> (\<forall>i j. base \<le> i \<longrightarrow> i \<le> j \<longrightarrow> j < base + sz \<longrightarrow> key i \<le> key j) \<Longrightarrow>
   base \<le> search_loop key x base sz \<and> search_loop key x base sz < base + sz \<and>
   (search_loop key x base sz = base \<or> key (search_loop key x base sz) \<le> x) \<and>
   (\<forall>j. search_loop key x base sz < j \<longrightarrow> j < base + sz \<longrightarrow> x < key j)"
proof (induction key x base sz rule: search_loop.induct)
  case (1 key x base sz)
  show ?case
  proof (cases "sz \<le> 1")
    case True
    with 1(2) show ?thesis by (subst (1 2 3 4 5) search_loop.simps) auto
  next
    case False
    define half where "half = sz div 2"
    have h: "0 < half" "half < sz" "half \<le> sz - half" using False by (auto simp: half_def)
    show ?thesis
    proof (cases "x < key (base + half)")
      case True
      have e: "search_loop key x base sz = search_loop key x base (sz - half)"
        using True False by (subst search_loop.simps) (simp add: half_def Let_def)
      have "x < key j" if "base + half \<le> j" "j < base + sz" for j
        using 1(3) that True by (meson le_add1 order_less_le_trans)
      moreover have "0 < sz - half" "base + (sz - half) \<le> base + sz" using h by auto
      moreover have "\<forall>i j. base \<le> i \<longrightarrow> i \<le> j \<longrightarrow> j < base + (sz - half) \<longrightarrow> key i \<le> key j"
        using 1(3) by auto
      moreover have "j < base + (sz - half)" if "j < base + half" for j using that h by linarith
      ultimately show ?thesis unfolding e
        using 1(1) [OF False half_def refl] True by (simp only: if_True) (meson leI order_less_le_trans)
    next
      case ge: False
      have e: "search_loop key x base sz = search_loop key x (base + half) (sz - half)"
        using ge False by (subst search_loop.simps) (simp add: half_def Let_def)
      have b: "base + half + (sz - half) = base + sz" using h by simp
      have m: "\<forall>i j. base + half \<le> i \<longrightarrow> i \<le> j \<longrightarrow> j < base + half + (sz - half) \<longrightarrow> key i \<le> key j"
        unfolding b using 1(3) by auto
      show ?thesis unfolding e
        using 1(1) [OF False half_def refl] ge h m unfolding b by auto
    qed
  qed
qed

definition slots_ok :: "'p slot list \<Rightarrow> bool" where
  "slots_ok slots \<longleftrightarrow> sorted_wrt (<) (map slot_start slots)"

lemma slots_ok_less: "slots_ok slots \<Longrightarrow> i < j \<Longrightarrow> j < length slots \<Longrightarrow> slot_start (slots ! i) < slot_start (slots ! j)"
  by (simp add: slots_ok_def sorted_wrt_iff_nth_less)

text \<open>The index the lookup settles on: the last slot that starts at or before the address.\<close>

lemma lookup_index:
  assumes "slots_ok slots" "i < length slots" "slot_start (slots ! i) \<le> a"
    and "\<forall>j < length slots. i < j \<longrightarrow> a < slot_start (slots ! j)"
  shows "get_peripheral slots a = (if a \<le> slot_end (slots ! i) then Some (slots ! i) else None)"
proof -
  define b where "b = search_loop (\<lambda>i. slot_start (slots ! i)) a 0 (length slots)"
  have mono: "slot_start (slots ! k) \<le> slot_start (slots ! j)" if "k \<le> j" "j < length slots" for k j
    using slots_ok_less [OF assms(1), of k j] that by (cases "k = j") auto
  have ne: "slots \<noteq> []" using assms(2) by auto
  have b: "b < length slots" "b = 0 \<or> slot_start (slots ! b) \<le> a"
    "\<forall>j. b < j \<longrightarrow> j < length slots \<longrightarrow> a < slot_start (slots ! j)"
    using search_loop_props [of "length slots" 0 "\<lambda>i. slot_start (slots ! i)" a] mono ne
    by (auto simp: b_def)
  have "b = i"
  proof (rule linorder_cases [of b i])
    assume "b < i"
    with b(3) assms(2,3) have "a < slot_start (slots ! i)" by blast
    with assms(3) show ?thesis by simp
  next
    assume g: "i < b"
    with assms(4) b(1) have "a < slot_start (slots ! b)" by blast
    with b(2) g show ?thesis by simp
  qed simp
  with assms(3) have "slot_start (slots ! b) \<le> a" by simp
  then show ?thesis using \<open>b = i\<close> ne assms(2)
    by (auto simp: get_peripheral_def binary_search_by_key_def b_def [symmetric] Let_def)
qed

lemma lookup_below:
  assumes "slots_ok slots" "\<forall>j < length slots. a < slot_start (slots ! j)"
  shows "get_peripheral slots a = None"
proof (cases "slots = []")
  case False
  define b where "b = search_loop (\<lambda>i. slot_start (slots ! i)) a 0 (length slots)"
  have mono: "slot_start (slots ! k) \<le> slot_start (slots ! j)" if "k \<le> j" "j < length slots" for k j
    using slots_ok_less [OF assms(1), of k j] that by (cases "k = j") auto
  have "b < length slots" "b = 0 \<or> slot_start (slots ! b) \<le> a"
    using search_loop_props [of "length slots" 0 "\<lambda>i. slot_start (slots ! i)" a] mono False
    by (auto simp: b_def)
  then have "b = 0" "a < slot_start (slots ! b)" using assms(2) by auto
  then show ?thesis using False
    by (auto simp: get_peripheral_def binary_search_by_key_def b_def [symmetric] Let_def)
qed (simp add: get_peripheral_def binary_search_by_key_def)

subsection \<open>Sub-word accesses\<close>

lemma unat_mod_4: "unat (addr mod 4 :: u32) = unat addr mod 4"
  by (simp add: unat_mod)

lemma align_addr_4_eq: "align_addr_4 addr = (addr - addr mod 4, of_nat (unat addr mod 4))"
proof -
  have l: "unat addr mod 4 < 4" by simp
  have "unat (ucast (addr mod 4) :: u8) = unat addr mod 4"
    using l by (simp add: unsigned_ucast_eq unat_mod_4 take_bit_nat_eq_self_iff)
  then have b: "(ucast (addr mod 4) :: u8) = of_nat (unat addr mod 4)"
    by (metis of_nat_unat ucast_id)
  have "unat (ucast (of_nat (unat addr mod 4) :: u8) :: u32) = unat (addr mod 4)"
    using l by (simp add: unsigned_ucast_eq unat_mod_4 unat_of_nat take_bit_nat_eq_self_iff)
  then have "unat (ucast (ucast (addr mod 4) :: u8) :: u32) = unat (addr mod 4)" by (simp only: b)
  then have "(ucast (ucast (addr mod 4) :: u8) :: u32) = addr mod 4"
    by (simp only: word_unat_eq_iff)
  with b show ?thesis by (simp add: align_addr_4_def Let_def)
qed

lemma unat_u8_small: "k < 256 \<Longrightarrow> unat (of_nat k :: u8) = k"
  by (simp add: unat_of_nat take_bit_nat_eq_self_iff)

lemma byte_end_ok: "k + n \<le> 4 \<Longrightarrow> \<not> 4 < (of_nat k + of_nat n :: u8)"
  using unat_u8_small [of "k + n"] by (simp add: word_less_nat_alt)

lemma bus_read_word:
  assumes "bitbanding addr = None" "is_register addr" "unat addr mod 4 + n \<le> 4"
    and "get_peripheral slots (addr - addr mod 4) = Some p"
    and "slot_read ops (slot_peripheral p) (addr - addr mod 4 - slot_start p) s = Inr (v, s1)"
  shows "bus_read ops slots addr (of_nat n) s = Inr (drop_bit (8 * (unat addr mod 4)) v, s1)"
proof -
  define k where "k = unat addr mod 4"
  have k: "k < 4" by (simp add: k_def)
  have "unat (8 * of_nat k :: u8) = 8 * k"
    using unat_u8_small [of "8 * k"] k by simp
  then show ?thesis
    using assms byte_end_ok [of k n]
    by (subst bus_read.simps) (simp add: align_addr_4_eq k_def [symmetric])
qed

lemma is_register_aligned: "is_register addr \<Longrightarrow> is_register (addr - addr mod 4)"
proof -
  assume r: "is_register addr"
  have m: "unat (addr - addr mod 4) = unat addr - unat addr mod 4"
    by (subst unat_sub) (simp_all add: word_le_nat_alt unat_mod_4)
  have "\<not> (0x60000000 \<le> unat addr \<and> unat addr < 0xA0000000)"
    using r by (simp add: is_register_def word_le_nat_alt word_less_nat_alt)
  then have "\<not> (0x60000000 \<le> unat addr - unat addr mod 4 \<and> unat addr - unat addr mod 4 < 0xA0000000)"
    by presburger
  then show ?thesis by (simp add: is_register_def word_le_nat_alt word_less_nat_alt m)
qed

lemma not_bitband_aligned: "bitbanding addr = None \<Longrightarrow> bitbanding (addr - addr mod 4) = None"
proof -
  assume r: "bitbanding addr = None"
  have m: "unat (addr - addr mod 4) = unat addr - unat addr mod 4"
    by (subst unat_sub) (simp_all add: word_le_nat_alt unat_mod_4)
  have "\<not> (0x42000000 \<le> unat addr \<and> unat addr < 0x44000000)"
    using r by (simp add: bitbanding_def word_le_nat_alt word_less_nat_alt Let_def split: if_splits)
  then have "\<not> (0x42000000 \<le> unat addr - unat addr mod 4 \<and> unat addr - unat addr mod 4 < 0x44000000)"
    by presburger
  then show ?thesis by (simp add: bitbanding_def word_le_nat_alt word_less_nat_alt m)
qed

text \<open>The word a sub-word write hands to the peripheral.\<close>

definition merged :: "nat \<Rightarrow> nat \<Rightarrow> u32 \<Rightarrow> u32 \<Rightarrow> u32" where
  "merged k n old value =
     (old AND NOT (push_bit (8 * k) (push_bit (8 * n) 1 - 1))) OR
     (push_bit (8 * k) value AND push_bit (8 * k) (push_bit (8 * n) 1 - 1))"

lemma bit_merged:
  assumes "i < 32" "k + n \<le> 4"
  shows "bit (merged k n old value) i \<longleftrightarrow>
    (if 8 * k \<le> i \<and> i < 8 * (k + n) then bit value (i - 8 * k) else bit old i)"
proof -
  have "bit (push_bit (8 * k) (push_bit (8 * n) 1 - 1) :: u32) i \<longleftrightarrow> 8 * k \<le> i \<and> i < 8 * (k + n)"
    using assms unfolding bit_push_bit_iff push_bit_of_1 mask_eq_exp_minus_1 [symmetric]
    by (auto simp: bit_mask_iff)
  then show ?thesis using assms(1)
    by (auto simp: merged_def bit_or_iff bit_and_iff bit_not_iff bit_push_bit_iff)
qed

lemma aligned_mod: "(addr - addr mod 4) mod 4 = (0 :: u32)"
proof -
  have "unat (addr - addr mod 4) = unat addr - unat addr mod 4"
    by (subst unat_sub) (simp_all add: word_le_nat_alt unat_mod_4)
  then have "unat ((addr - addr mod 4) mod 4) = 0"
    by (simp add: unat_mod_4)
  then show ?thesis by (simp add: unat_eq_0)
qed

lemma bus_write_subword:
  assumes "bitbanding addr = None" "is_register addr" "unat addr mod 4 + n \<le> 4" "n < 4"
    and "get_peripheral slots (addr - addr mod 4) = Some p"
    and "slot_read ops (slot_peripheral p) (addr - addr mod 4 - slot_start p) s = Inr (old, s1)"
  shows "bus_write ops slots addr (of_nat n) value s =
    slot_write ops (slot_peripheral p) (addr - addr mod 4 - slot_start p)
      (merged (unat addr mod 4) n old value) s1"
proof -
  define k where "k = unat addr mod 4"
  have k: "k < 4" by (simp add: k_def)
  have a: "unat (addr - addr mod 4) mod 4 = 0" using aligned_mod [of addr] unat_mod_4 by (metis unat_0)
  have r: "bus_read ops slots (addr - addr mod 4) 4 s = Inr (old, s1)"
    using bus_read_word [of "addr - addr mod 4" 4 slots p ops s old s1] not_bitband_aligned [OF assms(1)]
      is_register_aligned [OF assms(2)] aligned_mod assms(5,6) a by simp
  have n: "(of_nat n :: u8) < 4" "unat (of_nat n :: u8) = n" "unat (of_nat k :: u8) = k"
    using assms(4) k unat_u8_small [of n] unat_u8_small [of k] by (simp_all add: word_less_nat_alt)
  show ?thesis
    using assms(1,2,3,5) byte_end_ok [of k n] n r is_register_aligned [OF assms(2)]
    by (subst bus_write.simps)
      (simp add: align_addr_4_eq k_def [symmetric] merged_def Let_def)
qed

lemma bitbanding_None_target: "bitbanding addr = Some (a, b) \<Longrightarrow> is_register a \<and> unat b < 8"
proof -
  assume h: "bitbanding addr = Some (a, b)"
  then have r: "0x42000000 \<le> addr" "addr < 0x44000000"
    and a: "a = 0x40000000 + (addr - 0x42000000) div 32" and b: "b = ucast ((addr mod 32) div 4)"
    by (auto simp: bitbanding_def Let_def split: if_splits)
  have "is_register a" using bitband_target_less [OF r]
    by (simp add: is_register_def a word_le_nat_alt word_less_nat_alt)
  moreover have "unat ((addr mod 32) div 4 :: u32) < 8"
    by (simp add: unat_div unat_mod)
  then have "unat b < 8" unfolding b by (simp add: unsigned_ucast_eq) (meson le_less_trans take_bit_nat_less_eq_self)
  ultimately show ?thesis by simp
qed

section \<open>Properties\<close>



text \<open>C20: Narrow accesses touch only their bytes. A load of n bytes at byte k of a register returns
  the register shifted down by k bytes; a store of fewer than four bytes reads the register once and
  writes it once, with exactly the n stored bytes replaced by the low bytes of the value and every
  other bit as read.\<close>

theorem bus_subword_access:
  assumes "bitbanding addr = None" "is_register addr" "unat addr mod 4 + n \<le> 4"
    and "get_peripheral slots (addr - addr mod 4) = Some p"
    and "slot_read ops (slot_peripheral p) (addr - addr mod 4 - slot_start p) s = Inr (old, s1)"
  shows "bus_read ops slots addr (of_nat n) s = Inr (drop_bit (8 * (unat addr mod 4)) old, s1) \<and>
    (n < 4 \<longrightarrow> (\<exists>new. bus_write ops slots addr (of_nat n) value s =
        slot_write ops (slot_peripheral p) (addr - addr mod 4 - slot_start p) new s1 \<and>
      (\<forall>i < 32. bit new i \<longleftrightarrow>
        (if 8 * (unat addr mod 4) \<le> i \<and> i < 8 * (unat addr mod 4 + n)
         then bit value (i - 8 * (unat addr mod 4)) else bit old i))))"
proof -
  have "bus_write ops slots addr (of_nat n) value s =
      slot_write ops (slot_peripheral p) (addr - addr mod 4 - slot_start p)
        (merged (unat addr mod 4) n old value) s1" if "n < 4"
    by (rule bus_write_subword) (use assms that in simp_all)
  then show ?thesis using bus_read_word [OF assms] bit_merged [where k = "unat addr mod 4"] assms(3)
    by blast
qed

definition cell_ops :: "(unit, u32 \<times> bool) peripheral_ops" where
  "cell_ops = \<lparr>per_read = (\<lambda>p offset s. Inr (fst s, s)), per_write = (\<lambda>p offset v s. Inr (v, snd s)),
     per_poll = (\<lambda>p s. Inr s), cell_borrowed = (\<lambda>p s. snd s), set_borrowed = (\<lambda>p b s. (fst s, b))\<rparr>"

definition cell_slots :: "unit slot list" where
  "cell_slots = [\<lparr>slot_start = 0x40000000, slot_end = 0x40000010, slot_peripheral = ()\<rparr>]"

lemma cell_read: "slot_read cell_ops p off (v, False) = Inr (v, (v, False))"
  by (simp add: slot_read_def cell_ops_def)

lemma cell_lookup: "get_peripheral cell_slots 0x40000000 = Some (cell_slots ! 0)"
  using lookup_index [of cell_slots 0 "0x40000000"]
  by (simp add: slots_ok_def cell_slots_def)

theorem bus_subword_access_witness:
  "bus_read cell_ops cell_slots 0x40000002 1 (0x11223344, False) = Inr (0x1122, (0x11223344, False))"
  using bus_subword_access [of "0x40000002" 1 cell_slots "cell_slots ! 0" cell_ops
      "(0x11223344, False)" "0x11223344" "(0x11223344, False)"]
  by (simp add: bitbanding_def is_register_def cell_lookup cell_read)

text \<open>C37: What a bit-band store does. Storing through the alias of bit b of a byte writes the byte
  with bit b set if it was set or the stored value is odd, and with its seven other bits cleared;
  the other three bytes of the register are kept. A store of zero therefore never clears the bit
  it addresses and wipes its neighbours.\<close>

theorem bus_bitband_store:
  assumes "bitbanding addr = Some (a, b)"
    and "get_peripheral slots (a - a mod 4) = Some p"
    and "slot_read ops (slot_peripheral p) (a - a mod 4 - slot_start p) s = Inr (old, s1)"
    and "slot_read ops (slot_peripheral p) (a - a mod 4 - slot_start p) s1 = Inr (old, s2)"
  shows "\<exists>new. bus_write ops slots addr sz value s =
      slot_write ops (slot_peripheral p) (a - a mod 4 - slot_start p) new s2 \<and>
    (\<forall>i < 32. bit new i \<longleftrightarrow>
       (if 8 * (unat a mod 4) \<le> i \<and> i < 8 * (unat a mod 4) + 8
        then i = 8 * (unat a mod 4) + unat b \<and> (bit old i \<or> bit value 0) else bit old i))"
proof -
  define k where "k = unat a mod 4"
  have k: "k + 1 \<le> 4" by (simp add: k_def)
  have n: "bitbanding a = None" by (rule bitbanding_once [OF assms(1)])
  have r: "is_register a" "unat b < 8" using bitbanding_None_target [OF assms(1)] by auto
  define v where "v = (drop_bit (8 * k) old AND bit_mask (unat b)) OR push_bit (unat b) (value AND 1)"
  have rd: "bus_read ops slots a 1 s = Inr (drop_bit (8 * k) old, s1)"
    using bus_read_word [OF n r(1), of 1 slots p ops s old s1] assms(2,3) k by (simp add: k_def)
  have wr: "bus_write ops slots a 1 v s1 =
      slot_write ops (slot_peripheral p) (a - a mod 4 - slot_start p) (merged k 1 old v) s2"
    using bus_write_subword [OF n r(1), of 1 slots p ops s1 old s2 v] assms(2,4) k by (simp add: k_def)
  have v: "bit v j \<longleftrightarrow> j = unat b \<and> (bit old (8 * k + j) \<or> bit value 0)" if "j < 8" for j
    using that r(2) unfolding v_def bit_or_iff bit_and_iff bit_push_bit_iff bit_drop_bit_eq
    by (auto simp: bit_1_iff)
  have "bit (merged k 1 old v) i \<longleftrightarrow> (if 8 * k \<le> i \<and> i < 8 * k + 8
      then i = 8 * k + unat b \<and> (bit old i \<or> bit value 0) else bit old i)" if "i < 32" for i
    unfolding bit_merged [OF that k] using v [of "i - 8 * k"] by auto
  moreover have "bus_write ops slots addr sz value s = bus_write ops slots a 1 v s1"
    using assms(1) rd by (subst bus_write.simps) (simp add: Let_def v_def)
  ultimately show ?thesis unfolding k_def [symmetric] using wr by auto
qed

theorem bus_bitband_store_witness:
  "\<exists>new. bus_write cell_ops cell_slots 0x42000004 4 0 (0x11ff, False) =
     slot_write cell_ops () 0 new (0x11ff, False) \<and> bit new 1 \<and> \<not> bit new 0 \<and> \<not> bit new 2"
proof -
  have b: "bitbanding 0x42000004 = Some (0x40000000, 1)" by (simp add: bitbanding_def)
  from bus_bitband_store [OF b, of cell_slots "cell_slots ! 0" cell_ops "(0x11ff, False)" "0x11ff"
      "(0x11ff, False)" "(0x11ff, False)" 4 0]
  obtain new where n: "bus_write cell_ops cell_slots 0x42000004 4 0 (0x11ff, False) =
      slot_write cell_ops (slot_peripheral (cell_slots ! 0)) (0x40000000 - slot_start (cell_slots ! 0))
        new (0x11ff, False)"
    "\<forall>i < 32. bit new i \<longleftrightarrow> (if i < 8 then i = 1 \<and> bit (0x11ff :: u32) i else bit (0x11ff :: u32) i)"
    by (auto simp: cell_lookup cell_read)
  have "bit new 1 \<and> \<not> bit new 0 \<and> \<not> bit new 2"
    using n(2) [rule_format, of 1] n(2) [rule_format, of 0] n(2) [rule_format, of 2] by simp
  with n(1) show ?thesis by (auto simp: cell_slots_def)
qed

end
