(* ===== verification/Displays.thy ===== *)
theory Displays
  imports SerialDevices
begin

text \<open>
  Screens: the framebuffers (\<open>src/framebuffers\<close>), the memory-mapped display behind the FSMC
  (\<open>src/ext_devices/display.rs\<close>, \<open>src/peripherals/fsmc.rs\<close>), the serial LCD
  (\<open>src/ext_devices/lcd.rs\<close>) and the touch controller (\<open>src/ext_devices/touchscreen.rs\<close>).
  A device's state is paired with the framebuffer it shares; SDL itself and PNG encoding are
  third-party code and not modelled.
\<close>

section \<open>Framebuffers\<close>

record framebuffer_config =
  fbc_name :: string
  fbc_width :: u16
  fbc_height :: u16
  fbc_mode :: string
  fbc_image :: "string option"
  fbc_sdl :: "bool option"
  fbc_downscale :: "u32 option"

record 'c framebuffer =
  fb_config :: framebuffer_config
  fb_pixels :: "'c list"
  fb_touch :: "(u16 \<times> u16) option"

definition image_new :: "framebuffer_config \<Rightarrow> u16 framebuffer" where
  "image_new c = \<lparr>fb_config = c, fb_pixels = replicate (unat (fbc_width c) * unat (fbc_height c)) 0,
     fb_touch = None\<rparr>"

definition rgb_of_565 :: "u16 \<Rightarrow> u8 list" where
  "rgb_of_565 c =
     [ucast (drop_bit 11 c * 0xFF div 0x1F),
      ucast ((drop_bit 5 c AND 0x3F) * 0xFF div 0x3F),
      ucast ((c AND 0x1F) * 0xFF div 0x1F)]"

definition get_framebuffer_as_rgb :: "u16 framebuffer \<Rightarrow> u8 list" where
  "get_framebuffer_as_rgb fb = concat (map rgb_of_565 (fb_pixels fb))"

text \<open>Each configuration names exactly one backend, or start-up panics.\<close>

fun from_config :: "framebuffer_config list \<Rightarrow> (framebuffer_config list \<times> framebuffer_config list) res" where
  "from_config [] = Inr ([], [])"
| "from_config (c # cs) =
     (case (fbc_image c \<noteq> None, fbc_sdl c = Some True) of
        (True, False) \<Rightarrow> res_map (\<lambda>(is, ss). (c # is, ss)) (from_config cs)
      | (False, True) \<Rightarrow> res_map (\<lambda>(is, ss). (is, c # ss)) (from_config cs)
      | _ \<Rightarrow> Inl ExplicitPanic)"

definition framebuffers_get :: "string \<Rightarrow> framebuffer_config list \<times> framebuffer_config list \<Rightarrow>
    framebuffer_config fallible" where
  "framebuffers_get name fbs =
     (case find (\<lambda>c. fbc_name c = name) (fst fbs @ snd fbs) of
        Some c \<Rightarrow> Inr c | None \<Rightarrow> Inl ''Cannot find framebuffer'')"

text \<open>The touch position and redraw throttling of an SDL window; time in milliseconds.\<close>

datatype sdl_event = MouseMotion int int | LeftButtonDown int int | LeftButtonUp | OtherEvent

definition REFRESH_DURATION_MILLIS :: nat where "REFRESH_DURATION_MILLIS = 20"

definition process_event :: "sdl_event \<Rightarrow> 'c framebuffer \<Rightarrow> 'c framebuffer" where
  "process_event e fb =
     (case e of
        MouseMotion x y \<Rightarrow>
          if fb_touch fb \<noteq> None then fb\<lparr>fb_touch := Some (word_of_int x, word_of_int y)\<rparr> else fb
      | LeftButtonDown x y \<Rightarrow> fb\<lparr>fb_touch := Some (word_of_int x, word_of_int y)\<rparr>
      | LeftButtonUp \<Rightarrow> fb\<lparr>fb_touch := None\<rparr>
      | OtherEvent \<Rightarrow> fb)"

definition should_redraw :: "nat \<Rightarrow> bool \<times> nat \<Rightarrow> bool \<times> (bool \<times> nat)" where
  "should_redraw now st =
     (let (need_redraw, last_redraw) = st in
      if \<not> need_redraw then (False, st)
      else if REFRESH_DURATION_MILLIS < now - last_redraw then (True, (False, now))
      else (False, st))"

section \<open>Geometry\<close>

record point =
  pt_x :: u16
  pt_y :: u16

record rect =
  left :: u16
  right :: u16
  top :: u16
  bottom :: u16

definition put_pixel :: "nat \<Rightarrow> 'c \<Rightarrow> 'c framebuffer \<Rightarrow> 'c framebuffer res" where
  "put_pixel i c fb = res_map (\<lambda>ps. fb\<lparr>fb_pixels := ps\<rparr>) (update_res (fb_pixels fb) i c)"

definition pixel_index :: "u16 \<Rightarrow> u16 \<Rightarrow> u16 \<Rightarrow> u16 \<Rightarrow> nat" where
  "pixel_index w h x y = unat (min x (w - 1)) + unat (min y (h - 1)) * unat w"

section \<open>The FSMC display\<close>

record reply_config =
  rc_cmd :: u8
  rc_data :: "u16 list"

record display_config =
  dc_peripheral :: string
  cmd_addr_bit :: u32
  dc_swap_bytes :: "bool option"
  dc_replies :: "reply_config list option"
  dc_framebuffer :: string

record display =
  d_config :: display_config
  d_name :: string
  draw_region :: rect
  d_cmd :: "(u8 \<times> u16 list) option"
  d_reply :: "u16 list"
  drawing :: bool
  current_position :: point
  d_width :: u16
  d_height :: u16

definition display_new :: "display_config \<Rightarrow> framebuffer_config list \<times> framebuffer_config list \<Rightarrow> display fallible" where
  "display_new config fbs =
     res_bind (framebuffers_get (dc_framebuffer config) fbs) (\<lambda>fb.
       Inr \<lparr>d_config = config, d_name = ''?'',
            draw_region = \<lparr>left = 0, right = fbc_width fb - 1, top = 0, bottom = fbc_height fb - 1\<rparr>,
            d_cmd = None, d_reply = [], drawing = False, current_position = \<lparr>pt_x = 0, pt_y = 0\<rparr>,
            d_width = fbc_width fb, d_height = fbc_height fb\<rparr>)"

datatype display_command = SetHoriRegion | SetVertRegion | Draw

definition display_command_from :: "u8 \<Rightarrow> display_command option" where
  "display_command_from v = (if v = 0x2A then Some SetHoriRegion else if v = 0x2B then Some SetVertRegion
     else if v = 0x2C then Some Draw else None)"

datatype display_mode = CmdMode | DataMode

definition mode_from_addr :: "u32 \<Rightarrow> u32 \<Rightarrow> display_mode" where
  "mode_from_addr data_addr_bit offset = (if offset AND data_addr_bit \<noteq> 0 then DataMode else CmdMode)"

definition swap_bytes :: "u16 \<Rightarrow> u16" where
  "swap_bytes c = push_bit 8 c OR drop_bit 8 c"

definition draw_pixel :: "u16 \<Rightarrow> display \<times> u16 framebuffer \<Rightarrow> (display \<times> u16 framebuffer) res" where
  "draw_pixel c st =
     (let (d, fb) = st;
          c = (if dc_swap_bytes (d_config d) = Some True then swap_bytes c else c);
          x = pt_x (current_position d); y = pt_y (current_position d);
          i = pixel_index (d_width d) (d_height d) x y
      in res_bind (put_pixel i c fb) (\<lambda>fb.
           let x = x + 1;
               (x, y) = (if right (draw_region d) < x
                         then (left (draw_region d),
                               if bottom (draw_region d) < y + 1 then top (draw_region d) else y + 1)
                         else (x, y))
           in Inr (d\<lparr>current_position := \<lparr>pt_x = x, pt_y = y\<rparr>\<rparr>, fb)))"

definition handle_cmd :: "display \<Rightarrow> display" where
  "handle_cmd d =
     (case d_cmd d of
        None \<Rightarrow> d
      | Some (cmd, args) \<Rightarrow>
          let d = d\<lparr>d_cmd := None\<rparr> in
          if display_command_from cmd = Some SetHoriRegion \<and> length args = 4 then
            d\<lparr>draw_region := (draw_region d)\<lparr>left := push_bit 8 (args ! 0) OR args ! 1,
                                             right := push_bit 8 (args ! 2) OR args ! 3\<rparr>\<rparr>
          else if display_command_from cmd = Some SetVertRegion \<and> length args = 4 then
            d\<lparr>draw_region := (draw_region d)\<lparr>top := push_bit 8 (args ! 0) OR args ! 1,
                                             bottom := push_bit 8 (args ! 2) OR args ! 3\<rparr>\<rparr>
          else if display_command_from cmd = Some Draw \<and> length args = 0 then
            d\<lparr>drawing := True,
              current_position := \<lparr>pt_x = left (draw_region d), pt_y = top (draw_region d)\<rparr>\<rparr>
          else
            case dc_replies (d_config d) of
              None \<Rightarrow> d\<lparr>d_cmd := Some (cmd, args)\<rparr>
            | Some replies \<Rightarrow>
                (case find (\<lambda>r. rc_cmd r = cmd) replies of
                   Some r \<Rightarrow> d\<lparr>d_reply := rc_data r\<rparr>
                 | None \<Rightarrow> d\<lparr>d_cmd := Some (cmd, args)\<rparr>))"

definition finish_cmd :: "display \<Rightarrow> display" where
  "finish_cmd d = d\<lparr>drawing := False, d_cmd := None\<rparr>"

definition display_read :: "u32 \<Rightarrow> display \<times> u16 framebuffer \<Rightarrow> (u32 \<times> (display \<times> u16 framebuffer)) res" where
  "display_read addr st =
     (let (d, fb) = st in
      case mode_from_addr (cmd_addr_bit (d_config d)) addr of
        CmdMode \<Rightarrow> Inr (0, st)
      | DataMode \<Rightarrow>
          (case d_reply d of
             [] \<Rightarrow> Inr (0, st)
           | v # vs \<Rightarrow> Inr (ucast v, (d\<lparr>d_reply := vs\<rparr>, fb))))"

definition display_write :: "u32 \<Rightarrow> u32 \<Rightarrow> display \<times> u16 framebuffer \<Rightarrow> (display \<times> u16 framebuffer) res" where
  "display_write addr value st =
     (let (d, fb) = st in
      res_map (\<lambda>(d, fb). (handle_cmd d, fb))
        (case mode_from_addr (cmd_addr_bit (d_config d)) addr of
           CmdMode \<Rightarrow> Inr ((finish_cmd d)\<lparr>d_cmd := Some (ucast value, [])\<rparr>, fb)
         | DataMode \<Rightarrow>
             if drawing d then draw_pixel (ucast value) (d, fb)
             else (case d_cmd d of
                     Some (cmd, args) \<Rightarrow> Inr (d\<lparr>d_cmd := Some (cmd, args @ [ucast value])\<rparr>, fb)
                   | None \<Rightarrow> Inr (d, fb))))"

definition display_connect_peripheral :: "string \<Rightarrow> display \<Rightarrow> string \<times> display" where
  "display_connect_peripheral peri_name d =
     (peri_name @ '' display'', d\<lparr>d_name := peri_name @ '' display''\<rparr>)"

definition display_dev :: "(u32, u32, display \<times> u16 framebuffer) ext_device" where
  "display_dev = \<lparr>dev_read = display_read, dev_write = display_write\<rparr>"

section \<open>The serial LCD\<close>

record lcd =
  lcd_peripheral :: string
  lcd_name :: string
  lcd_position :: point
  lcd_width :: u16
  lcd_height :: u16
  lcd_cmd :: "(u8 \<times> u8 list) option"
  lcd_drawing :: bool

definition lcd_new :: "string \<Rightarrow> string \<Rightarrow> framebuffer_config list \<times> framebuffer_config list \<Rightarrow> lcd fallible" where
  "lcd_new peripheral framebuffer fbs =
     res_bind (framebuffers_get framebuffer fbs) (\<lambda>fb.
       Inr \<lparr>lcd_peripheral = peripheral, lcd_name = [], lcd_position = \<lparr>pt_x = 0, pt_y = 0\<rparr>,
            lcd_width = fbc_width fb, lcd_height = fbc_height fb, lcd_cmd = None, lcd_drawing = False\<rparr>)"

text \<open>The command codes: GetVersion, StartDrawing, SetPalette and GetPalette.\<close>

definition lcd_command_from :: "u8 \<Rightarrow> u8 option" where
  "lcd_command_from v = (if v \<in> {0xF0, 0xFB, 0xF1, 0xF2} then Some v else None)"

definition gray_rgb888 :: "u8 \<Rightarrow> u32" where
  "gray_rgb888 c =
     (let c = push_bit 4 (ucast c) OR ucast c in push_bit 16 c OR push_bit 8 c OR c)"

definition lcd_draw_pixel :: "u8 \<Rightarrow> lcd \<times> u32 framebuffer \<Rightarrow> (lcd \<times> u32 framebuffer) res" where
  "lcd_draw_pixel c st =
     (let (l, fb) = st;
          x = pt_x (lcd_position l); y = pt_y (lcd_position l);
          i = pixel_index (lcd_width l) (lcd_height l) x y
      in res_bind (put_pixel i (gray_rgb888 c) fb) (\<lambda>fb.
           let x = x + 1;
               (x, y) = (if lcd_width l \<le> x then (0, if lcd_height l \<le> y + 1 then 0 else y + 1) else (x, y))
           in Inr (l\<lparr>lcd_position := \<lparr>pt_x = x, pt_y = y\<rparr>\<rparr>, fb)))"

definition lcd_try_process_command :: "u8 \<Rightarrow> u8 list \<Rightarrow> lcd \<Rightarrow> bool \<times> lcd" where
  "lcd_try_process_command cmd args l =
     (if cmd = 0xFB \<and> args = []
      then (True, l\<lparr>lcd_position := \<lparr>pt_x = 0, pt_y = 0\<rparr>, lcd_drawing := True\<rparr>)
      else (False, l))"

definition lcd_write :: "unit \<Rightarrow> u8 \<Rightarrow> lcd \<times> u32 framebuffer \<Rightarrow> (lcd \<times> u32 framebuffer) res" where
  "lcd_write addr v st =
     (let (l, fb) = st in
      if lcd_drawing l
      then res_bind (lcd_draw_pixel (drop_bit 4 v) (l, fb)) (lcd_draw_pixel (v AND 0x0F))
      else case lcd_cmd l of
        Some (cmd, args) \<Rightarrow>
          let l = l\<lparr>lcd_cmd := None\<rparr>; args = args @ [v]; (replied, l) = lcd_try_process_command cmd args l
          in Inr (if replied then l else l\<lparr>lcd_cmd := Some (cmd, args)\<rparr>, fb)
      | None \<Rightarrow>
          (case lcd_command_from v of
             Some cmd \<Rightarrow>
               let (replied, l) = lcd_try_process_command cmd [] l
               in Inr (if replied then l else l\<lparr>lcd_cmd := Some (cmd, [])\<rparr>, fb)
           | None \<Rightarrow> Inr (l, fb)))"

definition lcd_dev :: "(unit, u8, lcd \<times> u32 framebuffer) ext_device" where
  "lcd_dev = \<lparr>dev_read = (\<lambda>_ st. Inr (0, st)), dev_write = lcd_write\<rparr>"

section \<open>The touch controller\<close>

record touchscreen_config =
  tc_peripheral :: string
  tc_framebuffer :: string
  flip_x :: "bool option"
  flip_y :: "bool option"
  swap_x_y :: "bool option"
  touch_detected_pin :: "string option"
  scale_down :: "u32 option"

record touchscreen =
  tc_config :: touchscreen_config
  tc_reply :: "u8 list option"

datatype operation = MeasureX | MeasureY | MeasureZ1 | MeasureZ2

definition operation_from :: "u8 \<Rightarrow> operation option" where
  "operation_from v = (if v = 5 then Some MeasureX else if v = 1 then Some MeasureY
     else if v = 3 then Some MeasureZ1 else if v = 4 then Some MeasureZ2 else None)"

text \<open>The mode, single-ended and power bits of a command have a value for every bit pattern and are
  only logged; an operation code outside the four panics.\<close>

definition touch_command_from :: "u8 \<Rightarrow> operation option res" where
  "touch_command_from value =
     (if value AND 0x80 \<noteq> 0
      then case operation_from (drop_bit 4 value AND 7) of
             None \<Rightarrow> Inl UnwrapFailed | Some op \<Rightarrow> Inr (Some op)
      else Inr None)"

definition div_u32 :: "u32 \<Rightarrow> u32 \<Rightarrow> u32 res" where
  "div_u32 a b = (if b = 0 then Inl DivByZero else Inr (a div b))"

definition touch_write :: "unit \<Rightarrow> u8 \<Rightarrow> touchscreen \<times> 'c framebuffer \<Rightarrow> (touchscreen \<times> 'c framebuffer) res" where
  "touch_write addr v st =
     (let (t, fb) = st; cfg = tc_config t in
      res_bind (touch_command_from v) (\<lambda>cmd.
        case cmd of
          None \<Rightarrow> Inr st
        | Some cmd_op \<Rightarrow>
            (case fb_touch fb of
               None \<Rightarrow> Inr (t\<lparr>tc_reply := None\<rparr>, fb)
             | Some (px, py) \<Rightarrow>
                 let op = (if swap_x_y cfg = Some True \<and> cmd_op = MeasureX then MeasureY
                           else if swap_x_y cfg = Some True \<and> cmd_op = MeasureY then MeasureX
                           else cmd_op)
                 in res_bind
                      (case op of
                         MeasureX \<Rightarrow> div_u32 (ucast px * 0xfff) (ucast (fbc_width (fb_config fb)))
                       | MeasureY \<Rightarrow> div_u32 (ucast py * 0xfff) (ucast (fbc_height (fb_config fb)))
                       | MeasureZ1 \<Rightarrow> Inr 10
                       | MeasureZ2 \<Rightarrow> Inr 10) (\<lambda>v.
                    let v = (if op = MeasureX \<and> flip_x cfg = Some True then 0xfff - v
                             else if op = MeasureY \<and> flip_y cfg = Some True then 0xfff - v
                             else v)
                    in res_bind (case scale_down cfg of Some s \<Rightarrow> div_u32 v s | None \<Rightarrow> Inr v) (\<lambda>v.
                         Inr (t\<lparr>tc_reply := Some [ucast (drop_bit 4 v), ucast (push_bit 4 v)]\<rparr>, fb))))))"

definition touch_read :: "unit \<Rightarrow> touchscreen \<times> 'c framebuffer \<Rightarrow> (u8 \<times> (touchscreen \<times> 'c framebuffer)) res" where
  "touch_read addr st =
     (case tc_reply (fst st) of
        Some (b # bs) \<Rightarrow> Inr (b, ((fst st)\<lparr>tc_reply := Some bs\<rparr>, snd st))
      | Some [] \<Rightarrow> Inr (0, st)
      | None \<Rightarrow> Inr (0, st))"

definition touch_detected :: "'c framebuffer \<Rightarrow> bool" where
  "touch_detected fb \<longleftrightarrow> fb_touch fb = None"

section \<open>The memory controller\<close>

datatype fsmc_reg = BCR | BTR | PMEM | PATT | ECCR | PCR | FSMC_SR | BWTR | PIO | InvalidReg

datatype fsmc_access = FsmcData nat u32 | FsmcRegister nat fsmc_reg

definition fsmc_register :: "u32 \<Rightarrow> fsmc_access" where
  "fsmc_register r =
     (case map_of
        [(0x00, (0, BCR)), (0x04, (0, BTR)), (0x08, (1, BCR)), (0x0C, (1, BTR)),
         (0x10, (2, BCR)), (0x14, (2, BTR)), (0x18, (3, BCR)), (0x1C, (3, BTR)),
         (0x60, (1, PCR)), (0x64, (1, FSMC_SR)), (0x68, (1, PMEM)), (0x6C, (1, PATT)), (0x74, (1, ECCR)),
         (0x80, (2, PCR)), (0x84, (2, FSMC_SR)), (0x88, (2, PMEM)), (0x8C, (2, PATT)), (0x94, (2, ECCR)),
         (0xA0, (3, PCR)), (0xA4, (3, FSMC_SR)), (0xA8, (3, PMEM)), (0xAC, (3, PATT)), (0xB0, (3, PIO)),
         (0x104, (0, BWTR)), (0x10C, (1, BWTR)), (0x114, (2, BWTR)), (0x11C, (3, BWTR))] r of
        Some (bank, reg) \<Rightarrow> FsmcRegister bank reg
      | None \<Rightarrow> FsmcRegister 0 InvalidReg)"

definition fsmc_access :: "u32 \<Rightarrow> fsmc_access res" where
  "fsmc_access offset =
     (if offset \<le> 0x0fffffff then Inr (FsmcData 0 offset)
      else if offset \<le> 0x1fffffff then Inr (FsmcData 1 (offset - 0x10000000))
      else if offset \<le> 0x2fffffff then Inr (FsmcData 2 (offset - 0x20000000))
      else if offset \<le> 0x3fffffff then Inr (FsmcData 3 (offset - 0x30000000))
      else if offset \<le> 0x4fffffff then Inr (fsmc_register (offset - 0x40000000))
      else Inl UnreachableCode)"

text \<open>The four banks, each with the device connected to it; the banks are indexed 0 to 3 by the
  decoder, so the array access itself cannot fail.\<close>

type_synonym 'd fsmc = "'d option list"

definition fsmc_bank_name :: "nat \<Rightarrow> string" where
  "fsmc_bank_name bank = ''FSMC.BANK'' @ [char_of (of_char CHR ''1'' + bank)]"

text \<open>A bank passes its accesses to the device connected to it; its registers are not modelled by the code.\<close>

definition bank_read_data :: "(u32, u32, 'd) ext_device \<Rightarrow> u32 \<Rightarrow> 'd option \<Rightarrow> (u32 \<times> 'd option) res" where
  "bank_read_data dev offset bank =
     (case bank of None \<Rightarrow> Inr (0, None) | Some d \<Rightarrow> res_map (\<lambda>(v, d). (v, Some d)) (dev_read dev offset d))"

definition bank_write_data :: "(u32, u32, 'd) ext_device \<Rightarrow> u32 \<Rightarrow> u32 \<Rightarrow> 'd option \<Rightarrow> 'd option res" where
  "bank_write_data dev offset value bank =
     (case bank of None \<Rightarrow> Inr None | Some d \<Rightarrow> res_map Some (dev_write dev offset value d))"

definition bank_read_reg :: "fsmc_reg \<Rightarrow> 'd option \<Rightarrow> u32 \<times> 'd option" where
  "bank_read_reg reg bank = (0, bank)"

definition bank_write_reg :: "fsmc_reg \<Rightarrow> u32 \<Rightarrow> 'd option \<Rightarrow> 'd option" where
  "bank_write_reg reg value bank = bank"

definition fsmc_read :: "(u32, u32, 'd) ext_device \<Rightarrow> u32 \<Rightarrow> 'd fsmc \<Rightarrow> (u32 \<times> 'd fsmc) res" where
  "fsmc_read dev offset banks =
     res_bind (fsmc_access offset) (\<lambda>a.
       case a of
         FsmcData bank offset \<Rightarrow> res_map (\<lambda>(v, b). (v, banks[bank := b])) (bank_read_data dev offset (banks ! bank))
       | FsmcRegister bank reg \<Rightarrow> let (v, b) = bank_read_reg reg (banks ! bank) in Inr (v, banks[bank := b]))"

definition fsmc_write :: "(u32, u32, 'd) ext_device \<Rightarrow> u32 \<Rightarrow> u32 \<Rightarrow> 'd fsmc \<Rightarrow> 'd fsmc res" where
  "fsmc_write dev offset value banks =
     res_bind (fsmc_access offset) (\<lambda>a.
       case a of
         FsmcData bank offset \<Rightarrow> res_map (\<lambda>b. banks[bank := b]) (bank_write_data dev offset value (banks ! bank))
       | FsmcRegister bank reg \<Rightarrow> Inr (banks[bank := bank_write_reg reg value (banks ! bank)]))"

text \<open>Without a device, and at registers, a bank reads zero and ignores writes.\<close>

lemma bank_simps [simp]:
  "bank_read_data dev offset None = Inr (0, None)"
  "bank_read_data dev offset (Some d) = res_map (\<lambda>(v, d). (v, Some d)) (dev_read dev offset d)"
  "bank_write_data dev offset value None = Inr None"
  "bank_write_data dev offset value (Some d) = res_map Some (dev_write dev offset value d)"
  "bank_read_reg reg bank = (0, bank)" "bank_write_reg reg value bank = bank"
  by (simp_all add: bank_read_data_def bank_write_data_def bank_read_reg_def bank_write_reg_def)

section \<open>Lemmas\<close>

subsection \<open>The display's protocol\<close>

lemma put_pixel_ok: "i < length (fb_pixels fb) \<Longrightarrow> put_pixel i c fb = Inr (fb\<lparr>fb_pixels := (fb_pixels fb)[i := c]\<rparr>)"
  by (simp add: put_pixel_def)

definition display_writes :: "(u32 \<times> u32) list \<Rightarrow> display \<times> u16 framebuffer \<Rightarrow> (display \<times> u16 framebuffer) res" where
  "display_writes ws st = fold_res (\<lambda>(a, v). display_write a v) ws st"

lemma display_writes_append:
  "display_writes (ws @ vs) st = res_bind (display_writes ws st) (display_writes vs)"
  by (simp add: display_writes_def [abs_def] fold_res_append)

text \<open>No canned reply intercepts the region commands.\<close>

definition region_commands_free :: "display \<Rightarrow> bool" where
  "region_commands_free d \<longleftrightarrow> (case dc_replies (d_config d) of None \<Rightarrow> True
     | Some rs \<Rightarrow> (\<forall>r \<in> set rs. rc_cmd r \<noteq> 0x2A \<and> rc_cmd r \<noteq> 0x2B))"

lemma handle_cmd_waits:
  assumes "region_commands_free d" "d_cmd d = Some (cmd, args)" "cmd \<in> {0x2A, 0x2B}" "length args < 4"
  shows "handle_cmd d = d"
proof -
  have "find (\<lambda>r. rc_cmd r = cmd) rs = None" if "dc_replies (d_config d) = Some rs" for rs
    using assms(1,3) that by (auto simp: region_commands_free_def find_None_iff)
  moreover have "d\<lparr>d_cmd := None, d_cmd := Some (cmd, args)\<rparr> = d" using assms(2) by simp
  ultimately show ?thesis using assms(2-4)
    by (auto simp: handle_cmd_def display_command_from_def Let_def split: option.splits)
qed

lemma high_low_byte: "push_bit 8 (drop_bit 8 w) OR (w AND 0xff) = (w :: u16)"
proof -
  have "w AND 0xff = w AND mask 8" by (simp add: mask_eq_exp_minus_1)
  then show ?thesis
    by (auto intro!: word_eqI_bits simp: bit_or_iff bit_push_bit_iff bit_drop_bit_eq bit_and_iff bit_mask_iff)
qed

lemma ucast_16_32_16 [simp]: "(ucast (ucast (w :: u16) :: u32) :: u16) = w"
  by (rule word_eqI_bits) (simp add: bit_unsigned_iff)

text \<open>The bytes of a coordinate pair, as the driver sends them.\<close>

definition range_data :: "u32 \<Rightarrow> u16 \<Rightarrow> u16 \<Rightarrow> (u32 \<times> u32) list" where
  "range_data dat a b = map (\<lambda>w. (dat, ucast w)) [drop_bit 8 a, a AND 0xff, drop_bit 8 b, b AND 0xff]"

definition region_commands :: "u32 \<Rightarrow> u32 \<Rightarrow> rect \<Rightarrow> (u32 \<times> u32) list" where
  "region_commands cmd dat r =
     (cmd, 0x2A) # range_data dat (left r) (right r) @
     (cmd, 0x2B) # range_data dat (top r) (bottom r) @ [(cmd, 0x2C)]"

definition addresses_ok :: "u32 \<Rightarrow> u32 \<Rightarrow> display \<Rightarrow> bool" where
  "addresses_ok cmd dat d \<longleftrightarrow> cmd AND cmd_addr_bit (d_config d) = 0 \<and> dat AND cmd_addr_bit (d_config d) \<noteq> 0"

lemma cmd_write:
  "addresses_ok cmd dat d \<Longrightarrow> display_write cmd v (d, fb) =
   Inr (handle_cmd (d\<lparr>drawing := False, d_cmd := Some (ucast v, [])\<rparr>), fb)"
  by (simp add: display_write_def mode_from_addr_def addresses_ok_def finish_cmd_def)

lemma arg_write:
  "addresses_ok cmd dat d \<Longrightarrow> \<not> drawing d \<Longrightarrow> d_cmd d = Some (c, args) \<Longrightarrow> display_write dat v (d, fb) =
   Inr (handle_cmd (d\<lparr>d_cmd := Some (c, args @ [ucast v])\<rparr>), fb)"
  by (simp add: display_write_def mode_from_addr_def addresses_ok_def)

lemma range_writes:
  fixes c :: u8
  assumes "addresses_ok cmd dat d" "region_commands_free d" "c \<in> {0x2A, 0x2B}"
  shows "display_writes ((cmd, ucast c) # range_data dat a b) (d, fb) =
    Inr (d\<lparr>drawing := False, d_cmd := None,
           draw_region := (if c = 0x2A then (draw_region d)\<lparr>left := a, right := b\<rparr>
                           else (draw_region d)\<lparr>top := a, bottom := b\<rparr>)\<rparr>, fb)"
proof -
  have ok: "addresses_ok cmd dat (d\<lparr>drawing := x, d_cmd := y\<rparr>)"
    "region_commands_free (d\<lparr>drawing := x, d_cmd := y\<rparr>)" for x y
    using assms(1,2) by (simp_all add: addresses_ok_def region_commands_free_def)
  have u: "(ucast (ucast c :: u32) :: u8) = c" by (rule word_eqI_bits) (simp add: bit_unsigned_iff)
  have w: "handle_cmd (d\<lparr>drawing := False, d_cmd := Some (c, args)\<rparr>) =
      d\<lparr>drawing := False, d_cmd := Some (c, args)\<rparr>" if "length args < 4" for args
    using handle_cmd_waits [OF ok(2) [where x = False and y = "Some (c, args)"], of c args]
      assms(3) that by simp
  have l: "handle_cmd (d\<lparr>drawing := False, d_cmd := Some (c, [drop_bit 8 a, a AND 0xff, drop_bit 8 b, b AND 0xff])\<rparr>) =
      d\<lparr>drawing := False, d_cmd := None,
           draw_region := (if c = 0x2A then (draw_region d)\<lparr>left := a, right := b\<rparr>
                           else (draw_region d)\<lparr>top := a, bottom := b\<rparr>)\<rparr>"
    using assms(3) by (auto simp: handle_cmd_def display_command_from_def high_low_byte)
  show ?thesis unfolding display_writes_def range_data_def
    using w [of "[]"] w [of "[drop_bit 8 a]"] w [of "[drop_bit 8 a, a AND 0xff]"]
      w [of "[drop_bit 8 a, a AND 0xff, drop_bit 8 b]"] l
    by (simp add: cmd_write [OF assms(1)] u arg_write [OF ok(1)])
qed

subsection \<open>Drawing\<close>

definition region_width :: "rect \<Rightarrow> nat" where
  "region_width r = unat (right r) - unat (left r) + 1"

definition region_height :: "rect \<Rightarrow> nat" where
  "region_height r = unat (bottom r) - unat (top r) + 1"

text \<open>The framebuffer index of the k-th pixel of a region, row by row.\<close>

definition region_pixel :: "nat \<Rightarrow> rect \<Rightarrow> nat \<Rightarrow> nat" where
  "region_pixel w r k =
     (unat (left r) + k mod region_width r) + (unat (top r) + k div region_width r mod region_height r) * w"

definition on_screen :: "rect \<Rightarrow> display \<times> u16 framebuffer \<Rightarrow> bool" where
  "on_screen r st \<longleftrightarrow> (let (d, fb) = st in
     left r \<le> right r \<and> top r \<le> bottom r \<and> right r < d_width d \<and> bottom r < d_height d \<and>
     length (fb_pixels fb) = unat (d_width d) * unat (d_height d))"

definition at_pixel :: "display \<Rightarrow> nat \<Rightarrow> bool" where
  "at_pixel d k \<longleftrightarrow> (let r = draw_region d in
     unat (pt_x (current_position d)) = unat (left r) + k mod region_width r \<and>
     unat (pt_y (current_position d)) = unat (top r) + k div region_width r mod region_height r)"

definition stored :: "display \<Rightarrow> u16 \<Rightarrow> u16" where
  "stored d c = (if dc_swap_bytes (d_config d) = Some True then swap_bytes c else c)"

lemma region_bounds:
  assumes "on_screen r (d, fb)"
  shows "unat (left r) + k mod region_width r \<le> unat (right r)"
    "unat (top r) + j mod region_height r \<le> unat (bottom r)"
    "unat (right r) < unat (d_width d)" "unat (bottom r) < unat (d_height d)"
proof -
  have "unat (left r) \<le> unat (right r)" "unat (top r) \<le> unat (bottom r)"
    using assms by (simp_all add: on_screen_def word_le_nat_alt)
  moreover have "k mod region_width r < region_width r" "j mod region_height r < region_height r"
    by (simp_all add: region_width_def region_height_def)
  moreover have "region_width r = unat (right r) - unat (left r) + 1"
    "region_height r = unat (bottom r) - unat (top r) + 1"
    by (simp_all add: region_width_def region_height_def)
  ultimately show "unat (left r) + k mod region_width r \<le> unat (right r)"
    "unat (top r) + j mod region_height r \<le> unat (bottom r)" by linarith+
  show "unat (right r) < unat (d_width d)" "unat (bottom r) < unat (d_height d)"
    using assms by (simp_all add: on_screen_def word_less_nat_alt)
qed

lemma region_pixel_less:
  assumes "on_screen r (d, fb)"
  shows "region_pixel (unat (d_width d)) r k < length (fb_pixels fb)"
proof -
  let ?w = "unat (d_width d)" and ?x = "unat (left r) + k mod region_width r"
    and ?y = "unat (top r) + k div region_width r mod region_height r"
  have xy: "?x < ?w" "?y < unat (d_height d)" using region_bounds [OF assms] by (meson le_less_trans)+
  have "?x + ?y * ?w < Suc ?y * ?w" using xy(1) by simp
  moreover have "Suc ?y * ?w \<le> unat (d_height d) * ?w" using xy(2) by (intro mult_le_mono1) simp
  ultimately have "?x + ?y * ?w < unat (d_height d) * ?w" by (rule order_less_le_trans)
  then show ?thesis using assms by (simp add: region_pixel_def on_screen_def mult.commute)
qed

lemma unat_u16_less: "unat (w :: u16) < 65536"
  using unsigned_less [of w] by simp

lemma unat_Suc_u16: "unat (x :: u16) < 65535 \<Longrightarrow> unat (x + 1) = Suc (unat x)"
  using unat_add_lem [of x 1] by simp

lemma min_pred:
  fixes x w :: u16
  assumes "unat x < unat w"
  shows "min x (w - 1) = x"
proof -
  have "unat (w - 1) = unat w - 1" using assms by (subst unat_sub) (simp_all add: word_le_nat_alt)
  then have "x \<le> w - 1" using assms by (simp add: word_le_nat_alt)
  then show ?thesis by (simp add: min_def)
qed

lemma draw_pixel_step:
  assumes "on_screen (draw_region d) (d, fb)" "at_pixel d k"
  shows "\<exists>pos. draw_pixel c (d, fb) = Inr (d\<lparr>current_position := pos\<rparr>,
      fb\<lparr>fb_pixels := (fb_pixels fb)[region_pixel (unat (d_width d)) (draw_region d) k := stored d c]\<rparr>) \<and>
    at_pixel (d\<lparr>current_position := pos\<rparr>) (Suc k)"
proof -
  let ?r = "draw_region d" and ?x = "pt_x (current_position d)" and ?y = "pt_y (current_position d)"
  define rw where "rw = region_width ?r"
  define rh where "rh = region_height ?r"
  have x: "unat ?x = unat (left ?r) + k mod rw" and y: "unat ?y = unat (top ?r) + k div rw mod rh"
    using assms(2) by (simp_all add: at_pixel_def Let_def rw_def rh_def)
  note b = region_bounds [OF assms(1), folded rw_def rh_def]
  have xy: "unat ?x \<le> unat (right ?r)" "unat ?y \<le> unat (bottom ?r)" using b x y by simp_all
  have pos: "0 < rw" "0 < rh" by (simp_all add: rw_def rh_def region_width_def region_height_def)
  have i: "pixel_index (d_width d) (d_height d) ?x ?y = region_pixel (unat (d_width d)) ?r k"
    using b(3,4) xy by (simp add: pixel_index_def region_pixel_def min_pred x y rw_def rh_def)
  have small: "unat ?x < 65535" "unat ?y < 65535"
    using xy b(3,4) unat_u16_less [of "d_width d"] unat_u16_less [of "d_height d"] by simp_all
  have lr: "unat (left ?r) \<le> unat (right ?r)" "unat (top ?r) \<le> unat (bottom ?r)"
    using assms(1) by (simp_all add: on_screen_def word_le_nat_alt)
  have cx: "right ?r < ?x + 1 \<longleftrightarrow> Suc (k mod rw) = rw"
    using x lr xy unat_Suc_u16 [OF small(1)]
    by (auto simp: word_less_nat_alt rw_def region_width_def)
  have cy: "bottom ?r < ?y + 1 \<longleftrightarrow> Suc (k div rw mod rh) = rh"
    using y lr xy unat_Suc_u16 [OF small(2)]
    by (auto simp: word_less_nat_alt rh_def region_height_def)
  define pos' where "pos' = (if right ?r < ?x + 1
      then \<lparr>pt_x = left ?r, pt_y = (if bottom ?r < ?y + 1 then top ?r else ?y + 1)\<rparr>
      else \<lparr>pt_x = ?x + 1, pt_y = ?y\<rparr>)"
  have "unat (pt_x pos') = unat (left ?r) + Suc k mod rw"
    using cx x unat_Suc_u16 [OF small(1)] by (simp add: pos'_def mod_Suc)
  moreover have "unat (pt_y pos') = unat (top ?r) + Suc k div rw mod rh"
    using cx cy y unat_Suc_u16 [OF small(2)] by (simp add: pos'_def div_Suc mod_Suc)
  ultimately have "at_pixel (d\<lparr>current_position := pos'\<rparr>) (Suc k)"
    by (simp add: at_pixel_def Let_def rw_def rh_def)
  moreover have "draw_pixel c (d, fb) = Inr (d\<lparr>current_position := pos'\<rparr>,
      fb\<lparr>fb_pixels := (fb_pixels fb)[region_pixel (unat (d_width d)) ?r k := stored d c]\<rparr>)"
    using region_pixel_less [OF assms(1)] i
    by (simp add: draw_pixel_def Let_def put_pixel_ok stored_def pos'_def)
  ultimately show ?thesis by blast
qed

fun paint :: "nat \<Rightarrow> rect \<Rightarrow> nat \<Rightarrow> 'c list \<Rightarrow> 'c list \<Rightarrow> 'c list" where
  "paint w r k [] ps = ps"
| "paint w r k (c # cs) ps = paint w r (Suc k) cs (ps[region_pixel w r k := c])"

lemma length_paint [simp]: "length (paint w r k cs ps) = length ps"
  by (induction cs arbitrary: k ps) simp_all

lemma data_writes_paint:
  assumes "addresses_ok cmd dat d" "drawing d" "d_cmd d = None"
  shows "on_screen (draw_region d) (d, fb) \<Longrightarrow> at_pixel d k \<Longrightarrow>
    \<exists>pos. display_writes (map (\<lambda>c. (dat, ucast c)) cs) (d, fb) = Inr (d\<lparr>current_position := pos\<rparr>,
      fb\<lparr>fb_pixels := paint (unat (d_width d)) (draw_region d) k (map (stored d) cs) (fb_pixels fb)\<rparr>)"
  using assms
proof (induction cs arbitrary: d fb k)
  case Nil
  then show ?case by (intro exI [of _ "current_position d"]) (simp add: display_writes_def)
next
  case (Cons c cs)
  from draw_pixel_step [OF Cons.prems(1,2), of c] obtain pos where
    p: "draw_pixel c (d, fb) = Inr (d\<lparr>current_position := pos\<rparr>,
      fb\<lparr>fb_pixels := (fb_pixels fb)[region_pixel (unat (d_width d)) (draw_region d) k := stored d c]\<rparr>)"
    "at_pixel (d\<lparr>current_position := pos\<rparr>) (Suc k)" by blast
  let ?d = "d\<lparr>current_position := pos\<rparr>" and
    ?fb = "fb\<lparr>fb_pixels := (fb_pixels fb)[region_pixel (unat (d_width d)) (draw_region d) k := stored d c]\<rparr>"
  have w: "display_write dat (ucast c) (d, fb) = Inr (?d, ?fb)"
    using Cons.prems(3-5) p(1)
    by (simp add: display_write_def mode_from_addr_def addresses_ok_def handle_cmd_def)
  have st: "stored ?d = stored d" by (simp add: fun_eq_iff stored_def)
  obtain pos' where "display_writes (map (\<lambda>c. (dat, ucast c)) cs) (?d, ?fb) =
      Inr (?d\<lparr>current_position := pos'\<rparr>,
        ?fb\<lparr>fb_pixels := paint (unat (d_width ?d)) (draw_region ?d) (Suc k) (map (stored ?d) cs) (fb_pixels ?fb)\<rparr>)"
    using Cons.IH [of ?d ?fb "Suc k"] p(2) Cons.prems
    by (auto simp: on_screen_def addresses_ok_def)
  with w show ?case unfolding st by (intro exI [of _ pos']) (simp add: display_writes_def)
qed

lemma paint_outside:
  "(\<And>j. j < length cs \<Longrightarrow> p \<noteq> region_pixel w r (k + j)) \<Longrightarrow> paint w r k cs ps ! p = ps ! p"
proof (induction cs arbitrary: k ps)
  case (Cons c cs)
  have "p \<noteq> region_pixel w r k" using Cons.prems [of 0] by simp
  moreover have "p \<noteq> region_pixel w r (Suc k + j)" if "j < length cs" for j
    using Cons.prems [of "Suc j"] that by simp
  ultimately show ?case using Cons.IH [of "Suc k"] by simp
qed simp

lemma paint_inside:
  assumes "\<And>i j. i < n \<Longrightarrow> j < n \<Longrightarrow> region_pixel w r i = region_pixel w r j \<Longrightarrow> i = j"
    and "\<And>i. region_pixel w r i < length ps"
  shows "k + length cs \<le> n \<Longrightarrow> i < length cs \<Longrightarrow> paint w r k cs ps ! region_pixel w r (k + i) = cs ! i"
  using assms(2)
proof (induction cs arbitrary: k i ps)
  case (Cons c cs)
  show ?case
  proof (cases i)
    case 0
    have "region_pixel w r k \<noteq> region_pixel w r (Suc k + j)" if "j < length cs" for j
    proof
      assume "region_pixel w r k = region_pixel w r (Suc k + j)"
      with assms(1) [of k "Suc k + j"] Cons.prems(1) that show False by simp
    qed
    then have "paint w r (Suc k) cs (ps[region_pixel w r k := c]) ! region_pixel w r k = c"
      using paint_outside [of cs "region_pixel w r k" w r "Suc k"] Cons.prems(3) [of k] by simp
    then show ?thesis using 0 by simp
  next
    case (Suc m)
    then show ?thesis
      using Cons.IH [of "Suc k" m "ps[region_pixel w r k := c]"] Cons.prems by simp
  qed
qed simp

lemma region_pixel_inj:
  assumes "on_screen r (d, fb)" "i < region_width r * region_height r" "j < region_width r * region_height r"
    and "region_pixel (unat (d_width d)) r i = region_pixel (unat (d_width d)) r j"
  shows "i = j"
proof -
  let ?w = "unat (d_width d)" and ?x = "\<lambda>k. unat (left r) + k mod region_width r"
    and ?y = "\<lambda>k. unat (top r) + k div region_width r mod region_height r"
  have x: "?x k < ?w" for k using region_bounds [OF assms(1)] by (meson le_less_trans)
  have "region_pixel ?w r k mod ?w = ?x k" "region_pixel ?w r k div ?w = ?y k" for k
    using x [of k] by (simp_all add: region_pixel_def)
  then have "?x i = ?x j" "?y i = ?y j" using assms(4) by metis+
  moreover have "k div region_width r mod region_height r = k div region_width r"
    if "k < region_width r * region_height r" for k
    using that by (simp add: less_mult_imp_div_less mult.commute)
  ultimately have "i mod region_width r = j mod region_width r" "i div region_width r = j div region_width r"
    using assms(2,3) by simp_all
  then show ?thesis by (metis div_mult_mod_eq)
qed

text \<open>A display whose pixels cover its screen never panics, whatever the driver sends.\<close>

definition display_inv :: "display \<times> u16 framebuffer \<Rightarrow> bool" where
  "display_inv st \<longleftrightarrow> (let (d, fb) = st in 0 < d_width d \<and> 0 < d_height d \<and>
     length (fb_pixels fb) = unat (d_width d) * unat (d_height d))"

lemma pixel_index_less:
  assumes "0 < w" "0 < h"
  shows "pixel_index w h x y < unat w * unat h"
proof -
  have "unat (w - 1) = unat w - 1" "unat (h - 1) = unat h - 1"
    using assms by (simp_all add: unat_sub word_le_nat_alt word_less_nat_alt)
  then have x: "unat (min x (w - 1)) < unat w" and y: "unat (min y (h - 1)) < unat h"
    using assms by (auto simp: min_def word_le_nat_alt word_less_nat_alt)
  have "pixel_index w h x y < Suc (unat (min y (h - 1))) * unat w" using x by (simp add: pixel_index_def)
  moreover have "Suc (unat (min y (h - 1))) * unat w \<le> unat h * unat w"
    using y by (intro mult_le_mono1) simp
  ultimately have "pixel_index w h x y < unat h * unat w" by (rule order_less_le_trans)
  then show ?thesis by (simp add: mult.commute)
qed

lemma display_inv_handle_cmd: "display_inv (d, fb) \<Longrightarrow> display_inv (handle_cmd d, fb)"
  by (auto simp: display_inv_def handle_cmd_def Let_def split: option.split)

interpretation display_contract: device_contract display_dev display_inv
proof unfold_locales
  fix st a
  assume i: "display_inv st"
  obtain d fb where st: "st = (d, fb)" by (cases st)
  have "\<exists>v st'. display_read a (d, fb) = Inr (v, st') \<and> display_inv st'"
  proof (cases "mode_from_addr (cmd_addr_bit (d_config d)) a")
    case DataMode
    with i st show ?thesis by (cases "d_reply d") (auto simp: display_read_def display_inv_def)
  qed (use i st in \<open>auto simp: display_read_def\<close>)
  then show "\<exists>v st'. dev_read display_dev a st = Inr (v, st') \<and> display_inv st'"
    by (simp add: display_dev_def st)
  fix v
  have draw: "\<exists>d' fb'. draw_pixel c (d, fb) = Inr (d', fb') \<and> display_inv (d', fb')" for c
    using i st pixel_index_less [of "d_width d" "d_height d"]
    by (auto simp: draw_pixel_def Let_def put_pixel_ok display_inv_def)
  have "\<exists>st'. display_write a v (d, fb) = Inr st' \<and> display_inv st'"
  proof (cases "mode_from_addr (cmd_addr_bit (d_config d)) a = DataMode \<and> drawing d")
    case True
    with draw [of "ucast v"] obtain d' fb' where "draw_pixel (ucast v) (d, fb) = Inr (d', fb')"
      "display_inv (d', fb')" by blast
    with True show ?thesis by (auto simp: display_write_def intro: display_inv_handle_cmd)
  next
    case False
    have j: "display_inv (d\<lparr>drawing := b, d_cmd := c\<rparr>, fb)" "display_inv (d\<lparr>d_cmd := c\<rparr>, fb)" "display_inv (d, fb)" for b c
      using i st by (simp_all add: display_inv_def)
    show ?thesis using False j [THEN display_inv_handle_cmd]
      by (cases "mode_from_addr (cmd_addr_bit (d_config d)) a")
        (auto simp: display_write_def finish_cmd_def split: option.split)
  qed
  then show "\<exists>st'. dev_write display_dev a v st = Inr st' \<and> display_inv st'"
    by (simp add: display_dev_def st)
qed

text \<open>So is an LCD whose framebuffer has a 32-bit pixel for each of its positions. An image-backed
  framebuffer does not: its 16-bit buffer, viewed as 32-bit pixels, is half as long.\<close>

definition lcd_inv :: "lcd \<times> u32 framebuffer \<Rightarrow> bool" where
  "lcd_inv st \<longleftrightarrow> (let (l, fb) = st in 0 < lcd_width l \<and> 0 < lcd_height l \<and>
     unat (lcd_width l) * unat (lcd_height l) \<le> length (fb_pixels fb))"

lemma lcd_draw_ok:
  assumes "lcd_inv st"
  shows "\<exists>st'. lcd_draw_pixel c st = Inr st' \<and> lcd_inv st'"
proof -
  obtain l fb where st: "st = (l, fb)" by (cases st)
  have "pixel_index (lcd_width l) (lcd_height l) x y < length (fb_pixels fb)" for x y
    using assms st pixel_index_less [of "lcd_width l" "lcd_height l" x y] by (auto simp: lcd_inv_def)
  then show ?thesis using assms
    by (auto simp: st lcd_draw_pixel_def Let_def put_pixel_ok lcd_inv_def)
qed

interpretation lcd_contract: device_contract lcd_dev lcd_inv
proof unfold_locales
  fix st :: "lcd \<times> u32 framebuffer" and a
  assume i: "lcd_inv st"
  then show "\<exists>v st'. dev_read lcd_dev a st = Inr (v, st') \<and> lcd_inv st'" by (simp add: lcd_dev_def)
  fix v
  obtain l fb where st: "st = (l, fb)" by (cases st)
  have "\<exists>st'. lcd_write a v (l, fb) = Inr st' \<and> lcd_inv st'"
  proof (cases "lcd_drawing l")
    case True
    from lcd_draw_ok [OF i, of "drop_bit 4 v"] obtain st1 where
      "lcd_draw_pixel (drop_bit 4 v) st = Inr st1" "lcd_inv st1" by blast
    with lcd_draw_ok [of st1 "v AND 0x0F"] True show ?thesis by (auto simp: lcd_write_def st)
  next
    case False
    then show ?thesis using i st
      by (auto simp: lcd_write_def lcd_try_process_command_def lcd_inv_def Let_def split: option.split)
  qed
  then show "\<exists>st'. dev_write lcd_dev a v st = Inr st' \<and> lcd_inv st'" by (simp add: lcd_dev_def st)
qed

section \<open>Properties\<close>

text \<open>Drawing fills the chosen rectangle. Whatever the display was doing, sending the two region
  commands for a rectangle on the screen, the draw command and colours for at most the whole
  rectangle never panics, puts the k-th colour (byte-swapped when configured) at the k-th pixel
  of the rectangle in row order, and changes no other pixel.\<close>

theorem display_fills_region:
  assumes "addresses_ok cmd dat d" "region_commands_free d" "on_screen r (d, fb)"
    and "length cs \<le> region_width r * region_height r"
  shows "\<exists>d' fb'. display_writes (region_commands cmd dat r @ map (\<lambda>c. (dat, ucast c)) cs) (d, fb) =
      Inr (d', fb') \<and>
    (\<forall>i < length cs. fb_pixels fb' ! region_pixel (unat (d_width d)) r i = stored d (cs ! i)) \<and>
    (\<forall>p. (\<forall>i < length cs. p \<noteq> region_pixel (unat (d_width d)) r i) \<longrightarrow>
       fb_pixels fb' ! p = fb_pixels fb ! p)"
proof -
  let ?d1 = "d\<lparr>drawing := False, d_cmd := None, draw_region := (draw_region d)\<lparr>left := left r, right := right r\<rparr>\<rparr>"
  let ?d2 = "?d1\<lparr>drawing := False, d_cmd := None, draw_region := r\<rparr>"
  let ?d3 = "?d2\<lparr>drawing := True, current_position := \<lparr>pt_x = left r, pt_y = top r\<rparr>\<rparr>"
  have ok: "addresses_ok cmd dat ?d1" "addresses_ok cmd dat ?d2" "addresses_ok cmd dat ?d3"
    "region_commands_free ?d1"
    using assms(1,2) by (simp_all add: addresses_ok_def region_commands_free_def)
  have 1: "display_writes ((cmd, 0x2A) # range_data dat (left r) (right r)) (d, fb) = Inr (?d1, fb)"
    using range_writes [OF assms(1,2), of "0x2A"] by simp
  have 2: "display_writes ((cmd, 0x2B) # range_data dat (top r) (bottom r)) (?d1, fb) = Inr (?d2, fb)"
    using range_writes [OF ok(1,4), of "0x2B"] by (cases r) simp
  have "display_write cmd 0x2C (?d2, fb) = Inr (?d3, fb)"
    by (subst cmd_write [OF ok(2)]) (simp add: handle_cmd_def display_command_from_def)
  then have 3: "display_writes [(cmd, 0x2C)] (?d2, fb) = Inr (?d3, fb)"
    by (simp add: display_writes_def)
  have "region_commands cmd dat r = ((cmd, 0x2A) # range_data dat (left r) (right r)) @
      ((cmd, 0x2B) # range_data dat (top r) (bottom r)) @ [(cmd, 0x2C)]"
    by (simp add: region_commands_def)
  then have cmds: "display_writes (region_commands cmd dat r @ vs) (d, fb) = display_writes vs (?d3, fb)" for vs
    by (simp only: display_writes_append res_bind_assoc 1 2 3 res_bind.simps)
  have on: "on_screen (draw_region ?d3) (?d3, fb)" using assms(3) by (simp add: on_screen_def)
  have "at_pixel ?d3 0" by (simp add: at_pixel_def)
  from data_writes_paint [OF ok(3) _ _ on this, of cs] obtain pos where
    w: "display_writes (map (\<lambda>c. (dat, ucast c)) cs) (?d3, fb) = Inr (?d3\<lparr>current_position := pos\<rparr>,
      fb\<lparr>fb_pixels := paint (unat (d_width d)) r 0 (map (stored ?d3) cs) (fb_pixels fb)\<rparr>)" by auto
  have st: "stored ?d3 = stored d" by (simp add: fun_eq_iff stored_def)
  show ?thesis
  proof (intro exI conjI allI impI)
    show "display_writes (region_commands cmd dat r @ map (\<lambda>c. (dat, ucast c)) cs) (d, fb) =
      Inr (?d3\<lparr>current_position := pos\<rparr>,
        fb\<lparr>fb_pixels := paint (unat (d_width d)) r 0 (map (stored d) cs) (fb_pixels fb)\<rparr>)"
      using w unfolding cmds st .
    fix i assume i: "i < length cs"
    show "fb_pixels (fb\<lparr>fb_pixels := paint (unat (d_width d)) r 0 (map (stored d) cs) (fb_pixels fb)\<rparr>) !
        region_pixel (unat (d_width d)) r i = stored d (cs ! i)"
      using paint_inside [of "region_width r * region_height r" "unat (d_width d)" r "fb_pixels fb" 0
          "map (stored d) cs" i] region_pixel_inj [OF assms(3)] region_pixel_less [OF assms(3)] assms(4) i
      by simp
  next
    fix p assume "\<forall>i < length cs. p \<noteq> region_pixel (unat (d_width d)) r i"
    then show "fb_pixels (fb\<lparr>fb_pixels := paint (unat (d_width d)) r 0 (map (stored d) cs) (fb_pixels fb)\<rparr>) ! p =
        fb_pixels fb ! p"
      using paint_outside [of "map (stored d) cs" p "unat (d_width d)" r 0] by simp
  qed
qed

definition small_config :: framebuffer_config where
  "small_config = \<lparr>fbc_name = ''fb'', fbc_width = 4, fbc_height = 3, fbc_mode = ''rgb565'',
     fbc_image = Some ''out.png'', fbc_sdl = None, fbc_downscale = None\<rparr>"

definition small_display :: display where
  "small_display = \<lparr>d_config = \<lparr>dc_peripheral = ''FSMC.BANK1'', cmd_addr_bit = 0x20000,
       dc_swap_bytes = None, dc_replies = None, dc_framebuffer = ''fb''\<rparr>, d_name = ''?'',
     draw_region = \<lparr>left = 0, right = 3, top = 0, bottom = 2\<rparr>, d_cmd = None, d_reply = [],
     drawing = False, current_position = \<lparr>pt_x = 0, pt_y = 0\<rparr>, d_width = 4, d_height = 3\<rparr>"

theorem display_fills_region_witness:
  "\<exists>d' fb'. display_writes (region_commands 0 0x20000 \<lparr>left = 1, right = 2, top = 1, bottom = 2\<rparr> @
      [(0x20000, 7), (0x20000, 8), (0x20000, 9)]) (small_display, image_new small_config) = Inr (d', fb') \<and>
    fb_pixels fb' ! 9 = 9 \<and> fb_pixels fb' ! 0 = 0"
proof -
  have h: "addresses_ok 0 0x20000 small_display" "region_commands_free small_display"
    "on_screen \<lparr>left = 1, right = 2, top = 1, bottom = 2\<rparr> (small_display, image_new small_config)"
    "length [7, 8, 9 :: u16] \<le> region_width \<lparr>left = 1, right = 2, top = 1, bottom = 2\<rparr> *
      region_height \<lparr>left = 1, right = 2, top = 1, bottom = 2\<rparr>"
    by (simp_all add: addresses_ok_def region_commands_free_def on_screen_def small_display_def
        image_new_def small_config_def region_width_def region_height_def)
  have rw: "region_width \<lparr>left = 1, right = 2, top = 1, bottom = 2\<rparr> = 2"
    "region_height \<lparr>left = 1, right = 2, top = 1, bottom = 2\<rparr> = 2"
    by (simp_all add: region_width_def region_height_def)
  have px: "region_pixel 4 \<lparr>left = 1, right = 2, top = 1, bottom = 2\<rparr> 2 = 9"
    "i < 3 \<Longrightarrow> region_pixel 4 \<lparr>left = 1, right = 2, top = 1, bottom = 2\<rparr> i \<noteq> 0" for i
    by (simp_all add: region_pixel_def rw)
  from display_fills_region [OF h] obtain d' fb' where
    e: "display_writes (region_commands 0 0x20000 \<lparr>left = 1, right = 2, top = 1, bottom = 2\<rparr> @
      map (\<lambda>c. (0x20000, ucast c)) [7, 8, 9 :: u16]) (small_display, image_new small_config) = Inr (d', fb')" and
    i: "\<forall>i < length [7, 8, 9 :: u16]. fb_pixels fb' !
      region_pixel (unat (d_width small_display)) \<lparr>left = 1, right = 2, top = 1, bottom = 2\<rparr> i =
      stored small_display ([7, 8, 9] ! i)" and
    o: "\<forall>p. (\<forall>i < length [7, 8, 9 :: u16]. p \<noteq>
      region_pixel (unat (d_width small_display)) \<lparr>left = 1, right = 2, top = 1, bottom = 2\<rparr> i) \<longrightarrow>
      fb_pixels fb' ! p = fb_pixels (image_new small_config) ! p" by blast
  have w: "unat (d_width small_display) = 4" by (simp add: small_display_def)
  have "fb_pixels fb' ! 9 = 9"
    using i [rule_format, of 2] by (simp add: w px stored_def small_display_def)
  moreover have "fb_pixels fb' ! 0 = 0"
    using o [rule_format, of 0] px(2) unfolding w by (auto simp: image_new_def small_config_def)
  ultimately show ?thesis using e by auto
qed

definition measured :: "touchscreen_config \<Rightarrow> operation \<Rightarrow> nat \<Rightarrow> nat \<Rightarrow> nat \<Rightarrow> nat \<Rightarrow> nat" where
  "measured cfg op x y w h =
     (let op = (if swap_x_y cfg = Some True then (case op of MeasureX \<Rightarrow> MeasureY | MeasureY \<Rightarrow> MeasureX | _ \<Rightarrow> op)
                else op)
      in case op of
           MeasureX \<Rightarrow> if flip_x cfg = Some True then 4095 - x * 4095 div w else x * 4095 div w
         | MeasureY \<Rightarrow> if flip_y cfg = Some True then 4095 - y * 4095 div h else y * 4095 div h
         | _ \<Rightarrow> 10)"

definition touch_exchange :: "u8 \<Rightarrow> touchscreen \<times> 'c framebuffer \<Rightarrow> ((u8 \<times> u8) \<times> (touchscreen \<times> 'c framebuffer)) res" where
  "touch_exchange v st =
     res_bind (touch_write () v st) (\<lambda>st. res_bind (touch_read () st) (\<lambda>(hi, st).
       res_map (\<lambda>(lo, st). ((hi, lo), st)) (touch_read () st)))"

lemma div_u32_scaled:
  fixes p n :: u16
  assumes "p < n"
  shows "\<exists>v. div_u32 (ucast p * 0xfff) (ucast n) = Inr v \<and> unat v = unat p * 4095 div unat n \<and> unat v < 4096"
proof -
  have pn: "unat p < unat n" using assms by (simp add: word_less_nat_alt)
  have up: "unat (ucast p :: u32) = unat p" "unat (ucast n :: u32) = unat n"
    using unat_u16_less [of p] unat_u16_less [of n] by (simp_all add: unsigned_ucast_eq take_bit_nat_eq_self_iff)
  have m: "unat (ucast p * 0xfff :: u32) = unat p * 4095"
    using unat_u16_less [of p] by (subst unat_mult_lem [THEN iffD1]) (simp_all add: up)
  have "ucast n \<noteq> (0 :: u32)" using up(2) pn by (metis not_less_zero unat_0)
  moreover have "unat p * 4095 div unat n < 4096"
    using pn by (simp add: less_mult_imp_div_less)
  ultimately show ?thesis by (simp add: div_u32_def unat_div m up)
qed

lemma two_bytes:
  fixes v :: u32
  assumes "unat v < 4096"
  shows "unat (ucast (drop_bit 4 v) :: u8) * 16 + unat (ucast (push_bit 4 v) :: u8) div 16 = unat v"
proof -
  have d: "unat (drop_bit 4 v) = unat v div 16" by (simp add: drop_bit_eq_div unat_div)
  have "unat (ucast (drop_bit 4 v) :: u8) = unat v div 16"
    using assms by (simp add: unsigned_ucast_eq take_bit_nat_eq_self_iff d)
  moreover have "unat (ucast (push_bit 4 v) :: u8) = (unat v * 16) mod 256"
  proof -
    have "unat (v * 16) = unat v * unat (16 :: u32)"
      using assms by (intro unat_mult_lem [THEN iffD1]) simp
    then have "unat (push_bit 4 v) = unat v * 16" by (simp add: push_bit_eq_mult)
    then show ?thesis by (simp add: unsigned_ucast_eq take_bit_eq_mod)
  qed
  moreover have "(unat v * 16) mod 256 = 16 * (unat v mod 16)"
    using mult_mod_right [of 16 "unat v" 16] by (simp add: mult.commute)
  then have "(unat v * 16) mod 256 div 16 = unat v mod 16" by simp
  ultimately show ?thesis by simp
qed

text \<open>A touch reading is the scaled position. For a command with the start bit and one of the
  four operations, while the screen is touched inside its bounds and no down-scaling is set, the
  two reply bytes carry, most significant bits first, the 12-bit value of the measured axis:
  position times 4095 over the screen size, mirrored when that axis is flipped, the axes exchanged
  when configured, and 10 for pressure; nothing panics. A command with any other operation code
  panics the emulator.\<close>

theorem touch_reading:
  assumes "bit v 7" "operation_from (drop_bit 4 v AND 7) = Some op"
    and "fb_touch fb = Some (px, py)" "px < fbc_width (fb_config fb)" "py < fbc_height (fb_config fb)"
    and "scale_down (tc_config t) = None"
    and "bit v' 7" "drop_bit 4 v' AND 7 \<in> {0, 2, 6, 7}"
  shows "\<exists>hi lo st. touch_exchange v (t, fb) = Inr ((hi, lo), st) \<and>
      unat hi * 16 + unat lo div 16 = measured (tc_config t) op (unat px) (unat py)
        (unat (fbc_width (fb_config fb))) (unat (fbc_height (fb_config fb))) \<and>
      touch_write () v' (t, fb) = Inl UnwrapFailed"
proof -
  obtain x where x: "div_u32 (ucast px * 0xfff) (ucast (fbc_width (fb_config fb))) = Inr x"
    "unat x = unat px * 4095 div unat (fbc_width (fb_config fb))" "unat x < 4096"
    using div_u32_scaled [OF assms(4)] by blast
  obtain y where y: "div_u32 (ucast py * 0xfff) (ucast (fbc_height (fb_config fb))) = Inr y"
    "unat y = unat py * 4095 div unat (fbc_height (fb_config fb))" "unat y < 4096"
    using div_u32_scaled [OF assms(5)] by blast
  have m: "unat (0xfff - w :: u32) = 4095 - unat w" "4095 - unat w < 4096" if "unat w < 4096" for w
    using that by (simp_all add: unat_sub word_le_nat_alt)
  have cmd: "touch_command_from v = Inr (Some op)"
    using assms(1,2) and_bit_mask_eq_0 [of v 7] by (simp add: touch_command_from_def bit_mask_def)
  have bad: "touch_command_from v' = Inl UnwrapFailed"
    using assms(7,8) and_bit_mask_eq_0 [of v' 7]
    by (auto simp: touch_command_from_def bit_mask_def operation_from_def)
  define axis where "axis = (if swap_x_y (tc_config t) = Some True \<and> op = MeasureX then MeasureY
      else if swap_x_y (tc_config t) = Some True \<and> op = MeasureY then MeasureX else op)"
  define reading where "reading = (case axis of
      MeasureX \<Rightarrow> if flip_x (tc_config t) = Some True then 0xfff - x else x
    | MeasureY \<Rightarrow> if flip_y (tc_config t) = Some True then 0xfff - y else y
    | _ \<Rightarrow> (10 :: u32))"
  have "touch_write () v (t, fb) =
      Inr (t\<lparr>tc_reply := Some [ucast (drop_bit 4 reading), ucast (push_bit 4 reading)]\<rparr>, fb)"
    using cmd assms(3,6) x(1) y(1)
    by (cases op) (simp_all add: touch_write_def Let_def axis_def reading_def)
  then have e: "touch_exchange v (t, fb) = Inr ((ucast (drop_bit 4 reading), ucast (push_bit 4 reading)),
      (t\<lparr>tc_reply := Some []\<rparr>, fb))"
    by (simp add: touch_exchange_def touch_read_def)
  have "unat reading < 4096 \<and> unat reading = measured (tc_config t) op (unat px) (unat py)
        (unat (fbc_width (fb_config fb))) (unat (fbc_height (fb_config fb)))"
    using x(2,3) y(2,3) m [of x] m [of y]
    by (cases op) (auto simp: measured_def Let_def axis_def reading_def)
  then show ?thesis using e two_bytes [of reading] bad by (simp add: touch_write_def)
qed

theorem touch_reading_witness:
  "\<exists>hi lo st. touch_exchange 0xD0 (\<lparr>tc_config = \<lparr>tc_peripheral = ''SPI1'', tc_framebuffer = ''fb'',
      flip_x = Some True, flip_y = None, swap_x_y = None, touch_detected_pin = None, scale_down = None\<rparr>,
      tc_reply = None\<rparr>, (image_new small_config)\<lparr>fb_touch := Some (1, 1)\<rparr>) = Inr ((hi, lo), st) \<and>
    unat hi * 16 + unat lo div 16 = 3072"
  using touch_reading [of "0xD0" MeasureX "(image_new small_config)\<lparr>fb_touch := Some (1, 1)\<rparr>" 1 1
      "\<lparr>tc_config = \<lparr>tc_peripheral = ''SPI1'', tc_framebuffer = ''fb'', flip_x = Some True, flip_y = None,
        swap_x_y = None, touch_detected_pin = None, scale_down = None\<rparr>, tc_reply = None\<rparr>" "0x80"]
  by (auto simp: operation_from_def image_new_def small_config_def measured_def)

end
