(* ===== verification/UsbCdc.thy ===== *)
theory UsbCdc
  imports Interfaces
begin

text \<open>
  The host side of the virtual USB serial port: the in-process link of
  \<open>src/ext_devices/embedded_cdc.rs\<close> (its mutex-protected state and its registry) and the TCP
  bridge of \<open>src/ext_devices/usb_cdc_tcp.rs\<close>.

  Every link operation runs under the link's mutex, so operations of different threads are
  interleaved as atomic steps. Sockets belong to the standard library: what \<open>accept\<close>, \<open>read\<close> and
  \<open>write\<close> return is an input list of each poll, and the current time is an argument.
\<close>

section \<open>Capped queues\<close>

text \<open>\<open>push_capped\<close> of the link: drop the overflow, then append, or keep the last \<open>capacity\<close> bytes.\<close>

definition push_capped :: "u8 list \<Rightarrow> u8 list \<Rightarrow> nat \<Rightarrow> u8 list" where
  "push_capped queue bytes capacity =
     (let overflow = length queue + length bytes - capacity;
          queue = drop (min overflow (length queue)) queue
      in if capacity \<le> length bytes then queue @ drop (length bytes - capacity) bytes
         else queue @ bytes)"

text \<open>\<open>push_capped\<close> of the bridge: byte by byte.\<close>

fun push_capped_bytes :: "u8 list \<Rightarrow> u8 list \<Rightarrow> nat \<Rightarrow> u8 list" where
  "push_capped_bytes queue [] capacity = queue"
| "push_capped_bytes queue (b # bytes) capacity =
     push_capped_bytes ((if length queue = capacity then tl queue else queue) @ [b]) bytes capacity"

lemma push_capped_last_n: "length q \<le> cap \<Longrightarrow> push_capped q bs cap = last_n cap (q @ bs)"
  by (auto simp: push_capped_def last_n_def Let_def min_def)

lemma push_capped_bytes_last_n:
  "0 < cap \<Longrightarrow> length q \<le> cap \<Longrightarrow> push_capped_bytes q bs cap = last_n cap (q @ bs)"
proof (induction bs arbitrary: q)
  case (Cons b bs)
  let ?q = "(if length q = cap then tl q else q) @ [b]"
  have "?q = last_n cap (q @ [b])" using Cons.prems by (simp add: last_n_snoc_full)
  moreover have "length ?q \<le> cap" using Cons.prems by auto
  ultimately show ?case using Cons.IH [of ?q] Cons.prems
    by (simp add: last_n_append_last_n)
qed simp

interpretation link_queue: capped_queue "\<lambda>bs (q, c). (push_capped q bs c, c)" fst snd
  by unfold_locales (auto simp: push_capped_last_n)

interpretation bridge_queue: capped_queue "\<lambda>bs (q, c). (push_capped_bytes q bs c, c)" fst snd
  by unfold_locales (auto simp: push_capped_bytes_last_n)

section \<open>The in-process link\<close>

datatype cdc_stage =
    Detached | DevicePresent | UsbStarted | StageDeviceDescriptor | StageSetAddress
  | StageSetConfiguration | StageSetLineCoding | StageSetControlLineState | ProtocolReady

record cdc_state =
  host_to_device :: "u8 list"
  device_to_host :: "u8 list"
  host_connected :: bool
  stage :: cdc_stage
  max_buffered :: nat

definition DEFAULT_MAX_BUFFERED_BYTES :: nat where "DEFAULT_MAX_BUFFERED_BYTES = 65536"

definition link_new :: cdc_state where
  "link_new = \<lparr>host_to_device = [], device_to_host = [], host_connected = False, stage = Detached,
     max_buffered = DEFAULT_MAX_BUFFERED_BYTES\<rparr>"

definition clear_queues :: "cdc_state \<Rightarrow> cdc_state" where
  "clear_queues s = s\<lparr>host_to_device := [], device_to_host := []\<rparr>"

definition connect :: "cdc_state \<Rightarrow> unit fallible \<times> cdc_state" where
  "connect s =
     (if stage s \<noteq> ProtocolReady then (Inl ''embedded firmware TunerStudio protocol is not ready'', s)
      else (Inr (), clear_queues (s\<lparr>host_connected := True\<rparr>)))"

definition disconnect :: "cdc_state \<Rightarrow> cdc_state" where
  "disconnect s = clear_queues (s\<lparr>host_connected := False\<rparr>)"

definition is_connected :: "cdc_state \<Rightarrow> bool" where
  "is_connected s \<longleftrightarrow> host_connected s \<and> stage s = ProtocolReady"

definition device_present :: "cdc_state \<Rightarrow> bool" where
  "device_present s \<longleftrightarrow> stage s \<noteq> Detached"

definition protocol_ready :: "cdc_state \<Rightarrow> bool" where
  "protocol_ready s \<longleftrightarrow> stage s = ProtocolReady"

definition write_from_host :: "u8 list \<Rightarrow> cdc_state \<Rightarrow> nat fallible \<times> cdc_state" where
  "write_from_host bytes s =
     (if \<not> host_connected s \<or> stage s \<noteq> ProtocolReady
      then (Inl ''embedded CDC link is not connected'', s)
      else (Inr (length bytes),
            s\<lparr>host_to_device := push_capped (host_to_device s) bytes (max_buffered s)\<rparr>))"

text \<open>The wait of \<open>read_for_host\<close> releases the mutex: each wake-up shows the state other threads left
  and whether the wait timed out; an empty list is a deadline that has already passed.\<close>

fun wait_readable :: "(cdc_state \<times> bool) list \<Rightarrow> cdc_state \<Rightarrow> cdc_state" where
  "wait_readable wakes s =
     (if device_to_host s = [] \<and> host_connected s \<and> stage s = ProtocolReady then
        (case wakes of
           [] \<Rightarrow> s
         | (s', timed_out) # ws \<Rightarrow> if timed_out then s' else wait_readable ws s')
      else s)"

declare wait_readable.simps [simp del]

definition read_for_host :: "(cdc_state \<times> bool) list \<Rightarrow> nat \<Rightarrow> cdc_state \<Rightarrow> u8 list \<times> cdc_state" where
  "read_for_host wakes n s =
     (let s = wait_readable wakes s; count = min n (length (device_to_host s))
      in (take count (device_to_host s), s\<lparr>device_to_host := drop count (device_to_host s)\<rparr>))"

definition bytes_available :: "cdc_state \<Rightarrow> nat" where
  "bytes_available s = length (device_to_host s)"

definition attach_device :: "cdc_state \<Rightarrow> cdc_state" where
  "attach_device s = s\<lparr>stage := DevicePresent\<rparr>"

definition set_protocol_stage :: "cdc_stage \<Rightarrow> cdc_state \<Rightarrow> cdc_state" where
  "set_protocol_stage st s =
     (let s = s\<lparr>stage := (if stage s = Detached then Detached else st)\<rparr>
      in if stage s \<noteq> ProtocolReady then clear_queues (s\<lparr>host_connected := False\<rparr>) else s)"

definition detach_device :: "cdc_state \<Rightarrow> cdc_state" where
  "detach_device s = clear_queues (s\<lparr>stage := Detached, host_connected := False\<rparr>)"

definition write_from_device :: "u8 list \<Rightarrow> cdc_state \<Rightarrow> cdc_state" where
  "write_from_device bytes s =
     (if \<not> host_connected s then s
      else s\<lparr>device_to_host := push_capped (device_to_host s) bytes (max_buffered s)\<rparr>)"

definition read_for_device :: "nat \<Rightarrow> cdc_state \<Rightarrow> u8 list \<times> cdc_state" where
  "read_for_device maximum s =
     (let count = min maximum (length (host_to_device s))
      in (take count (host_to_device s), s\<lparr>host_to_device := drop count (host_to_device s)\<rparr>))"

section \<open>The registry\<close>

text \<open>The two process-wide slots; a link is identified by its allocation (\<open>Arc::ptr_eq\<close>).\<close>

record registry =
  pending_device_link :: "nat option"
  active_host_link :: "nat option"

definition install_embedded_link :: "nat \<Rightarrow> registry \<Rightarrow> registry" where
  "install_embedded_link link r = r\<lparr>pending_device_link := Some link, active_host_link := Some link\<rparr>"

definition take_pending_device_link :: "registry \<Rightarrow> nat option \<times> registry" where
  "take_pending_device_link r = (pending_device_link r, r\<lparr>pending_device_link := None\<rparr>)"

definition clear_embedded_link :: "nat \<Rightarrow> registry \<Rightarrow> registry" where
  "clear_embedded_link link r =
     (let r = (if active_host_link r = Some link then r\<lparr>active_host_link := None\<rparr> else r)
      in if pending_device_link r = Some link then r\<lparr>pending_device_link := None\<rparr> else r)"

definition active_embedded_link :: "registry \<Rightarrow> nat option" where
  "active_embedded_link r = active_host_link r"

section \<open>The TCP bridge\<close>

record usb_cdc_config =
  cdc_peripheral :: string
  cdc_listen :: string
  max_buffered_bytes :: nat

text \<open>The state of the bridge. \<open>embedded\<close> is the shared state of the in-process link when there is
  one; a client is present or not, with the time at which it connected, in milliseconds.\<close>

record usb_cdc =
  cdc_config :: usb_cdc_config
  listener :: bool
  embedded :: "cdc_state option"
  client :: bool
  client_connected_at :: "nat option"
  stale_client_grace_period :: nat
  to_device :: "u8 list"
  from_device :: "u8 list"
  rx_total :: nat
  tx_total :: nat

definition STALE_CLIENT_GRACE_PERIOD :: nat where "STALE_CLIENT_GRACE_PERIOD = 10000"

text \<open>\<open>bind\<close> says whether the listening socket could be opened.\<close>

definition usb_cdc_new :: "usb_cdc_config \<Rightarrow> cdc_state option \<Rightarrow> bool \<Rightarrow> usb_cdc fallible" where
  "usb_cdc_new config link bind =
     (let base = \<lparr>cdc_config = config, listener = False, embedded = None, client = False,
                  client_connected_at = None, stale_client_grace_period = STALE_CLIENT_GRACE_PERIOD,
                  to_device = [], from_device = [], rx_total = 0, tx_total = 0\<rparr>
      in if max_buffered_bytes config = 0
         then Inl ''usb_cdc_tcp max_buffered_bytes must be positive''
         else case link of
                Some link \<Rightarrow> Inr (base\<lparr>embedded := Some (attach_device link)\<rparr>)
              | None \<Rightarrow> if bind then Inr (base\<lparr>listener := True\<rparr>)
                        else Inl ''Failed to listen for USB CDC TCP'')"

definition push_from_device :: "u8 list \<Rightarrow> usb_cdc \<Rightarrow> usb_cdc" where
  "push_from_device bytes b =
     (case embedded b of
        Some link \<Rightarrow> b\<lparr>embedded := Some (write_from_device bytes link)\<rparr>
      | None \<Rightarrow> b\<lparr>from_device := push_capped_bytes (from_device b) bytes (max_buffered_bytes (cdc_config b))\<rparr>)"

definition take_for_device :: "nat \<Rightarrow> usb_cdc \<Rightarrow> u8 list \<times> usb_cdc" where
  "take_for_device maximum b =
     (case embedded b of
        Some link \<Rightarrow> (let (bytes, link) = read_for_device maximum link in (bytes, b\<lparr>embedded := Some link\<rparr>))
      | None \<Rightarrow>
          let count = min maximum (length (to_device b))
          in (take count (to_device b), b\<lparr>to_device := drop count (to_device b)\<rparr>))"

definition bridge_set_protocol_stage :: "cdc_stage \<Rightarrow> usb_cdc \<Rightarrow> usb_cdc" where
  "bridge_set_protocol_stage st b = b\<lparr>embedded := map_option (set_protocol_stage st) (embedded b)\<rparr>"

definition is_client_connected :: "usb_cdc \<Rightarrow> bool" where
  "is_client_connected b = (case embedded b of None \<Rightarrow> client b | Some link \<Rightarrow> device_present link)"

definition mark_disconnected :: "usb_cdc \<Rightarrow> usb_cdc" where
  "mark_disconnected b = b\<lparr>client := False, client_connected_at := None, to_device := [], from_device := []\<rparr>"

datatype accept_result = Accepted | AcceptError string
datatype read_result = ReadBytes "u8 list" | ReadReset | ReadError string
datatype write_result = Wrote nat | WriteReset | WriteError string

text \<open>The accept loop; the end of the list is \<open>WouldBlock\<close>. A second client replaces the current one
  only after the grace period.\<close>

fun accept_clients :: "nat \<Rightarrow> accept_result list \<Rightarrow> usb_cdc \<Rightarrow> unit fallible \<times> usb_cdc" where
  "accept_clients now [] b = (Inr (), b)"
| "accept_clients now (a # as) b =
     (if \<not> listener b then (Inr (), b)
      else case a of
        AcceptError e \<Rightarrow> (Inl e, b)
      | Accepted \<Rightarrow>
          let within = (case client_connected_at b of None \<Rightarrow> False
                        | Some t \<Rightarrow> now - t < stale_client_grace_period b)
          in if client b \<and> within then accept_clients now as b
             else let b = (if client b then mark_disconnected b else b)
                  in accept_clients now as
                       (b\<lparr>client := True, client_connected_at := Some now, rx_total := 0, tx_total := 0\<rparr>))"

text \<open>A read of no bytes is the peer's end of stream; each read returns at most the 1024-byte buffer.\<close>

fun receive_loop :: "read_result list \<Rightarrow> usb_cdc \<Rightarrow> (bool fallible) \<times> usb_cdc" where
  "receive_loop [] b = (Inr False, b)"
| "receive_loop (r # rs) b =
     (case r of
        ReadBytes bytes \<Rightarrow>
          if bytes = [] then (Inr True, b)
          else receive_loop rs
                 (b\<lparr>rx_total := rx_total b + length bytes,
                    to_device := push_capped_bytes (to_device b) bytes (max_buffered_bytes (cdc_config b))\<rparr>)
      | ReadReset \<Rightarrow> (Inr True, b)
      | ReadError e \<Rightarrow> (Inl e, b))"

definition receive_from_client :: "read_result list \<Rightarrow> usb_cdc \<Rightarrow> unit fallible \<times> usb_cdc" where
  "receive_from_client rs b =
     (if \<not> client b then (Inr (), b)
      else case receive_loop rs b of
             (Inl e, b) \<Rightarrow> (Inl e, b)
           | (Inr disconnected, b) \<Rightarrow> (Inr (), if disconnected then mark_disconnected b else b))"

fun send_loop :: "write_result list \<Rightarrow> usb_cdc \<Rightarrow> (bool fallible) \<times> usb_cdc" where
  "send_loop [] b = (Inr False, b)"
| "send_loop (r # rs) b =
     (if from_device b = [] then (Inr False, b)
      else case r of
        Wrote n \<Rightarrow>
          if n = 0 then (Inr True, b)
          else send_loop rs (b\<lparr>tx_total := tx_total b + n, from_device := drop n (from_device b)\<rparr>)
      | WriteReset \<Rightarrow> (Inr True, b)
      | WriteError e \<Rightarrow> (Inl e, b))"

definition send_to_client :: "write_result list \<Rightarrow> usb_cdc \<Rightarrow> unit fallible \<times> usb_cdc" where
  "send_to_client rs b =
     (if \<not> client b then (Inr (), b)
      else case send_loop rs b of
             (Inl e, b) \<Rightarrow> (Inl e, b)
           | (Inr disconnected, b) \<Rightarrow> (Inr (), if disconnected then mark_disconnected b else b))"

definition bridge_poll ::
  "nat \<Rightarrow> accept_result list \<Rightarrow> read_result list \<Rightarrow> write_result list \<Rightarrow> usb_cdc \<Rightarrow> unit fallible \<times> usb_cdc" where
  "bridge_poll now as rs ws b =
     (if embedded b \<noteq> None then (Inr (), b)
      else case accept_clients now as b of
        (Inl e, b) \<Rightarrow> (Inl e, b)
      | (Inr _, b) \<Rightarrow>
          (case receive_from_client rs b of
             (Inl e, b) \<Rightarrow> (Inl e, b)
           | (Inr _, b) \<Rightarrow> send_to_client ws b))"

text \<open>Dropping the bridge detaches the link.\<close>

definition bridge_drop :: "usb_cdc \<Rightarrow> cdc_state option" where
  "bridge_drop b = map_option detach_device (embedded b)"

section \<open>Reachable link states\<close>

text \<open>One step of any thread that holds the link: the host's calls, the device's calls, and the
  virtual host's stage changes.\<close>

inductive link_step :: "cdc_state \<Rightarrow> cdc_state \<Rightarrow> bool" where
  host_connects: "link_step s (snd (connect s))"
| host_disconnects: "link_step s (disconnect s)"
| host_writes: "link_step s (snd (write_from_host bytes s))"
| host_reads: "link_step s (snd (read_for_host [] n s))"
| device_attaches: "link_step s (attach_device s)"
| device_detaches: "link_step s (detach_device s)"
| stage_changes: "link_step s (set_protocol_stage st s)"
| device_writes: "link_step s (write_from_device bytes s)"
| device_reads: "link_step s (snd (read_for_device n s))"

inductive_cases link_stepE: "link_step s s'"

inductive link_reach :: "cdc_state \<Rightarrow> bool" where
  link_start: "link_reach link_new"
| link_next: "link_reach s \<Longrightarrow> link_step s s' \<Longrightarrow> link_reach s'"

definition link_inv :: "cdc_state \<Rightarrow> bool" where
  "link_inv s \<longleftrightarrow> max_buffered s = DEFAULT_MAX_BUFFERED_BYTES \<and>
     length (host_to_device s) \<le> DEFAULT_MAX_BUFFERED_BYTES \<and>
     length (device_to_host s) \<le> DEFAULT_MAX_BUFFERED_BYTES \<and>
     (host_connected s \<or> host_to_device s = [] \<and> device_to_host s = [])"

lemma link_inv_new: "link_inv link_new"
  by (simp add: link_inv_def link_new_def)

lemma length_push_capped: "length q \<le> c \<Longrightarrow> length (push_capped q bs c) \<le> c"
  by (simp add: push_capped_last_n)

lemma link_inv_step:
  assumes "link_step s s'" "link_inv s"
  shows "link_inv s'"
  using assms
proof (cases rule: link_step.cases)
  case (host_writes bytes)
  with assms(2) show ?thesis
    using length_push_capped [of "host_to_device s" DEFAULT_MAX_BUFFERED_BYTES bytes]
    by (auto simp: link_inv_def write_from_host_def)
next
  case (device_writes bytes)
  with assms(2) show ?thesis
    using length_push_capped [of "device_to_host s" DEFAULT_MAX_BUFFERED_BYTES bytes]
    by (auto simp: link_inv_def write_from_device_def)
next
  case (host_reads n)
  have "wait_readable [] s = s" by (subst wait_readable.simps) simp
  with host_reads assms(2) show ?thesis by (auto simp: link_inv_def read_for_host_def Let_def)
qed (auto simp: link_inv_def connect_def disconnect_def clear_queues_def attach_device_def
      detach_device_def set_protocol_stage_def read_for_device_def Let_def)

lemma link_reach_inv: "link_reach s \<Longrightarrow> link_inv s"
  by (induction rule: link_reach.induct) (auto intro: link_inv_new link_inv_step)

section \<open>Streams\<close>

datatype stream_op = HostWrite "u8 list" | DeviceRead nat

fun run_stream :: "stream_op list \<Rightarrow> cdc_state \<Rightarrow> u8 list \<times> cdc_state" where
  "run_stream [] s = ([], s)"
| "run_stream (HostWrite bytes # ops) s = run_stream ops (snd (write_from_host bytes s))"
| "run_stream (DeviceRead n # ops) s =
     (let (bytes, s) = read_for_device n s; (more, s) = run_stream ops s in (bytes @ more, s))"

fun written :: "stream_op list \<Rightarrow> u8 list" where
  "written [] = []"
| "written (HostWrite bytes # ops) = bytes @ written ops"
| "written (DeviceRead n # ops) = written ops"

lemma run_stream_fifo:
  "is_connected s \<Longrightarrow> length (host_to_device s) + length (written ops) \<le> max_buffered s \<Longrightarrow>
   run_stream ops s = (got, s') \<Longrightarrow>
   got @ host_to_device s' = host_to_device s @ written ops \<and> is_connected s' \<and>
   device_to_host s' = device_to_host s"
proof (induction ops s arbitrary: got s' rule: run_stream.induct)
  case (2 bytes ops s)
  have fits: "length (host_to_device s) + length bytes \<le> max_buffered s" using "2.prems"(2) by simp
  then have w: "push_capped (host_to_device s) bytes (max_buffered s) = host_to_device s @ bytes"
    by (simp add: push_capped_last_n)
  show ?case
    using "2.IH" [of got s'] "2.prems" fits w
    by (simp add: write_from_host_def is_connected_def add.assoc)
next
  case (3 n ops s)
  obtain more s2 where m: "run_stream ops (s\<lparr>host_to_device :=
      drop (min n (length (host_to_device s))) (host_to_device s)\<rparr>) = (more, s2)" by fastforce
  define c where "c = min n (length (host_to_device s))"
  have "more @ host_to_device s2 = drop c (host_to_device s) @ written ops \<and> is_connected s2 \<and>
      device_to_host s2 = device_to_host s"
    using "3.IH" [OF refl, of "take c (host_to_device s)" "s\<lparr>host_to_device := drop c (host_to_device s)\<rparr>"
      more s2] m "3.prems"(1,2)
    by (simp add: read_for_device_def is_connected_def Let_def c_def)
  moreover have "got = take c (host_to_device s) @ more" "s' = s2"
    using "3.prems"(3) m by (simp_all add: read_for_device_def Let_def c_def)
  ultimately show ?case by simp
qed simp

section \<open>Properties\<close>

text \<open>C31: Sessions on the link do not mix and its memory is bounded. In every state reachable by any
  interleaving of host, device and stage operations both queues hold at most 65,536 bytes, and are
  empty while no host is connected; connecting succeeds exactly when the protocol is ready and
  then starts with empty queues; and while a host stays connected and writes no more than fits,
  the bytes the device reads, followed by those still queued, are exactly the bytes queued before
  followed by the bytes written, in order.\<close>

theorem link_sessions:
  assumes "link_reach s"
  shows "length (host_to_device s) \<le> 65536 \<and> length (device_to_host s) \<le> 65536 \<and>
    (host_connected s \<or> host_to_device s = [] \<and> device_to_host s = []) \<and>
    (fst (connect s) = Inr () \<longleftrightarrow> protocol_ready s) \<and>
    (protocol_ready s \<longrightarrow> is_connected (snd (connect s)) \<and>
       host_to_device (snd (connect s)) = [] \<and> device_to_host (snd (connect s)) = []) \<and>
    (is_connected s \<and> length (host_to_device s) + length (written ops) \<le> 65536 \<longrightarrow>
       fst (run_stream ops s) @ host_to_device (snd (run_stream ops s)) = host_to_device s @ written ops)"
proof -
  have i: "link_inv s" by (rule link_reach_inv [OF assms])
  have "fst (run_stream ops s) @ host_to_device (snd (run_stream ops s)) = host_to_device s @ written ops"
    if "is_connected s" "length (host_to_device s) + length (written ops) \<le> 65536"
    using run_stream_fifo [of s ops "fst (run_stream ops s)" "snd (run_stream ops s)"] that i
    by (simp add: link_inv_def DEFAULT_MAX_BUFFERED_BYTES_def)
  then show ?thesis using i
    by (simp add: link_inv_def DEFAULT_MAX_BUFFERED_BYTES_def connect_def protocol_ready_def
        is_connected_def clear_queues_def)
qed

theorem link_sessions_witness:
  "\<exists>s. link_reach s \<and> protocol_ready s \<and> length (host_to_device s) \<le> 65536 \<and> is_connected (snd (connect s))"
proof -
  have "link_reach (attach_device link_new)" by (rule link_next [OF link_start device_attaches])
  then have r: "link_reach (set_protocol_stage ProtocolReady (attach_device link_new))"
    by (rule link_next) (rule stage_changes)
  have "protocol_ready (set_protocol_stage ProtocolReady (attach_device link_new))"
    by (simp add: protocol_ready_def set_protocol_stage_def attach_device_def link_new_def)
  with link_sessions [OF r] r show ?thesis by blast
qed

text \<open>A second TCP client cannot displace an active one. While the current client is younger than
  the grace period, any number of new connections leaves the bridge as it was; once it is older,
  the first of them replaces it, with both queues emptied and the counters reset, and the rest
  are refused.\<close>

theorem bridge_handover:
  assumes "listener b" "client b" "client_connected_at b = Some t" "0 < stale_client_grace_period b"
  shows "accept_clients now (replicate (Suc k) Accepted) b =
    (Inr (), if now - t < stale_client_grace_period b then b
             else b\<lparr>client := True, client_connected_at := Some now, rx_total := 0, tx_total := 0,
                    to_device := [], from_device := []\<rparr>)"
proof -
  have stay: "accept_clients now (replicate n Accepted) b = (Inr (), b)"
    if "listener b" "client b" "client_connected_at b = Some u" "now - u < stale_client_grace_period b"
    for n u and b :: usb_cdc
    using that by (induction n) simp_all
  show ?thesis
  proof (cases "now - t < stale_client_grace_period b")
    case True
    with stay [of b t "Suc k"] assms show ?thesis by simp
  next
    case False
    let ?b = "b\<lparr>client := True, client_connected_at := Some now, rx_total := 0, tx_total := 0,
                to_device := [], from_device := []\<rparr>"
    have "accept_clients now (replicate k Accepted) ?b = (Inr (), ?b)"
      using stay [of ?b now k] assms by simp
    moreover have "(mark_disconnected b)\<lparr>client := True, client_connected_at := Some now, rx_total := 0,
        tx_total := 0\<rparr> = ?b" by (simp add: mark_disconnected_def)
    ultimately show ?thesis using False assms by simp
  qed
qed

theorem bridge_handover_witness:
  "\<exists>b. accept_clients 20000 (replicate (Suc 2) Accepted) b =
    (Inr (), b\<lparr>client := True, client_connected_at := Some 20000, rx_total := 0, tx_total := 0,
               to_device := [], from_device := []\<rparr>)"
proof -
  let ?b = "\<lparr>cdc_config = \<lparr>cdc_peripheral = ''OTG_FS_GLOBAL'', cdc_listen = ''x'', max_buffered_bytes = 16\<rparr>,
      listener = True, embedded = None, client = True, client_connected_at = Some 100,
      stale_client_grace_period = STALE_CLIENT_GRACE_PERIOD, to_device = [1], from_device = [2],
      rx_total = 5, tx_total = 6\<rparr>"
  have h: "listener ?b" "client ?b" "client_connected_at ?b = Some 100" "0 < stale_client_grace_period ?b"
    by (simp_all add: STALE_CLIENT_GRACE_PERIOD_def)
  show ?thesis
    by (rule exI [of _ ?b], subst bridge_handover [OF h]) (simp add: STALE_CLIENT_GRACE_PERIOD_def)
qed

end
