(* ===== verification/OtgFs.thy ===== *)
theory OtgFs
  imports UsbCdc Nvic
begin

text \<open>
  The USB OTG controller in device mode with its virtual host, \<open>src/peripherals/otg_fs.rs\<close>: the
  register file, the endpoint FIFOs, the enumeration the virtual host drives by itself, and the
  forwarding of bulk data to and from the bridge of \<open>UsbCdc\<close>. The bridge is shared with the
  device list; its state is kept in the field \<open>bridge\<close>. Diagnostic logging is not modelled.
\<close>

section \<open>State\<close>

record endpoint_regs =
  ep_ctl :: u32
  ep_int :: u32
  ep_tsiz :: u32
  armed_in_bytes_sent :: u32

datatype virtual_host_step =
    AwaitingDeviceDescriptor
  | AwaitingSetAddressStatus
  | AwaitingSetConfigurationStatus
  | AwaitingSetLineCodingStatus
  | AwaitingSetControlLineStateStatus
  | Configured

record otg_fs =
  bridge :: "usb_cdc option"
  registers :: "u32 \<rightharpoonup> u32"
  global_interrupt_status :: u32
  global_interrupt_mask :: u32
  host_attached :: bool
  dcfg :: u32
  dctl :: u32
  diep_mask :: u32
  doep_mask :: u32
  daint_mask :: u32
  diep_empty_mask :: u32
  ep_in :: "endpoint_regs list"
  ep_out :: "endpoint_regs list"
  rx_fifo :: "u8 list"
  rx_status :: "u32 list"
  tx_fifo :: "u8 list list"
  host_step :: virtual_host_step
  bulk_in_endpoint :: "nat option"
  bulk_out_endpoint :: "nat option"
  pending_bridge_writes :: "u8 list"
  last_sof_instruction :: u64

definition endpoint_default :: endpoint_regs where
  "endpoint_default = \<lparr>ep_ctl = 0, ep_int = 0, ep_tsiz = 0, armed_in_bytes_sent = 0\<rparr>"

definition NUM_ENDPOINTS :: nat where "NUM_ENDPOINTS = 6"
definition USB_RESET :: u32 where "USB_RESET = bit_mask 12"
definition GRSTCTL_SELF_CLEARING :: u32 where
  "GRSTCTL_SELF_CLEARING = bit_mask 0 OR bit_mask 4 OR bit_mask 5"
definition DIEP_BASE :: u32 where "DIEP_BASE = 0x0900"
definition DOEP_BASE :: u32 where "DOEP_BASE = 0x0b00"
definition EP_STRIDE :: u32 where "EP_STRIDE = 0x0020"
definition FIFO_BASE :: u32 where "FIFO_BASE = 0x1000"
definition FIFO_WINDOW :: u32 where "FIFO_WINDOW = 0x1000"
definition GINTSTS_SOF :: u32 where "GINTSTS_SOF = bit_mask 3"
definition GINTSTS_RXFLVL :: u32 where "GINTSTS_RXFLVL = bit_mask 4"
definition GINTSTS_IEPINT :: u32 where "GINTSTS_IEPINT = bit_mask 18"
definition GINTSTS_OEPINT :: u32 where "GINTSTS_OEPINT = bit_mask 19"
definition DIEPCTL_EPENA :: u32 where "DIEPCTL_EPENA = bit_mask 31"
definition DOEPCTL_USBAEP :: u32 where "DOEPCTL_USBAEP = bit_mask 15"
definition DIEPINT_XFRC :: u32 where "DIEPINT_XFRC = bit_mask 0"
definition DIEPINT_TXFE :: u32 where "DIEPINT_TXFE = bit_mask 7"
definition DTXFSTS_AVAILABLE_WORDS :: u32 where "DTXFSTS_AVAILABLE_WORDS = 16"
definition DOEPINT_XFRC :: u32 where "DOEPINT_XFRC = bit_mask 0"
definition DOEPINT_STUP :: u32 where "DOEPINT_STUP = bit_mask 3"
definition XFRSIZ_MASK :: u32 where "XFRSIZ_MASK = 0x7ffff"
definition RXSTS_PKTSTS_MASK :: u32 where "RXSTS_PKTSTS_MASK = push_bit 17 0xf"
definition RXSTS_SETUP_DATA :: u32 where "RXSTS_SETUP_DATA = push_bit 17 6"
definition RXSTS_SETUP_COMP :: u32 where "RXSTS_SETUP_COMP = push_bit 17 4"
definition RXSTS_OUT_DATA :: u32 where "RXSTS_OUT_DATA = push_bit 17 2"
definition RXSTS_OUT_COMP :: u32 where "RXSTS_OUT_COMP = push_bit 17 3"
definition VIRTUAL_DEVICE_ADDRESS :: u8 where "VIRTUAL_DEVICE_ADDRESS = 5"
definition SOF_PERIOD_INSTRUCTIONS :: u64 where "SOF_PERIOD_INSTRUCTIONS = 1000"

definition otg_base :: "usb_cdc option \<Rightarrow> otg_fs" where
  "otg_base br = \<lparr>bridge = br, registers = Map.empty, global_interrupt_status = 0,
     global_interrupt_mask = 0, host_attached = False, dcfg = 0, dctl = 0, diep_mask = 0,
     doep_mask = 0, daint_mask = 0, diep_empty_mask = 0,
     ep_in = replicate NUM_ENDPOINTS endpoint_default, ep_out = replicate NUM_ENDPOINTS endpoint_default,
     rx_fifo = [], rx_status = [], tx_fifo = replicate NUM_ENDPOINTS [],
     host_step = AwaitingDeviceDescriptor, bulk_in_endpoint = None, bulk_out_endpoint = None,
     pending_bridge_writes = [], last_sof_instruction = 0\<rparr>"

definition otg_new :: "string \<Rightarrow> usb_cdc option \<Rightarrow> otg_fs option" where
  "otg_new name found =
     (if name = ''OTG_FS_GLOBAL''
      then Some ((otg_base found)\<lparr>bulk_in_endpoint := Some 2, bulk_out_endpoint := Some 2\<rparr>)
      else None)"

section \<open>Decoding and interrupt status\<close>

definition decode_endpoint :: "u32 \<Rightarrow> u32 \<Rightarrow> (nat \<times> u32) option" where
  "decode_endpoint base offset =
     (if offset < base then None
      else let rel = offset - base; ep = unat (rel div EP_STRIDE)
           in if ep < NUM_ENDPOINTS then Some (ep, rel mod EP_STRIDE) else None)"

definition fifo_endpoint :: "u32 \<Rightarrow> nat option" where
  "fifo_endpoint offset =
     (if offset < FIFO_BASE then None
      else let ep = unat ((offset - FIFO_BASE) div FIFO_WINDOW)
           in if ep < NUM_ENDPOINTS then Some ep else None)"

fun daint_bits :: "nat \<Rightarrow> endpoint_regs list \<Rightarrow> u32" where
  "daint_bits i [] = 0"
| "daint_bits i (ep # eps) = (if ep_int ep \<noteq> 0 then bit_mask i else 0) OR daint_bits (Suc i) eps"

definition daint :: "otg_fs \<Rightarrow> u32" where
  "daint t = daint_bits 0 (ep_in t) OR daint_bits 16 (ep_out t)"

definition effective_gintsts :: "otg_fs \<Rightarrow> u32" where
  "effective_gintsts t =
     (let daint = daint t AND daint_mask t;
          status = global_interrupt_status t;
          status = (if rx_status t \<noteq> [] then status OR GINTSTS_RXFLVL else status);
          status = (if daint AND 0x0000ffff \<noteq> 0 then status OR GINTSTS_IEPINT else status);
          status = (if daint AND 0xffff0000 \<noteq> 0 then status OR GINTSTS_OEPINT else status)
      in status)"

definition interrupt_pending :: "otg_fs \<Rightarrow> bool" where
  "interrupt_pending t \<longleftrightarrow> effective_gintsts t AND global_interrupt_mask t \<noteq> 0"

definition is_configured :: "otg_fs \<Rightarrow> bool" where
  "is_configured t \<longleftrightarrow> host_step t = Configured"

text \<open>Endpoint updates; the arrays have six entries.\<close>

definition upd_in :: "nat \<Rightarrow> (endpoint_regs \<Rightarrow> endpoint_regs) \<Rightarrow> otg_fs \<Rightarrow> otg_fs" where
  "upd_in ep f t = t\<lparr>ep_in := (ep_in t)[ep := f (ep_in t ! ep)]\<rparr>"

definition upd_out :: "nat \<Rightarrow> (endpoint_regs \<Rightarrow> endpoint_regs) \<Rightarrow> otg_fs \<Rightarrow> otg_fs" where
  "upd_out ep f t = t\<lparr>ep_out := (ep_out t)[ep := f (ep_out t ! ep)]\<rparr>"

definition raise_in_endpoint_interrupt :: "nat \<Rightarrow> u32 \<Rightarrow> otg_fs \<Rightarrow> otg_fs" where
  "raise_in_endpoint_interrupt ep bits = upd_in ep (\<lambda>r. r\<lparr>ep_int := ep_int r OR bits\<rparr>)"

definition raise_out_endpoint_interrupt :: "nat \<Rightarrow> u32 \<Rightarrow> otg_fs \<Rightarrow> otg_fs res" where
  "raise_out_endpoint_interrupt ep bits t =
     (if ep < length (ep_out t) then Inr (upd_out ep (\<lambda>r. r\<lparr>ep_int := ep_int r OR bits\<rparr>) t)
      else Inl OutOfBounds)"

definition set_stage :: "cdc_stage \<Rightarrow> otg_fs \<Rightarrow> otg_fs" where
  "set_stage st t = t\<lparr>bridge := map_option (bridge_set_protocol_stage st) (bridge t)\<rparr>"

definition virtual_host_reset :: "otg_fs \<Rightarrow> otg_fs" where
  "virtual_host_reset t =
     (let t = set_stage StageDeviceDescriptor t;
          t = t\<lparr>global_interrupt_status := global_interrupt_status t OR USB_RESET\<rparr>
      in t\<lparr>host_step := AwaitingDeviceDescriptor,
           ep_in := replicate NUM_ENDPOINTS endpoint_default,
           ep_out := replicate NUM_ENDPOINTS endpoint_default,
           rx_fifo := [], rx_status := [], tx_fifo := map (\<lambda>_. []) (tx_fifo t)\<rparr>)"

section \<open>The virtual host\<close>

definition rx_status_word :: "u32 \<Rightarrow> u32 \<Rightarrow> nat \<Rightarrow> u32" where
  "rx_status_word pktsts byte_count endpoint = pktsts OR push_bit 4 byte_count OR of_nat endpoint"

definition virtual_host_setup :: "nat \<Rightarrow> u8 list \<Rightarrow> otg_fs \<Rightarrow> otg_fs" where
  "virtual_host_setup endpoint packet t =
     t\<lparr>rx_fifo := rx_fifo t @ packet,
       rx_status := rx_status t @ [rx_status_word RXSTS_SETUP_DATA 8 endpoint,
                                   rx_status_word RXSTS_SETUP_COMP 0 endpoint]\<rparr>"

definition virtual_host_control_out :: "nat \<Rightarrow> u8 list \<Rightarrow> u8 list \<Rightarrow> otg_fs \<Rightarrow> otg_fs" where
  "virtual_host_control_out endpoint packet data t =
     (let t = virtual_host_setup endpoint packet t in
      if data \<noteq> [] then
        t\<lparr>rx_fifo := rx_fifo t @ data,
          rx_status := rx_status t @ [rx_status_word RXSTS_OUT_DATA (of_nat (length data)) endpoint,
                                      rx_status_word RXSTS_OUT_COMP 0 endpoint]\<rparr>
      else t)"

definition virtual_host_control_in_status_ack :: "nat \<Rightarrow> otg_fs \<Rightarrow> otg_fs" where
  "virtual_host_control_in_status_ack endpoint t =
     t\<lparr>rx_status := rx_status t @ [rx_status_word RXSTS_OUT_DATA 0 endpoint,
                                   rx_status_word RXSTS_OUT_COMP 0 endpoint]\<rparr>"

definition get_device_descriptor_packet :: "u8 list" where
  "get_device_descriptor_packet = [0x80, 0x06, 0x00, 0x01, 0x00, 0x00, 0x12, 0x00]"

definition set_address_packet :: "u8 \<Rightarrow> u8 list" where
  "set_address_packet address = [0x00, 0x05, address, 0x00, 0x00, 0x00, 0x00, 0x00]"

definition set_configuration_packet :: "u8 \<Rightarrow> u8 list" where
  "set_configuration_packet configuration = [0x00, 0x09, configuration, 0x00, 0x00, 0x00, 0x00, 0x00]"

definition set_line_coding_packet :: "u8 list \<times> u8 list" where
  "set_line_coding_packet =
     ([0x21, 0x20, 0x00, 0x00, 0x00, 0x00, 0x07, 0x00], [0x00, 0xc2, 0x01, 0x00, 0x00, 0x00, 0x08])"

definition set_control_line_state_packet :: "u8 list" where
  "set_control_line_state_packet = [0x21, 0x22, 0x03, 0x00, 0x00, 0x00, 0x00, 0x00]"

fun stage_of_step :: "virtual_host_step \<Rightarrow> cdc_stage" where
  "stage_of_step AwaitingDeviceDescriptor = StageDeviceDescriptor"
| "stage_of_step AwaitingSetAddressStatus = StageSetAddress"
| "stage_of_step AwaitingSetConfigurationStatus = StageSetConfiguration"
| "stage_of_step AwaitingSetLineCodingStatus = StageSetLineCoding"
| "stage_of_step AwaitingSetControlLineStateStatus = StageSetControlLineState"
| "stage_of_step Configured = ProtocolReady"

definition advance_virtual_host :: "otg_fs \<Rightarrow> otg_fs" where
  "advance_virtual_host t =
     (let previous_step = host_step t;
          t = (case host_step t of
                 AwaitingDeviceDescriptor \<Rightarrow>
                   (virtual_host_setup 0 (set_address_packet VIRTUAL_DEVICE_ADDRESS)
                     (virtual_host_control_in_status_ack 0 t))\<lparr>host_step := AwaitingSetAddressStatus\<rparr>
               | AwaitingSetAddressStatus \<Rightarrow>
                   (virtual_host_setup 0 (set_configuration_packet 1) t)
                     \<lparr>host_step := AwaitingSetConfigurationStatus\<rparr>
               | AwaitingSetConfigurationStatus \<Rightarrow>
                   (let (packet, data) = set_line_coding_packet
                    in virtual_host_control_out 0 packet data t)\<lparr>host_step := AwaitingSetLineCodingStatus\<rparr>
               | AwaitingSetLineCodingStatus \<Rightarrow>
                   (virtual_host_setup 0 set_control_line_state_packet t)
                     \<lparr>host_step := AwaitingSetControlLineStateStatus\<rparr>
               | AwaitingSetControlLineStateStatus \<Rightarrow> t\<lparr>host_step := Configured\<rparr>
               | Configured \<Rightarrow> t\<lparr>host_step := Configured\<rparr>)
      in if host_step t \<noteq> previous_step then set_stage (stage_of_step (host_step t)) t else t)"

section \<open>FIFOs and transfers\<close>

definition pop_rx_fifo_word :: "otg_fs \<Rightarrow> u32 \<times> otg_fs" where
  "pop_rx_fifo_word t =
     (let bytes = take 4 (rx_fifo t)
      in (from_le_bytes (bytes @ replicate (4 - length bytes) 0), t\<lparr>rx_fifo := drop 4 (rx_fifo t)\<rparr>))"

definition complete_in_transfer :: "nat \<Rightarrow> otg_fs \<Rightarrow> otg_fs" where
  "complete_in_transfer ep t =
     (let t = raise_in_endpoint_interrupt ep DIEPINT_XFRC t in
      if ep = 0 then advance_virtual_host (t\<lparr>tx_fifo := (tx_fifo t)[0 := []]\<rparr>)
      else if is_configured t \<and> bulk_in_endpoint t = Some ep then
        let xfrsiz = unat (ep_tsiz (ep_in t ! ep) AND XFRSIZ_MASK);
            bytes = tx_fifo t ! ep;
            t = t\<lparr>tx_fifo := (tx_fifo t)[ep := []]\<rparr>;
            bytes = take (min (length bytes) xfrsiz) bytes
        in case bridge t of
             Some b \<Rightarrow> t\<lparr>bridge := Some (push_from_device bytes b)\<rparr>
           | None \<Rightarrow> t\<lparr>pending_bridge_writes := pending_bridge_writes t @ bytes\<rparr>
      else t)"

definition push_tx_fifo_word :: "nat \<Rightarrow> u32 \<Rightarrow> otg_fs \<Rightarrow> otg_fs" where
  "push_tx_fifo_word ep v t =
     (let t = t\<lparr>tx_fifo := (tx_fifo t)[ep := tx_fifo t ! ep @ to_le_bytes v]\<rparr>;
          was_enabled = (ep_ctl (ep_in t ! ep) AND DIEPCTL_EPENA \<noteq> 0);
          t = upd_in ep (\<lambda>r. r\<lparr>armed_in_bytes_sent := armed_in_bytes_sent r + 4\<rparr>) t;
          xfrsiz = ep_tsiz (ep_in t ! ep) AND XFRSIZ_MASK
      in if was_enabled \<and> xfrsiz \<le> armed_in_bytes_sent (ep_in t ! ep)
         then complete_in_transfer ep (upd_in ep (\<lambda>r. r\<lparr>ep_ctl := ep_ctl r AND NOT DIEPCTL_EPENA\<rparr>) t)
         else t)"

definition refresh_virtual_host_attachment :: "bool \<Rightarrow> otg_fs \<Rightarrow> otg_fs" where
  "refresh_virtual_host_attachment firmware_irq_enabled t =
     (let host_present = (case bridge t of None \<Rightarrow> False | Some b \<Rightarrow> is_client_connected b);
          firmware_usb_ready = (global_interrupt_mask t \<noteq> 0 \<and> firmware_irq_enabled)
      in if host_present \<and> firmware_usb_ready \<and> \<not> host_attached t
         then virtual_host_reset (t\<lparr>host_attached := True\<rparr>)
         else if \<not> host_present then t\<lparr>host_attached := False\<rparr> else t)"

definition forward_bulk_out :: "otg_fs \<Rightarrow> otg_fs res" where
  "forward_bulk_out t =
     (if \<not> is_configured t then Inr t
      else case (bulk_out_endpoint t, bridge t) of
        (Some out_ep, Some b) \<Rightarrow>
          res_bind (index_res (ep_out t) out_ep) (\<lambda>r.
            if ep_ctl r AND DIEPCTL_EPENA = 0 then Inr t
            else let requested = ep_tsiz r AND XFRSIZ_MASK in
              if requested = 0 then Inr t
              else let maximum = min 64 (unat requested);
                       (bytes, b) = take_for_device maximum b;
                       t = t\<lparr>bridge := Some b\<rparr>
                   in if bytes = [] then Inr t
                      else let n = of_nat (length bytes);
                               remaining = (if n \<le> requested then requested - n else 0);
                               t = upd_out out_ep (\<lambda>r. r\<lparr>ep_ctl := ep_ctl r AND NOT DIEPCTL_EPENA,
                                     ep_tsiz := (ep_tsiz r AND NOT XFRSIZ_MASK) OR remaining\<rparr>) t
                           in Inr (t\<lparr>rx_fifo := rx_fifo t @ bytes,
                                     rx_status := rx_status t @
                                       [rx_status_word RXSTS_OUT_DATA n out_ep,
                                        rx_status_word RXSTS_OUT_COMP 0 out_ep]\<rparr>))
      | _ \<Rightarrow> Inr t)"

section \<open>Registers\<close>

definition get_register :: "u32 \<Rightarrow> otg_fs \<Rightarrow> u32" where
  "get_register offset t = (case registers t offset of None \<Rightarrow> 0 | Some v \<Rightarrow> v)"

definition read_grxstsp :: "otg_fs \<Rightarrow> (u32 \<times> otg_fs) res" where
  "read_grxstsp t =
     (let word = (case rx_status t of [] \<Rightarrow> 0 | w # ws \<Rightarrow> w);
          t = t\<lparr>rx_status := tl (rx_status t)\<rparr>;
          ep = unat (word AND 0xf)
      in if word AND RXSTS_PKTSTS_MASK = RXSTS_SETUP_COMP
         then res_map (Pair word) (raise_out_endpoint_interrupt ep DOEPINT_STUP t)
         else if word AND RXSTS_PKTSTS_MASK = RXSTS_OUT_COMP
         then res_map (Pair word) (raise_out_endpoint_interrupt ep DOEPINT_XFRC t)
         else Inr (word, t))"

definition read_global :: "u32 \<Rightarrow> otg_fs \<Rightarrow> (u32 \<times> otg_fs) res" where
  "read_global offset t =
     (if offset = 0x0010 then Inr (get_register offset t OR 0x80000000, t)
      else if offset = 0x0014 then Inr (effective_gintsts t, t)
      else if offset = 0x0018 then Inr (global_interrupt_mask t, t)
      else if offset = 0x0020 then read_grxstsp t
      else if offset = 0x001c then Inr (case rx_status t of [] \<Rightarrow> 0 | w # ws \<Rightarrow> w, t)
      else if offset = 0x0800 then Inr (dcfg t, t)
      else if offset = 0x0804 then Inr (dctl t, t)
      else if offset = 0x0810 then Inr (diep_mask t, t)
      else if offset = 0x0814 then Inr (doep_mask t, t)
      else if offset = 0x0818 then Inr (daint t, t)
      else if offset = 0x081c then Inr (daint_mask t, t)
      else if offset = 0x0834 then Inr (diep_empty_mask t, t)
      else Inr (get_register offset t, t))"

definition read_in_endpoint :: "nat \<Rightarrow> u32 \<Rightarrow> otg_fs \<Rightarrow> u32" where
  "read_in_endpoint ep reg t =
     (if reg = 0x00 then ep_ctl (ep_in t ! ep) else if reg = 0x08 then ep_int (ep_in t ! ep)
      else if reg = 0x10 then ep_tsiz (ep_in t ! ep) else if reg = 0x18 then DTXFSTS_AVAILABLE_WORDS
      else 0)"

definition read_out_endpoint :: "nat \<Rightarrow> u32 \<Rightarrow> otg_fs \<Rightarrow> u32" where
  "read_out_endpoint ep reg t =
     (if reg = 0x00 then ep_ctl (ep_out t ! ep) else if reg = 0x08 then ep_int (ep_out t ! ep)
      else if reg = 0x10 then ep_tsiz (ep_out t ! ep) else 0)"

definition register_read :: "u32 \<Rightarrow> otg_fs \<Rightarrow> (u32 \<times> otg_fs) res" where
  "register_read offset t =
     (case fifo_endpoint offset of
        Some ep \<Rightarrow> Inr (if ep = 0 then pop_rx_fifo_word t else (0, t))
      | None \<Rightarrow>
     (case decode_endpoint DIEP_BASE offset of
        Some (ep, reg) \<Rightarrow> Inr (read_in_endpoint ep reg t, t)
      | None \<Rightarrow>
     (case decode_endpoint DOEP_BASE offset of
        Some (ep, reg) \<Rightarrow> Inr (read_out_endpoint ep reg t, t)
      | None \<Rightarrow> read_global offset t)))"

definition write_in_ctl :: "nat \<Rightarrow> u32 \<Rightarrow> otg_fs \<Rightarrow> otg_fs" where
  "write_in_ctl ep v t =
     (let was_enabled = (ep_ctl (ep_in t ! ep) AND DIEPCTL_EPENA \<noteq> 0);
          t = upd_in ep (\<lambda>r. r\<lparr>ep_ctl := v\<rparr>) t;
          now_enabled = (v AND DIEPCTL_EPENA \<noteq> 0)
      in if now_enabled \<and> \<not> was_enabled then
           let t = upd_in ep (\<lambda>r. r\<lparr>armed_in_bytes_sent := 0\<rparr>) t in
           if ep_tsiz (ep_in t ! ep) AND XFRSIZ_MASK = 0
           then complete_in_transfer ep (upd_in ep (\<lambda>r. r\<lparr>ep_ctl := ep_ctl r AND NOT DIEPCTL_EPENA\<rparr>) t)
           else if diep_empty_mask t AND bit_mask ep \<noteq> 0
           then raise_in_endpoint_interrupt ep DIEPINT_TXFE t
           else t
         else t)"

definition write_out_ctl :: "nat \<Rightarrow> u32 \<Rightarrow> otg_fs \<Rightarrow> otg_fs" where
  "write_out_ctl ep v t =
     (let was_active = (ep_ctl (ep_out t ! ep) AND DOEPCTL_USBAEP \<noteq> 0);
          t = upd_out ep (\<lambda>r. r\<lparr>ep_ctl := v\<rparr>) t;
          now_active = (v AND DOEPCTL_USBAEP \<noteq> 0)
      in if ep = 0 \<and> now_active \<and> \<not> was_active \<and> host_step t = AwaitingDeviceDescriptor
         then virtual_host_setup 0 get_device_descriptor_packet t
         else t)"

definition unmask_empty :: "u32 \<Rightarrow> otg_fs \<Rightarrow> otg_fs" where
  "unmask_empty v t =
     (let newly_unmasked = v AND NOT (diep_empty_mask t);
          t = t\<lparr>diep_empty_mask := v\<rparr>
      in fold (\<lambda>ep t. if newly_unmasked AND bit_mask ep \<noteq> 0 \<and> ep_ctl (ep_in t ! ep) AND DIEPCTL_EPENA \<noteq> 0
                      then raise_in_endpoint_interrupt ep DIEPINT_TXFE t else t) [0..<NUM_ENDPOINTS] t)"

definition write_global :: "u32 \<Rightarrow> u32 \<Rightarrow> otg_fs \<Rightarrow> otg_fs" where
  "write_global offset v t =
     (if offset = 0x0014 then t\<lparr>global_interrupt_status := global_interrupt_status t AND NOT v\<rparr>
      else if offset = 0x0018 then
        (let t = (if global_interrupt_mask t = 0 \<and> v \<noteq> 0 then set_stage UsbStarted t else t)
         in t\<lparr>global_interrupt_mask := v\<rparr>)
      else if offset = 0x0010 then t\<lparr>registers := (registers t)(offset \<mapsto> v AND NOT GRSTCTL_SELF_CLEARING)\<rparr>
      else if offset = 0x0800 then t\<lparr>dcfg := v\<rparr>
      else if offset = 0x0804 then t\<lparr>dctl := v\<rparr>
      else if offset = 0x0810 then t\<lparr>diep_mask := v\<rparr>
      else if offset = 0x0814 then t\<lparr>doep_mask := v\<rparr>
      else if offset = 0x081c then t\<lparr>daint_mask := v\<rparr>
      else if offset = 0x0834 then unmask_empty v t
      else t\<lparr>registers := (registers t)(offset \<mapsto> v)\<rparr>)"

definition register_write :: "u32 \<Rightarrow> u32 \<Rightarrow> otg_fs \<Rightarrow> otg_fs" where
  "register_write offset v t =
     (case fifo_endpoint offset of
        Some ep \<Rightarrow> push_tx_fifo_word ep v t
      | None \<Rightarrow>
     (case decode_endpoint DIEP_BASE offset of
        Some (ep, reg) \<Rightarrow>
          if reg = 0x00 then write_in_ctl ep v t
          else if reg = 0x08 then upd_in ep (\<lambda>r. r\<lparr>ep_int := ep_int r AND NOT v\<rparr>) t
          else if reg = 0x10 then upd_in ep (\<lambda>r. r\<lparr>ep_tsiz := v\<rparr>) t
          else t
      | None \<Rightarrow>
     (case decode_endpoint DOEP_BASE offset of
        Some (ep, reg) \<Rightarrow>
          if reg = 0x00 then write_out_ctl ep v t
          else if reg = 0x08 then upd_out ep (\<lambda>r. r\<lparr>ep_int := ep_int r AND NOT v\<rparr>) t
          else if reg = 0x10 then upd_out ep (\<lambda>r. r\<lparr>ep_tsiz := v\<rparr>) t
          else t
      | None \<Rightarrow> write_global offset v t)))"

definition otg_poll :: "u64 \<Rightarrow> otg_fs \<times> nvic \<Rightarrow> (otg_fs \<times> nvic) res" where
  "otg_poll n st =
     (let (t, nv) = st;
          firmware_irq_enabled = is_enabled 67 nv;
          t = refresh_virtual_host_attachment firmware_irq_enabled t;
          t = (if host_attached t \<and> SOF_PERIOD_INSTRUCTIONS \<le> n - last_sof_instruction t
               then t\<lparr>last_sof_instruction := n,
                      global_interrupt_status := global_interrupt_status t OR GINTSTS_SOF\<rparr>
               else t)
      in res_bind (forward_bulk_out t) (\<lambda>t.
           if interrupt_pending t then res_map (Pair t) (set_intr_pending 67 nv) else Inr (t, nv)))"

section \<open>Lemmas\<close>

subsection \<open>The stage of the link\<close>

definition link_stage :: "otg_fs \<Rightarrow> cdc_stage option" where
  "link_stage t = (case bridge t of None \<Rightarrow> None | Some b \<Rightarrow> map_option stage (embedded b))"

definition stage_ok :: "otg_fs \<Rightarrow> bool" where
  "stage_ok t \<longleftrightarrow> (link_stage t = Some ProtocolReady \<longrightarrow> is_configured t)"

lemma link_stage_upd [simp]:
  "link_stage (upd_in ep f t) = link_stage t" "link_stage (upd_out ep f t) = link_stage t"
  "link_stage (virtual_host_setup e p t) = link_stage t"
  "link_stage (virtual_host_control_out e p d t) = link_stage t"
  "link_stage (virtual_host_control_in_status_ack e t) = link_stage t"
  by (simp_all add: link_stage_def upd_in_def upd_out_def virtual_host_setup_def
      virtual_host_control_out_def virtual_host_control_in_status_ack_def Let_def)

lemma host_step_upd [simp]:
  "host_step (upd_in ep f t) = host_step t" "host_step (upd_out ep f t) = host_step t"
  "host_step (virtual_host_setup e p t) = host_step t"
  "host_step (virtual_host_control_out e p d t) = host_step t"
  "host_step (virtual_host_control_in_status_ack e t) = host_step t"
  "host_step (set_stage st t) = host_step t"
  by (simp_all add: upd_in_def upd_out_def virtual_host_setup_def set_stage_def
      virtual_host_control_out_def virtual_host_control_in_status_ack_def Let_def)

lemma stage_set_protocol_stage:
  "stage (set_protocol_stage st l) = (if stage l = Detached then Detached else st)"
  by (simp add: set_protocol_stage_def clear_queues_def Let_def)

definition restage :: "cdc_stage \<Rightarrow> cdc_stage option \<Rightarrow> cdc_stage option" where
  "restage st = map_option (\<lambda>s. if s = Detached then Detached else st)"

lemma restage_ready [simp]: "st \<noteq> ProtocolReady \<Longrightarrow> restage st s \<noteq> Some ProtocolReady"
  by (cases s) (auto simp: restage_def)

lemma link_stage_set_stage: "link_stage (set_stage st t) = restage st (link_stage t)"
  by (auto simp: restage_def link_stage_def set_stage_def bridge_set_protocol_stage_def stage_set_protocol_stage
      option.map_comp comp_def split: option.split)

lemma link_stage_push: "link_stage (t\<lparr>bridge := Some (push_from_device bs b)\<rparr>) = link_stage (t\<lparr>bridge := Some b\<rparr>)"
  by (auto simp: link_stage_def push_from_device_def write_from_device_def split: option.split)

lemma link_stage_take:
  "take_for_device n b = (bs, b') \<Longrightarrow> link_stage (t\<lparr>bridge := Some b'\<rparr>) = link_stage (t\<lparr>bridge := Some b\<rparr>)"
  by (auto simp: link_stage_def take_for_device_def read_for_device_def Let_def split: option.splits)

lemma link_stage_same_bridge: "bridge t' = bridge t \<Longrightarrow> link_stage t' = link_stage t"
  by (simp add: link_stage_def)

lemma stage_of_step_ready [simp]: "stage_of_step s = ProtocolReady \<longleftrightarrow> s = Configured"
  by (cases s) simp_all

subsection \<open>Shape\<close>

definition status_ok :: "u32 \<Rightarrow> bool" where
  "status_ok w \<longleftrightarrow> unat (w AND 0xf) < 6"

definition otg_shape :: "otg_fs \<Rightarrow> bool" where
  "otg_shape t \<longleftrightarrow> length (ep_in t) = 6 \<and> length (ep_out t) = 6 \<and> length (tx_fifo t) = 6 \<and>
     (\<forall>w \<in> set (rx_status t). status_ok w) \<and> (\<forall>e. bulk_out_endpoint t = Some e \<longrightarrow> e < 6)"

lemma rx_status_word_endpoint:
  assumes "ep < 16"
  shows "rx_status_word (push_bit 17 p) n ep AND 0xf = of_nat ep"
proof -
  have m: "x AND 0xf = x AND mask 4" for x :: u32 by (simp add: mask_eq_exp_minus_1)
  have e: "(of_nat ep :: u32) AND mask 4 = of_nat ep"
    using assms by (intro and_mask_less) (simp add: unat_of_nat take_bit_nat_eq_self_iff)
  have "rx_status_word (push_bit 17 p) n ep AND mask 4 = of_nat ep AND mask 4"
    by (rule word_eqI_bits) (auto simp: rx_status_word_def bit_and_iff bit_or_iff bit_push_bit_iff bit_mask_iff)
  with e show ?thesis by (simp only: m)
qed

lemma status_ok_word:
  assumes "ep < 6" "pktsts \<in> {RXSTS_SETUP_DATA, RXSTS_SETUP_COMP, RXSTS_OUT_DATA, RXSTS_OUT_COMP}"
  shows "status_ok (rx_status_word pktsts n ep)"
proof -
  obtain p where p: "pktsts = push_bit 17 p" using assms(2)
    unfolding RXSTS_SETUP_DATA_def RXSTS_SETUP_COMP_def RXSTS_OUT_DATA_def RXSTS_OUT_COMP_def by blast
  have "unat (of_nat ep :: u32) = ep" using assms(1) by (simp add: unat_of_nat take_bit_nat_eq_self_iff)
  then show ?thesis unfolding status_ok_def p
    using rx_status_word_endpoint [of ep p n] assms(1) by simp
qed

lemma shape_upd [simp]:
  "otg_shape (upd_in ep f t) = otg_shape t" "otg_shape (upd_out ep f t) = otg_shape t"
  "otg_shape (set_stage st t) = otg_shape t"
  by (simp_all add: otg_shape_def upd_in_def upd_out_def set_stage_def)

lemma shape_setup: "otg_shape t \<Longrightarrow> e < 6 \<Longrightarrow> otg_shape (virtual_host_setup e p t)"
  by (auto simp: otg_shape_def virtual_host_setup_def status_ok_word)

lemma shape_control_out: "otg_shape t \<Longrightarrow> e < 6 \<Longrightarrow> otg_shape (virtual_host_control_out e p d t)"
  using shape_setup [of t e p]
  by (auto simp: otg_shape_def virtual_host_control_out_def Let_def status_ok_word)

lemma shape_ack: "otg_shape t \<Longrightarrow> e < 6 \<Longrightarrow> otg_shape (virtual_host_control_in_status_ack e t)"
  by (auto simp: otg_shape_def virtual_host_control_in_status_ack_def status_ok_word)

definition otg_inv :: "otg_fs \<Rightarrow> bool" where
  "otg_inv t \<longleftrightarrow> otg_shape t \<and> stage_ok t"

lemma otg_inv_advance:
  assumes "otg_inv t"
  shows "otg_inv (advance_virtual_host t)"
proof -
  have s: "otg_shape t" and st: "stage_ok t" using assms by (simp_all add: otg_inv_def)
  have sh: "otg_shape (u\<lparr>host_step := x\<rparr>) = otg_shape u" for u x by (simp add: otg_shape_def)
  have ls: "link_stage (u\<lparr>host_step := x\<rparr>) = link_stage u" for u x by (simp add: link_stage_def)
  have ready: "stage_ok (set_stage (stage_of_step (host_step u)) u)" for u
    by (auto simp: stage_ok_def link_stage_set_stage is_configured_def restage_def)
  show ?thesis
    by (cases "host_step t")
      (use s st ready in \<open>auto simp: advance_virtual_host_def otg_inv_def sh Let_def shape_setup shape_ack
        shape_control_out set_line_coding_packet_def stage_ok_def link_stage_set_stage is_configured_def ls\<close>)
qed

lemma otg_inv_complete:
  assumes "otg_inv t"
  shows "otg_inv (complete_in_transfer ep t)"
proof -
  define u where "u = raise_in_endpoint_interrupt ep DIEPINT_XFRC t"
  have u: "otg_inv u" using assms
    by (simp add: u_def otg_inv_def raise_in_endpoint_interrupt_def stage_ok_def is_configured_def)
  have clear: "otg_inv (u\<lparr>tx_fifo := (tx_fifo u)[e := []]\<rparr>)" for e
    using u by (simp add: otg_inv_def otg_shape_def stage_ok_def is_configured_def link_stage_def)
  have push: "otg_inv (v\<lparr>bridge := Some (push_from_device bs b)\<rparr>)" if "otg_inv v" "bridge v = Some b" for v bs b
    using that link_stage_push [where t = v and bs = bs and b = b] link_stage_same_bridge [of "v\<lparr>bridge := Some b\<rparr>" v]
    by (simp add: otg_inv_def otg_shape_def stage_ok_def is_configured_def)
  have pend: "otg_inv (v\<lparr>pending_bridge_writes := bs\<rparr>)" if "otg_inv v" for v bs
    using that by (simp add: otg_inv_def otg_shape_def stage_ok_def is_configured_def link_stage_def)
  show ?thesis
    unfolding complete_in_transfer_def u_def [symmetric] Let_def
    using otg_inv_advance [OF clear] u push [OF clear] pend [OF clear]
    by (auto split: option.split)
qed

lemma otg_inv_upd [simp]: "otg_inv (upd_in ep f t) = otg_inv t" "otg_inv (upd_out ep f t) = otg_inv t"
  by (simp_all add: otg_inv_def stage_ok_def is_configured_def)

lemma otg_inv_raise_in: "otg_inv (raise_in_endpoint_interrupt ep bits t) = otg_inv t"
  by (simp add: raise_in_endpoint_interrupt_def)

text \<open>Fields neither the shape nor the stage depends on.\<close>

lemma otg_inv_irrelevant [simp]:
  "otg_inv (t\<lparr>rx_fifo := f\<rparr>) = otg_inv t" "otg_inv (t\<lparr>registers := rs\<rparr>) = otg_inv t"
  "otg_inv (t\<lparr>global_interrupt_status := v\<rparr>) = otg_inv t"
  "otg_inv (t\<lparr>global_interrupt_mask := v\<rparr>) = otg_inv t"
  "otg_inv (t\<lparr>dcfg := v\<rparr>) = otg_inv t" "otg_inv (t\<lparr>dctl := v\<rparr>) = otg_inv t"
  "otg_inv (t\<lparr>diep_mask := v\<rparr>) = otg_inv t" "otg_inv (t\<lparr>doep_mask := v\<rparr>) = otg_inv t"
  "otg_inv (t\<lparr>daint_mask := v\<rparr>) = otg_inv t" "otg_inv (t\<lparr>diep_empty_mask := v\<rparr>) = otg_inv t"
  "otg_inv (t\<lparr>host_attached := b\<rparr>) = otg_inv t" "otg_inv (t\<lparr>last_sof_instruction := n\<rparr>) = otg_inv t"
  by (simp_all add: otg_inv_def otg_shape_def stage_ok_def is_configured_def link_stage_def)

lemma otg_inv_push_word: "otg_inv t \<Longrightarrow> otg_inv (push_tx_fifo_word ep v t)"
proof -
  assume t: "otg_inv t"
  then have "otg_inv (t\<lparr>tx_fifo := (tx_fifo t)[ep := x]\<rparr>)" for x
    by (simp add: otg_inv_def otg_shape_def stage_ok_def is_configured_def link_stage_def)
  then show ?thesis by (simp add: push_tx_fifo_word_def Let_def otg_inv_complete)
qed

lemma otg_inv_write_in_ctl: "otg_inv t \<Longrightarrow> otg_inv (write_in_ctl ep v t)"
  by (simp add: write_in_ctl_def Let_def otg_inv_complete otg_inv_raise_in)

lemma otg_inv_setup: "otg_inv t \<Longrightarrow> otg_inv (virtual_host_setup 0 p t)"
  by (simp add: otg_inv_def shape_setup stage_ok_def is_configured_def)

lemma otg_inv_write_out_ctl: "otg_inv t \<Longrightarrow> otg_inv (write_out_ctl ep v t)"
  by (simp add: write_out_ctl_def Let_def otg_inv_setup)

lemma otg_inv_unmask: "otg_inv t \<Longrightarrow> otg_inv (unmask_empty v t)"
proof -
  have f: "otg_inv t \<Longrightarrow> otg_inv (fold (\<lambda>ep t. if P ep t then raise_in_endpoint_interrupt ep DIEPINT_TXFE t else t) es t)"
    for P es t by (induction es arbitrary: t) (simp_all add: otg_inv_raise_in)
  assume "otg_inv t"
  then show ?thesis unfolding unmask_empty_def Let_def by (intro f) simp
qed

lemma otg_inv_set_stage: "otg_inv t \<Longrightarrow> st \<noteq> ProtocolReady \<Longrightarrow> otg_inv (set_stage st t)"
  by (auto simp: otg_inv_def stage_ok_def link_stage_set_stage split: if_splits)

lemma otg_inv_register_write: "otg_inv t \<Longrightarrow> otg_inv (register_write offset v t)"
  by (auto simp: register_write_def write_global_def Let_def otg_inv_push_word otg_inv_write_in_ctl
      otg_inv_write_out_ctl otg_inv_unmask otg_inv_set_stage split: option.split)

lemma otg_inv_pop: "otg_inv t \<Longrightarrow> otg_inv (t\<lparr>rx_status := tl (rx_status t)\<rparr>)"
  by (cases "rx_status t")
    (auto simp: otg_inv_def otg_shape_def stage_ok_def is_configured_def link_stage_def)

lemma read_grxstsp_ok:
  assumes "otg_inv t"
  shows "\<exists>v t'. read_grxstsp t = Inr (v, t') \<and> otg_inv t'"
proof -
  define w where "w = (case rx_status t of [] \<Rightarrow> 0 | w # ws \<Rightarrow> w)"
  have s: "otg_shape t" using assms by (simp add: otg_inv_def)
  then have "status_ok w"
    by (cases "rx_status t") (auto simp: w_def otg_shape_def status_ok_def)
  then have "unat (w AND 0xf) < length (ep_out (t\<lparr>rx_status := tl (rx_status t)\<rparr>))"
    using s by (simp add: status_ok_def otg_shape_def)
  then show ?thesis using otg_inv_pop [OF assms]
    by (simp add: read_grxstsp_def w_def [symmetric] Let_def raise_out_endpoint_interrupt_def)
qed

lemma register_read_ok:
  assumes "otg_inv t"
  shows "\<exists>v t'. register_read offset t = Inr (v, t') \<and> otg_inv t'"
  using read_grxstsp_ok [OF assms] assms
  by (auto simp: register_read_def read_global_def pop_rx_fifo_word_def Let_def split: option.split)

lemma otg_inv_reset: "otg_inv t \<Longrightarrow> otg_inv (virtual_host_reset t)"
proof -
  assume "otg_inv t"
  then have "otg_shape t" by (simp add: otg_inv_def)
  moreover have "link_stage (virtual_host_reset t) = link_stage (set_stage StageDeviceDescriptor t)"
    by (simp add: virtual_host_reset_def Let_def link_stage_def)
  moreover have "link_stage (set_stage StageDeviceDescriptor t) \<noteq> Some ProtocolReady"
    by (simp add: link_stage_set_stage)
  moreover have "otg_shape (virtual_host_reset t) = otg_shape t" if "otg_shape t"
    using that by (simp add: otg_shape_def virtual_host_reset_def set_stage_def NUM_ENDPOINTS_def Let_def)
  ultimately show ?thesis by (simp add: otg_inv_def stage_ok_def)
qed

lemma otg_inv_refresh: "otg_inv t \<Longrightarrow> otg_inv (refresh_virtual_host_attachment irq t)"
  by (simp add: refresh_virtual_host_attachment_def Let_def otg_inv_reset)

lemma forward_bulk_out_ok:
  assumes "otg_inv t"
  shows "\<exists>t'. forward_bulk_out t = Inr t' \<and> otg_inv t'"
proof (cases "is_configured t")
  case False
  then show ?thesis using assms by (simp add: forward_bulk_out_def)
next
  case True
  show ?thesis
  proof (cases "bulk_out_endpoint t")
    case None
    then show ?thesis using assms by (simp add: forward_bulk_out_def)
  next
    case e: (Some e)
    show ?thesis
    proof (cases "bridge t")
      case None
      then show ?thesis using assms e by (simp add: forward_bulk_out_def)
    next
      case b: (Some b)
      have i: "e < length (ep_out t)" "e < 6" using assms e by (auto simp: otg_inv_def otg_shape_def)
      obtain bs b' where tk: "take_for_device (min 64 (unat (ep_tsiz (ep_out t ! e) AND XFRSIZ_MASK))) b = (bs, b')"
        by fastforce
      have tb: "t\<lparr>bridge := Some b\<rparr> = t" using b by simp
      have inv: "otg_inv (t\<lparr>bridge := Some b'\<rparr>)"
        using assms link_stage_take [OF tk, of t] unfolding tb
        by (simp add: otg_inv_def otg_shape_def stage_ok_def is_configured_def)
      have st: "otg_inv (u\<lparr>rx_status := rx_status u @ [rx_status_word RXSTS_OUT_DATA n e,
          rx_status_word RXSTS_OUT_COMP 0 e]\<rparr>)" if "otg_inv u" for u n
        using that i(2)
        by (auto simp: otg_inv_def otg_shape_def stage_ok_def is_configured_def link_stage_def status_ok_word)
      have rf: "u\<lparr>rx_fifo := f, rx_status := s\<rparr> = (u\<lparr>rx_status := s\<rparr>)\<lparr>rx_fifo := f\<rparr>" for u :: otg_fs and f s
        by simp
      show ?thesis using True assms e b i(1) tk inv
        by (auto simp: forward_bulk_out_def Let_def rf st)
    qed
  qed
qed

section \<open>Reachable states\<close>

text \<open>What the host application may do to the link while the emulator runs.\<close>

inductive host_op :: "cdc_state \<Rightarrow> cdc_state \<Rightarrow> bool" where
  op_connect: "host_op l (snd (connect l))"
| op_disconnect: "host_op l (disconnect l)"
| op_write: "host_op l (snd (write_from_host bytes l))"
| op_read: "host_op l (snd (read_for_host [] n l))"

lemma wait_readable_expired: "wait_readable [] l = l"
  by (subst wait_readable.simps) simp

lemma host_op_stage: "host_op l l' \<Longrightarrow> stage l' = stage l"
  by (induction rule: host_op.induct)
    (auto simp: connect_def disconnect_def write_from_host_def clear_queues_def read_for_host_def
      wait_readable_expired Let_def)

inductive otg_reach :: "otg_fs \<Rightarrow> bool" where
  otg_start: "otg_new name br = Some t \<Longrightarrow> link_stage t \<noteq> Some ProtocolReady \<Longrightarrow> otg_reach t"
| otg_reads: "otg_reach t \<Longrightarrow> register_read offset t = Inr (v, t') \<Longrightarrow> otg_reach t'"
| otg_writes: "otg_reach t \<Longrightarrow> otg_reach (register_write offset v t)"
| otg_polls: "otg_reach t \<Longrightarrow> otg_poll n (t, nv) = Inr (t', nv') \<Longrightarrow> otg_reach t'"
| otg_host: "otg_reach t \<Longrightarrow> bridge t = Some b \<Longrightarrow> embedded b = Some l \<Longrightarrow> host_op l l' \<Longrightarrow>
    otg_reach (t\<lparr>bridge := Some (b\<lparr>embedded := Some l'\<rparr>)\<rparr>)"
| otg_bridge: "otg_reach t \<Longrightarrow> bridge t = Some b \<Longrightarrow> bridge_poll now as rs ws b = (r, b') \<Longrightarrow>
    otg_reach (t\<lparr>bridge := Some b'\<rparr>)"

lemma accept_embedded: "embedded (snd (accept_clients now as b)) = embedded b"
proof (induction as arbitrary: b)
  case (Cons a as)
  then show ?case by (cases a) (simp_all add: mark_disconnected_def Let_def)
qed simp

lemma receive_embedded: "embedded (snd (receive_loop rs b)) = embedded b"
proof (induction rs arbitrary: b)
  case (Cons r rs)
  then show ?case by (cases r) simp_all
qed simp

lemma send_embedded: "embedded (snd (send_loop ws b)) = embedded b"
proof (induction ws arbitrary: b)
  case (Cons w ws)
  then show ?case by (cases w) simp_all
qed simp

lemma bridge_poll_embedded: "embedded (snd (bridge_poll now as rs ws b)) = embedded b"
proof -
  have r: "embedded (snd (receive_from_client rs b)) = embedded b" for b
    using receive_embedded [of rs b]
    by (cases "receive_loop rs b")
      (auto simp: receive_from_client_def mark_disconnected_def split: sum.split)
  have s: "embedded (snd (send_to_client ws b)) = embedded b" for b
    using send_embedded [of ws b]
    by (cases "send_loop ws b")
      (auto simp: send_to_client_def mark_disconnected_def split: sum.split)
  obtain r1 b1 where 1: "accept_clients now as b = (r1, b1)" by fastforce
  obtain r2 b2 where 2: "receive_from_client rs b1 = (r2, b2)" by fastforce
  have "embedded b1 = embedded b" "embedded b2 = embedded b1"
    using accept_embedded [of now as b] r [of b1] 1 2 by simp_all
  then show ?thesis using 1 2 s [of b2]
    by (cases r1; cases r2) (simp_all add: bridge_poll_def)
qed

lemma otg_poll_ok:
  assumes "otg_inv t"
  shows "\<exists>t' nv'. otg_poll n (t, nv) = Inr (t', nv') \<and> otg_inv t'"
proof -
  let ?t1 = "refresh_virtual_host_attachment (is_enabled 67 nv) t"
  define t2 where "t2 = (if host_attached ?t1 \<and> SOF_PERIOD_INSTRUCTIONS \<le> n - last_sof_instruction ?t1
      then ?t1\<lparr>last_sof_instruction := n, global_interrupt_status := global_interrupt_status ?t1 OR GINTSTS_SOF\<rparr>
      else ?t1)"
  have "otg_inv t2" using otg_inv_refresh [OF assms] by (simp add: t2_def)
  from forward_bulk_out_ok [OF this] obtain t3 where "forward_bulk_out t2 = Inr t3" "otg_inv t3" by blast
  then show ?thesis
    by (simp add: otg_poll_def Let_def t2_def [symmetric] set_intr_pending_ok)
qed

lemma otg_reach_inv: "otg_reach t \<Longrightarrow> otg_inv t"
proof (induction rule: otg_reach.induct)
  case (otg_start name br t)
  then show ?case
    by (auto simp: otg_new_def otg_inv_def otg_shape_def otg_base_def stage_ok_def NUM_ENDPOINTS_def
        split: if_splits)
next
  case (otg_reads t offset v t')
  with register_read_ok [of t offset] show ?case by auto
next
  case (otg_writes t offset v)
  then show ?case by (simp add: otg_inv_register_write)
next
  case (otg_polls t n nv t' nv')
  with otg_poll_ok [of t n nv] show ?case by auto
next
  case (otg_host t b l l')
  then show ?case using host_op_stage [of l l']
    by (auto simp: otg_inv_def otg_shape_def stage_ok_def is_configured_def link_stage_def)
next
  case (otg_bridge t b now as rs ws r b')
  then show ?case using bridge_poll_embedded [of now as rs ws b]
    by (auto simp: otg_inv_def otg_shape_def stage_ok_def is_configured_def link_stage_def)
qed

section \<open>Properties\<close>

text \<open>C11: The controller is safe. In every state reachable from start-up by firmware register
  accesses, polls, host calls on the link and bridge traffic, no register read and no poll panics,
  and the link reports the protocol ready only when enumeration has reached its last step, so a
  host can connect, and its bytes can reach the device, only then.\<close>

theorem otg_safe:
  assumes "otg_reach t"
  shows "returns (register_read offset t) \<and> returns (otg_poll n (t, nv)) \<and>
    (\<forall>b l. bridge t = Some b \<and> embedded b = Some l \<and> fst (connect l) = Inr () \<longrightarrow> is_configured t)"
proof -
  have i: "otg_inv t" by (rule otg_reach_inv [OF assms])
  have "is_configured t" if "bridge t = Some b" "embedded b = Some l" "fst (connect l) = Inr ()" for b l
    using that i by (auto simp: otg_inv_def stage_ok_def link_stage_def connect_def split: if_splits)
  then show ?thesis using register_read_ok [OF i, of offset] otg_poll_ok [OF i, of n nv] by auto
qed

theorem otg_safe_witness:
  "returns (register_read 0x20 (register_write 0x0b00 0x8000
     ((otg_base None)\<lparr>bulk_in_endpoint := Some 2, bulk_out_endpoint := Some 2\<rparr>)))"
proof -
  have "otg_reach ((otg_base None)\<lparr>bulk_in_endpoint := Some 2, bulk_out_endpoint := Some 2\<rparr>)"
    by (rule otg_start [of "''OTG_FS_GLOBAL''" None])
      (simp_all add: otg_new_def link_stage_def otg_base_def)
  from otg_safe [OF otg_writes [OF this]] show ?thesis by blast
qed

text \<open>What the virtual host sends, and where it goes, when a control transfer completes.\<close>

fun next_step :: "virtual_host_step \<Rightarrow> virtual_host_step" where
  "next_step AwaitingDeviceDescriptor = AwaitingSetAddressStatus"
| "next_step AwaitingSetAddressStatus = AwaitingSetConfigurationStatus"
| "next_step AwaitingSetConfigurationStatus = AwaitingSetLineCodingStatus"
| "next_step AwaitingSetLineCodingStatus = AwaitingSetControlLineStateStatus"
| "next_step AwaitingSetControlLineStateStatus = Configured"
| "next_step Configured = Configured"

fun sent_after :: "virtual_host_step \<Rightarrow> u8 list" where
  "sent_after AwaitingDeviceDescriptor = set_address_packet 5"
| "sent_after AwaitingSetAddressStatus = set_configuration_packet 1"
| "sent_after AwaitingSetConfigurationStatus = fst set_line_coding_packet @ snd set_line_coding_packet"
| "sent_after AwaitingSetLineCodingStatus = set_control_line_state_packet"
| "sent_after AwaitingSetControlLineStateStatus = []"
| "sent_after Configured = []"

lemma rx_fifo_set_stage [simp]: "rx_fifo (set_stage st t) = rx_fifo t"
  by (simp add: set_stage_def)

lemma advance_facts:
  "host_step (advance_virtual_host t) = next_step (host_step t)"
  "rx_fifo (advance_virtual_host t) = rx_fifo t @ sent_after (host_step t)"
  "host_step t \<noteq> Configured \<Longrightarrow> link_stage (advance_virtual_host t) =
     restage (stage_of_step (next_step (host_step t))) (link_stage t)"
proof -
  have ls: "link_stage (u\<lparr>host_step := x\<rparr>) = link_stage u" for u x by (simp add: link_stage_def)
  note d = advance_virtual_host_def virtual_host_setup_def virtual_host_control_out_def
    virtual_host_control_in_status_ack_def set_line_coding_packet_def VIRTUAL_DEVICE_ADDRESS_def
  show "host_step (advance_virtual_host t) = next_step (host_step t)"
    by (cases "host_step t") (simp_all add: advance_virtual_host_def set_line_coding_packet_def)
  show "rx_fifo (advance_virtual_host t) = rx_fifo t @ sent_after (host_step t)"
    by (cases "host_step t") (simp_all add: d)
  show "link_stage (advance_virtual_host t) =
     restage (stage_of_step (next_step (host_step t))) (link_stage t)"
    if "host_step t \<noteq> Configured"
    using that by (cases "host_step t")
      (simp_all add: advance_virtual_host_def link_stage_set_stage ls set_line_coding_packet_def)
qed

lemma complete_facts:
  "host_step (complete_in_transfer 0 t) = next_step (host_step t)"
  "rx_fifo (complete_in_transfer 0 t) = rx_fifo t @ sent_after (host_step t)"
  "host_step t \<noteq> Configured \<Longrightarrow> link_stage (complete_in_transfer 0 t) =
     restage (stage_of_step (next_step (host_step t))) (link_stage t)"
proof -
  define u where "u = (raise_in_endpoint_interrupt 0 DIEPINT_XFRC t)
      \<lparr>tx_fifo := (tx_fifo (raise_in_endpoint_interrupt 0 DIEPINT_XFRC t))[0 := []]\<rparr>"
  have u: "host_step u = host_step t" "rx_fifo u = rx_fifo t" "link_stage u = link_stage t"
    by (simp_all add: u_def raise_in_endpoint_interrupt_def upd_in_def link_stage_def)
  have c: "complete_in_transfer 0 t = advance_virtual_host u"
    by (simp add: complete_in_transfer_def Let_def u_def)
  show "host_step (complete_in_transfer 0 t) = next_step (host_step t)"
    "rx_fifo (complete_in_transfer 0 t) = rx_fifo t @ sent_after (host_step t)"
    "host_step t \<noteq> Configured \<Longrightarrow> link_stage (complete_in_transfer 0 t) =
     restage (stage_of_step (next_step (host_step t))) (link_stage t)"
    unfolding c using advance_facts [of u] unfolding u by simp_all
qed

text \<open>C12: Enumeration takes exactly five control transfers. From the first step, each completed IN
  transfer on endpoint 0 advances the virtual host once: it is not configured after fewer than five
  and configured after five, having queued SET_ADDRESS 5, SET_CONFIGURATION 1, SET_LINE_CODING with
  its seven data bytes and SET_CONTROL_LINE_STATE, in this order and nothing else; an attached link
  is then ready.\<close>

theorem enumeration_sequence:
  assumes "host_step t = AwaitingDeviceDescriptor"
  shows "map (\<lambda>k. is_configured ((complete_in_transfer 0 ^^ k) t)) [0, 1, 2, 3, 4, 5] =
      [False, False, False, False, False, True] \<and>
    rx_fifo ((complete_in_transfer 0 ^^ 5) t) = rx_fifo t @ set_address_packet 5 @
      set_configuration_packet 1 @ fst set_line_coding_packet @ snd set_line_coding_packet @
      set_control_line_state_packet \<and>
    link_stage ((complete_in_transfer 0 ^^ 5) t) = restage ProtocolReady (link_stage t)"
proof -
  define c where "c = complete_in_transfer 0"
  note step = complete_facts [folded c_def]
  have k: "(c ^^ 1) t = c t" "(c ^^ 2) t = c (c t)" "(c ^^ 3) t = c (c (c t))"
    "(c ^^ 4) t = c (c (c (c t)))" "(c ^^ 5) t = c (c (c (c (c t))))"
    by (simp_all add: numeral_eq_Suc)
  have "link_stage (c (c (c (c (c t))))) =
      restage ProtocolReady (link_stage t)"
    by (cases "link_stage t") (simp_all add: step assms restage_def)
  then show ?thesis unfolding c_def [symmetric]
    by (simp add: k step assms is_configured_def)
qed

theorem enumeration_sequence_witness:
  "is_configured ((complete_in_transfer 0 ^^ 5) (otg_base None))"
  using enumeration_sequence [of "otg_base None"] by (simp add: otg_base_def)

text \<open>Bulk OUT respects the firmware's flow control. Once configured, a poll delivers nothing
  while endpoint 2 is not armed or asks for no bytes; otherwise it takes at most 64 and at most the
  requested bytes from the bridge, appends exactly those, in order, to the receive FIFO with one
  data and one completion status, subtracts them from the requested size, and disarms the endpoint,
  so that polling again before firmware re-arms it delivers nothing more. It never panics.\<close>

theorem bulk_out_flow_control:
  assumes "otg_shape t" "is_configured t" "bulk_out_endpoint t = Some 2" "bridge t = Some b"
    and "take_for_device (min 64 (unat (ep_tsiz (ep_out t ! 2) AND XFRSIZ_MASK))) b = (bytes, b')"
  shows "\<exists>t'. forward_bulk_out t = Inr t' \<and>
    (if \<not> bit (ep_ctl (ep_out t ! 2)) 31 \<or> ep_tsiz (ep_out t ! 2) AND XFRSIZ_MASK = 0 \<or> bytes = []
     then rx_fifo t' = rx_fifo t \<and> rx_status t' = rx_status t \<and> ep_out t' = ep_out t
     else length bytes \<le> 64 \<and> length bytes \<le> unat (ep_tsiz (ep_out t ! 2) AND XFRSIZ_MASK) \<and>
       bridge t' = Some b' \<and> rx_fifo t' = rx_fifo t @ bytes \<and>
       rx_status t' = rx_status t @ [rx_status_word RXSTS_OUT_DATA (of_nat (length bytes)) 2,
                                     rx_status_word RXSTS_OUT_COMP 0 2] \<and>
       ep_tsiz (ep_out t' ! 2) AND XFRSIZ_MASK =
         (ep_tsiz (ep_out t ! 2) AND XFRSIZ_MASK) - of_nat (length bytes) \<and>
       forward_bulk_out t' = Inr t')"
proof -
  let ?r = "ep_out t ! 2" and ?n = "of_nat (length bytes) :: u32"
  define req where "req = ep_tsiz ?r AND XFRSIZ_MASK"
  have len: "2 < length (ep_out t)" using assms(1) by (simp add: otg_shape_def)
  have ena: "ep_ctl ?r AND DIEPCTL_EPENA = 0 \<longleftrightarrow> \<not> bit (ep_ctl ?r) 31"
    by (simp add: DIEPCTL_EPENA_def)
  have bl: "length bytes \<le> min 64 (unat req)"
    using assms(5) by (auto simp: take_for_device_def read_for_device_def Let_def req_def split: option.splits)
  have un: "unat ?n = length bytes" using bl by (simp add: unat_of_nat take_bit_nat_eq_self_iff)
  then have le: "?n \<le> req" using bl by (simp add: word_le_nat_alt)
  have m: "x AND XFRSIZ_MASK = x AND mask 19" for x by (simp add: XFRSIZ_MASK_def mask_eq_exp_minus_1)
  have "unat req \<le> unat (mask 19 :: u32)" unfolding req_def m by (metis word_and_le1 word_le_nat_alt)
  then have "unat (req - ?n) < 2 ^ 19" using le by (simp add: unat_sub mask_eq_exp_minus_1)
  then have rem: "(req - ?n) AND mask 19 = req - ?n" by (rule and_mask_less)
  have tsz: "((ep_tsiz ?r AND NOT XFRSIZ_MASK) OR (req - ?n)) AND XFRSIZ_MASK = req - ?n"
    using rem by (simp add: m bit.conj_disj_distrib2) (simp add: m [symmetric] and.assoc)
  show ?thesis
  proof (cases "\<not> bit (ep_ctl ?r) 31 \<or> req = 0 \<or> bytes = []")
    case True
    then show ?thesis using assms(2-5) len
      by (auto simp: forward_bulk_out_def ena req_def [symmetric] Let_def)
  next
    case False
    define t' where "t' = upd_out 2 (\<lambda>r. r\<lparr>ep_ctl := ep_ctl r AND NOT DIEPCTL_EPENA,
        ep_tsiz := (ep_tsiz r AND NOT XFRSIZ_MASK) OR (req - ?n)\<rparr>) (t\<lparr>bridge := Some b'\<rparr>)"
    define t'' where "t'' = t'\<lparr>rx_fifo := rx_fifo t' @ bytes, rx_status := rx_status t' @
        [rx_status_word RXSTS_OUT_DATA ?n 2, rx_status_word RXSTS_OUT_COMP 0 2]\<rparr>"
    have e: "ep_out t'' ! 2 = ?r\<lparr>ep_ctl := ep_ctl ?r AND NOT DIEPCTL_EPENA,
        ep_tsiz := (ep_tsiz ?r AND NOT XFRSIZ_MASK) OR (req - ?n)\<rparr>" "length (ep_out t'') = length (ep_out t)"
      "bridge t'' = Some b'" "rx_fifo t'' = rx_fifo t @ bytes" "is_configured t''"
      "rx_status t'' = rx_status t @ [rx_status_word RXSTS_OUT_DATA ?n 2, rx_status_word RXSTS_OUT_COMP 0 2]"
      "bulk_out_endpoint t'' = Some 2"
      using len assms(2,3) by (simp_all add: t''_def t'_def upd_out_def is_configured_def)
    have "forward_bulk_out t = Inr t''"
      using False assms(2-5) len le
      by (simp add: forward_bulk_out_def ena req_def [symmetric] Let_def t''_def t'_def)
    moreover have "forward_bulk_out t'' = Inr t''"
      using e len by (simp add: forward_bulk_out_def DIEPCTL_EPENA_def bit_and_iff bit_not_iff)
    ultimately show ?thesis using False bl e tsz
      by (intro exI [of _ t'']) (simp add: req_def)
  qed
qed

definition configured_example :: otg_fs where
  "configured_example = (otg_base (Some \<lparr>cdc_config = \<lparr>cdc_peripheral = ''OTG_FS_GLOBAL'', cdc_listen = ''x'',
       max_buffered_bytes = 16\<rparr>, listener = True, embedded = None, client = True,
       client_connected_at = Some 0, stale_client_grace_period = 1, to_device = [7, 8, 9],
       from_device = [], rx_total = 0, tx_total = 0\<rparr>))
     \<lparr>host_step := Configured, bulk_in_endpoint := Some 2, bulk_out_endpoint := Some 2,
      ep_out := replicate 6 (endpoint_default\<lparr>ep_ctl := bit_mask 31, ep_tsiz := 2\<rparr>)\<rparr>"

theorem bulk_out_flow_control_witness:
  "\<exists>t'. forward_bulk_out configured_example = Inr t' \<and> rx_fifo t' = [7, 8] \<and> forward_bulk_out t' = Inr t'"
proof -
  let ?t = configured_example and ?b = "the (bridge configured_example)"
  have h: "otg_shape ?t" "is_configured ?t" "bulk_out_endpoint ?t = Some 2" "bridge ?t = Some ?b"
    "take_for_device (min 64 (unat (ep_tsiz (ep_out ?t ! 2) AND XFRSIZ_MASK))) ?b =
       ([7, 8], ?b\<lparr>to_device := [9]\<rparr>)"
    "rx_fifo ?t = []" "bit (ep_ctl (ep_out ?t ! 2)) 31" "ep_tsiz (ep_out ?t ! 2) AND XFRSIZ_MASK \<noteq> 0"
    by (simp_all add: otg_shape_def is_configured_def configured_example_def otg_base_def NUM_ENDPOINTS_def
        take_for_device_def XFRSIZ_MASK_def min_def)
  from bulk_out_flow_control [OF h(1-5)] show ?thesis using h(6-8) by auto
qed

subsection \<open>Bulk IN\<close>

text \<open>How firmware fills a FIFO: four bytes to a word, the last one padded with zeros.\<close>

function pack_words :: "u8 list \<Rightarrow> u32 list" where
  "pack_words bs = (if bs = [] then []
     else from_le_bytes (take 4 bs @ replicate (4 - length bs) 0) # pack_words (drop 4 bs))"
  by pat_completeness auto
termination by (relation "measure length") auto

declare pack_words.simps [simp del]

text \<open>Endpoint \<open>ep\<close> is in the middle of sending \<open>n\<close> bytes, \<open>sent\<close> of which are in its FIFO.\<close>

definition sending :: "nat \<Rightarrow> nat \<Rightarrow> u8 list \<Rightarrow> otg_fs \<Rightarrow> bool" where
  "sending ep n sent t \<longleftrightarrow> length (ep_in t) = 6 \<and> length (tx_fifo t) = 6 \<and> is_configured t \<and>
     bulk_in_endpoint t = Some ep \<and> tx_fifo t ! ep = sent \<and> bit (ep_ctl (ep_in t ! ep)) 31 \<and>
     ep_tsiz (ep_in t ! ep) AND XFRSIZ_MASK = of_nat n \<and>
     armed_in_bytes_sent (ep_in t ! ep) = of_nat (length sent)"

definition delivered :: "nat \<Rightarrow> u8 list \<Rightarrow> otg_fs \<Rightarrow> otg_fs \<Rightarrow> bool" where
  "delivered ep bs t t' \<longleftrightarrow>
     (case bridge t of
        Some b \<Rightarrow> bridge t' = Some (push_from_device bs b) \<and> pending_bridge_writes t' = pending_bridge_writes t
      | None \<Rightarrow> bridge t' = None \<and> pending_bridge_writes t' = pending_bridge_writes t @ bs) \<and>
     tx_fifo t' ! ep = [] \<and> bit (ep_int (ep_in t' ! ep)) 0 \<and> \<not> bit (ep_ctl (ep_in t' ! ep)) 31"

lemma unat_of_nat_u32: "k < 2 ^ 32 \<Longrightarrow> unat (of_nat k :: u32) = k"
  by (simp add: unat_of_nat take_bit_nat_eq_self_iff)

lemma push_word_more:
  assumes "sending ep n sent t" "0 < ep" "ep < 6" "n < 2 ^ 19" "length sent + 4 < n"
  shows "sending ep n (sent @ to_le_bytes w) (push_tx_fifo_word ep w t) \<and>
    bridge (push_tx_fifo_word ep w t) = bridge t \<and>
    pending_bridge_writes (push_tx_fifo_word ep w t) = pending_bridge_writes t"
proof -
  have "\<not> (of_nat n :: u32) \<le> of_nat (length sent) + 4"
    using assms(4,5) unat_of_nat_u32 [of n] unat_of_nat_u32 [of "length sent + 4"]
    by (simp add: word_le_nat_alt)
  then show ?thesis using assms(1,3)
    by (auto simp: sending_def push_tx_fifo_word_def Let_def upd_in_def is_configured_def)
qed

lemma push_word_last:
  assumes "sending ep n sent t" "0 < ep" "ep < 6" "n < 2 ^ 19" "length sent < n" "n \<le> length sent + 4"
  shows "delivered ep (take n (sent @ to_le_bytes w)) t (push_tx_fifo_word ep w t)"
proof -
  have le: "(of_nat n :: u32) \<le> of_nat (length sent) + 4"
    using assms(4-6) unat_of_nat_u32 [of n] unat_of_nat_u32 [of "length sent + 4"]
    by (simp add: word_le_nat_alt)
  have un: "unat (of_nat n :: u32) = n" using assms(4) by (simp add: unat_of_nat_u32)
  show ?thesis using assms(1,2,3,6) le un
    by (auto simp: sending_def push_tx_fifo_word_def Let_def upd_in_def is_configured_def delivered_def
        complete_in_transfer_def raise_in_endpoint_interrupt_def DIEPCTL_EPENA_def DIEPINT_XFRC_def
        bit_or_iff bit_and_iff bit_not_iff min_def split: option.split)
qed

lemma delivered_cong:
  "bridge s = bridge t \<Longrightarrow> pending_bridge_writes s = pending_bridge_writes t \<Longrightarrow>
   delivered ep bs s t' = delivered ep bs t t'"
  by (cases "bridge t") (simp_all add: delivered_def)

lemma push_words_deliver:
  "sending ep (length sent + length rest) sent t \<Longrightarrow> 0 < ep \<Longrightarrow> ep < 6 \<Longrightarrow>
   length sent + length rest < 2 ^ 19 \<Longrightarrow> rest \<noteq> [] \<Longrightarrow>
   delivered ep (sent @ rest) t (fold (push_tx_fifo_word ep) (pack_words rest) t)"
proof (induction rest arbitrary: sent t rule: pack_words.induct)
  case (1 rest)
  let ?w = "from_le_bytes (take 4 rest @ replicate (4 - length rest) 0)"
  have pw: "pack_words rest = ?w # pack_words (drop 4 rest)"
    using "1.prems"(5) by (subst pack_words.simps) simp
  have b: "to_le_bytes ?w = take 4 rest @ replicate (4 - length rest) 0"
    by (rule to_from_le_bytes) auto
  show ?case
  proof (cases "4 < length rest")
    case True
    then have b4: "to_le_bytes ?w = take 4 rest" using b by simp
    have len: "length (sent @ take 4 rest) + length (drop 4 rest) = length sent + length rest"
      using True by simp
    have m: "sending ep (length sent + length rest) (sent @ take 4 rest) (push_tx_fifo_word ep ?w t)"
      "bridge (push_tx_fifo_word ep ?w t) = bridge t"
      "pending_bridge_writes (push_tx_fifo_word ep ?w t) = pending_bridge_writes t"
      using push_word_more [OF "1.prems"(1-4), of ?w] True unfolding b4 by simp_all
    have "delivered ep ((sent @ take 4 rest) @ drop 4 rest) (push_tx_fifo_word ep ?w t)
        (fold (push_tx_fifo_word ep) (pack_words (drop 4 rest)) (push_tx_fifo_word ep ?w t))"
      by (rule "1.IH") (use "1.prems" m len True in simp_all)
    then show ?thesis unfolding pw delivered_cong [OF m(2,3)] by simp
  next
    case False
    then have e: "drop 4 rest = []" "take 4 rest = rest" by simp_all
    have "pack_words [] = []" by (subst pack_words.simps) simp
    moreover have "delivered ep (take (length sent + length rest) (sent @ to_le_bytes ?w)) t
        (push_tx_fifo_word ep ?w t)"
      using push_word_last [OF "1.prems"(1-4)] "1.prems"(5) False by simp
    ultimately show ?thesis unfolding pw e using b e by simp
  qed
qed

text \<open>C13: Bulk IN delivers the firmware's bytes. Once configured, when firmware sets the size of an
  idle endpoint 2 with an empty FIFO, enables it and writes its bytes as little-endian words, the
  last one zero-padded, the bridge receives exactly those bytes, without the padding, once; the
  FIFO is empty again, the endpoint is disabled and its transfer-complete flag is up.\<close>

theorem bulk_in_round_trip:
  assumes "otg_shape t" "is_configured t" "bulk_in_endpoint t = Some 2" "tx_fifo t ! 2 = []"
    and "\<not> bit (ep_ctl (ep_in t ! 2)) 31" "bit v 31" "bs \<noteq> []" "length bs < 2 ^ 19"
  shows "delivered 2 bs t (fold (register_write 0x3000) (pack_words bs)
    (register_write 0x0940 v (register_write 0x0950 (of_nat (length bs)) t)))"
proof -
  have fe: "fifo_endpoint 0x3000 = Some 2" "fifo_endpoint 0x0940 = None" "fifo_endpoint 0x0950 = None"
    "decode_endpoint DIEP_BASE 0x0940 = Some (2, 0)" "decode_endpoint DIEP_BASE 0x0950 = Some (2, 0x10)"
    by (simp_all add: fifo_endpoint_def decode_endpoint_def FIFO_BASE_def FIFO_WINDOW_def DIEP_BASE_def
        EP_STRIDE_def NUM_ENDPOINTS_def)
  have w: "register_write 0x3000 = push_tx_fifo_word 2" by (rule ext)+ (simp add: register_write_def fe)
  have len: "length (ep_in t) = 6" "length (tx_fifo t) = 6" using assms(1) by (simp_all add: otg_shape_def)
  define n where "n = (of_nat (length bs) :: u32)"
  have un: "unat n = length bs" using assms(8) by (simp add: n_def unat_of_nat_u32)
  have nm: "n AND XFRSIZ_MASK = n"
  proof -
    have "n AND mask 19 = n" using assms(8) un by (intro and_mask_less) simp
    then show ?thesis by (simp add: XFRSIZ_MASK_def mask_eq_exp_minus_1)
  qed
  have "n \<noteq> 0" using un assms(7) by auto
  define t1 where "t1 = register_write 0x0950 n t"
  have t1: "t1 = upd_in 2 (\<lambda>r. r\<lparr>ep_tsiz := n\<rparr>) t" by (simp add: t1_def register_write_def fe)
  have s: "sending 2 (length bs) [] (register_write 0x0940 v t1)"
    "bridge (register_write 0x0940 v t1) = bridge t"
    "pending_bridge_writes (register_write 0x0940 v t1) = pending_bridge_writes t"
    using assms(2-6) len nm \<open>n \<noteq> 0\<close>
    by (auto simp: sending_def t1 register_write_def fe write_in_ctl_def Let_def upd_in_def
        raise_in_endpoint_interrupt_def DIEPCTL_EPENA_def is_configured_def n_def [symmetric])
  have "delivered 2 ([] @ bs) (register_write 0x0940 v t1)
      (fold (push_tx_fifo_word 2) (pack_words bs) (register_write 0x0940 v t1))"
    by (rule push_words_deliver) (use s(1) assms(7,8) in simp_all)
  then show ?thesis unfolding w delivered_cong [OF s(2,3)] by (simp add: t1_def n_def)
qed

theorem bulk_in_round_trip_witness:
  "delivered 2 [1, 2, 3, 4, 5] configured_example (fold (register_write 0x3000) (pack_words [1, 2, 3, 4, 5])
    (register_write 0x0940 0x80000000 (register_write 0x0950 5 configured_example)))"
proof -
  have b: "bit (0x80000000 :: u32) 31" by simp
  show ?thesis
    using bulk_in_round_trip [of configured_example "0x80000000" "[1, 2, 3, 4, 5]"] b
    by (simp add: otg_shape_def is_configured_def configured_example_def otg_base_def NUM_ENDPOINTS_def
        endpoint_default_def)
qed

subsection \<open>SETUP packets\<close>

fun register_reads :: "u32 list \<Rightarrow> otg_fs \<Rightarrow> (u32 list \<times> otg_fs) res" where
  "register_reads [] t = Inr ([], t)"
| "register_reads (a # as) t =
     res_bind (register_read a t) (\<lambda>(v, t). res_map (\<lambda>(vs, t). (v # vs, t)) (register_reads as t))"

lemma setup_words:
  "rx_status_word RXSTS_SETUP_DATA 8 0 AND RXSTS_PKTSTS_MASK = RXSTS_SETUP_DATA"
  "rx_status_word RXSTS_SETUP_COMP 0 0 AND RXSTS_PKTSTS_MASK = RXSTS_SETUP_COMP"
  "rx_status_word RXSTS_SETUP_COMP 0 0 AND 0xf = 0"
  by (simp_all add: rx_status_word_def RXSTS_SETUP_DATA_def RXSTS_SETUP_COMP_def RXSTS_PKTSTS_MASK_def)

text \<open>A SETUP packet is announced only after it can be read. When the virtual host queues one on
  an idle controller, the receive-level interrupt is up and no endpoint flag is; firmware's first
  status pop and its two FIFO reads return the data status and the packet's eight bytes and leave
  every OUT endpoint untouched; only the second pop, of the completion status, raises STUP on
  endpoint 0, and empties the receive queue.\<close>

theorem setup_before_stup:
  assumes "otg_shape t" "rx_fifo t = []" "rx_status t = []" "length packet = 8"
  shows "\<exists>a b t1 t2. register_reads [0x20, 0x1000, 0x1000] (virtual_host_setup 0 packet t) =
      Inr ([rx_status_word RXSTS_SETUP_DATA 8 0, a, b], t1) \<and>
    bit (effective_gintsts (virtual_host_setup 0 packet t)) 4 \<and>
    to_le_bytes a @ to_le_bytes b = packet \<and> ep_out t1 = ep_out t \<and>
    register_read 0x20 t1 = Inr (rx_status_word RXSTS_SETUP_COMP 0 0, t2) \<and>
    bit (ep_int (ep_out t2 ! 0)) 3 \<and> rx_status t2 = [] \<and> rx_fifo t2 = []"
proof -
  obtain p where p: "packet = p" "length p = 8" using assms(4) by blast
  define a where "a = from_le_bytes (take 4 packet)"
  define b where "b = from_le_bytes (drop 4 packet)"
  have ab: "to_le_bytes a = take 4 packet" "to_le_bytes b = drop 4 packet"
    using assms(4) by (simp_all add: a_def b_def to_from_le_bytes)
  have d: "fifo_endpoint 0x20 = None" "fifo_endpoint 0x1000 = Some 0"
    "decode_endpoint DIEP_BASE 0x20 = None" "decode_endpoint DOEP_BASE 0x20 = None"
    by (simp_all add: fifo_endpoint_def decode_endpoint_def FIFO_BASE_def FIFO_WINDOW_def DIEP_BASE_def
        DOEP_BASE_def NUM_ENDPOINTS_def)
  have pop: "register_read 0x20 u = read_grxstsp u" for u
    by (simp add: register_read_def d read_global_def)
  have fifo: "register_read 0x1000 u = Inr (pop_rx_fifo_word u)" for u
    by (simp add: register_read_def d)
  have ne: "RXSTS_SETUP_DATA \<noteq> RXSTS_SETUP_COMP" "RXSTS_SETUP_DATA \<noteq> RXSTS_OUT_COMP"
    by (simp_all add: RXSTS_SETUP_DATA_def RXSTS_SETUP_COMP_def RXSTS_OUT_COMP_def)
  let ?comp = "rx_status_word RXSTS_SETUP_COMP 0 0"
  let ?t1 = "t\<lparr>rx_fifo := [], rx_status := [?comp]\<rparr>"
  have r1: "read_grxstsp (virtual_host_setup 0 packet t) = Inr (rx_status_word RXSTS_SETUP_DATA 8 0,
      t\<lparr>rx_fifo := packet, rx_status := [?comp]\<rparr>)"
    using assms(2,3) ne by (simp add: read_grxstsp_def virtual_host_setup_def setup_words Let_def)
  have r2: "pop_rx_fifo_word (t\<lparr>rx_fifo := packet, rx_status := [?comp]\<rparr>) =
      (a, t\<lparr>rx_fifo := drop 4 packet, rx_status := [?comp]\<rparr>)"
    using assms(4) by (simp add: pop_rx_fifo_word_def a_def Let_def)
  have r3: "pop_rx_fifo_word (t\<lparr>rx_fifo := drop 4 packet, rx_status := [?comp]\<rparr>) = (b, ?t1)"
    using assms(4) by (simp add: pop_rx_fifo_word_def b_def Let_def)
  have reads: "register_reads [0x20, 0x1000, 0x1000] (virtual_host_setup 0 packet t) =
      Inr ([rx_status_word RXSTS_SETUP_DATA 8 0, a, b], ?t1)"
    by (simp add: pop fifo r1 r2 r3)
  have len: "0 < length (ep_out t)" using assms(1) by (simp add: otg_shape_def)
  define t2 where "t2 = upd_out 0 (\<lambda>r. r\<lparr>ep_int := ep_int r OR DOEPINT_STUP\<rparr>) (?t1\<lparr>rx_status := []\<rparr>)"
  have r4: "register_read 0x20 ?t1 = Inr (?comp, t2)"
    using len by (simp add: pop read_grxstsp_def setup_words raise_out_endpoint_interrupt_def Let_def t2_def)
  have t2: "bit (ep_int (ep_out t2 ! 0)) 3" "rx_status t2 = []" "rx_fifo t2 = []"
    using len by (simp_all add: t2_def upd_out_def DOEPINT_STUP_def bit_or_iff)
  have "bit (effective_gintsts (virtual_host_setup 0 packet t)) 4"
    by (simp add: effective_gintsts_def virtual_host_setup_def Let_def GINTSTS_RXFLVL_def
        GINTSTS_IEPINT_def GINTSTS_OEPINT_def bit_or_iff)
  then show ?thesis using reads ab r4 t2
    by (intro exI [of _ a] exI [of _ b] exI [of _ ?t1] exI [of _ t2]) simp
qed

theorem setup_before_stup_witness:
  "\<exists>a b t1. register_reads [0x20, 0x1000, 0x1000]
      (virtual_host_setup 0 get_device_descriptor_packet (otg_base None)) =
      Inr ([rx_status_word RXSTS_SETUP_DATA 8 0, a, b], t1) \<and>
    to_le_bytes a @ to_le_bytes b = get_device_descriptor_packet"
  using setup_before_stup [of "otg_base None" get_device_descriptor_packet]
  by (force simp: otg_shape_def otg_base_def NUM_ENDPOINTS_def get_device_descriptor_packet_def)

end
