(* ===== verification/EmbeddedEcuIo.thy ===== *)
theory EmbeddedEcuIo
  imports Interfaces UsbCdc
begin

text \<open>
  The in-process link of the ECU harness, \<open>src/ext_devices/embedded_ecu_io.rs\<close>: inputs the host
  queues for the device, the last value of every output, and the log of output changes. Every
  operation runs under the link's mutex, so it is one atomic step on the state; the instruction
  count it reads is an argument. The two registry slots have the type of the serial port's.
\<close>

section \<open>The link\<close>

definition MAX_PENDING_INPUTS :: nat where "MAX_PENDING_INPUTS = 1024"
definition MAX_PENDING_OUTPUT_EVENTS :: nat where "MAX_PENDING_OUTPUT_EVENTS = 8192"

record output_event =
  ev_sequence :: u64
  ev_instruction_count :: u64
  ev_name :: string
  ev_previous_value :: "int option"
  ev_value :: int
  ev_wheel_angle_mdeg :: "int option"

record io_state =
  io_device_present :: bool
  pending_inputs :: "(string \<times> int) list"
  io_outputs :: "string \<rightharpoonup> int"
  output_events :: "output_event list"
  next_output_sequence :: u64

definition io_link_new :: io_state where
  "io_link_new = \<lparr>io_device_present = False, pending_inputs = [], io_outputs = Map.empty,
     output_events = [], next_output_sequence = 0\<rparr>"

definition set_input :: "string \<Rightarrow> int \<Rightarrow> io_state \<Rightarrow> io_state" where
  "set_input name v s =
     (let q = (if length (pending_inputs s) = MAX_PENDING_INPUTS then tl (pending_inputs s)
               else pending_inputs s)
      in s\<lparr>pending_inputs := q @ [(name, v)]\<rparr>)"

definition take_output_events :: "io_state \<Rightarrow> output_event list \<times> io_state" where
  "take_output_events s = (output_events s, s\<lparr>output_events := []\<rparr>)"

definition io_attach_device :: "io_state \<Rightarrow> io_state" where
  "io_attach_device s = s\<lparr>io_device_present := True\<rparr>"

definition io_detach_device :: "io_state \<Rightarrow> io_state" where
  "io_detach_device s = s\<lparr>io_device_present := False, pending_inputs := [],
     io_outputs := Map.empty, output_events := []\<rparr>"

definition take_inputs :: "io_state \<Rightarrow> (string \<times> int) list \<times> io_state" where
  "take_inputs s = (pending_inputs s, s\<lparr>pending_inputs := []\<rparr>)"

definition publish_output :: "u64 \<Rightarrow> string \<Rightarrow> int \<Rightarrow> int option \<Rightarrow> io_state \<Rightarrow> io_state" where
  "publish_output now name v angle s =
     (let previous_value = io_outputs s name;
          s = s\<lparr>io_outputs := (io_outputs s)(name \<mapsto> v)\<rparr>
      in if previous_value = Some v then s
         else let q = (if length (output_events s) = MAX_PENDING_OUTPUT_EVENTS
                       then tl (output_events s) else output_events s);
                  sequence = next_output_sequence s
              in s\<lparr>next_output_sequence := sequence + 1,
                   output_events := q @ [\<lparr>ev_sequence = sequence, ev_instruction_count = now,
                     ev_name = name, ev_previous_value = previous_value, ev_value = v,
                     ev_wheel_angle_mdeg = angle\<rparr>]\<rparr>)"

section \<open>The registry\<close>

definition io_install_embedded_link :: "nat \<Rightarrow> registry \<Rightarrow> registry" where
  "io_install_embedded_link link r = r\<lparr>pending_device_link := Some link, active_host_link := Some link\<rparr>"

definition io_take_pending_device_link :: "registry \<Rightarrow> nat option \<times> registry" where
  "io_take_pending_device_link r = (pending_device_link r, r\<lparr>pending_device_link := None\<rparr>)"

definition io_clear_embedded_link :: "nat \<Rightarrow> registry \<Rightarrow> registry" where
  "io_clear_embedded_link link r =
     (let r = (if active_host_link r = Some link then r\<lparr>active_host_link := None\<rparr> else r)
      in if pending_device_link r = Some link then r\<lparr>pending_device_link := None\<rparr> else r)"

definition io_active_embedded_link :: "registry \<Rightarrow> nat option" where
  "io_active_embedded_link r = active_host_link r"

section \<open>The input queue keeps the newest inputs\<close>

lemma snoc_last_n:
  "0 < cap \<Longrightarrow> length q \<le> cap \<Longrightarrow> (if length q = cap then tl q else q) @ [x] = last_n cap (q @ [x])"
  by (simp add: last_n_snoc_full)

definition set_inputs :: "(string \<times> int) list \<Rightarrow> io_state \<Rightarrow> io_state" where
  "set_inputs xs s = fold (\<lambda>(n, v). set_input n v) xs s"

interpretation io_inputs: capped_queue set_inputs pending_inputs "\<lambda>_. MAX_PENDING_INPUTS"
proof unfold_locales
  fix s :: io_state and xs
  assume c: "0 < MAX_PENDING_INPUTS" and "length (pending_inputs s) \<le> MAX_PENDING_INPUTS"
  then show "pending_inputs (set_inputs xs s) = last_n MAX_PENDING_INPUTS (pending_inputs s @ xs)"
  proof (induction xs arbitrary: s)
    case (Cons x xs)
    have q: "pending_inputs (set_input (fst x) (snd x) s) = last_n MAX_PENDING_INPUTS (pending_inputs s @ [x])"
      using snoc_last_n [OF c Cons.prems(2), of x] by (simp add: set_input_def)
    have "length (last_n MAX_PENDING_INPUTS (pending_inputs s @ [x])) \<le> MAX_PENDING_INPUTS" by simp
    with Cons.IH [OF c, of "set_input (fst x) (snd x) s"] show ?case
      by (simp add: set_inputs_def case_prod_unfold q last_n_append_last_n)
  qed (simp add: set_inputs_def)
qed simp

section \<open>The change log\<close>

text \<open>The log without a bound: one event for every publication that changes an output.\<close>

fun change_log ::
  "(u64 \<times> string \<times> int \<times> int option) list \<Rightarrow> u64 \<Rightarrow> (string \<rightharpoonup> int) \<Rightarrow> output_event list" where
  "change_log [] sequence m = []"
| "change_log ((now, name, v, angle) # ps) sequence m =
     (if m name = Some v then change_log ps sequence m
      else \<lparr>ev_sequence = sequence, ev_instruction_count = now, ev_name = name,
             ev_previous_value = m name, ev_value = v, ev_wheel_angle_mdeg = angle\<rparr>
           # change_log ps (sequence + 1) (m(name \<mapsto> v)))"

definition replay :: "output_event list \<Rightarrow> (string \<rightharpoonup> int) \<Rightarrow> (string \<rightharpoonup> int)" where
  "replay evs m = fold (\<lambda>e m. m(ev_name e \<mapsto> ev_value e)) evs m"

definition publish_all :: "(u64 \<times> string \<times> int \<times> int option) list \<Rightarrow> io_state \<Rightarrow> io_state" where
  "publish_all ps s = fold (\<lambda>(now, name, v, angle). publish_output now name v angle) ps s"

lemma publish_all_log:
  "length (output_events s) \<le> MAX_PENDING_OUTPUT_EVENTS \<Longrightarrow>
   output_events (publish_all ps s) =
     last_n MAX_PENDING_OUTPUT_EVENTS
       (output_events s @ change_log ps (next_output_sequence s) (io_outputs s))"
proof (induction ps arbitrary: s)
  case (Cons p ps)
  obtain now name v angle where p: "p = (now, name, v, angle)" by (cases p)
  let ?s = "publish_output now name v angle s"
  let ?e = "\<lparr>ev_sequence = next_output_sequence s, ev_instruction_count = now, ev_name = name,
             ev_previous_value = io_outputs s name, ev_value = v, ev_wheel_angle_mdeg = angle\<rparr>"
  have step: "publish_all (p # ps) s = publish_all ps ?s" by (simp add: publish_all_def p)
  show ?case
  proof (cases "io_outputs s name = Some v")
    case True
    then have "?s = s\<lparr>io_outputs := (io_outputs s)(name \<mapsto> v)\<rparr>" by (simp add: publish_output_def)
    moreover have "(io_outputs s)(name \<mapsto> v) = io_outputs s" using True by (simp add: fun_upd_idem)
    ultimately show ?thesis unfolding step using Cons.IH [of ?s] Cons.prems True by (simp add: p)
  next
    case False
    have c: "0 < MAX_PENDING_OUTPUT_EVENTS" by (simp add: MAX_PENDING_OUTPUT_EVENTS_def)
    have s': "output_events ?s = last_n MAX_PENDING_OUTPUT_EVENTS (output_events s @ [?e])"
      "next_output_sequence ?s = next_output_sequence s + 1" "io_outputs ?s = (io_outputs s)(name \<mapsto> v)"
      using False by (simp_all add: publish_output_def Let_def flip: snoc_last_n [OF c Cons.prems(1), of ?e])
    then show ?thesis unfolding step using Cons.IH [of ?s] False
      by (simp add: p last_n_append_last_n del: fun_upd_apply)
  qed
qed (simp add: publish_all_def)

lemma publish_all_outputs: "io_outputs (publish_all ps s) =
    fold (\<lambda>(now, name, v, angle) m. m(name \<mapsto> v)) ps (io_outputs s)"
proof (induction ps arbitrary: s)
  case (Cons p ps)
  have "io_outputs (publish_output now name v angle s) = (io_outputs s)(name \<mapsto> v)" for now name v angle
    by (simp add: publish_output_def Let_def)
  with Cons show ?case by (cases p) (simp add: publish_all_def)
qed (simp add: publish_all_def)

lemma replay_change_log:
  "replay (change_log ps sq m) m = fold (\<lambda>(now, name, v, angle) m. m(name \<mapsto> v)) ps m"
proof (induction ps arbitrary: sq m)
  case (Cons p ps)
  obtain now name v angle where p: "p = (now, name, v, angle)" by (cases p)
  show ?case
  proof (cases "m name = Some v")
    case True
    then have "m(name \<mapsto> v) = m" by (simp add: fun_upd_idem)
    then show ?thesis using Cons [of sq m] True by (simp add: p del: fun_upd_apply)
  next
    case False
    with Cons [of "sq + 1" "m(name \<mapsto> v)"] show ?thesis by (simp add: p replay_def del: fun_upd_apply)
  qed
qed (simp add: replay_def)

lemma change_log_sequence:
  "map ev_sequence (change_log ps sq m) = map (\<lambda>i. sq + of_nat i) [0..<length (change_log ps sq m)]"
proof (induction ps arbitrary: sq m)
  case (Cons p ps)
  obtain now name v angle where p: "p = (now, name, v, angle)" by (cases p)
  show ?case
  proof (cases "m name = Some v")
    case False
    with Cons [of "sq + 1" "m(name \<mapsto> v)"] show ?thesis
      by (simp add: p upt_conv_Cons map_Suc_upt [symmetric] comp_def add.assoc add.commute [of 1] add.left_commute
          del: upt_Suc map_Suc_upt fun_upd_apply)
  qed (simp add: p Cons)
qed simp

lemma change_log_changes: "e \<in> set (change_log ps sq m) \<Longrightarrow> ev_previous_value e \<noteq> Some (ev_value e)"
proof (induction ps arbitrary: sq m)
  case (Cons p ps)
  then show ?case by (cases p) (auto split: if_splits)
qed simp

section \<open>Properties\<close>

text \<open>C30: The output log is exact. Whatever is published, the queued events are the newest 8192 of the
  log that has one event per actual change, numbered consecutively; and as long as the host drains
  them before they overflow, replaying the events over the outputs it knew gives the outputs the
  link holds, which are the last value published under each name.\<close>

theorem output_log_exact:
  assumes "length (output_events s) \<le> MAX_PENDING_OUTPUT_EVENTS"
    and drained: "take_output_events s = (seen, s')"
    and log: "log = change_log ps (next_output_sequence s) (io_outputs s)"
  shows "output_events (publish_all ps s) = last_n MAX_PENDING_OUTPUT_EVENTS (seen @ log) \<and>
    (\<forall>e \<in> set log. ev_previous_value e \<noteq> Some (ev_value e)) \<and>
    map ev_sequence log = map (\<lambda>i. next_output_sequence s + of_nat i) [0..<length log] \<and>
    (length log \<le> MAX_PENDING_OUTPUT_EVENTS \<longrightarrow>
       replay (output_events (publish_all ps s')) (io_outputs s) = io_outputs (publish_all ps s')) \<and>
    io_outputs (publish_all ps s') = fold (\<lambda>(now, name, v, angle) m. m(name \<mapsto> v)) ps (io_outputs s)"
proof -
  have s': "output_events s' = []" "io_outputs s' = io_outputs s"
    "next_output_sequence s' = next_output_sequence s" "seen = output_events s"
    using drained by (auto simp: take_output_events_def)
  have "length (output_events s') \<le> MAX_PENDING_OUTPUT_EVENTS" by (simp add: s')
  from publish_all_log [OF this, of ps]
  have "output_events (publish_all ps s') = last_n MAX_PENDING_OUTPUT_EVENTS log" by (simp add: s' log)
  then show ?thesis
    using publish_all_log [OF assms(1), of ps] change_log_changes change_log_sequence
      replay_change_log [of ps "next_output_sequence s" "io_outputs s"] publish_all_outputs [of ps s']
    by (auto simp: s' log)
qed

theorem output_log_exact_witness:
  "output_events (publish_all [(7, ''ls1'', 1, None), (8, ''ls1'', 1, None), (9, ''ls1'', 0, Some 90000)] io_link_new) =
   [\<lparr>ev_sequence = 0, ev_instruction_count = 7, ev_name = ''ls1'', ev_previous_value = None,
      ev_value = 1, ev_wheel_angle_mdeg = None\<rparr>,
    \<lparr>ev_sequence = 1, ev_instruction_count = 9, ev_name = ''ls1'', ev_previous_value = Some 1,
      ev_value = 0, ev_wheel_angle_mdeg = Some 90000\<rparr>]"
  using output_log_exact [OF _ _ refl, where s = io_link_new and s' = io_link_new and seen = "[]"
      and ps = "[(7, ''ls1'', 1, None), (8, ''ls1'', 1, None), (9, ''ls1'', 0, Some 90000)]"]
  by (simp add: io_link_new_def take_output_events_def MAX_PENDING_OUTPUT_EVENTS_def)

end
