(* ===== verification/Float64.thy ===== *)
theory Float64
  imports Complex_Main
begin

text \<open>
  IEEE 754 binary64 arithmetic as the sources use it: non-negative finite values, held as the
  rational they denote, with every operation rounded to the nearest value of 53 significant bits,
  ties to even. The quantities of the trigger wheel stay far inside the exponent range (below
  \<open>2 ^ 80\<close>, and differences of neighbouring values far above the subnormals), so overflow, NaN and
  negative zero do not arise and are not modelled. Comparisons, truncation and the fractional part
  are exact.
\<close>

type_synonym f64 = rat

section \<open>Rounding\<close>

definition round_half_even :: "rat \<Rightarrow> int" where
  "round_half_even x =
     (let f = \<lfloor>x\<rfloor>; d = x - of_int f
      in if d < 1 / 2 then f else if 1 / 2 < d then f + 1 else if even f then f else f + 1)"

definition pow2 :: "int \<Rightarrow> rat" where
  "pow2 e = (if 0 \<le> e then 2 ^ nat e else 1 / 2 ^ nat (- e))"

fun bit_length :: "nat \<Rightarrow> nat" where
  "bit_length n = (if n = 0 then 0 else Suc (bit_length (n div 2)))"

declare bit_length.simps [simp del]

definition exponent :: "rat \<Rightarrow> int" where
  "exponent x =
     (let (p, q) = quotient_of x; e = int (bit_length (nat p)) - int (bit_length (nat q))
      in if x < pow2 e then e - 1 else e)"

definition f64_round :: "rat \<Rightarrow> f64" where
  "f64_round x =
     (if x = 0 then 0
      else let e = exponent x - 52 in of_int (round_half_even (x / pow2 e)) * pow2 e)"

section \<open>Operations\<close>

definition f64_of_nat :: "nat \<Rightarrow> f64" where "f64_of_nat n = f64_round (of_nat n)"
definition f64_add :: "f64 \<Rightarrow> f64 \<Rightarrow> f64" where "f64_add x y = f64_round (x + y)"
definition f64_sub :: "f64 \<Rightarrow> f64 \<Rightarrow> f64" where "f64_sub x y = f64_round (x - y)"
definition f64_mul :: "f64 \<Rightarrow> f64 \<Rightarrow> f64" where "f64_mul x y = f64_round (x * y)"
definition f64_div :: "f64 \<Rightarrow> f64 \<Rightarrow> f64" where "f64_div x y = f64_round (x / y)"
definition f64_fract :: "f64 \<Rightarrow> f64" where "f64_fract x = x - of_int \<lfloor>x\<rfloor>"

text \<open>\<open>as u32\<close> and \<open>as i32\<close> truncate and saturate.\<close>

definition f64_to_u32 :: "f64 \<Rightarrow> nat" where "f64_to_u32 x = min (2 ^ 32 - 1) (nat \<lfloor>x\<rfloor>)"
definition f64_to_i32 :: "f64 \<Rightarrow> int" where "f64_to_i32 x = max (- (2 ^ 31)) (min (2 ^ 31 - 1) \<lfloor>x\<rfloor>)"

section \<open>Powers of two\<close>

lemma pow2_pos [simp]: "0 < pow2 e"
  by (simp add: pow2_def)

lemma pow2_nonzero [simp]: "pow2 e \<noteq> 0"
  using pow2_pos [of e] by linarith

lemma pow2_add: "pow2 (a + b) = pow2 a * pow2 b"
proof -
  have p: "pow2 e = 2 powi e" for e
    unfolding pow2_def power_int_def by (simp only: inverse_eq_divide power_one_over split: if_splits)
  show ?thesis by (simp add: p power_int_add)
qed

lemma pow2_mono: "a \<le> b \<Longrightarrow> pow2 a \<le> pow2 b"
proof -
  assume "a \<le> b"
  then have "pow2 b = pow2 a * pow2 (b - a)" "1 \<le> pow2 (b - a)"
    using pow2_add [of a "b - a"] by (simp_all add: pow2_def)
  then show ?thesis using mult_left_mono [of 1 "pow2 (b - a)" "pow2 a"] by simp
qed

lemma pow2_less_cancel: "pow2 a < pow2 b \<Longrightarrow> a < b"
  using pow2_mono [of b a] by (metis not_less)

lemma bit_length_bounds: "0 < n \<Longrightarrow> 2 ^ (bit_length n - 1) \<le> n \<and> n < 2 ^ bit_length n \<and> 0 < bit_length n"
proof (induction n rule: bit_length.induct)
  case (1 n)
  show ?case
  proof (cases "n div 2 = 0")
    case True
    with 1(2) have "n = 1" by simp
    then show ?thesis by (simp add: bit_length.simps [of "Suc 0"] bit_length.simps [of 0])
  next
    case False
    with 1 have ih: "2 ^ (bit_length (n div 2) - 1) \<le> n div 2" "n div 2 < 2 ^ bit_length (n div 2)"
      "0 < bit_length (n div 2)" by auto
    have "bit_length n = Suc (bit_length (n div 2))" using 1(2) by (simp add: bit_length.simps [of n])
    moreover obtain k where "bit_length (n div 2) = Suc k" using ih(3) by (cases "bit_length (n div 2)") auto
    ultimately show ?thesis using ih by (simp add: div_less_iff_less_mult)
  qed
qed

text \<open>The exponent is the integer part of the binary logarithm.\<close>

lemma exponent_bounds:
  assumes "0 < x"
  shows "pow2 (exponent x) \<le> x" "x < pow2 (exponent x + 1)"
proof -
  obtain p q where pq: "quotient_of x = (p, q)" by (cases "quotient_of x")
  then have x: "x = of_int p / of_int q" and q: "0 < q"
    by (rule quotient_of_div, rule quotient_of_denom_pos)
  have p: "0 < p" using assms q by (simp add: x zero_less_divide_iff)
  let ?a = "bit_length (nat p)" and ?b = "bit_length (nat q)"
  have pw: "pow2 (int n) = of_nat (2 ^ n)" for n by (simp add: pow2_def)
  have bp: "2 ^ (?a - 1) \<le> nat p" "nat p < 2 ^ ?a" "0 < ?a"
    and bq: "2 ^ (?b - 1) \<le> nat q" "nat q < 2 ^ ?b" "0 < ?b"
    using bit_length_bounds [of "nat p"] bit_length_bounds [of "nat q"] p q by simp_all
  have P: "pow2 (int ?a - 1) \<le> of_int p" "of_int p < pow2 (int ?a)"
  proof -
    have "int ?a - 1 = int (?a - 1)" using bp(3) by simp
    then have "pow2 (int ?a - 1) = of_nat (2 ^ (?a - 1))" by (simp only: pw)
    moreover have "(of_nat (2 ^ (?a - 1)) :: rat) \<le> of_nat (nat p)" using bp(1) by (simp only: of_nat_le_iff)
    moreover have "(of_nat (nat p) :: rat) < of_nat (2 ^ ?a)" using bp(2) by (simp only: of_nat_less_iff)
    ultimately show "pow2 (int ?a - 1) \<le> of_int p" "of_int p < pow2 (int ?a)"
      using p by (simp_all add: pw)
  qed
  have Q: "pow2 (int ?b - 1) \<le> of_int q" "of_int q < pow2 (int ?b)"
  proof -
    have "int ?b - 1 = int (?b - 1)" using bq(3) by simp
    then have "pow2 (int ?b - 1) = of_nat (2 ^ (?b - 1))" by (simp only: pw)
    moreover have "(of_nat (2 ^ (?b - 1)) :: rat) \<le> of_nat (nat q)" using bq(1) by (simp only: of_nat_le_iff)
    moreover have "(of_nat (nat q) :: rat) < of_nat (2 ^ ?b)" using bq(2) by (simp only: of_nat_less_iff)
    ultimately show "pow2 (int ?b - 1) \<le> of_int q" "of_int q < pow2 (int ?b)"
      using q by (simp_all add: pw)
  qed
  have lo: "pow2 (int ?a - int ?b - 1) \<le> x"
  proof -
    have "pow2 (int ?a - int ?b - 1) * of_int q \<le> pow2 (int ?a - int ?b - 1) * pow2 (int ?b)"
      using Q(2) by (intro mult_left_mono) (simp_all add: less_imp_le)
    also have "\<dots> = pow2 (int ?a - 1)" by (simp flip: pow2_add)
    finally have "pow2 (int ?a - int ?b - 1) * of_int q \<le> of_int p" using P(1) by linarith
    then show ?thesis using q by (simp add: x pos_le_divide_eq)
  qed
  have hi: "x < pow2 (int ?a - int ?b + 1)"
  proof -
    have "pow2 (int ?a) = pow2 (int ?a - int ?b + 1) * pow2 (int ?b - 1)" by (simp flip: pow2_add)
    also have "\<dots> \<le> pow2 (int ?a - int ?b + 1) * of_int q"
      using Q(1) by (intro mult_left_mono) (simp_all add: less_imp_le)
    finally have "of_int p < pow2 (int ?a - int ?b + 1) * of_int q" using P(2) by linarith
    then show ?thesis using q by (simp add: x pos_divide_less_eq)
  qed
  show "pow2 (exponent x) \<le> x" "x < pow2 (exponent x + 1)"
    using lo hi by (auto simp: exponent_def pq Let_def)
qed


section \<open>Rounding to 53 bits\<close>

lemma round_half_even_mono: "x \<le> y \<Longrightarrow> round_half_even x \<le> round_half_even y"
proof -
  assume xy: "x \<le> y"
  then have f: "\<lfloor>x\<rfloor> \<le> \<lfloor>y\<rfloor>" by (rule floor_mono)
  have b: "\<lfloor>z\<rfloor> \<le> round_half_even z" "round_half_even z \<le> \<lfloor>z\<rfloor> + 1" for z
    by (simp_all add: round_half_even_def Let_def)
  show ?thesis
  proof (cases "\<lfloor>x\<rfloor> = \<lfloor>y\<rfloor>")
    case True
    then show ?thesis using xy by (auto simp: round_half_even_def Let_def)
  next
    case False
    with f b(2) [of x] b(1) [of y] show ?thesis by linarith
  qed
qed

lemma round_half_even_int [simp]: "round_half_even (of_int n) = n"
  by (simp add: round_half_even_def)

lemma round_half_even_below: "z < of_int n - 1 / 2 \<Longrightarrow> round_half_even z \<le> n - 1"
proof -
  assume z: "z < of_int n - 1 / 2"
  show ?thesis
  proof (cases "\<lfloor>z\<rfloor> = n - 1")
    case True
    with z show ?thesis by (simp add: round_half_even_def Let_def)
  next
    case False
    have "\<lfloor>z\<rfloor> < n" using z by (simp add: floor_less_iff)
    with False have "\<lfloor>z\<rfloor> \<le> n - 2" by linarith
    then show ?thesis by (auto simp: round_half_even_def Let_def)
  qed
qed

lemma f64_round_pos: "0 < x \<Longrightarrow> f64_round x =
    of_int (round_half_even (x / pow2 (exponent x - 52))) * pow2 (exponent x - 52)"
  by (simp add: f64_round_def Let_def)

lemma pow2_numeral: "pow2 52 = of_int (2 ^ 52)" "pow2 53 = of_int (2 ^ 53)"
  by (simp_all add: pow2_def)

lemma pow2_split: "pow2 n = of_int (2 ^ 52) * pow2 (n - 52)" "pow2 (n + 1) = of_int (2 ^ 53) * pow2 (n - 52)"
  using pow2_add [of 52 "n - 52"] pow2_add [of 53 "n - 52"] by (simp_all add: pow2_numeral add.commute)

text \<open>The significand of a rounded value.\<close>

lemma significand_bounds:
  assumes "0 < x"
  shows "2 ^ 52 \<le> round_half_even (x / pow2 (exponent x - 52))"
    "round_half_even (x / pow2 (exponent x - 52)) \<le> 2 ^ 53"
proof -
  let ?e = "exponent x - 52"
  have lo: "of_int (2 ^ 52) \<le> x / pow2 ?e"
    using exponent_bounds(1) [OF assms] by (simp add: pos_le_divide_eq pow2_split(1) [of "exponent x"])
  have hi: "x / pow2 ?e \<le> of_int (2 ^ 53)"
    using exponent_bounds(2) [OF assms] by (simp add: pos_divide_le_eq pow2_split(2))
  from round_half_even_mono [OF lo] round_half_even_mono [OF hi]
  show "2 ^ 52 \<le> round_half_even (x / pow2 ?e)" "round_half_even (x / pow2 ?e) \<le> 2 ^ 53"
    by (simp_all only: round_half_even_int)
qed

lemma f64_round_within:
  assumes "0 < x"
  shows "pow2 (exponent x) \<le> f64_round x" "f64_round x \<le> pow2 (exponent x + 1)"
proof -
  let ?e = "exponent x - 52" let ?m = "round_half_even (x / pow2 ?e)"
  have "of_int (2 ^ 52) * pow2 ?e \<le> of_int ?m * pow2 ?e"
    by (intro mult_right_mono) (simp_all only: of_int_le_iff significand_bounds [OF assms] less_imp_le pow2_pos)
  then show "pow2 (exponent x) \<le> f64_round x"
    unfolding f64_round_pos [OF assms] pow2_split(1) [of "exponent x"] .
  have "of_int ?m * pow2 ?e \<le> of_int (2 ^ 53) * pow2 ?e"
    by (intro mult_right_mono) (simp_all only: of_int_le_iff significand_bounds [OF assms] less_imp_le pow2_pos)
  then show "f64_round x \<le> pow2 (exponent x + 1)"
    unfolding f64_round_pos [OF assms] pow2_split(2) .
qed

lemma f64_round_nonneg: "0 \<le> x \<Longrightarrow> 0 \<le> f64_round x"
proof (cases "x = 0")
  case False
  moreover assume "0 \<le> x"
  ultimately have "0 < x" by simp
  from f64_round_within(1) [OF this] show ?thesis using pow2_pos [of "exponent x"] by linarith
qed (simp add: f64_round_def)

lemma f64_nonneg:
  "0 \<le> f64_of_nat n" "0 \<le> x \<Longrightarrow> 0 \<le> y \<Longrightarrow> 0 \<le> f64_mul x y" "0 \<le> x \<Longrightarrow> 0 \<le> y \<Longrightarrow> 0 \<le> f64_div x y"
  by (simp_all add: f64_of_nat_def f64_mul_def f64_div_def f64_round_nonneg)

lemma f64_round_mono:
  assumes "0 \<le> x" "x \<le> y"
  shows "f64_round x \<le> f64_round y"
proof (cases "x = 0")
  case True
  then show ?thesis using f64_round_nonneg [of y] assms by (simp add: f64_round_def)
next
  case False
  with assms have pos: "0 < x" "0 < y" by simp_all
  have "exponent x < exponent y + 1"
    using exponent_bounds(1) [OF pos(1)] exponent_bounds(2) [OF pos(2)] assms(2)
    by (intro pow2_less_cancel) linarith
  then consider "exponent x = exponent y" | "exponent x + 1 \<le> exponent y" by linarith
  then show ?thesis
  proof cases
    case 1
    have "x / pow2 (exponent y - 52) \<le> y / pow2 (exponent y - 52)"
      using assms(2) by (simp add: divide_right_mono less_imp_le)
    from round_half_even_mono [OF this] show ?thesis
      by (simp add: f64_round_pos pos 1 mult_right_mono less_imp_le)
  next
    case 2
    from pow2_mono [OF this] f64_round_within(2) [OF pos(1)] f64_round_within(1) [OF pos(2)]
    show ?thesis by linarith
  qed
qed

text \<open>The fractional part of a value is at most one unit in the last place below 1.\<close>

lemma f64_fract_range: "0 \<le> f64_fract x" "f64_fract x < 1"
  using floor_correct [of x] unfolding f64_fract_def by linarith+

lemma fract_dyadic: "k \<le> 53 \<Longrightarrow> f64_fract (of_int m / 2 ^ k) \<le> 1 - 1 / 2 ^ 53"
proof -
  assume k: "k \<le> 53"
  let ?x = "of_int m / 2 ^ k :: rat"
  have "f64_fract ?x * 2 ^ k = of_int (m - \<lfloor>?x\<rfloor> * 2 ^ k)"
    by (simp add: f64_fract_def left_diff_distrib)
  moreover have "f64_fract ?x * 2 ^ k < 2 ^ k" using f64_fract_range(2) [of ?x] by simp
  ultimately have "(of_int (m - \<lfloor>?x\<rfloor> * 2 ^ k) :: rat) < of_int (2 ^ k)" by simp
  then have "m - \<lfloor>?x\<rfloor> * 2 ^ k \<le> 2 ^ k - 1" by (simp only: of_int_less_iff)
  then have "(of_int (m - \<lfloor>?x\<rfloor> * 2 ^ k) :: rat) \<le> of_int (2 ^ k - 1)" by (simp only: of_int_le_iff)
  then have "f64_fract ?x * 2 ^ k \<le> 2 ^ k - 1"
    using \<open>f64_fract ?x * 2 ^ k = _\<close> by simp
  then have "f64_fract ?x \<le> 1 - 1 / 2 ^ k" by (simp add: field_simps)
  moreover have "(1 :: rat) / 2 ^ 53 \<le> 1 / 2 ^ k"
    using k by (intro divide_left_mono power_increasing) simp_all
  ultimately show ?thesis by linarith
qed

lemma fract_round_le: "0 \<le> x \<Longrightarrow> f64_fract (f64_round x) \<le> 1 - 1 / 2 ^ 53"
proof (cases "x = 0")
  case True
  then show ?thesis by (simp add: f64_round_def f64_fract_def)
next
  case False
  moreover assume "0 \<le> x"
  ultimately have x: "0 < x" by simp
  let ?e = "exponent x - 52" let ?m = "round_half_even (x / pow2 ?e)"
  consider "0 \<le> ?e" | "- 53 \<le> ?e" "?e < 0" | "?e < - 53" by linarith
  then show ?thesis
  proof cases
    case 1
    then have "f64_round x = of_int (?m * 2 ^ nat ?e)" by (simp add: f64_round_pos x pow2_def)
    then show ?thesis by (simp only: f64_fract_def floor_of_int) simp
  next
    case 2
    let ?k = "nat (- ?e)"
    from 2 have "f64_round x = of_int ?m / 2 ^ ?k" by (simp add: f64_round_pos x pow2_def)
    then show ?thesis using 2 fract_dyadic [of ?k ?m] by simp
  next
    case 3
    then have "exponent x + 1 \<le> - 1" by simp
    from pow2_mono [OF this] f64_round_within(2) [OF x]
    have "f64_round x \<le> 1 / 2" by (simp add: pow2_def)
    moreover have "0 \<le> f64_round x" using x by (simp add: f64_round_nonneg)
    ultimately show ?thesis by (simp add: f64_fract_def floor_unique [of 0])
  qed
qed

text \<open>A fraction below 1 times an integer stays below that integer, even after rounding.\<close>

lemma f64_mul_below:
  assumes p: "0 \<le> p" "p \<le> 1 - 1 / 2 ^ 53" and t: "0 < t" "t \<le> 2 ^ 53"
  shows "f64_mul p (of_nat t) < of_nat t"
proof -
  let ?x = "(1 - 1 / 2 ^ 53) * of_nat t :: rat"
  have x: "0 < ?x" using t by simp
  have "p * of_nat t \<le> ?x" by (intro mult_right_mono p(2)) simp
  then have "f64_mul p (of_nat t) \<le> f64_round ?x"
    unfolding f64_mul_def using p(1) by (intro f64_round_mono) simp_all
  moreover have "f64_round ?x < of_nat t"
  proof -
    let ?e = "exponent ?x - 52"
    have xt: "?x < of_nat t" using t(1) by (simp add: left_diff_distrib)
    show ?thesis
    proof (cases "of_nat t \<le> pow2 (exponent ?x)")
      case True
      with exponent_bounds(1) [OF x] xt show ?thesis by linarith
    next
      case False
      then have big: "pow2 (exponent ?x) < of_nat t" by simp
      consider "?e \<le> 0" | "0 < ?e" by linarith
      then show ?thesis
      proof cases
        case 1
        let ?k = "nat (- ?e)"
        have pe: "pow2 ?e = 1 / 2 ^ ?k" using 1 by (simp add: pow2_def)
        have n: "of_nat t / pow2 ?e = (of_int (int t * 2 ^ ?k) :: rat)" unfolding pe by simp
        have "pow2 (exponent ?x) = 2 ^ 52 * pow2 ?e" using pow2_add [of 52 ?e] by (simp add: pow2_numeral)
        then have "1 / 2 * pow2 ?e < of_nat t / 2 ^ 53" using big by (simp add: field_simps)
        then have "?x < of_nat t - 1 / 2 * pow2 ?e" by (simp add: left_diff_distrib)
        then have "?x / pow2 ?e < (of_nat t - 1 / 2 * pow2 ?e) / pow2 ?e"
          by (intro divide_strict_right_mono) simp_all
        also have "\<dots> = of_int (int t * 2 ^ ?k) - 1 / 2" by (simp only: diff_divide_distrib n) simp
        finally have "round_half_even (?x / pow2 ?e) \<le> int t * 2 ^ ?k - 1"
          by (rule round_half_even_below)
        then have "(of_int (round_half_even (?x / pow2 ?e)) :: rat) \<le> of_int (int t * 2 ^ ?k - 1)"
          by (simp only: of_int_le_iff)
        then have "(of_int (round_half_even (?x / pow2 ?e)) :: rat) < of_nat t / pow2 ?e"
          unfolding n of_int_diff of_int_1 by linarith
        then show ?thesis unfolding f64_round_pos [OF x] pos_less_divide_eq [OF pow2_pos] .
      next
        case 2
        then have "53 \<le> exponent ?x" by simp
        from pow2_mono [OF this] big have "pow2 53 < of_nat t" by linarith
        then have "(of_nat (2 ^ 53) :: rat) < of_nat t" by (simp add: pow2_numeral)
        then show ?thesis using t(2) by (simp only: of_nat_less_iff)
      qed
    qed
  qed
  ultimately show ?thesis by linarith
qed


text \<open>Values of at most 53 significant bits are not rounded.\<close>

lemma f64_round_exact:
  assumes m: "0 \<le> m" "m \<le> 2 ^ 53"
  shows "f64_round (of_int m * pow2 e) = of_int m * pow2 e"
proof -
  have less: "f64_round (of_int n * pow2 e) = of_int n * pow2 e" if n: "0 < n" "n < 2 ^ 53" for n e
  proof -
    let ?x = "of_int n * pow2 e" let ?d = "exponent ?x - 52"
    have x: "0 < ?x" using n by simp
    have "of_int n < (of_int (2 ^ 53) :: rat)" using n(2) by (simp only: of_int_less_iff)
    then have "?x < pow2 (e + 53)" by (simp add: pow2_add pow2_numeral)
    with exponent_bounds(1) [OF x] have "exponent ?x < e + 53" by (intro pow2_less_cancel) linarith
    then have "pow2 e = 2 ^ nat (e - ?d) * pow2 ?d"
      using pow2_add [of "e - ?d" ?d] by (simp add: pow2_def [of "e - ?d"])
    then have "?x = of_int (n * 2 ^ nat (e - ?d)) * pow2 ?d" by simp
    then have "?x / pow2 ?d = of_int (n * 2 ^ nat (e - ?d))"
      by (subst nonzero_divide_eq_eq) (rule pow2_nonzero, assumption)
    then have "of_int (round_half_even (?x / pow2 ?d)) = ?x / pow2 ?d"
      by (simp only: round_half_even_int)
    then show ?thesis unfolding f64_round_pos [OF x] by simp
  qed
  consider "m = 0" | "0 < m" "m < 2 ^ 53" | "m = 2 ^ 53" using m by linarith
  then show ?thesis
  proof cases
    case 3
    have "of_int m * pow2 e = of_int (2 ^ 52) * pow2 (e + 1)"
      unfolding 3 using pow2_add [of e 1] by (simp add: pow2_def [of 1])
    moreover have "f64_round (of_int (2 ^ 52) * pow2 (e + 1)) = of_int (2 ^ 52) * pow2 (e + 1)"
      by (rule less) simp_all
    ultimately show ?thesis by simp
  next
    case 2
    then show ?thesis by (rule less)
  qed (simp add: f64_round_def)
qed

lemma f64_of_nat_exact [simp]: "n \<le> 2 ^ 53 \<Longrightarrow> f64_of_nat n = of_nat n"
  using f64_round_exact [of "int n" 0] by (simp add: f64_of_nat_def pow2_def)

text \<open>Taking the integer part off a value is exact.\<close>

lemma f64_round_fract:
  assumes "0 \<le> x"
  shows "f64_round (f64_fract (f64_round x)) = f64_fract (f64_round x)"
proof (cases "x = 0")
  case True
  then show ?thesis by (simp add: f64_round_def f64_fract_def)
next
  case False
  with assms have x: "0 < x" by simp
  let ?e = "exponent x - 52" let ?m = "round_half_even (x / pow2 ?e)"
  have m: "0 \<le> ?m" "?m \<le> 2 ^ 53"
    using order.trans [OF _ significand_bounds(1) [OF x]] significand_bounds(2) [OF x] by simp_all
  show ?thesis
  proof (cases "0 \<le> ?e")
    case True
    then have "f64_round x = of_int (?m * 2 ^ nat ?e)" by (simp add: f64_round_pos x pow2_def)
    then have "f64_fract (f64_round x) = 0" by (simp only: f64_fract_def floor_of_int)
    then show ?thesis by (simp add: f64_round_def)
  next
    case False
    then have e: "pow2 ?e * 2 ^ nat (- ?e) = 1" by (simp add: pow2_def)
    let ?q = "\<lfloor>f64_round x\<rfloor>"
    let ?r = "?m - ?q * 2 ^ nat (- ?e)"
    have "0 \<le> ?q" using x by (simp add: f64_round_nonneg)
    have f: "f64_fract (f64_round x) = of_int ?r * pow2 ?e"
    proof -
      have "of_int ?r * pow2 ?e = of_int ?m * pow2 ?e - of_int ?q * (pow2 ?e * 2 ^ nat (- ?e))"
        by (simp add: left_diff_distrib)
      then show ?thesis unfolding e by (simp add: f64_fract_def flip: f64_round_pos [OF x])
    qed
    then have "0 \<le> of_int ?r * pow2 ?e" using f64_fract_range(1) [of "f64_round x"] by simp
    then have "(0 :: rat) \<le> of_int ?r" using pow2_pos [of ?e] by (metis zero_le_mult_iff not_less)
    then have "0 \<le> ?r" by (simp only: of_int_0_le_iff)
    moreover have "?r \<le> 2 ^ 53" using m(2) mult_nonneg_nonneg [OF \<open>0 \<le> ?q\<close>, of "2 ^ nat (- ?e)"]
      order.trans [OF _ m(2), of ?r] by simp
    ultimately show ?thesis unfolding f by (rule f64_round_exact)
  qed
qed

end
