(* ===== verification/TriggerWheel.thy ===== *)
theory TriggerWheel
  imports Prelude Float64
begin

text \<open>
  The crank trigger wheel of the ECU harness, \<open>TriggerWheel\<close> of \<open>src/ext_devices/ecu_io.rs\<close>: a
  missing-tooth wheel whose angle advances with the instruction count. The angle is a double,
  computed with the rounding of \<open>Float64\<close>; an \<open>i32\<close> is an \<^typ>\<open>int\<close>.
\<close>

section \<open>The wheel\<close>

record wheel_config =
  wheel_signal :: string
  wheel_pin_signal :: string
  teeth :: u32
  missing :: u32

record trigger_wheel =
  wheel_cfg :: wheel_config
  position :: f64
  last_instructions :: u64

definition INSTRUCTIONS_PER_MINUTE :: f64 where "INSTRUCTIONS_PER_MINUTE = 60 * 216000000"

definition wheel_new :: "wheel_config \<Rightarrow> trigger_wheel" where
  "wheel_new cfg = \<lparr>wheel_cfg = cfg, position = 0, last_instructions = 0\<rparr>"

definition level_at :: "f64 \<Rightarrow> trigger_wheel \<Rightarrow> bool" where
  "level_at pos w =
     (let slot_f = f64_mul (f64_fract pos) (f64_of_nat (unat (teeth (wheel_cfg w))));
          slot = f64_to_u32 slot_f;
          in_first_half = f64_sub slot_f (f64_of_nat slot) < 1 / 2
      in of_nat slot < teeth (wheel_cfg w) - missing (wheel_cfg w) \<and> in_first_half)"

definition next_position :: "u64 \<Rightarrow> int \<Rightarrow> f64 \<Rightarrow> f64" where
  "next_position delta rpm pos =
     f64_fract (f64_add pos
       (f64_div (f64_mul (f64_of_nat (unat delta)) (f64_of_nat (nat rpm))) INSTRUCTIONS_PER_MINUTE))"

definition project_angle_mdeg :: "u64 \<Rightarrow> int \<Rightarrow> trigger_wheel \<Rightarrow> int" where
  "project_angle_mdeg now_instructions rpm w =
     (let delta = saturating_sub now_instructions (last_instructions w);
          rpm = max 0 (min 30000 rpm);
          pos = next_position delta rpm (position w)
      in f64_to_i32 (f64_mul pos 360000))"

definition advance :: "u64 \<Rightarrow> int \<Rightarrow> trigger_wheel \<Rightarrow> bool option \<times> trigger_wheel" where
  "advance now_instructions rpm w =
     (let delta = saturating_sub now_instructions (last_instructions w);
          w = w\<lparr>last_instructions := now_instructions\<rparr>
      in if rpm \<le> 0 then (None, w)
         else let rpm = min 30000 rpm;
                  w = w\<lparr>position := next_position delta rpm (position w)\<rparr>
              in (Some (level_at (position w) w), w))"

section \<open>The angle stays in range\<close>

definition wheel_ok :: "trigger_wheel \<Rightarrow> bool" where
  "wheel_ok w \<longleftrightarrow> 0 \<le> position w \<and> position w \<le> 1 - 1 / 2 ^ 53"

lemma wheel_ok_new [simp]: "wheel_ok (wheel_new cfg)"
  by (simp add: wheel_ok_def wheel_new_def)

lemma wheel_cfg_new [simp]: "wheel_cfg (wheel_new cfg) = cfg"
  by (simp add: wheel_new_def)

lemma next_position_range:
  assumes "0 \<le> pos"
  shows "0 \<le> next_position delta rpm pos" "next_position delta rpm pos \<le> 1 - 1 / 2 ^ 53"
proof -
  let ?y = "f64_div (f64_mul (f64_of_nat (unat delta)) (f64_of_nat (nat rpm))) INSTRUCTIONS_PER_MINUTE"
  have "0 \<le> ?y"
    by (intro f64_nonneg) (simp add: INSTRUCTIONS_PER_MINUTE_def)
  with assms have "0 \<le> pos + ?y" by simp
  then show "0 \<le> next_position delta rpm pos" "next_position delta rpm pos \<le> 1 - 1 / 2 ^ 53"
    by (simp_all only: next_position_def f64_add_def f64_fract_range fract_round_le)
qed

lemma advance_ok: "wheel_ok w \<Longrightarrow> wheel_ok (snd (advance now rpm w))"
  using next_position_range [of "position w"] by (simp add: advance_def wheel_ok_def Let_def)

lemma advance_cfg [simp]: "wheel_cfg (snd (advance now rpm w)) = wheel_cfg w"
  by (simp add: advance_def Let_def)

lemma fold_advance:
  "wheel_ok w \<Longrightarrow> wheel_ok (fold (\<lambda>(now, rpm) w. snd (advance now rpm w)) steps w) \<and>
     wheel_cfg (fold (\<lambda>(now, rpm) w. snd (advance now rpm w)) steps w) = wheel_cfg w"
  by (induction steps arbitrary: w) (auto simp: advance_ok)

lemma f64_fract_id [simp]: "0 \<le> x \<Longrightarrow> x < 1 \<Longrightarrow> f64_fract x = x"
  by (simp add: f64_fract_def floor_unique [of 0])

text \<open>The level, read off the exact slot: the multiplication rounds, the rest is exact.\<close>

lemma level_at_eq:
  assumes pos: "0 \<le> pos" "pos \<le> 1 - 1 / 2 ^ 53" and t: "0 < unat (teeth (wheel_cfg w))"
  defines "slot_f \<equiv> f64_mul pos (of_nat (unat (teeth (wheel_cfg w))))"
  shows "0 \<le> slot_f" "slot_f < of_nat (unat (teeth (wheel_cfg w)))"
    "level_at pos w \<longleftrightarrow> of_nat (nat \<lfloor>slot_f\<rfloor>) < teeth (wheel_cfg w) - missing (wheel_cfg w) \<and>
       slot_f - of_int \<lfloor>slot_f\<rfloor> < 1 / 2"
proof -
  obtain t where ut: "unat (teeth (wheel_cfg w)) = t" by simp
  have lt: "t < 2 ^ 32" and "0 < t" using unat_u32_less [of "teeth (wheel_cfg w)"] t by (simp_all only: ut)
  note slot_f_def = slot_f_def [unfolded ut]
  show nn: "0 \<le> slot_f" unfolding slot_f_def using pos by (intro f64_nonneg) simp_all
  have below: "slot_f < of_nat t"
    unfolding slot_f_def by (rule f64_mul_below) (use pos lt \<open>0 < t\<close> in simp_all)
  then show "slot_f < of_nat (unat (teeth (wheel_cfg w)))" by (simp only: ut)
  have "\<lfloor>slot_f\<rfloor> < int t" using below by (simp add: floor_less_iff)
  then have slot: "nat \<lfloor>slot_f\<rfloor> < 2 ^ 32" using lt by linarith
  have "pos < 1" using pos(2) by simp
  then have sf: "f64_mul (f64_fract pos) (f64_of_nat t) = slot_f"
    using pos(1) lt by (simp add: slot_f_def)
  have n: "of_nat (nat \<lfloor>slot_f\<rfloor>) = (of_int \<lfloor>slot_f\<rfloor> :: rat)" using nn by simp
  have "f64_sub slot_f (f64_of_nat (nat \<lfloor>slot_f\<rfloor>)) = slot_f - of_int \<lfloor>slot_f\<rfloor>"
  proof -
    have "f64_of_nat (nat \<lfloor>slot_f\<rfloor>) = of_int \<lfloor>slot_f\<rfloor>" using slot n by simp
    moreover have "0 \<le> pos * of_nat t" using pos(1) by simp
    from f64_round_fract [OF this] have "f64_round (f64_fract slot_f) = f64_fract slot_f"
      by (simp only: slot_f_def f64_mul_def)
    ultimately show ?thesis by (simp only: f64_sub_def f64_fract_def)
  qed
  moreover have "f64_to_u32 slot_f = nat \<lfloor>slot_f\<rfloor>" using slot by (simp add: f64_to_u32_def)
  ultimately show "level_at pos w \<longleftrightarrow>
      of_nat (nat \<lfloor>slot_f\<rfloor>) < teeth (wheel_cfg w) - missing (wheel_cfg w) \<and>
      slot_f - of_int \<lfloor>slot_f\<rfloor> < 1 / 2"
    by (simp only: level_at_def Let_def sf ut)
qed


lemma project_angle_range:
  assumes "wheel_ok w"
  shows "0 \<le> project_angle_mdeg now rpm w" "project_angle_mdeg now rpm w < 360000"
    "0 < rpm \<Longrightarrow> project_angle_mdeg now rpm w = \<lfloor>f64_mul (position (snd (advance now rpm w))) 360000\<rfloor>"
proof -
  have trunc: "f64_to_i32 (f64_mul p 360000) = \<lfloor>f64_mul p 360000\<rfloor>" "0 \<le> \<lfloor>f64_mul p 360000\<rfloor>"
    "\<lfloor>f64_mul p 360000\<rfloor> < 360000" if "0 \<le> p" "p \<le> 1 - 1 / 2 ^ 53" for p
  proof -
    have "0 \<le> f64_mul p 360000" using that(1) by (intro f64_nonneg) simp_all
    moreover have "f64_mul p 360000 < 360000" using f64_mul_below [OF that, of 360000] by simp
    ultimately show "0 \<le> \<lfloor>f64_mul p 360000\<rfloor>" "\<lfloor>f64_mul p 360000\<rfloor> < 360000"
      by (simp_all add: floor_less_iff)
    then show "f64_to_i32 (f64_mul p 360000) = \<lfloor>f64_mul p 360000\<rfloor>" by (simp add: f64_to_i32_def)
  qed
  note next_pos = next_position_range [OF assms [unfolded wheel_ok_def, THEN conjunct1]]
  show "0 \<le> project_angle_mdeg now rpm w" "project_angle_mdeg now rpm w < 360000"
    by (simp_all only: project_angle_mdeg_def Let_def trunc next_pos)
  show "project_angle_mdeg now rpm w = \<lfloor>f64_mul (position (snd (advance now rpm w))) 360000\<rfloor>" if "0 < rpm"
    using that trunc(1) [OF next_pos] by (simp add: project_angle_mdeg_def advance_def Let_def)
qed

section \<open>Properties\<close>

text \<open>C29: The wheel never leaves its circle, in spite of the rounding of every step. Whatever
  sequence of instruction counts and speeds it is advanced by, its position stays in \<open>[0, 1)\<close> and
  every angle projected from it in \<open>[0, 360000)\<close> millidegrees; the projection is the angle that
  advancing to that instant would reach; the level is high exactly in the first half of one of the
  \<open>teeth - missing\<close> slots that carry a tooth; and a stopped wheel holds its position.\<close>

theorem wheel_in_range:
  assumes t: "0 < teeth cfg" "missing cfg \<le> teeth cfg"
    and w: "w = fold (\<lambda>(now, rpm) w. snd (advance now rpm w)) steps (wheel_new cfg)"
    and slot: "slot_f = f64_mul (position w) (of_nat (unat (teeth cfg)))"
  shows "0 \<le> position w \<and> position w < 1 \<and>
    0 \<le> project_angle_mdeg now rpm w \<and> project_angle_mdeg now rpm w < 360000 \<and>
    (0 < rpm \<longrightarrow>
       project_angle_mdeg now rpm w = \<lfloor>f64_mul (position (snd (advance now rpm w))) 360000\<rfloor>) \<and>
    (level_at (position w) w \<longleftrightarrow>
       (\<exists>k < unat (teeth cfg) - unat (missing cfg). of_nat k \<le> slot_f \<and> slot_f < of_nat k + 1 / 2)) \<and>
    (rpm \<le> 0 \<longrightarrow> advance now rpm w = (None, w\<lparr>last_instructions := now\<rparr>))"
proof -
  have ok: "wheel_ok w" and cfg: "wheel_cfg w = cfg"
    using fold_advance [OF wheel_ok_new, of steps cfg] by (simp_all add: w)
  then have pos: "0 \<le> position w" "position w \<le> 1 - 1 / 2 ^ 53" by (simp_all add: wheel_ok_def)
  have t0: "0 < unat (teeth (wheel_cfg w))" using t(1) by (simp add: cfg word_less_nat_alt)
  note l = level_at_eq [OF pos t0, unfolded cfg, folded slot]
  let ?d = "unat (teeth cfg) - unat (missing cfg)"
  have d: "unat (teeth cfg - missing cfg) = ?d" using t(2) by (simp add: unat_sub word_le_nat_alt)
  have "nat \<lfloor>slot_f\<rfloor> < unat (teeth cfg)"
    using l(1,2) t0 by (simp add: cfg nat_less_iff floor_less_iff)
  then have "unat (of_nat (nat \<lfloor>slot_f\<rfloor>) :: u32) = nat \<lfloor>slot_f\<rfloor>"
    using unat_u32_less [of "teeth cfg"] by (simp add: unat_of_nat)
  then have "level_at (position w) w \<longleftrightarrow> nat \<lfloor>slot_f\<rfloor> < ?d \<and> slot_f - of_int \<lfloor>slot_f\<rfloor> < 1 / 2"
    by (simp add: l(3) word_less_nat_alt d)
  also have "\<dots> \<longleftrightarrow> (\<exists>k < ?d. of_nat k \<le> slot_f \<and> slot_f < of_nat k + 1 / 2)"
  proof
    assume "nat \<lfloor>slot_f\<rfloor> < ?d \<and> slot_f - of_int \<lfloor>slot_f\<rfloor> < 1 / 2"
    then show "\<exists>k < ?d. of_nat k \<le> slot_f \<and> slot_f < of_nat k + 1 / 2"
      using l(1) by (intro exI [of _ "nat \<lfloor>slot_f\<rfloor>"]) simp
  next
    assume "\<exists>k < ?d. of_nat k \<le> slot_f \<and> slot_f < of_nat k + 1 / 2"
    then obtain k where k: "k < ?d" "of_nat k \<le> slot_f" "slot_f < of_nat k + 1 / 2" by blast
    then have "\<lfloor>slot_f\<rfloor> = int k" by (intro floor_unique) simp_all
    with k show "nat \<lfloor>slot_f\<rfloor> < ?d \<and> slot_f - of_int \<lfloor>slot_f\<rfloor> < 1 / 2" by simp
  qed
  finally show ?thesis using pos project_angle_range [OF ok]
    by (simp add: advance_def Let_def)
qed

definition stock_wheel :: trigger_wheel where
  "stock_wheel = wheel_new
     \<lparr>wheel_signal = ''trigger_rpm'', wheel_pin_signal = ''din1'', teeth = 60, missing = 2\<rparr>"

theorem wheel_in_range_witness:
  "0 \<le> project_angle_mdeg 500 3000 (snd (advance 400 600 stock_wheel)) \<and>
   level_at (position stock_wheel) stock_wheel"
proof -
  note at = wheel_in_range [OF _ _ refl refl, where
      cfg = "\<lparr>wheel_signal = ''trigger_rpm'', wheel_pin_signal = ''din1'', teeth = 60, missing = 2\<rparr>",
      folded stock_wheel_def]
  have "0 \<le> project_angle_mdeg 500 3000 (snd (advance 400 600 stock_wheel))"
    using at [where steps = "[(400, 600)]" and now = 500 and rpm = 3000] by (simp, elim conjE, simp)
  moreover have "f64_mul (position stock_wheel) x = 0" for x
    by (simp add: stock_wheel_def wheel_new_def f64_mul_def f64_round_def)
  then have "level_at (position stock_wheel) stock_wheel"
    using at [where steps = "[]"] by (simp add: exI [of _ "0 :: nat"])
  ultimately show ?thesis by simp
qed

end
