(* ===== verification/EcuIo.thy ===== *)
theory EcuIo
  imports EmbeddedEcuIo TriggerWheel Exti Gpio
begin

text \<open>
  The ECU harness, \<open>src/ext_devices/ecu_io.rs\<close>: named digital and analog signals set by a host over
  a line protocol (\<open>name=value\<close>) or the in-process link, output pins reported back, and input
  edges delivered through EXTI. Sockets belong to the standard library: what \<open>accept\<close>, \<open>read\<close> and
  \<open>write\<close> return are input lists of a poll, as for the serial bridge; making a socket nonblocking is
  assumed to succeed. The maps of signal values are maps from names, an \<open>i32\<close> is an \<^typ>\<open>int\<close>.
\<close>

section \<open>Configuration and state\<close>

definition MAX_BUFFERED_BYTES :: nat where "MAX_BUFFERED_BYTES = 65536"

datatype pin_direction = DirInput | DirOutput

record ecu_pin_config =
  pc_name :: string
  pc_pin :: string
  pc_direction :: pin_direction

record ecu_adc_config =
  ac_name :: string
  ac_pin :: string

record ecu_io_config =
  ecu_listen :: string
  ecu_pins :: "ecu_pin_config list"
  ecu_adc_channels :: "ecu_adc_config list"
  ecu_wheel_config :: "wheel_config option"

record ecu_io =
  ecu_config :: ecu_io_config
  ecu_listener :: bool
  ecu_embedded :: "io_state option"
  ecu_client :: bool
  recv_buffer :: "u8 list"
  outgoing :: "u8 list"
  ecu_values :: "string \<rightharpoonup> int"
  adc_channels :: "(pin \<times> string) list"
  digital_input_pins :: "(pin \<times> string) list"
  last_digital_levels :: "string \<rightharpoonup> bool"
  known_names :: "string set"
  ecu_trigger_wheel :: "trigger_wheel option"

definition ecu_known_names :: "ecu_io_config \<Rightarrow> string set" where
  "ecu_known_names config = set (map pc_name (ecu_pins config)) \<union> set (map ac_name (ecu_adc_channels config))
     \<union> set (case ecu_wheel_config config of None \<Rightarrow> [] | Some t \<Rightarrow> [wheel_signal t])"

text \<open>Without a pending in-process link the listener is bound (\<open>bind\<close> says whether that works); pin
  names are parsed after that and panic when malformed.\<close>

definition ecu_new :: "ecu_io_config \<Rightarrow> io_state option \<Rightarrow> bool \<Rightarrow> ecu_io fallible res" where
  "ecu_new config link bind =
     (if link = None \<and> \<not> bind then Inr (Inl ''Failed to listen for ECU IO'')
      else res_bind (map_res (\<lambda>c. res_map (\<lambda>p. (p, ac_name c)) (pin_from_str (ac_pin c)))
                       (ecu_adc_channels config)) (\<lambda>adc.
           res_map (\<lambda>inputs. Inr
             \<lparr>ecu_config = config, ecu_listener = (link = None), ecu_embedded = map_option io_attach_device link,
              ecu_client = False, recv_buffer = [], outgoing = [], ecu_values = Map.empty,
              adc_channels = adc, digital_input_pins = inputs, last_digital_levels = Map.empty,
              known_names = ecu_known_names config,
              ecu_trigger_wheel = map_option wheel_new (ecu_wheel_config config)\<rparr>)
             (map_res (\<lambda>p. res_map (\<lambda>pin. (pin, pc_name p)) (pin_from_str (pc_pin p)))
                (filter (\<lambda>p. pc_direction p = DirInput) (ecu_pins config)))))"

section \<open>Signals\<close>

definition ecu_value :: "string \<Rightarrow> ecu_io \<Rightarrow> int" where
  "ecu_value name e = (case ecu_values e name of None \<Rightarrow> 0 | Some v \<Rightarrow> v)"

definition set_value :: "string \<Rightarrow> int \<Rightarrow> ecu_io \<Rightarrow> ecu_io" where
  "set_value name v e =
     (if name \<notin> known_names e then e else e\<lparr>ecu_values := (ecu_values e)(name \<mapsto> v)\<rparr>)"

definition advance_trigger_wheel :: "u64 \<Rightarrow> ecu_io \<Rightarrow> ecu_io" where
  "advance_trigger_wheel now_instructions e =
     (case ecu_trigger_wheel e of
        None \<Rightarrow> e
      | Some wheel \<Rightarrow>
          let rpm = ecu_value (wheel_signal (wheel_cfg wheel)) e;
              (level, wheel) = advance now_instructions rpm wheel;
              e = e\<lparr>ecu_trigger_wheel := Some wheel\<rparr>
          in case level of
               None \<Rightarrow> e
             | Some l \<Rightarrow> e\<lparr>ecu_values := (ecu_values e)(wheel_pin_signal (wheel_cfg wheel) \<mapsto> of_bool l)\<rparr>)"

definition adc_millivolts :: "pin \<Rightarrow> ecu_io \<Rightarrow> int" where
  "adc_millivolts p e =
     max 0 (min 3300 (case find (\<lambda>(q, _). q = p) (adc_channels e) of
                        None \<Rightarrow> 0 | Some (_, name) \<Rightarrow> ecu_value name e))"

definition digital_level :: "string \<Rightarrow> ecu_io \<Rightarrow> bool" where
  "digital_level name e \<longleftrightarrow> ecu_value name e \<noteq> 0"

text \<open>Each input pin whose level differs from the last one delivered is raised as an EXTI edge.\<close>

fun check_edges :: "(pin \<times> string) list \<Rightarrow> ecu_io \<times> exti \<times> nvic \<Rightarrow> (ecu_io \<times> exti \<times> nvic) res" where
  "check_edges [] (e, x, n) = Inr (e, x, n)"
| "check_edges ((p, name) # ps) (e, x, n) =
     (let level = ecu_value name e \<noteq> 0;
          previous = (case last_digital_levels e name of None \<Rightarrow> False | Some l \<Rightarrow> l)
      in if level \<noteq> previous then
           let (irq, x) = raise_line_if_configured (pin_port p) (pin_number p) level x
           in res_bind (case irq of None \<Rightarrow> Inr n | Some irq \<Rightarrow> set_intr_pending irq n) (\<lambda>n.
                check_edges ps
                  (e\<lparr>last_digital_levels := (last_digital_levels e)(name \<mapsto> level)\<rparr>, x, n))
         else check_edges ps (e, x, n))"

definition check_digital_edges :: "ecu_io \<times> exti \<times> nvic \<Rightarrow> (ecu_io \<times> exti \<times> nvic) res" where
  "check_digital_edges s = check_edges (digital_input_pins (fst s)) s"

section \<open>Output\<close>

fun push_capped_deque :: "u8 list \<Rightarrow> u8 list \<Rightarrow> nat \<Rightarrow> u8 list" where
  "push_capped_deque queue [] capacity = queue"
| "push_capped_deque queue (b # bytes) capacity =
     push_capped_deque ((if length queue = capacity then tl queue else queue) @ [b]) bytes capacity"

definition push_capped_vec :: "u8 list \<Rightarrow> u8 list \<Rightarrow> nat \<Rightarrow> u8 list" where
  "push_capped_vec buffer bytes capacity =
     (let buffer = buffer @ bytes
      in if capacity < length buffer then drop (length buffer - capacity) buffer else buffer)"

definition output_line :: "string \<Rightarrow> int \<Rightarrow> u8 list" where
  "output_line name v = into_bytes (name @ ''='' @ show_int v @ [CHR 0x0A])"

definition report_output :: "u64 \<Rightarrow> string \<Rightarrow> bool \<Rightarrow> ecu_io \<Rightarrow> ecu_io" where
  "report_output now name level e =
     (let new_value = of_bool level;
          changed = ecu_values e name \<noteq> Some new_value;
          e = e\<lparr>ecu_values := (ecu_values e)(name \<mapsto> new_value)\<rparr>
      in case ecu_embedded e of
           Some link \<Rightarrow>
             if changed then
               let angle = map_option (\<lambda>wheel.
                     project_angle_mdeg now (ecu_value (wheel_signal (wheel_cfg wheel)) e) wheel)
                     (ecu_trigger_wheel e)
               in e\<lparr>ecu_embedded := Some (publish_output now name new_value angle link)\<rparr>
             else e
         | None \<Rightarrow>
             if changed \<and> ecu_client e
             then e\<lparr>outgoing := push_capped_deque (outgoing e) (output_line name new_value) MAX_BUFFERED_BYTES\<rparr>
             else e)"

section \<open>Registration with the GPIO ports\<close>

text \<open>The closures share the harness with its owner: \<open>view\<close> and \<open>upd\<close> reach it in the state, and
  \<open>clock\<close> reads the instruction count.\<close>

definition ecu_register ::
  "('s \<Rightarrow> ecu_io) \<Rightarrow> ((ecu_io \<Rightarrow> ecu_io) \<Rightarrow> 's \<Rightarrow> 's) \<Rightarrow> ('s \<Rightarrow> u64) \<Rightarrow> ecu_io_config \<Rightarrow> io_state option \<Rightarrow>
   bool \<Rightarrow> 's gpio_ports \<Rightarrow> (ecu_io \<times> 's gpio_ports) fallible res" where
  "ecu_register view upd clock config link bind gpio =
     res_bind (map_res (\<lambda>p. res_map (\<lambda>pin. (pin, pc_name p, pc_direction p)) (pin_from_str (pc_pin p)))
                 (ecu_pins config)) (\<lambda>pins.
     res_bind (ecu_new config link bind) (\<lambda>created. case created of
        Inl err \<Rightarrow> Inr (Inl err)
      | Inr e \<Rightarrow>
          res_map (\<lambda>gpio. Inr (e, gpio))
            (fold_res (\<lambda>(pin, name, direction) gpio. case direction of
                DirInput \<Rightarrow> add_read_callback pin (\<lambda>s. (digital_level name (view s), s)) gpio
              | DirOutput \<Rightarrow> add_write_callback pin
                  (\<lambda>v s. upd (report_output (clock s) name v) s) gpio)
              pins gpio)))"

section \<open>The socket\<close>

text \<open>Another client is turned away while one is connected.\<close>

fun ecu_accept_clients :: "accept_result list \<Rightarrow> ecu_io \<Rightarrow> unit fallible \<times> ecu_io" where
  "ecu_accept_clients [] e = (Inr (), e)"
| "ecu_accept_clients (a # as) e =
     (if \<not> ecu_listener e then (Inr (), e)
      else case a of
             AcceptError err \<Rightarrow> (Inl err, e)
           | Accepted \<Rightarrow>
               if ecu_client e then ecu_accept_clients as e
               else ecu_accept_clients as (e\<lparr>ecu_client := True\<rparr>))"

definition handle_line :: "string \<Rightarrow> ecu_io \<Rightarrow> ecu_io" where
  "handle_line line e =
     (case split_once CHR ''='' line of
        None \<Rightarrow> e
      | Some (name, v) \<Rightarrow>
          (case parse_i32 (str_trim v) of
             None \<Rightarrow> e
           | Some v \<Rightarrow> set_value (str_trim name) v e))"

lemma handle_line_recv_buffer [simp]: "recv_buffer (handle_line line e) = recv_buffer e"
  by (auto simp: handle_line_def set_value_def split: option.split)

function process_complete_lines :: "ecu_io \<Rightarrow> ecu_io" where
  "process_complete_lines e =
     (if 10 \<in> set (recv_buffer e) then
        let raw = takeWhile (\<lambda>b. b \<noteq> 10) (recv_buffer e);
            e = e\<lparr>recv_buffer := drop (length raw + 1) (recv_buffer e)\<rparr>;
            line = str_trim (utf8_lossy (from_bytes raw))
        in process_complete_lines (if line \<noteq> [] then handle_line line e else e)
      else e)"
  by auto
termination
  by (relation "measure (\<lambda>e. length (recv_buffer e))") (auto intro!: diff_less intro: length_pos_if_in_set)

declare process_complete_lines.simps [simp del]

fun ecu_receive_loop :: "read_result list \<Rightarrow> ecu_io \<Rightarrow> bool fallible \<times> ecu_io" where
  "ecu_receive_loop [] e = (Inr False, e)"
| "ecu_receive_loop (r # rs) e =
     (case r of
        ReadBytes bytes \<Rightarrow>
          if bytes = [] then (Inr True, e)
          else ecu_receive_loop rs
                 (e\<lparr>recv_buffer := push_capped_vec (recv_buffer e) bytes MAX_BUFFERED_BYTES\<rparr>)
      | ReadReset \<Rightarrow> (Inr True, e)
      | ReadError err \<Rightarrow> (Inl err, e))"

definition ecu_receive_from_client :: "read_result list \<Rightarrow> ecu_io \<Rightarrow> unit fallible \<times> ecu_io" where
  "ecu_receive_from_client rs e =
     (case (if ecu_client e then ecu_receive_loop rs e else (Inr False, e)) of
        (Inl err, e) \<Rightarrow> (Inl err, e)
      | (Inr disconnected, e) \<Rightarrow>
          (Inr (), process_complete_lines (if disconnected then e\<lparr>ecu_client := False\<rparr> else e)))"

fun ecu_send_loop :: "write_result list \<Rightarrow> ecu_io \<Rightarrow> bool fallible \<times> ecu_io" where
  "ecu_send_loop [] e = (Inr False, e)"
| "ecu_send_loop (r # rs) e =
     (if outgoing e = [] then (Inr False, e)
      else case r of
        Wrote n \<Rightarrow>
          if n = 0 then (Inr True, e) else ecu_send_loop rs (e\<lparr>outgoing := drop n (outgoing e)\<rparr>)
      | WriteReset \<Rightarrow> (Inr True, e)
      | WriteError err \<Rightarrow> (Inl err, e))"

definition ecu_send_to_client :: "write_result list \<Rightarrow> ecu_io \<Rightarrow> unit fallible \<times> ecu_io" where
  "ecu_send_to_client rs e =
     (case (if ecu_client e then ecu_send_loop rs e else (Inr False, e)) of
        (Inl err, e) \<Rightarrow> (Inl err, e)
      | (Inr disconnected, e) \<Rightarrow> (Inr (), if disconnected then e\<lparr>ecu_client := False\<rparr> else e))"

definition ecu_poll ::
  "accept_result list \<Rightarrow> read_result list \<Rightarrow> write_result list \<Rightarrow> ecu_io \<Rightarrow> unit fallible \<times> ecu_io" where
  "ecu_poll as rs ws e =
     (case ecu_embedded e of
        Some link \<Rightarrow>
          let (inputs, link) = take_inputs link
          in (Inr (), fold (\<lambda>(name, v). set_value name v) inputs (e\<lparr>ecu_embedded := Some link\<rparr>))
      | None \<Rightarrow>
          (case ecu_accept_clients as e of
             (Inl err, e) \<Rightarrow> (Inl err, e)
           | (Inr _, e) \<Rightarrow>
               (case ecu_receive_from_client rs e of
                  (Inl err, e) \<Rightarrow> (Inl err, e)
                | (Inr _, e) \<Rightarrow> ecu_send_to_client ws e)))"

definition ecu_drop :: "ecu_io \<Rightarrow> ecu_io" where
  "ecu_drop e = e\<lparr>ecu_embedded := map_option io_detach_device (ecu_embedded e)\<rparr>"


section \<open>Capped buffers\<close>

lemma push_capped_vec_last_n: "push_capped_vec buf bs cap = last_n cap (buf @ bs)"
  by (auto simp: push_capped_vec_def last_n_def Let_def)

lemma push_capped_deque_bytes: "push_capped_deque q bs cap = push_capped_bytes q bs cap"
  by (induction bs arbitrary: q) simp_all

interpretation ecu_recv: capped_queue "\<lambda>bs (q, c). (push_capped_vec q bs c, c)" fst snd
  by unfold_locales (auto simp: push_capped_vec_last_n)

interpretation ecu_outgoing: capped_queue "\<lambda>bs (q, c). (push_capped_deque q bs c, c)" fst snd
  by unfold_locales (auto simp: push_capped_deque_bytes push_capped_bytes_last_n)

section \<open>Lines\<close>

text \<open>Processing a complete line first, and the rest after it.\<close>

definition process_line :: "u8 list \<Rightarrow> ecu_io \<Rightarrow> ecu_io" where
  "process_line raw e =
     (let line = str_trim (utf8_lossy (from_bytes raw)) in if line \<noteq> [] then handle_line line e else e)"

lemma process_step:
  "10 \<notin> set raw \<Longrightarrow> recv_buffer e = raw @ 10 # rest \<Longrightarrow>
   process_complete_lines e = process_complete_lines (process_line raw (e\<lparr>recv_buffer := rest\<rparr>))"
proof -
  assume raw: "10 \<notin> set raw" and e: "recv_buffer e = raw @ 10 # rest"
  then have "takeWhile (\<lambda>b. b \<noteq> 10) (recv_buffer e) = raw" by (simp add: takeWhile_append)
  then show ?thesis using e
    by (subst process_complete_lines.simps) (simp add: process_line_def Let_def)
qed

lemma process_none: "10 \<notin> set (recv_buffer e) \<Longrightarrow> process_complete_lines e = e"
  by (subst process_complete_lines.simps) simp

lemma process_line_frame [simp]: "recv_buffer (process_line raw e) = recv_buffer e"
  by (simp add: process_line_def Let_def)

lemma process_line_update [simp]:
  "process_line raw (e\<lparr>recv_buffer := b\<rparr>) = (process_line raw e)\<lparr>recv_buffer := b\<rparr>"
  by (auto simp: process_line_def Let_def handle_line_def set_value_def split: option.split)

lemma fold_process_line_update:
  "fold process_line ls (e\<lparr>recv_buffer := b\<rparr>) = (fold process_line ls e)\<lparr>recv_buffer := b\<rparr>"
  by (induction ls arbitrary: e) simp_all

text \<open>What is left in the buffer is the unfinished line.\<close>

fun split_lines :: "u8 list \<Rightarrow> u8 list \<Rightarrow> u8 list list \<times> u8 list" where
  "split_lines acc [] = ([], acc)"
| "split_lines acc (b # bs) =
     (if b = 10 then (let (ls, r) = split_lines [] bs in (acc # ls, r)) else split_lines (acc @ [b]) bs)"

lemma split_lines_append:
  "split_lines acc (xs @ ys) =
     (let (ls, r) = split_lines acc xs; (ls', r') = split_lines r ys in (ls @ ls', r'))"
  by (induction xs arbitrary: acc) (auto simp: case_prod_unfold Let_def)

lemma process_lines_eq:
  "10 \<notin> set acc \<Longrightarrow> recv_buffer e = acc @ bs \<Longrightarrow> split_lines acc bs = (ls, r) \<Longrightarrow>
   process_complete_lines e = (fold process_line ls e)\<lparr>recv_buffer := r\<rparr>"
proof (induction bs arbitrary: acc e ls)
  case Nil
  then show ?case by (simp add: process_none)
next
  case (Cons b bs)
  show ?case
  proof (cases "b = 10")
    case True
    with Cons.prems(3) obtain ls' where ls: "ls = acc # ls'" "split_lines [] bs = (ls', r)"
      by (cases "split_lines [] bs") auto
    have "process_complete_lines e = process_complete_lines (process_line acc (e\<lparr>recv_buffer := bs\<rparr>))"
      using Cons.prems(1,2) by (intro process_step) (simp_all add: True)
    also have "\<dots> = (fold process_line ls' (process_line acc (e\<lparr>recv_buffer := bs\<rparr>)))\<lparr>recv_buffer := r\<rparr>"
      by (rule Cons.IH [OF _ _ ls(2)]) simp_all
    finally show ?thesis by (simp add: ls fold_process_line_update)
  next
    case False
    with Cons.prems show ?thesis by (intro Cons.IH [of "acc @ [b]"]) simp_all
  qed
qed

lemma split_lines_rest: "10 \<notin> set acc \<Longrightarrow> split_lines acc bs = (ls, r) \<Longrightarrow> 10 \<notin> set r"
proof (induction acc bs arbitrary: ls r rule: split_lines.induct)
  case (2 acc b bs)
  then show ?case by (cases "b = 10"; cases "split_lines [] bs") auto
qed simp


lemma receive_loop_chunks:
  "\<forall>c \<in> set cs. c \<noteq> [] \<Longrightarrow> length (recv_buffer e) \<le> MAX_BUFFERED_BYTES \<Longrightarrow>
   ecu_receive_loop (map ReadBytes cs) e =
     (Inr False, e\<lparr>recv_buffer := last_n MAX_BUFFERED_BYTES (recv_buffer e @ concat cs)\<rparr>)"
proof (induction cs arbitrary: e)
  case (Cons c cs)
  then show ?case
    by (simp add: push_capped_vec_last_n last_n_append_last_n)
qed simp

lemma receive_fits:
  assumes "ecu_client e" "\<forall>c \<in> set cs. c \<noteq> []"
    and "length (recv_buffer e) + length (concat cs) \<le> MAX_BUFFERED_BYTES"
  shows "ecu_receive_from_client (map ReadBytes cs) e =
    (Inr (), process_complete_lines (e\<lparr>recv_buffer := recv_buffer e @ concat cs\<rparr>))"
  using assms receive_loop_chunks [of cs e] by (simp add: ecu_receive_from_client_def)

lemma process_line_client [simp]: "ecu_client (process_line raw e) = ecu_client e"
  by (auto simp: process_line_def Let_def handle_line_def set_value_def split: option.split)

lemma fold_process_line_client [simp]: "ecu_client (fold process_line ls e) = ecu_client e"
  by (induction ls arbitrary: e) simp_all

lemma process_lines_split:
  "split_lines [] (recv_buffer e) = (ls, r) \<Longrightarrow>
   process_complete_lines e = (fold process_line ls e)\<lparr>recv_buffer := r\<rparr>"
  by (rule process_lines_eq [of "[]"]) simp_all

text \<open>Trimming returns a part of its argument, so a name that trims to itself is stripped nowhere.\<close>

lemma strip_any_drop: "\<exists>n. strip_any ws s = drop n s"
proof (induction ws s rule: strip_any.induct)
  case (1 ws s)
  show ?case
  proof (cases "find (\<lambda>w. w \<noteq> [] \<and> starts_with s w) ws")
    case None
    then show ?thesis by (intro exI [of _ 0]) (simp add: strip_any_none)
  next
    case (Some w)
    with 1 obtain n where "strip_any ws (drop (length w) s) = drop n (drop (length w) s)" by blast
    with Some show ?thesis by (subst strip_any.simps) auto
  qed
qed

lemma str_trim_fixed: "str_trim s = s \<Longrightarrow> strip_any WHITE_SPACE s = s"
proof -
  assume s: "str_trim s = s"
  obtain n where n: "strip_any WHITE_SPACE s = drop n s" using strip_any_drop by blast
  obtain m where m: "strip_any (map rev WHITE_SPACE) (rev (drop n s)) = drop m (rev (drop n s))"
    using strip_any_drop by blast
  have "length (str_trim s) \<le> length s - n" by (simp add: str_trim_def n m)
  then have "n = 0 \<or> s = []" using s by (cases s) simp_all
  then show ?thesis using n by auto
qed

lemma str_trim_number: "str_trim (show_int v) = show_int v"
proof -
  obtain c cs where c: "show_int v = c # cs" using show_int_chars [of v] by (cases "show_int v") auto
  have "\<forall>c \<in> set (show_int v). char_in 33 c 126" using show_int_chars [of v] by (auto simp: char_in_def)
  moreover have "strip_any WHITE_SPACE ([] :: string) = []"
    by (rule strip_any_none) (simp add: find_None_iff starts_with_def)
  ultimately have left: "strip_any WHITE_SPACE (show_int v) = show_int v"
    using strip_white_left [of "[]" c cs] by (simp add: c)
  obtain d ds where d: "show_int v = ds @ [d]" using show_int_chars [of v] by (cases "show_int v" rule: rev_cases) auto
  then have "char_in 33 d 126" using \<open>\<forall>c \<in> set (show_int v). char_in 33 c 126\<close> by simp
  then show ?thesis unfolding str_trim_def left using strip_white_right [of d "rev ds"] by (simp add: d)
qed

text \<open>A printed line is understood as the assignment it prints.\<close>

lemma process_output_line:
  assumes "CHR ''='' \<notin> set name" "utf8_lossy name = name" "str_trim name = name"
    and v: "- (2 ^ 31) \<le> v" "v < 2 ^ 31"
  shows "process_line (into_bytes (name @ ''='' @ show_int v)) e = set_value name v e"
proof -
  let ?line = "name @ CHR ''='' # show_int v"
  have lossy: "utf8_lossy ?line = ?line"
  proof -
    have "utf8_lossy (show_int v) = show_int v"
      using show_int_chars [of v] by (intro utf8_lossy_ascii) (auto simp: char_in_def)
    then show ?thesis using utf8_lossy_append_ascii [of "CHR ''=''" name "show_int v"] assms(2) by simp
  qed
  obtain ds d where d: "show_int v = ds @ [d]" "char_in 33 d 126"
    using show_int_chars [of v] by (cases "show_int v" rule: rev_cases) (auto simp: char_in_def)
  have trim: "str_trim ?line = ?line"
    using str_trim_ends [OF str_trim_fixed [OF assms(3)] _ d(2), of "CHR ''=''" ds]
    by (simp add: d(1) char_in_def)
  have "parse_i32 (show_int v) = Some v"
    unfolding parse_i32_def using v by (intro parse_show_int) simp_all
  then have "handle_line ?line e = set_value name v e"
    by (simp add: handle_line_def split_once_append [OF assms(1)] str_trim_number assms(3))
  then show ?thesis by (simp add: process_line_def Let_def lossy trim)
qed

lemma newline_free: "CHR 0x0A \<notin> set s \<Longrightarrow> 10 \<notin> set (into_bytes s)"
proof
  assume s: "CHR 0x0A \<notin> set s" and "10 \<in> set (into_bytes s)"
  then obtain c where c: "c \<in> set s" "of_char c = (10 :: u8)" by (auto simp: into_bytes_def)
  have "char_of (unat (of_char c :: u8)) = c" using from_into_bytes [of "[c]"] by (simp add: from_bytes_def into_bytes_def)
  then have "c = char_of (10 :: nat)" by (simp add: c(2))
  also have "\<dots> = CHR 0x0A" by code_simp
  finally show False using s c(1) by simp
qed

lemma split_lines_length: "split_lines acc bs = (ls, r) \<Longrightarrow> length r \<le> length acc + length bs"
proof (induction acc bs arbitrary: ls r rule: split_lines.induct)
  case (2 acc b bs)
  then show ?case by (cases "b = 10"; cases "split_lines [] bs") fastforce+
qed simp

lemma split_lines_one: "10 \<notin> set bs \<Longrightarrow> split_lines acc (bs @ [10]) = ([acc @ bs], [])"
  by (induction bs arbitrary: acc) auto


section \<open>Edges\<close>

definition last_level :: "string \<Rightarrow> ecu_io \<Rightarrow> bool" where
  "last_level name e = (case last_digital_levels e name of None \<Rightarrow> False | Some l \<Rightarrow> l)"

text \<open>The inputs whose level is not the one delivered last, and the delivery of a list of edges.\<close>

definition changed_inputs :: "ecu_io \<Rightarrow> (pin \<times> string) list" where
  "changed_inputs e = filter (\<lambda>(p, name). digital_level name e \<noteq> last_level name e) (digital_input_pins e)"

fun deliver :: "(pin \<times> bool) list \<Rightarrow> exti \<times> nvic \<Rightarrow> exti \<times> nvic" where
  "deliver [] s = s"
| "deliver ((p, level) # es) (x, n) =
     (case raise_line_if_configured (pin_port p) (pin_number p) level x of
        (None, x) \<Rightarrow> deliver es (x, n)
      | (Some irq, x) \<Rightarrow> deliver es (x, n\<lparr>pending := pending n OR bit_mask (nat (irq + 16))\<rparr>))"

lemma raise_line_irq:
  "raise_line_if_configured port pin level x = (Some irq, x') \<Longrightarrow>
   set_intr_pending irq n = Inr (n\<lparr>pending := pending n OR bit_mask (nat (irq + 16))\<rparr>)"
  by (rule set_intr_pending_ok)
    (auto simp: raise_line_if_configured_def irq_for_line_def Let_def split: if_splits)

definition see_level :: "string \<Rightarrow> ecu_io \<Rightarrow> ecu_io" where
  "see_level name e = e\<lparr>last_digital_levels := (last_digital_levels e)(name \<mapsto> digital_level name e)\<rparr>"

lemma see_level_simps [simp]:
  "digital_level m (see_level name e) = digital_level m e"
  "ecu_value m (see_level name e) = ecu_value m e"
  "last_level m (see_level name e) = (if m = name then digital_level name e else last_level m e)"
  "digital_input_pins (see_level name e) = digital_input_pins e"
  by (simp_all add: see_level_def digital_level_def ecu_value_def last_level_def)

lemma check_edges_cons:
  "check_edges ((p, name) # ps) (e, x, n) =
     (if digital_level name e \<noteq> last_level name e
      then let (x, n) = deliver [(p, digital_level name e)] (x, n) in check_edges ps (see_level name e, x, n)
      else check_edges ps (e, x, n))"
proof (cases "digital_level name e \<noteq> last_level name e")
  case True
  obtain irq x' where r: "raise_line_if_configured (pin_port p) (pin_number p) (digital_level name e) x = (irq, x')"
    by (cases "raise_line_if_configured (pin_port p) (pin_number p) (digital_level name e) x")
  with True show ?thesis
    by (cases irq) (simp_all add: digital_level_def last_level_def see_level_def raise_line_irq Let_def)
qed (simp add: digital_level_def last_level_def Let_def)

lemma check_edges_eq:
  "distinct (map snd ps) \<Longrightarrow>
   check_edges ps (e, x, n) =
     (let ch = filter (\<lambda>(p, name). digital_level name e \<noteq> last_level name e) ps;
          (x, n) = deliver (map (\<lambda>(p, name). (p, digital_level name e)) ch) (x, n)
      in Inr (fold (\<lambda>(p, name). see_level name) ch e, x, n))"
proof (induction ps arbitrary: e x n)
  case (Cons q ps)
  obtain p name where q: "q = (p, name)" by (cases q)
  have frame: "filter (\<lambda>(p, m). digital_level m (see_level name e) \<noteq> last_level m (see_level name e)) ps =
      filter (\<lambda>(p, m). digital_level m e \<noteq> last_level m e) ps"
    using Cons.prems by (intro filter_cong) (force simp: q)+
  show ?case
  proof (cases "digital_level name e \<noteq> last_level name e")
    case True
    obtain x' n' where d: "deliver [(p, digital_level name e)] (x, n) = (x', n')"
      by (cases "deliver [(p, digital_level name e)] (x, n)")
    have "deliver ((p, digital_level name e) # es) (x, n) = deliver es (x', n')" for es
      using d by (auto split: prod.splits option.splits)
    moreover have "check_edges ps (see_level name e, x', n') =
        (let ch = filter (\<lambda>(p, m). digital_level m e \<noteq> last_level m e) ps
         in Inr (fold (\<lambda>(p, name). see_level name) ch (see_level name e),
                 deliver (map (\<lambda>(p, name). (p, digital_level name e)) ch) (x', n')))"
      using Cons.IH [of "see_level name e" x' n', unfolded frame] Cons.prems by (simp add: q Let_def)
    ultimately show ?thesis using True
      by (simp add: q check_edges_cons d Let_def del: check_edges.simps deliver.simps(2))
  next
    case False
    with Cons show ?thesis by (simp add: q check_edges_cons del: check_edges.simps)
  qed
qed simp

lemma fold_see_level:
  "digital_level m (fold (\<lambda>(p, name). see_level name) ps e) = digital_level m e"
  "last_level m (fold (\<lambda>(p, name). see_level name) ps e) =
     (if m \<in> snd ` set ps then digital_level m e else last_level m e)"
  "digital_input_pins (fold (\<lambda>(p, name). see_level name) ps e) = digital_input_pins e"
  by (induction ps arbitrary: e) auto

lemma check_digital_edges_eq:
  "distinct (map snd (digital_input_pins e)) \<Longrightarrow>
   check_digital_edges (e, x, n) =
     Inr (fold (\<lambda>(p, name). see_level name) (changed_inputs e) e,
          deliver (map (\<lambda>(p, name). (p, digital_level name e)) (changed_inputs e)) (x, n))"
  by (simp add: check_digital_edges_def check_edges_eq changed_inputs_def Let_def)

section \<open>Properties\<close>

text \<open>C26: Print and parse round trip of the line protocol. The line a harness writes for a signal
  (\<open>name=value\<close> and a newline, any \<open>i32\<close>), received by a harness that knows the name, in any number
  of reads of any sizes, sets exactly that signal to that value, leaves nothing in the buffer and
  reports no error.\<close>

theorem ecu_line_round_trip:
  assumes name: "CHR ''='' \<notin> set name" "CHR 0x0A \<notin> set name" "utf8_lossy name = name" "str_trim name = name"
    and v: "- (2 ^ 31) \<le> v" "v < 2 ^ 31"
    and e: "ecu_client e" "recv_buffer e = []" "name \<in> known_names e"
    and cs: "concat cs = output_line name v" "\<forall>c \<in> set cs. c \<noteq> []" "length (output_line name v) \<le> MAX_BUFFERED_BYTES"
  shows "ecu_receive_from_client (map ReadBytes cs) e =
    (Inr (), e\<lparr>ecu_values := (ecu_values e)(name \<mapsto> v)\<rparr>)"
proof -
  let ?raw = "into_bytes (name @ ''='' @ show_int v)"
  have line: "output_line name v = ?raw @ [10]" by (simp add: output_line_def into_bytes_def)
  have "CHR 0x0A \<notin> set (name @ ''='' @ show_int v)"
    using name(2) show_int_chars [of v] by (auto simp: char_in_def)
  then have split: "split_lines [] (?raw @ [10]) = ([?raw], [])"
    using split_lines_one [of ?raw "[]"] by (simp add: newline_free)
  have "ecu_receive_from_client (map ReadBytes cs) e =
      (Inr (), process_complete_lines (e\<lparr>recv_buffer := ?raw @ [10]\<rparr>))"
    using receive_fits [OF e(1) cs(2)] cs(1,3) by (simp add: e(2) line)
  also have "process_complete_lines (e\<lparr>recv_buffer := ?raw @ [10]\<rparr>) =
      (process_line ?raw (e\<lparr>recv_buffer := ?raw @ [10]\<rparr>))\<lparr>recv_buffer := []\<rparr>"
    using process_lines_split [of "e\<lparr>recv_buffer := ?raw @ [10]\<rparr>"] split by simp
  also have "\<dots> = (set_value name v e)\<lparr>recv_buffer := []\<rparr>"
    by (simp only: process_line_update process_output_line [OF name(1,3,4) v]) simp
  also have "\<dots> = e\<lparr>ecu_values := (ecu_values e)(name \<mapsto> v)\<rparr>"
    using e(2,3) by (simp add: set_value_def)
  finally show ?thesis .
qed

text \<open>C25: How TCP cuts the stream into reads and polls does not matter. As long as the buffer is not
  overrun, receiving some reads in one poll and the rest in a later one ends in the same state as
  receiving them all at once: every complete line has been handled, in order, and the unfinished
  rest waits in the buffer.\<close>

theorem ecu_chunking:
  assumes "ecu_client e" "\<forall>c \<in> set (cs @ ds). c \<noteq> []"
    and "length (recv_buffer e) + length (concat (cs @ ds)) \<le> MAX_BUFFERED_BYTES"
    and first: "ecu_receive_from_client (map ReadBytes cs) e = (res, e1)"
  shows "ecu_receive_from_client (map ReadBytes ds) e1 = ecu_receive_from_client (map ReadBytes (cs @ ds)) e \<and>
    (\<forall>ls r. split_lines [] (recv_buffer e @ concat (cs @ ds)) = (ls, r) \<longrightarrow>
       ecu_receive_from_client (map ReadBytes (cs @ ds)) e = (Inr (), (fold process_line ls e)\<lparr>recv_buffer := r\<rparr>))"
proof -
  obtain ls r where s1: "split_lines [] (recv_buffer e @ concat cs) = (ls, r)"
    by (cases "split_lines [] (recv_buffer e @ concat cs)")
  obtain ls' r' where s2: "split_lines r (concat ds) = (ls', r')" by (cases "split_lines r (concat ds)")
  have r: "10 \<notin> set r" by (rule split_lines_rest [OF _ s1]) simp
  have s: "split_lines [] (recv_buffer e @ concat (cs @ ds)) = (ls @ ls', r')"
    using split_lines_append [of "[]" "recv_buffer e @ concat cs" "concat ds"] by (simp add: s1 s2)
  have all: "ecu_receive_from_client (map ReadBytes (cs @ ds)) e =
      (Inr (), (fold process_line (ls @ ls') e)\<lparr>recv_buffer := r'\<rparr>)"
    using receive_fits [OF assms(1-3)] process_lines_split [of "e\<lparr>recv_buffer := recv_buffer e @ concat (cs @ ds)\<rparr>"] s
    by (simp add: fold_process_line_update)
  have e1: "e1 = (fold process_line ls e)\<lparr>recv_buffer := r\<rparr>"
    using first receive_fits [of e cs] assms(1-3) s1
      process_lines_split [of "e\<lparr>recv_buffer := recv_buffer e @ concat cs\<rparr>"]
    by (simp add: fold_process_line_update)
  have "length r \<le> length (recv_buffer e @ concat cs)"
    using split_lines_length [OF s1] by simp
  then have "ecu_receive_from_client (map ReadBytes ds) e1 =
      (Inr (), process_complete_lines (e1\<lparr>recv_buffer := r @ concat ds\<rparr>))"
    using receive_fits [of e1 ds] assms(1-3) by (simp add: e1)
  also have "\<dots> = (Inr (), (fold process_line (ls @ ls') e)\<lparr>recv_buffer := r'\<rparr>)"
    using process_lines_eq [OF r, of "e1\<lparr>recv_buffer := r @ concat ds\<rparr>" "concat ds", OF _ s2]
    by (simp add: e1 fold_process_line_update)
  finally show ?thesis using all s by simp
qed


text \<open>C27: Every input edge is delivered exactly once. A check never panics; it raises, in pin order, one
  edge for each input whose level differs from the one last delivered and none for the others; after
  it the levels delivered are the levels present, so a second check, whatever the controllers went
  through in between, raises nothing.\<close>

theorem edges_delivered_once:
  assumes "distinct (map snd (digital_input_pins e))"
  shows "\<exists>e'. check_digital_edges (e, x, n) =
      Inr (e', deliver (map (\<lambda>(p, name). (p, digital_level name e)) (changed_inputs e)) (x, n)) \<and>
    (\<forall>name. digital_level name e' = digital_level name e) \<and>
    (\<forall>name \<in> snd ` set (digital_input_pins e). last_level name e' = digital_level name e) \<and>
    (\<forall>x' n'. check_digital_edges (e', x', n') = Inr (e', x', n'))"
proof -
  let ?e = "fold (\<lambda>(p, name). see_level name) (changed_inputs e) e"
  have last: "last_level name ?e = digital_level name e" if "name \<in> snd ` set (digital_input_pins e)" for name
    using that by (auto simp: fold_see_level changed_inputs_def image_iff)
  then have "changed_inputs ?e = []"
    by (auto simp: changed_inputs_def fold_see_level filter_empty_conv image_iff)
  then have again: "check_digital_edges (?e, x', n') = Inr (?e, x', n')" for x' n'
    using check_digital_edges_eq [of ?e x' n'] assms by (simp add: fold_see_level(3))
  show ?thesis
  proof (intro exI [of _ ?e] conjI)
    show "check_digital_edges (e, x, n) =
        Inr (?e, deliver (map (\<lambda>(p, name). (p, digital_level name e)) (changed_inputs e)) (x, n))"
      by (rule check_digital_edges_eq [OF assms])
  qed (simp_all add: fold_see_level(1) last again)
qed

section \<open>The values a harness can hold\<close>

definition is_i32 :: "int \<Rightarrow> bool" where
  "is_i32 v \<longleftrightarrow> - (2 ^ 31) \<le> v \<and> v < 2 ^ 31"

definition typed_values :: "string set \<Rightarrow> (string \<rightharpoonup> int) \<Rightarrow> bool" where
  "typed_values names m \<longleftrightarrow> (\<forall>name v. m name = Some v \<longrightarrow> name \<in> names \<and> is_i32 v)"

lemma typed_values_upd [simp]:
  "typed_values names m \<Longrightarrow> name \<in> names \<Longrightarrow> is_i32 v \<Longrightarrow> typed_values names (m(name \<mapsto> v))"
  by (simp add: typed_values_def)

lemma is_i32_of_bool [simp]: "is_i32 (of_bool b)"
  by (cases b) (simp_all add: is_i32_def)

text \<open>The names with a value are those of the configuration: the known ones, and the pin the wheel drives.\<close>

definition all_names :: "ecu_io_config \<Rightarrow> string set" where
  "all_names config = ecu_known_names config \<union>
     set (case ecu_wheel_config config of None \<Rightarrow> [] | Some t \<Rightarrow> [wheel_pin_signal t])"

definition typed_link :: "io_state \<Rightarrow> bool" where
  "typed_link link \<longleftrightarrow> length (pending_inputs link) \<le> MAX_PENDING_INPUTS \<and>
     length (output_events link) \<le> MAX_PENDING_OUTPUT_EVENTS \<and> (\<forall>(name, v) \<in> set (pending_inputs link). is_i32 v)"

fun typed_wheel :: "ecu_io_config \<Rightarrow> trigger_wheel option \<Rightarrow> bool" where
  "typed_wheel config None \<longleftrightarrow> ecu_wheel_config config = None"
| "typed_wheel config (Some w) \<longleftrightarrow> ecu_wheel_config config = Some (wheel_cfg w) \<and> wheel_ok w"

definition typed_ecu :: "ecu_io \<Rightarrow> bool" where
  "typed_ecu e \<longleftrightarrow>
     known_names e = ecu_known_names (ecu_config e) \<and> typed_values (all_names (ecu_config e)) (ecu_values e) \<and>
     length (recv_buffer e) \<le> MAX_BUFFERED_BYTES \<and> length (outgoing e) \<le> MAX_BUFFERED_BYTES \<and>
     pred_option typed_link (ecu_embedded e) \<and> typed_wheel (ecu_config e) (ecu_trigger_wheel e)"

text \<open>The steps of a harness: its own operations, and the host's on the link.\<close>

inductive ecu_step :: "ecu_io \<Rightarrow> ecu_io \<Rightarrow> bool" where
  step_poll: "ecu_step e (snd (ecu_poll as rs ws e))"
| step_wheel: "ecu_step e (advance_trigger_wheel now e)"
| step_edges: "check_digital_edges (e, x, n) = Inr (e', x', n') \<Longrightarrow> ecu_step e e'"
| step_output: "name \<in> set (map pc_name (ecu_pins (ecu_config e))) \<Longrightarrow> ecu_step e (report_output now name level e)"
| step_input: "ecu_embedded e = Some link \<Longrightarrow> is_i32 v \<Longrightarrow>
    ecu_step e (e\<lparr>ecu_embedded := Some (set_input name v link)\<rparr>)"
| step_drain: "ecu_embedded e = Some link \<Longrightarrow>
    ecu_step e (e\<lparr>ecu_embedded := Some (snd (take_output_events link))\<rparr>)"
| step_drop: "ecu_step e (ecu_drop e)"

inductive ecu_reach :: "ecu_io \<Rightarrow> bool" where
  reach_new: "ecu_new config link bind = Inr (Inr e) \<Longrightarrow> link = None \<or> link = Some io_link_new \<Longrightarrow> ecu_reach e"
| reach_step: "ecu_reach e \<Longrightarrow> ecu_step e e' \<Longrightarrow> ecu_reach e'"

lemma typed_set_value: "typed_ecu e \<Longrightarrow> is_i32 v \<Longrightarrow> typed_ecu (set_value name v e)"
  by (auto simp: typed_ecu_def set_value_def all_names_def split: option.splits)

lemma parse_i32_range: "parse_i32 s = Some v \<Longrightarrow> is_i32 v"
  by (auto simp: parse_i32_def parse_int_def is_i32_def Let_def split: if_splits option.splits list.splits prod.splits)

lemma typed_handle_line: "typed_ecu e \<Longrightarrow> typed_ecu (handle_line line e)"
  by (auto simp: handle_line_def parse_i32_range intro: typed_set_value split: option.splits)

lemma typed_recv: "typed_ecu e \<Longrightarrow> length b \<le> MAX_BUFFERED_BYTES \<Longrightarrow> typed_ecu (e\<lparr>recv_buffer := b\<rparr>)"
  by (simp add: typed_ecu_def)

lemma typed_client: "typed_ecu e \<Longrightarrow> typed_ecu (e\<lparr>ecu_client := c\<rparr>)"
  by (simp add: typed_ecu_def)

lemma typed_process_line: "typed_ecu e \<Longrightarrow> typed_ecu (process_line raw e)"
  by (simp add: process_line_def typed_handle_line Let_def)

lemma typed_process: "typed_ecu e \<Longrightarrow> typed_ecu (process_complete_lines e)"
proof -
  assume e: "typed_ecu e"
  obtain ls r where s: "split_lines [] (recv_buffer e) = (ls, r)" by (cases "split_lines [] (recv_buffer e)")
  have "typed_ecu (fold process_line ls e)"
    using e by (induction ls arbitrary: e) (simp_all add: typed_process_line)
  moreover have "length r \<le> MAX_BUFFERED_BYTES"
    using split_lines_length [OF s] e by (simp add: typed_ecu_def)
  ultimately show ?thesis unfolding process_lines_split [OF s] by (rule typed_recv)
qed

lemma typed_accept: "typed_ecu e \<Longrightarrow> typed_ecu (snd (ecu_accept_clients as e))"
  by (induction as e rule: ecu_accept_clients.induct) (auto simp: typed_client split: accept_result.split)

lemma typed_receive_loop: "typed_ecu e \<Longrightarrow> typed_ecu (snd (ecu_receive_loop rs e))"
proof (induction rs e rule: ecu_receive_loop.induct)
  case (2 r rs e)
  have "typed_ecu (e\<lparr>recv_buffer := push_capped_vec (recv_buffer e) bs MAX_BUFFERED_BYTES\<rparr>)" for bs
    using 2(2) by (intro typed_recv) (simp_all add: push_capped_vec_last_n)
  with 2 show ?case by (cases r) auto
qed simp

lemma typed_receive: "typed_ecu e \<Longrightarrow> typed_ecu (snd (ecu_receive_from_client rs e))"
  using typed_receive_loop [of e rs]
  by (auto simp: ecu_receive_from_client_def typed_process typed_client split: sum.split prod.split)

lemma typed_outgoing: "typed_ecu e \<Longrightarrow> length b \<le> MAX_BUFFERED_BYTES \<Longrightarrow> typed_ecu (e\<lparr>outgoing := b\<rparr>)"
  by (simp add: typed_ecu_def)

lemma typed_send_loop: "typed_ecu e \<Longrightarrow> typed_ecu (snd (ecu_send_loop rs e))"
proof (induction rs e rule: ecu_send_loop.induct)
  case (2 r rs e)
  have "typed_ecu (e\<lparr>outgoing := drop n (outgoing e)\<rparr>)" for n
    using 2(2) by (intro typed_outgoing) (auto simp: typed_ecu_def)
  with 2 show ?case by (cases r) auto
qed simp

lemma typed_send: "typed_ecu e \<Longrightarrow> typed_ecu (snd (ecu_send_to_client rs e))"
  using typed_send_loop [of e rs]
  by (auto simp: ecu_send_to_client_def typed_client split: sum.split prod.split)

lemma typed_link_upd: "typed_ecu e \<Longrightarrow> typed_link l \<Longrightarrow> typed_ecu (e\<lparr>ecu_embedded := Some l\<rparr>)"
  by (simp add: typed_ecu_def)

lemma typed_inputs:
  "typed_ecu e \<Longrightarrow> \<forall>(name, v) \<in> set inputs. is_i32 v \<Longrightarrow> typed_ecu (fold (\<lambda>(name, v). set_value name v) inputs e)"
  by (induction inputs arbitrary: e) (auto simp: typed_set_value)

lemma typed_poll: "typed_ecu e \<Longrightarrow> typed_ecu (snd (ecu_poll as rs ws e))"
proof (cases "ecu_embedded e")
  case None
  assume "typed_ecu e"
  then have "typed_ecu (snd (ecu_accept_clients as e))" by (rule typed_accept)
  moreover from this have "typed_ecu (snd (ecu_receive_from_client rs (snd (ecu_accept_clients as e))))"
    by (rule typed_receive)
  ultimately show ?thesis using None typed_send
    by (auto simp: ecu_poll_def split: sum.split prod.split)
next
  case (Some link)
  assume e: "typed_ecu e"
  then have "typed_link link" by (simp add: typed_ecu_def Some)
  then have "typed_link (link\<lparr>pending_inputs := []\<rparr>)" "\<forall>(name, v) \<in> set (pending_inputs link). is_i32 v"
    by (simp_all add: typed_link_def)
  then show ?thesis using typed_inputs [OF typed_link_upd [OF e]]
    by (simp add: ecu_poll_def Some take_inputs_def)
qed

lemma typed_publish: "typed_link l \<Longrightarrow> typed_link (publish_output now name v angle l)"
  by (auto simp: typed_link_def publish_output_def Let_def MAX_PENDING_OUTPUT_EVENTS_def)

lemma length_push_capped_deque:
  "0 < cap \<Longrightarrow> length q \<le> cap \<Longrightarrow> length (push_capped_deque q bs cap) \<le> cap"
  by (simp add: push_capped_deque_bytes push_capped_bytes_last_n)

lemma typed_output:
  assumes "typed_ecu e" "name \<in> set (map pc_name (ecu_pins (ecu_config e)))"
  shows "typed_ecu (report_output now name level e)"
proof -
  have "name \<in> all_names (ecu_config e)" using assms(2) by (simp add: all_names_def ecu_known_names_def)
  then have e: "typed_ecu (e\<lparr>ecu_values := (ecu_values e)(name \<mapsto> of_bool level)\<rparr>)"
    using assms(1) by (simp add: typed_ecu_def)
  have "length (push_capped_deque (outgoing e) bs MAX_BUFFERED_BYTES) \<le> MAX_BUFFERED_BYTES" for bs
    using assms(1) by (intro length_push_capped_deque) (simp_all add: typed_ecu_def MAX_BUFFERED_BYTES_def)
  moreover have "typed_link (publish_output now name v a link)" if "ecu_embedded e = Some link" for link v a
    using that assms(1) by (intro typed_publish) (simp add: typed_ecu_def)
  ultimately show ?thesis using e
    by (auto simp: report_output_def Let_def split: option.split intro!: typed_link_upd typed_outgoing)
qed

lemma typed_advance: "typed_ecu e \<Longrightarrow> typed_ecu (advance_trigger_wheel now e)"
proof (cases "ecu_trigger_wheel e")
  case (Some w)
  assume e: "typed_ecu e"
  obtain l w' where a: "advance now (ecu_value (wheel_signal (wheel_cfg w)) e) w = (l, w')"
    by (cases "advance now (ecu_value (wheel_signal (wheel_cfg w)) e) w")
  have w: "ecu_wheel_config (ecu_config e) = Some (wheel_cfg w)" "wheel_ok w"
    using e by (simp_all add: typed_ecu_def Some)
  then have w': "wheel_cfg w' = wheel_cfg w" "wheel_ok w'"
    using advance_cfg [of now "ecu_value (wheel_signal (wheel_cfg w)) e" w] advance_ok [OF w(2)] by (simp_all add: a)
      (metis a snd_conv)
  have "wheel_pin_signal (wheel_cfg w) \<in> all_names (ecu_config e)" by (simp add: all_names_def w)
  then show ?thesis using e w w' by (cases l) (simp_all add: advance_trigger_wheel_def Some a typed_ecu_def)
qed (simp add: advance_trigger_wheel_def)

lemma typed_see_levels: "typed_ecu e \<Longrightarrow> typed_ecu (fold (\<lambda>(p, name). see_level name) ps e)"
proof (induction ps arbitrary: e)
  case (Cons q ps)
  have "typed_ecu (see_level name e)" for name using Cons.prems by (simp add: see_level_def typed_ecu_def)
  with Cons show ?case by (cases q) simp
qed simp


lemma typed_check_edges:
  "check_edges ps (e, x, n) = Inr (e', x', n') \<Longrightarrow> typed_ecu e \<Longrightarrow> typed_ecu e'"
proof (induction ps arbitrary: e x n)
  case (Cons q ps)
  obtain p name where q: "q = (p, name)" by (cases q)
  have "typed_ecu (see_level name e)" using Cons.prems(2) by (simp add: see_level_def typed_ecu_def)
  moreover obtain x1 n1 where "deliver [(p, digital_level name e)] (x, n) = (x1, n1)"
    by (cases "deliver [(p, digital_level name e)] (x, n)")
  ultimately show ?case using Cons
    by (auto simp: q check_edges_cons simp del: check_edges.simps deliver.simps split: if_splits)
qed simp

lemma typed_new: "ecu_new config link bind = Inr (Inr e) \<Longrightarrow> link = None \<or> link = Some io_link_new \<Longrightarrow> typed_ecu e"
  by (cases "ecu_wheel_config config")
    (auto simp: ecu_new_def typed_ecu_def typed_values_def typed_link_def io_attach_device_def io_link_new_def
      split: if_splits)

lemma typed_step: "ecu_step e e' \<Longrightarrow> typed_ecu e \<Longrightarrow> typed_ecu e'"
proof (induction rule: ecu_step.induct)
  case (step_edges e x n e' x' n')
  then show ?case by (auto simp: check_digital_edges_def intro: typed_check_edges)
next
  case (step_input e link v name)
  then have l: "typed_link link" by (simp add: typed_ecu_def)
  have "set (tl xs) \<subseteq> set xs" for xs :: "(string \<times> int) list" by (cases xs) auto
  with l have "\<forall>(name, v) \<in> set (tl (pending_inputs link)). is_i32 v"
    unfolding typed_link_def by blast
  with l step_input(2) have "typed_link (set_input name v link)"
    by (auto simp: typed_link_def set_input_def Let_def MAX_PENDING_INPUTS_def)
  with step_input show ?case by (intro typed_link_upd)
next
  case (step_drain e link)
  then have "typed_link (snd (take_output_events link))"
    by (simp add: typed_ecu_def typed_link_def take_output_events_def)
  with step_drain show ?case by (intro typed_link_upd)
next
  case (step_drop e)
  then show ?case
    by (cases "ecu_embedded e") (simp_all add: ecu_drop_def typed_ecu_def typed_link_def io_detach_device_def)
qed (simp_all add: typed_poll typed_advance typed_output)

lemma typed_reach: "ecu_reach e \<Longrightarrow> typed_ecu e"
  by (induction rule: ecu_reach.induct) (auto intro: typed_new typed_step)

text \<open>C28: The state of the harness is well typed whatever its clients send and in whatever order it is
  driven. Every stored value is an \<open>i32\<close> under a name of the configuration, so a feeder cannot grow
  the map with names of its own; the buffers and the queues of the link stay within their bounds;
  and every ADC pin reads between 0 and 3300 millivolts.\<close>

theorem ecu_types:
  assumes "ecu_reach e"
  shows "dom (ecu_values e) \<subseteq> all_names (ecu_config e) \<and>
    (\<forall>v \<in> ran (ecu_values e). - (2 ^ 31) \<le> v \<and> v < 2 ^ 31) \<and>
    finite (dom (ecu_values e)) \<and> length (recv_buffer e) \<le> 65536 \<and> length (outgoing e) \<le> 65536 \<and>
    (\<forall>link. ecu_embedded e = Some link \<longrightarrow>
       length (pending_inputs link) \<le> 1024 \<and> length (output_events link) \<le> 8192) \<and>
    0 \<le> adc_millivolts p e \<and> adc_millivolts p e \<le> 3300"
proof -
  have t: "typed_ecu e" by (rule typed_reach [OF assms])
  then have dom: "dom (ecu_values e) \<subseteq> all_names (ecu_config e)"
    by (auto simp: typed_ecu_def typed_values_def)
  have "finite (all_names (ecu_config e))"
    unfolding all_names_def ecu_known_names_def by (intro finite_UnI finite_set)
  from finite_subset [OF dom this] dom t show ?thesis
    by (auto simp: typed_ecu_def typed_values_def typed_link_def is_i32_def ran_def adc_millivolts_def
        MAX_BUFFERED_BYTES_def MAX_PENDING_INPUTS_def MAX_PENDING_OUTPUT_EVENTS_def)
qed

section \<open>Witnesses\<close>

definition demo_config :: ecu_io_config where
  "demo_config = \<lparr>ecu_listen = ''127.0.0.1:29002'',
     ecu_pins = [\<lparr>pc_name = ''din1'', pc_pin = ''PC6'', pc_direction = DirInput\<rparr>,
                 \<lparr>pc_name = ''ls1'', pc_pin = ''PD7'', pc_direction = DirOutput\<rparr>],
     ecu_adc_channels = [\<lparr>ac_name = ''vbatt'', ac_pin = ''PA7''\<rparr>], ecu_wheel_config = None\<rparr>"

definition demo_ecu :: ecu_io where
  "demo_ecu = \<lparr>ecu_config = demo_config, ecu_listener = True, ecu_embedded = None, ecu_client = True,
     recv_buffer = [], outgoing = [], ecu_values = Map.empty,
     adc_channels = [(\<lparr>pin_port = 0, pin_number = 7\<rparr>, ''vbatt'')],
     digital_input_pins = [(\<lparr>pin_port = 2, pin_number = 6\<rparr>, ''din1'')], last_digital_levels = Map.empty,
     known_names = {''din1'', ''ls1'', ''vbatt''}, ecu_trigger_wheel = None\<rparr>"

lemma demo_new: "ecu_new demo_config None True = Inr (Inr (demo_ecu\<lparr>ecu_client := False\<rparr>))"
proof -
  have "pin_from_str ''PC6'' = Inr \<lparr>pin_port = 2, pin_number = 6\<rparr>"
    "pin_from_str ''PA7'' = Inr \<lparr>pin_port = 0, pin_number = 7\<rparr>" by code_simp+
  then show ?thesis by (auto simp: ecu_new_def demo_config_def demo_ecu_def ecu_known_names_def)
qed

theorem ecu_types_witness: "adc_millivolts \<lparr>pin_port = 0, pin_number = 7\<rparr> (demo_ecu\<lparr>ecu_client := False\<rparr>) \<le> 3300"
  using ecu_types [OF reach_new [OF demo_new]] by simp

theorem ecu_line_round_trip_witness:
  "ecu_receive_from_client (map ReadBytes [into_bytes ''din1'', into_bytes (''=-7'' @ [CHR 0x0A])]) demo_ecu =
   (Inr (), demo_ecu\<lparr>ecu_values := [''din1'' \<mapsto> - 7]\<rparr>)"
proof -
  have n: "utf8_lossy ''din1'' = ''din1''" "str_trim ''din1'' = ''din1''" "show_int (- 7) = ''-7''" by code_simp+
  have l: "output_line ''din1'' (- 7) = into_bytes ''din1'' @ into_bytes (''=-7'' @ [CHR 0x0A])"
    by (simp add: output_line_def n(3) flip: into_bytes_append)
  have "ecu_receive_from_client (map ReadBytes [into_bytes ''din1'', into_bytes (''=-7'' @ [CHR 0x0A])]) demo_ecu =
      (Inr (), demo_ecu\<lparr>ecu_values := (ecu_values demo_ecu)(''din1'' \<mapsto> - 7)\<rparr>)"
    by (rule ecu_line_round_trip [OF _ _ n(1,2)])
      (simp_all only: l, simp_all add: demo_ecu_def MAX_BUFFERED_BYTES_def into_bytes_def)
  then show ?thesis by (simp add: demo_ecu_def)
qed

theorem ecu_chunking_witness:
  "ecu_receive_from_client (map ReadBytes [[49, 10]])
     (snd (ecu_receive_from_client (map ReadBytes [[97, 61]]) demo_ecu)) =
   ecu_receive_from_client (map ReadBytes [[97, 61], [49, 10]]) demo_ecu"
  using ecu_chunking [OF _ _ _ prod.collapse [symmetric], of demo_ecu "[[97, 61]]" "[[49, 10]]"]
  by (simp add: demo_ecu_def MAX_BUFFERED_BYTES_def)

theorem edges_delivered_once_witness:
  "\<exists>e'. check_digital_edges (set_value ''din1'' 1 demo_ecu, exti_default, nvic_default) =
     Inr (e', deliver [(\<lparr>pin_port = 2, pin_number = 6\<rparr>, True)] (exti_default, nvic_default))"
proof -
  let ?e = "set_value ''din1'' 1 demo_ecu"
  have "map (\<lambda>(p, name). (p, digital_level name ?e)) (changed_inputs ?e) = [(\<lparr>pin_port = 2, pin_number = 6\<rparr>, True)]"
    by (simp add: demo_ecu_def set_value_def changed_inputs_def digital_level_def last_level_def ecu_value_def)
  moreover have "distinct (map snd (digital_input_pins ?e))" by (simp add: demo_ecu_def set_value_def)
  ultimately show ?thesis using edges_delivered_once [of ?e exti_default nvic_default] by metis
qed

end
