(* ===== verification/Emulator.thy ===== *)
theory Emulator
  imports Nvic
begin

text \<open>
  The emulation loop, \<open>src/emulator.rs\<close>: the hooks Unicorn calls back (block entry, interrupt,
  unmapped access, MMIO) and the loop that starts the engine again until something ends the run.

  Unicorn itself is a parameter. Between \<open>emu_start\<close> and its return the engine runs by itself and
  reports one event after another; each event is answered by the hook the program installed for it,
  and the engine goes on with the state the hook left. The peripherals, devices and framebuffers
  behind the hooks are the parameter \<open>host\<close>, with a state of type \<open>'s\<close>. The process-wide atomics
  and the variables the closures keep are the record \<open>machine\<close>; each hook runs to completion on
  the emulation thread, so the atomics are plain fields here. Loops that need not end take fuel.
\<close>

section \<open>The engine and the host\<close>

datatype uc_event =
    BlockEntry u64 u32
  | InterruptRaised u32
  | UnmappedAccess
  | MmioRead u32 u64 u8
  | MmioWrite u32 u64 u8 u64
  | EmuReturned "string option"

record 'u engine =
  eng_ops :: "'u uc_ops"
  eng_start :: "u64 \<Rightarrow> u64 \<Rightarrow> u64 \<Rightarrow> 'u \<Rightarrow> 'u"
  eng_next :: "'u \<Rightarrow> uc_event \<times> 'u"
  eng_answer :: "u64 \<Rightarrow> 'u \<Rightarrow> 'u"

text \<open>The first argument of each operation is the instruction count.\<close>

record ('u, 's) host =
  host_read :: "u64 \<Rightarrow> u32 \<Rightarrow> u8 \<Rightarrow> nvic \<times> 'u \<times> 's \<Rightarrow> (u32 \<times> nvic \<times> 'u \<times> 's) res"
  host_write :: "u64 \<Rightarrow> u32 \<Rightarrow> u8 \<Rightarrow> u32 \<Rightarrow> nvic \<times> 'u \<times> 's \<Rightarrow> (nvic \<times> 'u \<times> 's) res"
  host_poll_devices :: "u64 \<Rightarrow> nvic \<times> 'u \<times> 's \<Rightarrow> (nvic \<times> 'u \<times> 's) res"
  host_poll_peripherals :: "u64 \<Rightarrow> nvic \<times> 'u \<times> 's \<Rightarrow> (nvic \<times> 'u \<times> 's) res"
  host_pump_events :: "'s \<Rightarrow> bool \<times> 's"

record emu_args =
  max_instructions :: "u64 option"
  stop_addr :: "u32 option"
  busy_loop_stop :: bool
  interrupt_period :: u32

record ('u, 's) machine =
  m_nvic :: nvic
  m_uc :: 'u
  m_sys :: 's
  num_instructions :: u64
  last_instruction :: "u32 \<times> u8"
  continue_execution :: bool
  busy_loop_reached :: bool
  stop_requested :: bool
  last_interrupt_check :: u64
  last_pump :: u64

definition PUMP_EVENT_INST_INTERVAL :: u64 where "PUMP_EVENT_INST_INTERVAL = 1023"

definition thumb :: "u64 \<Rightarrow> u64" where "thumb pc = pc OR 1"

definition is_exception_return_pc :: "u32 \<Rightarrow> bool" where
  "is_exception_return_pc pc \<longleftrightarrow> pc AND 0xFFFFFF00 = 0xFFFFFF00"

definition request_stop :: "('u, 's) machine \<Rightarrow> ('u, 's) machine" where
  "request_stop m = m\<lparr>stop_requested := True\<rparr>"

text \<open>A computation on the interrupt controller and the engine, or on the whole hardware state.\<close>

definition on_cpu :: "(nvic \<times> 'u \<Rightarrow> (nvic \<times> 'u) res) \<Rightarrow> ('u, 's) machine \<Rightarrow> ('u, 's) machine res" where
  "on_cpu f m = res_map (\<lambda>(n, u). m\<lparr>m_nvic := n, m_uc := u\<rparr>) (f (m_nvic m, m_uc m))"

definition on_hw ::
  "(nvic \<times> 'u \<times> 's \<Rightarrow> (nvic \<times> 'u \<times> 's) res) \<Rightarrow> ('u, 's) machine \<Rightarrow> ('u, 's) machine res" where
  "on_hw f m = res_map (\<lambda>(n, u, s). m\<lparr>m_nvic := n, m_uc := u, m_sys := s\<rparr>) (f (m_nvic m, m_uc m, m_sys m))"

section \<open>Hooks\<close>

definition stop_engine :: "'u uc_ops \<Rightarrow> ('u, 's) machine \<Rightarrow> ('u, 's) machine" where
  "stop_engine ops m = m\<lparr>m_uc := uc_emu_stop ops (m_uc m)\<rparr>"

text \<open>The block hook in its three parts: busy-loop detection and the clock, the interrupt deadline, and
  the polling deadline.\<close>

definition note_block :: "'u uc_ops \<Rightarrow> emu_args \<Rightarrow> u64 \<Rightarrow> u32 \<Rightarrow> ('u, 's) machine \<Rightarrow> ('u, 's) machine" where
  "note_block ops args addr sz m =
     (let m = (if busy_loop_stop args \<and> sz \<le> 4 \<and> fst (last_instruction m) = ucast addr
               then (stop_engine ops m)\<lparr>busy_loop_reached := True\<rparr> else m)
      in m\<lparr>last_instruction := (ucast addr, ucast sz),
           num_instructions := num_instructions m + (ucast sz + 1) div 2\<rparr>)"

definition dispatch_when_due ::
  "'u uc_ops \<Rightarrow> emu_args \<Rightarrow> u32 \<Rightarrow> u64 \<Rightarrow> ('u, 's) machine \<Rightarrow> ('u, 's) machine res" where
  "dispatch_when_due ops args vector_table_addr n m =
     (if ucast (interrupt_period args) \<le> n - last_interrupt_check m
      then on_cpu (run_pending_interrupts ops (num_instructions m) vector_table_addr)
             (m\<lparr>last_interrupt_check := n\<rparr>)
      else Inr m)"

definition pump_when_due ::
  "'u uc_ops \<Rightarrow> ('u, 's) host \<Rightarrow> u64 \<Rightarrow> ('u, 's) machine \<Rightarrow> ('u, 's) machine res" where
  "pump_when_due ops host n m =
     (if PUMP_EVENT_INST_INTERVAL + 1 \<le> n - last_pump m then
        res_bind (on_hw (host_poll_devices host (num_instructions m)) (m\<lparr>last_pump := n\<rparr>)) (\<lambda>m.
        res_bind (on_hw (host_poll_peripherals host (num_instructions m)) m) (\<lambda>m.
          let pumped = host_pump_events host (m_sys m); m = m\<lparr>m_sys := snd pumped\<rparr>
          in Inr (if fst pumped then m else stop_engine ops (m\<lparr>stop_requested := True\<rparr>))))
      else Inr m)"

definition block_hook ::
  "'u uc_ops \<Rightarrow> ('u, 's) host \<Rightarrow> emu_args \<Rightarrow> u32 \<Rightarrow> u64 \<Rightarrow> u32 \<Rightarrow> ('u, 's) machine \<Rightarrow> ('u, 's) machine res" where
  "block_hook ops host args vector_table_addr addr sz m =
     (let n = num_instructions m
      in res_bind (dispatch_when_due ops args vector_table_addr n (note_block ops args addr sz m))
           (pump_when_due ops host n))"

definition exception_return ::
  "'u uc_ops \<Rightarrow> u32 \<Rightarrow> ('u, 's) machine \<Rightarrow> ('u, 's) machine res" where
  "exception_return ops vector_table_addr m =
     res_bind (on_cpu (return_from_interrupt ops) m)
       (\<lambda>m. on_cpu (run_pending_interrupts ops (num_instructions m) vector_table_addr) m)"

text \<open>The interrupt hook; \<open>None\<close> is \<open>process::exit(1)\<close>.\<close>

definition intr_hook ::
  "'u uc_ops \<Rightarrow> u32 \<Rightarrow> u32 \<Rightarrow> ('u, 's) machine \<Rightarrow> ('u, 's) machine option res" where
  "intr_hook ops vector_table_addr exception m =
     (if exception = 8 then res_map Some (exception_return ops vector_table_addr m)
      else if exception = 2 then res_map Some (on_cpu (enter_svcall ops vector_table_addr) m)
      else if exception = 3 then
        let pc = uc_reg_read ops PC (m_uc m)
        in if is_exception_return_pc (ucast pc)
           then res_map Some (exception_return ops vector_table_addr m)
           else Inr (Some m)
      else Inr None)"

text \<open>The width of the instruction at PC, from its first halfword.\<close>

definition faulting_width :: "u8 list option \<Rightarrow> u64" where
  "faulting_width insn =
     (case insn of
        Some [a, b] \<Rightarrow> if 0xE800 \<le> (ucast a OR push_bit 8 (ucast b) :: u16) then 4 else 2
      | _ \<Rightarrow> 2)"

definition unmapped_hook :: "'u uc_ops \<Rightarrow> ('u, 's) machine \<Rightarrow> ('u, 's) machine" where
  "unmapped_hook ops m =
     (let pc = uc_reg_read ops PC (m_uc m);
          width = faulting_width (uc_mem_read ops pc 2 (m_uc m))
      in m\<lparr>m_uc := uc_reg_write ops PC (thumb (pc + width)) (m_uc m), continue_execution := True\<rparr>)"

section \<open>One start of the engine\<close>

datatype emu_end = ProcessExit | Returned "string option"

fun drive ::
  "nat \<Rightarrow> 'u engine \<Rightarrow> ('u, 's) host \<Rightarrow> emu_args \<Rightarrow> u32 \<Rightarrow> ('u, 's) machine \<Rightarrow>
   (emu_end \<times> ('u, 's) machine) res option" where
  "drive 0 eng host args vt m = None"
| "drive (Suc fuel) eng host args vt m =
     (let (event, u) = eng_next eng (m_uc m); m = m\<lparr>m_uc := u\<rparr>; ops = eng_ops eng;
          go = (\<lambda>r. case r of Inl p \<Rightarrow> Some (Inl p) | Inr m \<Rightarrow> drive fuel eng host args vt m)
      in case event of
           BlockEntry addr sz \<Rightarrow> go (block_hook ops host args vt addr sz m)
         | InterruptRaised e \<Rightarrow>
             (case intr_hook ops vt e m of
                Inl p \<Rightarrow> Some (Inl p)
              | Inr None \<Rightarrow> Some (Inr (ProcessExit, m))
              | Inr (Some m) \<Rightarrow> drive fuel eng host args vt m)
         | UnmappedAccess \<Rightarrow> drive fuel eng host args vt (unmapped_hook ops m)
         | MmioRead base off sz \<Rightarrow>
             go (res_map (\<lambda>(v, n, u, s). m\<lparr>m_nvic := n, m_uc := eng_answer eng (ucast v) u, m_sys := s\<rparr>)
                  (host_read host (num_instructions m) (base + ucast off) sz (m_nvic m, m_uc m, m_sys m)))
         | MmioWrite base off sz v \<Rightarrow>
             go (on_hw (host_write host (num_instructions m) (base + ucast off) sz (ucast v)) m)
         | EmuReturned err \<Rightarrow> Some (Inr (Returned err, m)))"

section \<open>The run\<close>

datatype run_end = RunOk | RunError string | RunExit

definition remaining :: "emu_args \<Rightarrow> ('u, 's) machine \<Rightarrow> u64 option" where
  "remaining args m = map_option (\<lambda>c. c - num_instructions m) (max_instructions args)"

definition unwrap_or_0 :: "'a::zero option \<Rightarrow> 'a" where
  "unwrap_or_0 x = (case x of None \<Rightarrow> 0 | Some v \<Rightarrow> v)"

fun run_loop ::
  "nat \<Rightarrow> 'u engine \<Rightarrow> ('u, 's) host \<Rightarrow> emu_args \<Rightarrow> u32 \<Rightarrow> u64 \<Rightarrow> ('u, 's) machine \<Rightarrow>
   (run_end \<times> ('u, 's) machine) res option" where
  "run_loop 0 eng host args vt pc m = None"
| "run_loop (Suc fuel) eng host args vt pc m =
     (if remaining args m = Some 0 then Some (Inr (RunOk, m))
      else let u = eng_start eng pc (ucast (unwrap_or_0 (stop_addr args))) (unwrap_or_0 (remaining args m)) (m_uc m)
      in case drive fuel eng host args vt (m\<lparr>m_uc := u\<rparr>) of
           None \<Rightarrow> None
         | Some (Inl p) \<Rightarrow> Some (Inl p)
         | Some (Inr (ProcessExit, m)) \<Rightarrow> Some (Inr (RunExit, m))
         | Some (Inr (Returned err, m)) \<Rightarrow>
             let returned_pc = uc_reg_read (eng_ops eng) PC (m_uc m); pc = thumb returned_pc
             in if stop_requested m then Some (Inr (RunOk, m))
                else (case err of
                  Some e \<Rightarrow>
                    if continue_execution m
                    then run_loop fuel eng host args vt (thumb pc) (m\<lparr>continue_execution := False\<rparr>)
                    else Some (Inr (RunError e, m))
                | None \<Rightarrow>
                    if stop_addr args = Some (ucast returned_pc) then Some (Inr (RunOk, m))
                    else if busy_loop_reached m then Some (Inr (RunOk, m))
                    else run_loop fuel eng host args vt pc m))"

text \<open>The whole run: \<open>prepared\<close> is what \<open>system::prepare\<close> built. The vector table is read in place.\<close>

definition vector_table_from_memory :: "'u uc_ops \<Rightarrow> 'u \<Rightarrow> u32 \<Rightarrow> (u32 \<times> u32) option" where
  "vector_table_from_memory ops u addr =
     (case uc_mem_read ops (ucast addr) 8 u of
        None \<Rightarrow> None
      | Some bs \<Rightarrow> Some (from_le_bytes (take 4 bs), from_le_bytes (drop 4 bs)))"

definition fresh_machine :: "nvic \<times> 'u \<times> 's \<Rightarrow> u32 \<times> u8 \<Rightarrow> ('u, 's) machine" where
  "fresh_machine hw last_block =
     (case hw of (n, u, s) \<Rightarrow>
       \<lparr>m_nvic = n, m_uc = u, m_sys = s, num_instructions = 0, last_instruction = last_block,
        continue_execution = False, busy_loop_reached = False, stop_requested = False,
        last_interrupt_check = 0, last_pump = 0\<rparr>)"

definition run_emulator ::
  "nat \<Rightarrow> 'u engine \<Rightarrow> ('u, 's) host \<Rightarrow> emu_args \<Rightarrow> u32 \<Rightarrow> (nvic \<times> 'u \<times> 's) fallible \<Rightarrow> u32 \<times> u8 \<Rightarrow>
   (run_end \<times> ('u, 's) machine option) res option" where
  "run_emulator fuel eng host args vt prepared last_block =
     (case prepared of
        Inl e \<Rightarrow> Some (Inr (RunError e, None))
      | Inr hw \<Rightarrow>
          let m = fresh_machine hw last_block in
          case vector_table_from_memory (eng_ops eng) (m_uc m) vt of
            None \<Rightarrow> Some (Inr (RunError ''Unicorn error'', None))
          | Some (sp, reset) \<Rightarrow>
              let m = m\<lparr>m_uc := uc_reg_write (eng_ops eng) SP (ucast sp) (m_uc m)\<rparr>
              in map_option (res_map (\<lambda>(e, m). (e, Some m)))
                   (run_loop fuel eng host args vt (ucast reset) m))"

text \<open>The stack dump lists \<open>(address, word, looks like a return address)\<close>.\<close>

fun dump_stack :: "'u uc_ops \<Rightarrow> 'u \<Rightarrow> nat \<Rightarrow> u64 \<Rightarrow> (u64 \<times> u32 \<times> bool) list" where
  "dump_stack ops u 0 sp = []"
| "dump_stack ops u (Suc count) sp =
     (case uc_mem_read ops sp 4 u of
        None \<Rightarrow> []
      | Some bs \<Rightarrow> let v = from_le_bytes bs
                   in (sp, v, 0x08000000 \<le> v \<and> v < 0x08100000) # dump_stack ops u count (sp + 4))"


section \<open>The clock and the deadlines\<close>

lemma on_cpu_frame:
  assumes "on_cpu f m = Inr m'"
  shows "num_instructions m' = num_instructions m" "last_interrupt_check m' = last_interrupt_check m"
    "last_pump m' = last_pump m" "last_instruction m' = last_instruction m" "m_sys m' = m_sys m"
    "busy_loop_reached m' = busy_loop_reached m" "stop_requested m' = stop_requested m"
    "continue_execution m' = continue_execution m" "f (m_nvic m, m_uc m) = Inr (m_nvic m', m_uc m')"
  using assms by (auto simp: on_cpu_def)

lemma on_hw_frame:
  assumes "on_hw f m = Inr m'"
  shows "num_instructions m' = num_instructions m" "last_interrupt_check m' = last_interrupt_check m"
    "last_pump m' = last_pump m" "last_instruction m' = last_instruction m"
    "busy_loop_reached m' = busy_loop_reached m" "stop_requested m' = stop_requested m"
    "continue_execution m' = continue_execution m"
  using assms by (auto simp: on_hw_def)

lemma stop_engine_frame [simp]:
  "num_instructions (stop_engine ops m) = num_instructions m"
  "last_interrupt_check (stop_engine ops m) = last_interrupt_check m"
  "last_pump (stop_engine ops m) = last_pump m"
  "last_instruction (stop_engine ops m) = last_instruction m"
  "busy_loop_reached (stop_engine ops m) = busy_loop_reached m"
  "stop_requested (stop_engine ops m) = stop_requested m"
  "m_sys (stop_engine ops m) = m_sys m" "m_nvic (stop_engine ops m) = m_nvic m"
  "m_uc (stop_engine ops m) = uc_emu_stop ops (m_uc m)"
  by (simp_all add: stop_engine_def)

text \<open>The number of clock ticks of a block.\<close>

definition ticks :: "u32 \<Rightarrow> nat" where
  "ticks sz = (unat sz + 1) div 2"

lemma unat_ticks: "unat ((ucast sz + 1) div 2 :: u64) = ticks sz"
proof -
  have "unat sz + 1 < 2 ^ 64" using unat_u32_less [of sz] by simp
  then have "unat (ucast sz + 1 :: u64) = unat sz + 1" by (subst unat_add_lem [THEN iffD1]) simp_all
  then show ?thesis by (simp add: unat_div ticks_def)
qed

text \<open>What a block entry does to the clock and to the two deadlines.\<close>

definition due :: "u64 \<Rightarrow> u64 \<Rightarrow> u64 \<Rightarrow> bool" where
  "due period now last_time \<longleftrightarrow> period \<le> now - last_time"

lemma note_block_frame:
  "num_instructions (note_block ops args addr sz m) = num_instructions m + (ucast sz + 1) div 2"
  "last_interrupt_check (note_block ops args addr sz m) = last_interrupt_check m"
  "last_pump (note_block ops args addr sz m) = last_pump m"
  "last_instruction (note_block ops args addr sz m) = (ucast addr, ucast sz)"
  "m_nvic (note_block ops args addr sz m) = m_nvic m" "m_sys (note_block ops args addr sz m) = m_sys m"
  by (simp_all add: note_block_def Let_def)

lemma dispatch_frame:
  assumes "dispatch_when_due ops args vt n m = Inr m'"
  shows "num_instructions m' = num_instructions m" "last_pump m' = last_pump m"
    "last_instruction m' = last_instruction m"
    "last_interrupt_check m' = (if due (ucast (interrupt_period args)) n (last_interrupt_check m)
       then n else last_interrupt_check m)"
  using assms by (auto simp: dispatch_when_due_def due_def on_cpu_frame split: if_splits)

lemma pump_frame:
  assumes "pump_when_due ops host n m = Inr m'"
  shows "num_instructions m' = num_instructions m" "last_interrupt_check m' = last_interrupt_check m"
    "last_instruction m' = last_instruction m"
    "last_pump m' = (if due 1024 n (last_pump m) then n else last_pump m)"
  using assms
  by (auto simp: pump_when_due_def due_def PUMP_EVENT_INST_INTERVAL_def Let_def on_hw_frame split: if_splits)

lemma block_hook_clock:
  assumes "block_hook ops host args vt addr sz m = Inr m'"
  shows "num_instructions m' = num_instructions m + (ucast sz + 1) div 2"
    "last_interrupt_check m' =
       (if due (ucast (interrupt_period args)) (num_instructions m) (last_interrupt_check m)
        then num_instructions m else last_interrupt_check m)"
    "last_pump m' = (if due 1024 (num_instructions m) (last_pump m) then num_instructions m else last_pump m)"
    "last_instruction m' = (ucast addr, ucast sz)"
  using assms by (auto simp: block_hook_def Let_def dispatch_frame pump_frame note_block_frame)

text \<open>A run of block entries.\<close>

definition run_blocks ::
  "'u uc_ops \<Rightarrow> ('u, 's) host \<Rightarrow> emu_args \<Rightarrow> u32 \<Rightarrow> (u64 \<times> u32) list \<Rightarrow> ('u, 's) machine \<Rightarrow> ('u, 's) machine res" where
  "run_blocks ops host args vt blocks m = fold_res (\<lambda>(addr, sz). block_hook ops host args vt addr sz) blocks m"

lemma run_blocks_clock:
  "run_blocks ops host args vt blocks m = Inr m' \<Longrightarrow>
   unat (num_instructions m) + (\<Sum>(a, sz) \<leftarrow> blocks. ticks sz) < 2 ^ 64 \<Longrightarrow>
   unat (num_instructions m') = unat (num_instructions m) + (\<Sum>(a, sz) \<leftarrow> blocks. ticks sz)"
proof (induction blocks arbitrary: m)
  case (Cons b blocks)
  obtain a sz where b: "b = (a, sz)" by (cases b)
  from Cons.prems(1) obtain m1 where m1: "block_hook ops host args vt a sz m = Inr m1"
    "run_blocks ops host args vt blocks m1 = Inr m'" by (auto simp: run_blocks_def b)
  have "unat (num_instructions m1) = unat (num_instructions m) + ticks sz"
    unfolding block_hook_clock(1) [OF m1(1)] using Cons.prems(2)
    by (subst unat_add_lem [THEN iffD1]) (simp_all add: unat_ticks b)
  with Cons.IH [OF m1(2)] Cons.prems(2) show ?case by (simp add: b)
qed (simp add: run_blocks_def)

text \<open>The deadlines, as natural numbers: the clock is the sum of the ticks, and at each block entry the
  time since a deadline was served is less than the period plus the ticks of one block.\<close>

definition on_time :: "nat \<Rightarrow> nat \<Rightarrow> nat \<Rightarrow> ('u, 's) machine \<Rightarrow> bool" where
  "on_time p B now m \<longleftrightarrow>
     unat (num_instructions m) = now \<and> unat (last_interrupt_check m) \<le> now \<and> unat (last_pump m) \<le> now \<and>
     now - unat (last_interrupt_check m) < max 1 p + B \<and> now - unat (last_pump m) < 1024 + B"

lemma due_iff:
  fixes now last_time :: u64
  shows "unat last_time \<le> unat now \<Longrightarrow> due (ucast (p :: u32)) now last_time \<longleftrightarrow> unat p \<le> unat now - unat last_time"
    and "unat last_time \<le> unat now \<Longrightarrow> due 1024 now last_time \<longleftrightarrow> 1024 \<le> unat now - unat last_time"
  by (simp_all add: due_def word_le_nat_alt unat_sub)

lemma on_time_step:
  assumes hook: "block_hook ops host args vt addr sz m = Inr m'"
    and m: "on_time (unat (interrupt_period args)) B now m"
    and B: "ticks sz \<le> B" "now + ticks sz < 2 ^ 64"
  shows "on_time (unat (interrupt_period args)) B (now + ticks sz) m'"
proof -
  note c = block_hook_clock [OF hook]
  have n: "unat (num_instructions m) = now" using m by (simp add: on_time_def)
  have n': "unat (num_instructions m') = now + ticks sz"
    unfolding c(1) using B(2) n by (subst unat_add_lem [THEN iffD1]) (simp_all add: unat_ticks)
  have le: "unat (last_interrupt_check m) \<le> unat (num_instructions m)" "unat (last_pump m) \<le> unat (num_instructions m)"
    using m n by (simp_all add: on_time_def)
  have "unat (last_interrupt_check m') \<le> now \<and> now - unat (last_interrupt_check m') < max 1 (unat (interrupt_period args))"
    unfolding c(2) due_iff(1) [OF le(1)] using n le by (auto split: if_split)
  moreover have "unat (last_pump m') \<le> now \<and> now - unat (last_pump m') < 1024"
    unfolding c(3) due_iff(2) [OF le(2)] using n le by (auto split: if_split)
  ultimately show ?thesis using n' B(1) unfolding on_time_def by linarith
qed

lemma on_time_run:
  "run_blocks ops host args vt blocks m = Inr m' \<Longrightarrow>
   on_time (unat (interrupt_period args)) B now m \<Longrightarrow> \<forall>(a, sz) \<in> set blocks. ticks sz \<le> B \<Longrightarrow>
   now + (\<Sum>(a, sz) \<leftarrow> blocks. ticks sz) < 2 ^ 64 \<Longrightarrow>
   on_time (unat (interrupt_period args)) B (now + (\<Sum>(a, sz) \<leftarrow> blocks. ticks sz)) m'"
proof (induction blocks arbitrary: m now)
  case (Cons b blocks)
  obtain a sz where b: "b = (a, sz)" by (cases b)
  from Cons.prems(1) obtain m1 where m1: "block_hook ops host args vt a sz m = Inr m1"
    "run_blocks ops host args vt blocks m1 = Inr m'" by (auto simp: run_blocks_def b)
  have "on_time (unat (interrupt_period args)) B (now + ticks sz) m1"
    using Cons.prems by (intro on_time_step [OF m1(1)]) (simp_all add: b)
  from Cons.IH [OF m1(2) this] Cons.prems(3,4) show ?case by (simp add: b add.assoc)
qed (simp add: run_blocks_def)

section \<open>More fuel does not change a result\<close>

lemma drive_mono: "drive k eng host args vt m = Some r \<Longrightarrow> k \<le> k' \<Longrightarrow> drive k' eng host args vt m = Some r"
proof (induction k arbitrary: k' m)
  case (Suc k)
  then obtain j where j: "k' = Suc j" "k \<le> j" by (cases k') auto
  have ih: "drive k eng host args vt m' = Some r \<Longrightarrow> drive j eng host args vt m' = Some r" for m'
    using Suc.IH [of m' j] j(2) by blast
  show ?case using Suc.prems(1) unfolding j
    by (simp add: Let_def split: prod.splits uc_event.splits sum.splits option.splits) (auto intro: ih)
qed simp

section \<open>One iteration of the run loop\<close>

text \<open>How the run ends, or goes on, when a start of the engine has returned.\<close>

definition after_return ::
  "emu_args \<Rightarrow> 'u uc_ops \<Rightarrow> string option \<Rightarrow> ('u, 's) machine \<Rightarrow> run_end option" where
  "after_return args ops err m =
     (if stop_requested m then Some RunOk
      else case err of
             Some e \<Rightarrow> if continue_execution m then None else Some (RunError e)
           | None \<Rightarrow> if stop_addr args = Some (ucast (uc_reg_read ops PC (m_uc m))) \<or> busy_loop_reached m
                     then Some RunOk else None)"

lemma thumb_thumb [simp]: "thumb (thumb pc) = thumb pc"
  by (simp add: thumb_def or.assoc)

lemma run_loop_step:
  assumes "remaining args m \<noteq> Some 0"
    and "drive k eng host args vt (m\<lparr>m_uc := eng_start eng pc (ucast (unwrap_or_0 (stop_addr args)))
           (unwrap_or_0 (remaining args m)) (m_uc m)\<rparr>) = Some (Inr (Returned err, m'))"
  shows "run_loop (Suc k) eng host args vt pc m =
    (case after_return args (eng_ops eng) err m' of
       Some e \<Rightarrow> Some (Inr (e, m'))
     | None \<Rightarrow> run_loop k eng host args vt (thumb (uc_reg_read (eng_ops eng) PC (m_uc m')))
                 (if err = None then m' else m'\<lparr>continue_execution := False\<rparr>))"
  using assms by (auto simp: after_return_def Let_def split: option.split)

section \<open>Bits\<close>

text \<open>A masked comparison of the top bits is a comparison of the word.\<close>

lemma magic_page: "is_exception_return_pc pc \<longleftrightarrow> 0xFFFFFF00 \<le> pc"
proof -
  have "pc AND 0xFFFFFF00 = push_bit 8 (drop_bit 8 pc)"
  proof (rule word_eqI_bits)
    fix n assume n: "n < LENGTH(32)"
    have m: "(0xFFFFFF00 :: u32) = NOT (mask 8)" by (simp add: mask_eq_exp_minus_1)
    show "bit (pc AND 0xFFFFFF00) n \<longleftrightarrow> bit (push_bit 8 (drop_bit 8 pc)) n"
      unfolding m using n by (auto simp: bit_simps)
  qed
  moreover have "unat (push_bit 8 (drop_bit 8 pc)) = unat pc div 256 * 256"
  proof -
    have "unat pc div 256 * 256 < 2 ^ 32" using unat_u32_less [of pc] by simp
    moreover have "unat (pc div 256) = unat pc div 256" by (simp add: unat_div)
    ultimately have "unat (pc div 256) * unat (256 :: u32) < 2 ^ LENGTH(32)" by simp
    then have "unat (pc div 256 * 256) = unat (pc div 256) * unat (256 :: u32)" by (rule unat_mult_lem [THEN iffD1])
    then show ?thesis by (simp add: drop_bit_eq_div push_bit_eq_mult unat_div)
  qed
  ultimately have "is_exception_return_pc pc \<longleftrightarrow> unat pc div 256 * 256 = 0xFFFFFF00"
    by (simp add: is_exception_return_pc_def word_unat_eq_iff)
  also have "\<dots> \<longleftrightarrow> 0xFFFFFF00 \<le> unat pc" using unat_u32_less [of pc] by auto
  finally show ?thesis by (simp add: word_le_nat_alt)
qed

lemma thumb2_prefix:
  fixes a b :: u8
  shows "0xE800 \<le> (ucast a OR push_bit 8 (ucast b) :: u16) \<longleftrightarrow> drop_bit 3 b \<in> {0b11101, 0b11110, 0b11111}"
proof -
  have lt: "unat a < 2 ^ 8" "unat b < 2 ^ 8"
    using unsigned_less [of a] unsigned_less [of b] by simp_all
  have "(ucast a :: u16) AND push_bit 8 (ucast b) = 0"
    by (rule word_eqI_bits) (auto simp: bit_simps)
  then have "(ucast a OR push_bit 8 (ucast b) :: u16) = ucast a + push_bit 8 (ucast b)"
    by (rule disjunctive_add_eq_or [symmetric])
  moreover have "unat (ucast a :: u16) = unat a" "unat (push_bit 8 (ucast b) :: u16) = unat b * 256"
    using lt by (simp_all add: unsigned_ucast_eq take_bit_nat_eq_self push_bit_eq_mult unat_mult_lem [THEN iffD1])
  ultimately have "unat (ucast a OR push_bit 8 (ucast b) :: u16) = unat a + unat b * 256"
    using lt by (simp add: unat_add_lem [THEN iffD1])
  then have "0xE800 \<le> (ucast a OR push_bit 8 (ucast b) :: u16) \<longleftrightarrow> 29 \<le> unat b div 8"
    using lt(1) by (simp add: word_le_nat_alt) linarith
  also have "\<dots> \<longleftrightarrow> unat (drop_bit 3 b) \<in> {29, 30, 31}"
  proof -
    have d: "unat (drop_bit 3 b) = unat b div 8" by (simp add: drop_bit_eq_div unat_div)
    have "(29 \<le> k) = (k \<in> {29, 30, 31})" if "k < 32" for k :: nat using that by auto
    from this [of "unat b div 8"] show ?thesis unfolding d using lt(2) by simp
  qed
  also have "\<dots> \<longleftrightarrow> drop_bit 3 b \<in> {29, 30, 31}"
    by (simp add: word_unat_eq_iff)
  finally show ?thesis by simp
qed

lemma res_map_res_map: "res_map f (res_map g r) = res_map (\<lambda>x. f (g x)) r"
  by (cases r) simp_all

lemma run_pending_eq:
  "run_pending_interrupts ops now vt (n, uc) =
     (let n1 = after_systick now n; irq = Min (ready_irqs n1) in
      if dispatch_blocked ops n uc \<or> ready_irqs n1 = {} then Inr (n1, uc)
      else run_interrupt ops vt irq (n1\<lparr>pending := pending n1 AND NOT (bit_mask (nat (irq + 16)))\<rparr>, uc))"
proof -
  have "in_interrupt (after_systick now n) = in_interrupt n" by (simp add: after_systick_def)
  moreover have "ready_irqs n1 = {}" if "pending n1 = 0" for n1
    using that by (simp add: ready_irqs_def pend_irqs_def)
  ultimately show ?thesis
    by (auto simp: dispatch_blocked_def run_pending_interrupts_def maybe_set_systick_eq Let_def
        are_interrupts_disabled_def get_and_clear_next_dispatchable_eq)
qed

section \<open>Properties\<close>




text \<open>An access to unmapped memory skips exactly the instruction that made it. When the engine
  reports such an access and then fails, the run goes on behind that instruction: two bytes further,
  or four when the first halfword has the prefix 11101, 11110 or 11111 of a 32-bit encoding. The
  interrupt controller, the peripherals and the clock are as they were.\<close>

theorem unmapped_skips_one:
  assumes law: "\<And>u v. uc_reg_read ops PC (uc_reg_write ops PC v u) = v AND NOT 1"
    and ops: "eng_ops eng = ops" and going: "remaining args m \<noteq> Some 0" "\<not> stop_requested m"
    and start: "u0 = eng_start eng pc (ucast (unwrap_or_0 (stop_addr args))) (unwrap_or_0 (remaining args m)) (m_uc m)"
    and access: "eng_next eng u0 = (UnmappedAccess, u1)" "uc_reg_read ops PC u1 = at"
    and fails: "eng_next eng (uc_reg_write ops PC (thumb (at + w)) u1) = (EmuReturned (Some err), u2)"
      "uc_reg_read ops PC u2 = uc_reg_read ops PC (uc_reg_write ops PC (thumb (at + w)) u1)"
    and insn: "uc_mem_read ops at 2 u1 = Some [a, b]"
    and w: "w = (if drop_bit 3 b \<in> {0b11101, 0b11110, 0b11111} then 4 else 2)"
  shows "run_loop (Suc (Suc (Suc k))) eng host args vt pc m =
    run_loop (Suc (Suc k)) eng host args vt (thumb (at + w)) (m\<lparr>m_uc := u2, continue_execution := False\<rparr>)"
proof -
  have width: "faulting_width (uc_mem_read ops at 2 u1) = w"
    unfolding insn w faulting_width_def by (simp add: thumb2_prefix)
  have hook: "unmapped_hook ops (m\<lparr>m_uc := u1\<rparr>) =
      m\<lparr>m_uc := uc_reg_write ops PC (thumb (at + w)) u1, continue_execution := True\<rparr>"
    by (simp add: unmapped_hook_def access(2) width Let_def)
  have "drive (Suc (Suc k)) eng host args vt (m\<lparr>m_uc := u0\<rparr>) =
      Some (Inr (Returned (Some err), m\<lparr>m_uc := u2, continue_execution := True\<rparr>))"
    by (simp add: access(1) ops hook fails(1))
  note step = run_loop_step [OF going(1) this [unfolded start]]
  have pc: "thumb (uc_reg_read ops PC u2) = thumb (at + w)"
    unfolding fails(2) law thumb_def by (rule word_eqI_bits) (auto simp: bit_simps)
  have "after_return args (eng_ops eng) (Some err) (m\<lparr>m_uc := u2, continue_execution := True\<rparr>) = None"
    using going(2) by (simp add: after_return_def)
  then show ?thesis unfolding step by (simp add: ops pc del: run_loop.simps)
qed


text \<open>C38: The limit is counted in halfwords but handed to the engine as a number of instructions, so a
  run of 32-bit instructions overshoots it; the subtraction then wraps, and the next start of the
  engine is given almost \<open>2 ^ 64\<close> instructions instead of ending the run.\<close>

theorem max_instructions_overrun:
  assumes limit: "max_instructions args = Some c"
    and blocks: "run_blocks ops host args vt blocks m = Inr m'"
    and clock: "unat (num_instructions m) + (\<Sum>(a, sz) \<leftarrow> blocks. (unat sz + 1) div 2) = t" "unat c < t" "t < 2 ^ 64"
  shows "remaining args m' \<noteq> Some 0 \<and> unat (unwrap_or_0 (remaining args m')) = 2 ^ 64 - (t - unat c)"
proof -
  have n: "unat (num_instructions m') = t"
    using run_blocks_clock [OF blocks] clock(1,3) by (simp add: ticks_def)
  then have r: "unat (c - num_instructions m') = 2 ^ 64 - (t - unat c)"
    using clock(2,3) by (simp add: unat_sub_if')
  then have "c - num_instructions m' \<noteq> 0" using clock(2,3) by auto
  with r show ?thesis by (simp add: remaining_def limit unwrap_or_0_def)
qed

section \<open>Witnesses\<close>

text \<open>An engine that executes one block of a fixed size at each start, with a trivial host; and one that
  runs into unmapped memory. Both keep their registers in the flat CPU of \<open>Unicorn\<close>.\<close>

definition quiet_host :: "('u, unit) host" where
  "quiet_host = \<lparr>host_read = (\<lambda>now a sz (n, u, s). Inr (0, n, u, s)), host_write = (\<lambda>now a sz v hw. Inr hw),
     host_poll_devices = (\<lambda>now hw. Inr hw), host_poll_peripherals = (\<lambda>now hw. Inr hw),
     host_pump_events = (\<lambda>s. (True, s))\<rparr>"

definition unit_ops :: "nat uc_ops" where
  "unit_ops = \<lparr>uc_reg_read = (\<lambda>r u. 0), uc_reg_write = (\<lambda>r v u. u), uc_mem_read = (\<lambda>a n u. None),
     uc_mem_write = (\<lambda>a bs u. None), uc_emu_stop = (\<lambda>u. u)\<rparr>"

definition block_engine :: "u32 \<Rightarrow> nat engine" where
  "block_engine sz = \<lparr>eng_ops = unit_ops, eng_start = (\<lambda>pc until cnt u. 1),
     eng_next = (\<lambda>u. if u = 1 then (BlockEntry 0x08000000 sz, 0) else (EmuReturned None, u)),
     eng_answer = (\<lambda>v u. u)\<rparr>"

definition demo_args :: emu_args where
  "demo_args = \<lparr>max_instructions = Some 3, stop_addr = None, busy_loop_stop = False, interrupt_period = 1\<rparr>"

lemma quiet_block:
  assumes "m_nvic m = nvic_default"
  shows "\<exists>m'. block_hook unit_ops quiet_host demo_args vt a sz m = Inr m' \<and> m_nvic m' = nvic_default \<and>
    num_instructions m' = num_instructions m + (ucast sz + 1) div 2 \<and> m_uc m' = m_uc m \<and>
    stop_requested m' = stop_requested m \<and> busy_loop_reached m' = busy_loop_reached m"
  using assms
  by (simp add: block_hook_def Let_def dispatch_when_due_def pump_when_due_def note_block_def demo_args_def
      on_cpu_def on_hw_def run_pending_interrupts_def maybe_set_systick_intr_pending_def nvic_default_def
      quiet_host_def unit_ops_def)


definition demo_machine :: "(nat, unit) machine" where
  "demo_machine = fresh_machine (nvic_default, 0, ()) (0, 0)"

lemma demo_machine_simps [simp]: "m_nvic demo_machine = nvic_default" "num_instructions demo_machine = 0"
  by (simp_all add: demo_machine_def fresh_machine_def)

lemma demo_blocks:
  obtains m where "run_blocks unit_ops quiet_host demo_args 0 [(0, 4), (4, 6)] demo_machine = Inr m"
proof -
  obtain m1 where m1: "block_hook unit_ops quiet_host demo_args 0 0 4 demo_machine = Inr m1" "m_nvic m1 = nvic_default"
    using quiet_block [of demo_machine 0 0 4] by auto
  obtain m2 where "block_hook unit_ops quiet_host demo_args 0 4 6 m1 = Inr m2"
    using quiet_block [OF m1(2), of 0 4 6] by auto
  then show thesis by (intro that [of m2]) (simp add: run_blocks_def m1(1))
qed


theorem max_instructions_overrun_witness:
  "\<exists>m. run_blocks unit_ops quiet_host demo_args 0 [(0, 4), (4, 6)] demo_machine = Inr m \<and>
     unat (unwrap_or_0 (remaining demo_args m)) = 2 ^ 64 - 2"
proof -
  obtain m where m: "run_blocks unit_ops quiet_host demo_args 0 [(0, 4), (4, 6)] demo_machine = Inr m"
    by (rule demo_blocks)
  have "max_instructions demo_args = Some 3" by (simp add: demo_args_def)
  from max_instructions_overrun [OF this m, of 5] m show ?thesis by (intro exI [of _ m]) simp
qed


text \<open>An engine in unmapped memory: its state is PC and whether the access has been reported.\<close>

definition lost_engine :: "(u64 \<times> bool) engine" where
  "lost_engine = \<lparr>eng_ops = \<lparr>uc_reg_read = (\<lambda>r u. fst u), uc_reg_write = (\<lambda>r v u. (v AND NOT 1, snd u)),
       uc_mem_read = (\<lambda>a n u. Some [0x12, 0xF0]), uc_mem_write = (\<lambda>a bs u. None), uc_emu_stop = (\<lambda>u. u)\<rparr>,
     eng_start = (\<lambda>pc until cnt u. (pc AND NOT 1, False)),
     eng_next = (\<lambda>(pc, seen). if seen then (EmuReturned (Some ''unmapped''), (pc, seen)) else (UnmappedAccess, (pc, True))),
     eng_answer = (\<lambda>v u. u)\<rparr>"

definition lost_machine :: "(u64 \<times> bool, unit) machine" where
  "lost_machine = fresh_machine (nvic_default, (0, False), ()) (0, 0)"

theorem unmapped_skips_one_witness:
  "run_loop 3 lost_engine quiet_host demo_args 0 0x100 lost_machine =
   run_loop 2 lost_engine quiet_host demo_args 0 0x105 (lost_machine\<lparr>m_uc := (0x104, True), continue_execution := False\<rparr>)"
proof -
  have "run_loop (Suc (Suc (Suc 0))) lost_engine quiet_host demo_args 0 0x100 lost_machine =
     run_loop (Suc (Suc 0)) lost_engine quiet_host demo_args 0 (thumb (0x100 + 4))
       (lost_machine\<lparr>m_uc := (0x104, True), continue_execution := False\<rparr>)"
  proof (rule unmapped_skips_one [OF _ refl _ _ refl, where a = "0x12" and b = "0xF0" and err = "''unmapped''"
        and ?u1.0 = "(0x100, True)" and w = 4 and at = "0x100"])
    show "remaining demo_args lost_machine \<noteq> Some 0" "\<not> stop_requested lost_machine"
      by (simp_all add: remaining_def demo_args_def lost_machine_def fresh_machine_def)
  qed (simp_all add: lost_engine_def thumb_def drop_bit_eq_div)
  then show ?thesis by (simp add: thumb_def numeral_3_eq_3 numeral_2_eq_2 del: run_loop.simps)
qed

definition zero_cpu :: flat_cpu where
  "zero_cpu = \<lparr>fc_regs = (\<lambda>r. 0), fc_mem = (\<lambda>a. 0), fc_stopped = False\<rparr>"


end
