(* ===== verification/Profiles.thy ===== *)
theory Profiles
  imports Strings
begin

text \<open>
  The launcher's board profiles: \<open>src/launcher/mod.rs\<close>, the Proteus F7 board of
  \<open>src/launcher/boards/proteus_f7.rs\<close> and the catalogue of \<open>src/launcher/registry.rs\<close> with its
  generated table. Paths are strings. The YAML writer is a library: what is modelled of \<open>to_yaml\<close>
  is the configuration value it is given.
\<close>

section \<open>Data\<close>

datatype emulation_support = Runnable | Partial | Unsupported

datatype launcher_cpu_model = LauncherCortexM4 | LauncherCortexM7

definition launcher_cpu_model_default :: launcher_cpu_model where
  "launcher_cpu_model_default = LauncherCortexM4"

record memory_region =
  mr_name :: string
  mr_start :: u32
  mr_size :: u32
  mr_load_firmware :: bool

record memory_patch =
  mp_start :: u32
  mp_data :: "u8 list"

record usb_cdc_tcp_device =
  ud_peripheral :: string
  ud_listen :: string
  ud_max_buffered_bytes :: nat

record ecu_io_pin =
  ep_name :: string
  ep_pin :: string
  ep_direction :: string

record ecu_io_adc_channel =
  ea_name :: string
  ea_pin :: string

record ecu_io_trigger_wheel =
  et_signal :: string
  et_pin_signal :: string
  et_teeth :: u32
  et_missing :: u32

record ecu_io_device =
  ed_listen :: string
  ed_pins :: "ecu_io_pin list"
  ed_adc_channels :: "ecu_io_adc_channel list"
  ed_trigger_wheel :: "ecu_io_trigger_wheel option"

record profile_template =
  pt_cpu_model :: launcher_cpu_model
  pt_vector_table :: u32
  pt_regions :: "memory_region list"
  pt_patches :: "memory_patch list"
  pt_usb_cdc_tcp :: "usb_cdc_tcp_device option"
  pt_ecu_io :: "ecu_io_device option"

record known_variant =
  kv_id :: string
  kv_display_name :: string
  kv_mcu :: "string option"
  kv_support :: emulation_support
  kv_profile :: "profile_template option"

record resolved_profile =
  rp_variant :: known_variant
  rp_cpu_model :: launcher_cpu_model
  rp_vector_table :: u32
  rp_firmware :: string
  rp_svd :: string
  rp_regions :: "memory_region list"
  rp_patches :: "memory_patch list"
  rp_usb_cdc_tcp :: "usb_cdc_tcp_device option"
  rp_ecu_io :: "ecu_io_device option"

section \<open>The Proteus F7 board\<close>

definition REGIONS :: "memory_region list" where
  "REGIONS =
    [\<lparr>mr_name = ''ROM-ITCM-alias'', mr_start = 0x200000, mr_size = 0x200000, mr_load_firmware = True\<rparr>,
     \<lparr>mr_name = ''ROM-AXI-alias'', mr_start = 0x8000000, mr_size = 0x200000, mr_load_firmware = True\<rparr>,
     \<lparr>mr_name = ''ITCM-RAM'', mr_start = 0x0, mr_size = 0x4000, mr_load_firmware = False\<rparr>,
     \<lparr>mr_name = ''System-identifiers'', mr_start = 0x1FF0F000, mr_size = 0x1000, mr_load_firmware = False\<rparr>,
     \<lparr>mr_name = ''DTCM-RAM'', mr_start = 0x20000000, mr_size = 0x20000, mr_load_firmware = False\<rparr>,
     \<lparr>mr_name = ''SRAM1'', mr_start = 0x20020000, mr_size = 0x5C000, mr_load_firmware = False\<rparr>,
     \<lparr>mr_name = ''SRAM2'', mr_start = 0x2007C000, mr_size = 0x4000, mr_load_firmware = False\<rparr>]"

definition PATCHES :: "memory_patch list" where
  "PATCHES = [\<lparr>mp_start = 0x1FF0F442, mp_data = [0x00, 0x08]\<rparr>]"

text \<open>The pin table in the groups its comments name.\<close>

definition VR_TRIGGER_INPUTS :: "ecu_io_pin list" where
  "VR_TRIGGER_INPUTS =
    [\<lparr>ep_name = ''vr1'', ep_pin = ''PE7'', ep_direction = ''input''\<rparr>,
     \<lparr>ep_name = ''vr2'', ep_pin = ''PE8'', ep_direction = ''input''\<rparr>]"

definition DIGITAL_INPUTS :: "ecu_io_pin list" where
  "DIGITAL_INPUTS =
    [\<lparr>ep_name = ''din1'', ep_pin = ''PC6'', ep_direction = ''input''\<rparr>,
     \<lparr>ep_name = ''din2'', ep_pin = ''PE11'', ep_direction = ''input''\<rparr>,
     \<lparr>ep_name = ''din3'', ep_pin = ''PE12'', ep_direction = ''input''\<rparr>,
     \<lparr>ep_name = ''din4'', ep_pin = ''PE14'', ep_direction = ''input''\<rparr>,
     \<lparr>ep_name = ''din5'', ep_pin = ''PE13'', ep_direction = ''input''\<rparr>,
     \<lparr>ep_name = ''din6'', ep_pin = ''PE15'', ep_direction = ''input''\<rparr>]"

definition LOWSIDE_OUTPUTS :: "ecu_io_pin list" where
  "LOWSIDE_OUTPUTS =
    [\<lparr>ep_name = ''ls1'', ep_pin = ''PD7'', ep_direction = ''output''\<rparr>,
     \<lparr>ep_name = ''ls2'', ep_pin = ''PG9'', ep_direction = ''output''\<rparr>,
     \<lparr>ep_name = ''ls3'', ep_pin = ''PG10'', ep_direction = ''output''\<rparr>,
     \<lparr>ep_name = ''ls4'', ep_pin = ''PG11'', ep_direction = ''output''\<rparr>,
     \<lparr>ep_name = ''ls5'', ep_pin = ''PG12'', ep_direction = ''output''\<rparr>,
     \<lparr>ep_name = ''ls6'', ep_pin = ''PG13'', ep_direction = ''output''\<rparr>,
     \<lparr>ep_name = ''ls7'', ep_pin = ''PG14'', ep_direction = ''output''\<rparr>,
     \<lparr>ep_name = ''ls8'', ep_pin = ''PB4'', ep_direction = ''output''\<rparr>,
     \<lparr>ep_name = ''ls9'', ep_pin = ''PB5'', ep_direction = ''output''\<rparr>,
     \<lparr>ep_name = ''ls10'', ep_pin = ''PB6'', ep_direction = ''output''\<rparr>,
     \<lparr>ep_name = ''ls11'', ep_pin = ''PB7'', ep_direction = ''output''\<rparr>,
     \<lparr>ep_name = ''ls12'', ep_pin = ''PB8'', ep_direction = ''output''\<rparr>,
     \<lparr>ep_name = ''ls13'', ep_pin = ''PB9'', ep_direction = ''output''\<rparr>,
     \<lparr>ep_name = ''ls14'', ep_pin = ''PE0'', ep_direction = ''output''\<rparr>,
     \<lparr>ep_name = ''ls15'', ep_pin = ''PE1'', ep_direction = ''output''\<rparr>,
     \<lparr>ep_name = ''ls16'', ep_pin = ''PE2'', ep_direction = ''output''\<rparr>]"

definition HIGHSIDE_OUTPUTS :: "ecu_io_pin list" where
  "HIGHSIDE_OUTPUTS =
    [\<lparr>ep_name = ''hs1'', ep_pin = ''PA9'', ep_direction = ''output''\<rparr>,
     \<lparr>ep_name = ''hs2'', ep_pin = ''PA8'', ep_direction = ''output''\<rparr>,
     \<lparr>ep_name = ''hs3'', ep_pin = ''PD15'', ep_direction = ''output''\<rparr>,
     \<lparr>ep_name = ''hs4'', ep_pin = ''PD14'', ep_direction = ''output''\<rparr>]"

definition IGNITION_OUTPUTS :: "ecu_io_pin list" where
  "IGNITION_OUTPUTS =
    [\<lparr>ep_name = ''ign1'', ep_pin = ''PD4'', ep_direction = ''output''\<rparr>,
     \<lparr>ep_name = ''ign2'', ep_pin = ''PD3'', ep_direction = ''output''\<rparr>,
     \<lparr>ep_name = ''ign3'', ep_pin = ''PC9'', ep_direction = ''output''\<rparr>,
     \<lparr>ep_name = ''ign4'', ep_pin = ''PC8'', ep_direction = ''output''\<rparr>,
     \<lparr>ep_name = ''ign5'', ep_pin = ''PC7'', ep_direction = ''output''\<rparr>,
     \<lparr>ep_name = ''ign6'', ep_pin = ''PG8'', ep_direction = ''output''\<rparr>,
     \<lparr>ep_name = ''ign7'', ep_pin = ''PG7'', ep_direction = ''output''\<rparr>,
     \<lparr>ep_name = ''ign8'', ep_pin = ''PG6'', ep_direction = ''output''\<rparr>,
     \<lparr>ep_name = ''ign9'', ep_pin = ''PG5'', ep_direction = ''output''\<rparr>,
     \<lparr>ep_name = ''ign10'', ep_pin = ''PG4'', ep_direction = ''output''\<rparr>,
     \<lparr>ep_name = ''ign11'', ep_pin = ''PG3'', ep_direction = ''output''\<rparr>,
     \<lparr>ep_name = ''ign12'', ep_pin = ''PG2'', ep_direction = ''output''\<rparr>]"

definition ECU_IO_PINS :: "ecu_io_pin list" where
  "ECU_IO_PINS = VR_TRIGGER_INPUTS @ DIGITAL_INPUTS @ LOWSIDE_OUTPUTS @ HIGHSIDE_OUTPUTS @ IGNITION_OUTPUTS"

lemmas ECU_IO_PINS_defs = ECU_IO_PINS_def VR_TRIGGER_INPUTS_def DIGITAL_INPUTS_def LOWSIDE_OUTPUTS_def
  HIGHSIDE_OUTPUTS_def IGNITION_OUTPUTS_def

definition ECU_IO_ADC_CHANNELS :: "ecu_io_adc_channel list" where
  "ECU_IO_ADC_CHANNELS =
    [\<lparr>ea_name = ''at1'', ea_pin = ''PC4''\<rparr>,
     \<lparr>ea_name = ''at2'', ea_pin = ''PC5''\<rparr>,
     \<lparr>ea_name = ''at3'', ea_pin = ''PB0''\<rparr>,
     \<lparr>ea_name = ''at4'', ea_pin = ''PB1''\<rparr>,
     \<lparr>ea_name = ''av1'', ea_pin = ''PC0''\<rparr>,
     \<lparr>ea_name = ''av2'', ea_pin = ''PC1''\<rparr>,
     \<lparr>ea_name = ''av3'', ea_pin = ''PC2''\<rparr>,
     \<lparr>ea_name = ''av4'', ea_pin = ''PC3''\<rparr>,
     \<lparr>ea_name = ''av5'', ea_pin = ''PA0''\<rparr>,
     \<lparr>ea_name = ''av6'', ea_pin = ''PA1''\<rparr>,
     \<lparr>ea_name = ''av7'', ea_pin = ''PA2''\<rparr>,
     \<lparr>ea_name = ''av8'', ea_pin = ''PA3''\<rparr>,
     \<lparr>ea_name = ''av9'', ea_pin = ''PA4''\<rparr>,
     \<lparr>ea_name = ''av10'', ea_pin = ''PA5''\<rparr>,
     \<lparr>ea_name = ''av11'', ea_pin = ''PA6''\<rparr>,
     \<lparr>ea_name = ''vbatt'', ea_pin = ''PA7''\<rparr>]"

definition PROFILE :: profile_template where
  "PROFILE = \<lparr>pt_cpu_model = LauncherCortexM7, pt_vector_table = 0x200000, pt_regions = REGIONS,
     pt_patches = PATCHES,
     pt_usb_cdc_tcp = Some \<lparr>ud_peripheral = ''OTG_FS_GLOBAL'', ud_listen = ''127.0.0.1:29000'',
       ud_max_buffered_bytes = 65536\<rparr>,
     pt_ecu_io = Some \<lparr>ed_listen = ''127.0.0.1:29002'', ed_pins = ECU_IO_PINS,
       ed_adc_channels = ECU_IO_ADC_CHANNELS,
       ed_trigger_wheel = Some \<lparr>et_signal = ''trigger_rpm'', et_pin_signal = ''din1'',
         et_teeth = 60, et_missing = 2\<rparr>\<rparr>\<rparr>"

section \<open>Variants\<close>

definition variant_proteus_f7 :: known_variant where
  "variant_proteus_f7 = \<lparr>kv_id = ''proteus_f7'', kv_display_name = ''Proteus F7'',
     kv_mcu = Some ''STM32F767'', kv_support = Partial, kv_profile = Some PROFILE\<rparr>"

definition variant_manual :: known_variant where
  "variant_manual = \<lparr>kv_id = ''manual'', kv_display_name = ''Manual profile'', kv_mcu = None,
     kv_support = Runnable, kv_profile = None\<rparr>"

definition variant_cataloged :: "string \<Rightarrow> string \<Rightarrow> string option \<Rightarrow> known_variant" where
  "variant_cataloged vid display_name mcu = \<lparr>kv_id = vid, kv_display_name = display_name, kv_mcu = mcu,
     kv_support = Unsupported, kv_profile = None\<rparr>"

record generated_variant =
  gv_id :: string
  gv_display_name :: string
  gv_mcu_family :: "string option"

text \<open>The generated table, sorted by identifier, in two parts.\<close>

definition GENERATED_VARIANTS_TO_HELLEN154 :: "generated_variant list" where
  "GENERATED_VARIANTS_TO_HELLEN154 =
    [\<lparr>gv_id = ''BossECU_48'', gv_display_name = ''BossECU 48 (STM32F4) / BossECU_48'',
      gv_mcu_family = Some ''ARCH_STM32F4''\<rparr>,
     \<lparr>gv_id = ''EFIPRO'', gv_display_name = ''EFIPRO (STM32F4) / EFIPRO'',
      gv_mcu_family = Some ''ARCH_STM32F4''\<rparr>,
     \<lparr>gv_id = ''EFIPRO_H7'', gv_display_name = ''EFIPRO H7 (STM32H7) / EFIPRO_H7'',
      gv_mcu_family = Some ''ARCH_STM32H7''\<rparr>,
     \<lparr>gv_id = ''FCR_MicroF4'', gv_display_name = ''FCR Micro F4 (STM32F429 / F407 bench variant) / FCR_MicroF4'',
      gv_mcu_family = Some ''ARCH_STM32F4''\<rparr>,
     \<lparr>gv_id = ''KLM_BrainBoard'', gv_display_name = ''KLM BrainBoard (STM32F7) / KLM_BrainBoard'',
      gv_mcu_family = Some ''ARCH_STM32F7''\<rparr>,
     \<lparr>gv_id = ''KLM_ME3'', gv_display_name = ''KLM ME3 (STM32F7) / KLM_ME3'',
      gv_mcu_family = Some ''ARCH_STM32F7''\<rparr>,
     \<lparr>gv_id = ''KLM_MS43'', gv_display_name = ''KLM MS43 (STM32F7) / KLM_MS43'',
      gv_mcu_family = Some ''ARCH_STM32F7''\<rparr>,
     \<lparr>gv_id = ''M144F4RED'', gv_display_name = ''M144 F4 Red (STM32F4) / M144F4RED'',
      gv_mcu_family = Some ''ARCH_STM32F4''\<rparr>,
     \<lparr>gv_id = ''M144F7RED'', gv_display_name = ''M144 F7 Red (STM32F7) / M144F7RED'',
      gv_mcu_family = Some ''ARCH_STM32F7''\<rparr>,
     \<lparr>gv_id = ''M144H7BLACK'', gv_display_name = ''M144 H7 Black (STM32H7) / M144H7BLACK'',
      gv_mcu_family = Some ''ARCH_STM32H7''\<rparr>,
     \<lparr>gv_id = ''MEGA100F4'', gv_display_name = ''MEGA 100 F4 (STM32F4) / MEGA100F4'',
      gv_mcu_family = Some ''ARCH_STM32F4''\<rparr>,
     \<lparr>gv_id = ''MEGA100F429x16'', gv_display_name = ''MEGA 100 F429 x16 (STM32F429) / MEGA100F429x16'',
      gv_mcu_family = Some ''ARCH_STM32F4''\<rparr>,
     \<lparr>gv_id = ''MEGA100F4x16'', gv_display_name = ''MEGA 100 F4 x16 (STM32F4) / MEGA100F4x16'',
      gv_mcu_family = Some ''ARCH_STM32F4''\<rparr>,
     \<lparr>gv_id = ''MEGA144F7'', gv_display_name = ''MEGA 144 F7 (STM32F7) / MEGA144F7'',
      gv_mcu_family = Some ''ARCH_STM32F7''\<rparr>,
     \<lparr>gv_id = ''MEGA144H7'', gv_display_name = ''MEGA 144 H7 (STM32H7) / MEGA144H7'',
      gv_mcu_family = Some ''ARCH_STM32H7''\<rparr>,
     \<lparr>gv_id = ''MEGA144H7X20'', gv_display_name = ''MEGA 144 H7 (STM32H7) / MEGA144H7X20'',
      gv_mcu_family = Some ''ARCH_STM32H7''\<rparr>,
     \<lparr>gv_id = ''alphax-8chan'', gv_display_name = ''Hellen AlphaX 8-channel (F4 / F7) / alphax-8chan'',
      gv_mcu_family = Some ''ARCH_STM32F4''\<rparr>,
     \<lparr>gv_id = ''alphax-8chan_f7'', gv_display_name = ''Hellen AlphaX 8-channel (F4 / F7) / alphax-8chan_f7'',
      gv_mcu_family = Some ''ARCH_STM32F7''\<rparr>,
     \<lparr>gv_id = ''alphax-8chan_f7_debug'', gv_display_name = ''Hellen AlphaX 8-channel (F4 / F7) / alphax-8chan_f7_debug'',
      gv_mcu_family = Some ''ARCH_STM32F7''\<rparr>,
     \<lparr>gv_id = ''alphax-gold'', gv_display_name = ''Hellen AlphaX Gold (STM32F7) / alphax-gold'',
      gv_mcu_family = Some ''ARCH_STM32F7''\<rparr>,
     \<lparr>gv_id = ''alphax-silver'', gv_display_name = ''Hellen AlphaX Silver (STM32F4) / alphax-silver'',
      gv_mcu_family = Some ''ARCH_STM32F4''\<rparr>,
     \<lparr>gv_id = ''bossbrain_f427'', gv_display_name = ''BossBrain F427 (STM32F429) / bossbrain_f427'',
      gv_mcu_family = Some ''ARCH_STM32F4''\<rparr>,
     \<lparr>gv_id = ''epicECU'', gv_display_name = ''epicECU (STM32F7) / epicECU'',
      gv_mcu_family = Some ''ARCH_STM32F7''\<rparr>,
     \<lparr>gv_id = ''epicECUv1'', gv_display_name = ''epicECU v1 (STM32H7) / epicECUv1'',
      gv_mcu_family = Some ''ARCH_STM32H7''\<rparr>,
     \<lparr>gv_id = ''f407-discovery'', gv_display_name = ''STM32F407 Discovery board / f407-discovery'',
      gv_mcu_family = Some ''ARCH_STM32F4''\<rparr>,
     \<lparr>gv_id = ''f407-discoveryBIGFUEL'', gv_display_name = ''STM32F407 Discovery BIGFUEL variant / f407-discoveryBIGFUEL'',
      gv_mcu_family = Some ''ARCH_STM32F4''\<rparr>,
     \<lparr>gv_id = ''fcr_microf4_f407'', gv_display_name = ''FCR Micro F4 (STM32F429 / F407 bench variant) / fcr_microf4_f407'',
      gv_mcu_family = Some ''ARCH_STM32F4''\<rparr>,
     \<lparr>gv_id = ''fome_atlas'', gv_display_name = ''FOME Atlas H7 / fome_atlas'',
      gv_mcu_family = Some ''ARCH_STM32H7''\<rparr>,
     \<lparr>gv_id = ''hellen154hyundai'', gv_display_name = ''Hellen 154 Hyundai (STM32F4) / hellen154hyundai'',
      gv_mcu_family = Some ''ARCH_STM32F4''\<rparr>,
     \<lparr>gv_id = ''hellen154hyundai_f7'', gv_display_name = ''Hellen 154 Hyundai (STM32F7) / hellen154hyundai_f7'',
      gv_mcu_family = Some ''ARCH_STM32F7''\<rparr>]"

definition GENERATED_VARIANTS_FROM_UAEFI :: "generated_variant list" where
  "GENERATED_VARIANTS_FROM_UAEFI =
    [\<lparr>gv_id = ''hellen__uaefi__uaefi_pro_h7'', gv_display_name = ''Hellen uaEFI family (F4 / F7 / H7, TCU) / uaefi_pro_h7'',
      gv_mcu_family = Some ''ARCH_STM32H7''\<rparr>,
     \<lparr>gv_id = ''hellen__uaefibigfuel__uaefi_pro_h7'', gv_display_name = ''Hellen uaEFI BIGFUEL family (F4 / F7 / H7) / uaefi_pro_h7'',
      gv_mcu_family = Some ''ARCH_STM32H7''\<rparr>,
     \<lparr>gv_id = ''mre-legacy_f4'', gv_display_name = ''MicroRusEFI (MRE) family (F4 / F7 / legacy F4) / mre-legacy_f4'',
      gv_mcu_family = Some ''ARCH_STM32F4''\<rparr>,
     \<lparr>gv_id = ''mre_f4'', gv_display_name = ''MicroRusEFI (MRE) family (F4 / F7 / legacy F4) / mre_f4'',
      gv_mcu_family = Some ''ARCH_STM32F4''\<rparr>,
     \<lparr>gv_id = ''mre_f7'', gv_display_name = ''MicroRusEFI (MRE) family (F4 / F7 / legacy F4) / mre_f7'',
      gv_mcu_family = Some ''ARCH_STM32F7''\<rparr>,
     \<lparr>gv_id = ''paralela'', gv_display_name = ''Paralela (STM32F4 / F429) / paralela'',
      gv_mcu_family = Some ''ARCH_STM32F4''\<rparr>,
     \<lparr>gv_id = ''paralela427'', gv_display_name = ''Paralela (STM32F4 / F429) / paralela427'',
      gv_mcu_family = Some ''ARCH_STM32F4''\<rparr>,
     \<lparr>gv_id = ''proteus_f4'', gv_display_name = ''Proteus ECU family (F4/F7/H7) / proteus_f4'',
      gv_mcu_family = Some ''ARCH_STM32F4''\<rparr>,
     \<lparr>gv_id = ''proteus_f4_bigfuel'', gv_display_name = ''Proteus ECU family (F4/F7/H7) / proteus_f4_bigfuel'',
      gv_mcu_family = Some ''ARCH_STM32F4''\<rparr>,
     \<lparr>gv_id = ''proteus_f7'', gv_display_name = ''Proteus ECU family (F4/F7/H7) / proteus_f7'',
      gv_mcu_family = Some ''ARCH_STM32F7''\<rparr>,
     \<lparr>gv_id = ''proteus_f7_openblt'', gv_display_name = ''Proteus ECU family (F4/F7/H7) / proteus_f7_openblt'',
      gv_mcu_family = Some ''ARCH_STM32F7''\<rparr>,
     \<lparr>gv_id = ''proteus_f7_tcu'', gv_display_name = ''Proteus ECU family (F4/F7/H7) / proteus_f7_tcu'',
      gv_mcu_family = Some ''ARCH_STM32F7''\<rparr>,
     \<lparr>gv_id = ''proteus_h7'', gv_display_name = ''Proteus ECU family (F4/F7/H7) / proteus_h7'',
      gv_mcu_family = Some ''ARCH_STM32H7''\<rparr>,
     \<lparr>gv_id = ''proteus_h7_debug'', gv_display_name = ''Proteus ECU family (F4/F7/H7) / proteus_h7_debug'',
      gv_mcu_family = Some ''ARCH_STM32H7''\<rparr>,
     \<lparr>gv_id = ''proteus_legacy'', gv_display_name = ''Proteus ECU family (F4/F7/H7) / proteus_legacy'',
      gv_mcu_family = Some ''ARCH_STM32F7''\<rparr>,
     \<lparr>gv_id = ''simulator'', gv_display_name = ''epicEFI simulator (host build, no MCU) / simulator'',
      gv_mcu_family = Some ''simulator''\<rparr>,
     \<lparr>gv_id = ''super-uaefi'', gv_display_name = ''Hellen Super uaEFI (STM32F7) / super-uaefi'',
      gv_mcu_family = Some ''ARCH_STM32F7''\<rparr>,
     \<lparr>gv_id = ''tupperware'', gv_display_name = ''Tupperware (STM32H7) / tupperware'',
      gv_mcu_family = Some ''ARCH_STM32H7''\<rparr>,
     \<lparr>gv_id = ''uaefi'', gv_display_name = ''Hellen uaEFI family (F4 / F7 / H7, TCU) / uaefi'',
      gv_mcu_family = Some ''ARCH_STM32F4''\<rparr>,
     \<lparr>gv_id = ''uaefi-obd1'', gv_display_name = ''Hellen uaEFI Honda OBD1 (STM32F4) / uaefi-obd1'',
      gv_mcu_family = Some ''ARCH_STM32F4''\<rparr>,
     \<lparr>gv_id = ''uaefi-tcu'', gv_display_name = ''Hellen uaEFI family (F4 / F7 / H7, TCU) / uaefi-tcu'',
      gv_mcu_family = Some ''ARCH_STM32F4''\<rparr>,
     \<lparr>gv_id = ''uaefi121'', gv_display_name = ''Hellen uaEFI 121 (STM32F4) / uaefi121'',
      gv_mcu_family = Some ''ARCH_STM32F4''\<rparr>,
     \<lparr>gv_id = ''uaefiBIGFUEL'', gv_display_name = ''Hellen uaEFI BIGFUEL family (F4 / F7 / H7) / uaefiBIGFUEL'',
      gv_mcu_family = Some ''ARCH_STM32F4''\<rparr>,
     \<lparr>gv_id = ''uaefi_pro'', gv_display_name = ''Hellen uaEFI family (F4 / F7 / H7, TCU) / uaefi_pro'',
      gv_mcu_family = Some ''ARCH_STM32F7''\<rparr>,
     \<lparr>gv_id = ''uaefi_pro_bigfuel'', gv_display_name = ''Hellen uaEFI BIGFUEL family (F4 / F7 / H7) / uaefi_pro_bigfuel'',
      gv_mcu_family = Some ''ARCH_STM32F7''\<rparr>,
     \<lparr>gv_id = ''unit_tests'', gv_display_name = ''Unit test harness (no MCU) / unit_tests'',
      gv_mcu_family = Some ''ARCH_STM32F4''\<rparr>,
     \<lparr>gv_id = ''vthpnp'', gv_display_name = ''VTH PnP (STM32F4) / vthpnp'',
      gv_mcu_family = Some ''ARCH_STM32F4''\<rparr>,
     \<lparr>gv_id = ''xECU862'', gv_display_name = ''Hellen xECU 862 (STM32F4) / xECU862'',
      gv_mcu_family = Some ''ARCH_STM32F4''\<rparr>,
     \<lparr>gv_id = ''xECU862-bigfuel'', gv_display_name = ''Hellen xECU 862 (STM32F4) / xECU862-bigfuel'',
      gv_mcu_family = Some ''ARCH_STM32F4''\<rparr>,
     \<lparr>gv_id = ''zgrywus-k8'', gv_display_name = ''Zgrywus K8 (STM32F4) / zgrywus-k8'',
      gv_mcu_family = Some ''ARCH_STM32F4''\<rparr>,
     \<lparr>gv_id = ''zgrywus-ms43'', gv_display_name = ''Zgrywus MS43 (STM32F4) / zgrywus-ms43'',
      gv_mcu_family = Some ''ARCH_STM32F4''\<rparr>]"

definition GENERATED_VARIANTS :: "generated_variant list" where
  "GENERATED_VARIANTS = GENERATED_VARIANTS_TO_HELLEN154 @ GENERATED_VARIANTS_FROM_UAEFI"

lemmas GENERATED_VARIANTS_defs = GENERATED_VARIANTS_def GENERATED_VARIANTS_TO_HELLEN154_def
  GENERATED_VARIANTS_FROM_UAEFI_def

definition all_variants :: "known_variant list" where
  "all_variants = map (\<lambda>v. if gv_id v = ''proteus_f7'' then variant_proteus_f7
     else variant_cataloged (gv_id v) (gv_display_name v) (gv_mcu_family v)) GENERATED_VARIANTS"

definition support_summary :: "known_variant \<Rightarrow> string" where
  "support_summary v =
     (case kv_support v of
        Runnable \<Rightarrow> ''Runnable: profile and devices are modeled.''
      | Partial \<Rightarrow> ''Partial: the memory map is verified; device-model coverage remains incomplete.''
      | Unsupported \<Rightarrow> ''Cataloged only: no evidence-backed MCU, memory map, and SVD profile exists.'')"

section \<open>Resolved profiles\<close>

datatype profile_error = UnsupportedVariant string

definition profile_error_display :: "profile_error \<Rightarrow> string" where
  "profile_error_display e =
     (case e of UnsupportedVariant variant \<Rightarrow>
        ''Variant '' @ [CHR 0x27] @ variant @ [CHR 0x27] @ '' has no verified emulation profile'')"

text \<open>The error is in its displayed form, which is all its callers use.\<close>

definition for_variant :: "known_variant \<Rightarrow> string \<Rightarrow> string \<Rightarrow> resolved_profile fallible" where
  "for_variant v firmware svd =
     (case kv_profile v of
        None \<Rightarrow> Inl (profile_error_display (UnsupportedVariant (kv_id v)))
      | Some t \<Rightarrow> Inr \<lparr>rp_variant = v, rp_cpu_model = pt_cpu_model t, rp_vector_table = pt_vector_table t,
          rp_firmware = firmware, rp_svd = svd, rp_regions = pt_regions t, rp_patches = pt_patches t,
          rp_usb_cdc_tcp = pt_usb_cdc_tcp t, rp_ecu_io = pt_ecu_io t\<rparr>)"

text \<open>\<open>rsplit(':').next()\<close>: what follows the last colon, or everything.\<close>

definition after_last :: "char \<Rightarrow> string \<Rightarrow> string" where
  "after_last c s = rev (takeWhile (\<lambda>x. x \<noteq> c) (rev s))"

definition parse_u16 :: "string \<Rightarrow> int option" where
  "parse_u16 s = parse_int 10 0 65535 s"

definition usb_cdc_tcp_port :: "resolved_profile \<Rightarrow> int option" where
  "usb_cdc_tcp_port p =
     (case rp_usb_cdc_tcp p of None \<Rightarrow> None | Some d \<Rightarrow> parse_u16 (after_last CHR '':'' (ud_listen d)))"

definition set_usb_cdc_tcp_port :: "int \<Rightarrow> resolved_profile \<Rightarrow> resolved_profile" where
  "set_usb_cdc_tcp_port port p =
     p\<lparr>rp_usb_cdc_tcp := map_option (\<lambda>d. d\<lparr>ud_listen := ''127.0.0.1:'' @ show_int port\<rparr>) (rp_usb_cdc_tcp p)\<rparr>"

definition manual_profile ::
  "launcher_cpu_model \<Rightarrow> string \<Rightarrow> string \<Rightarrow> u32 \<Rightarrow> u32 \<Rightarrow> u32 \<Rightarrow> u32 \<Rightarrow> u32 \<Rightarrow> resolved_profile" where
  "manual_profile cpu_model firmware svd vector_table flash_start flash_size ram_start ram_size =
     \<lparr>rp_variant = variant_manual, rp_cpu_model = cpu_model, rp_vector_table = vector_table,
      rp_firmware = firmware, rp_svd = svd,
      rp_regions =
        [\<lparr>mr_name = ''Manual-FLASH'', mr_start = flash_start, mr_size = flash_size, mr_load_firmware = True\<rparr>,
         \<lparr>mr_name = ''Manual-RAM'', mr_start = ram_start, mr_size = ram_size, mr_load_firmware = False\<rparr>],
      rp_patches = [], rp_usb_cdc_tcp = None, rp_ecu_io = None\<rparr>"

text \<open>The value handed to the YAML writer.\<close>

record yaml_cpu =
  yc_model :: launcher_cpu_model
  yc_svd :: string
  yc_vector_table :: u32

record yaml_region =
  yr_name :: string
  yr_start :: u32
  yr_size :: u32
  yr_load :: "string option"

record yaml_devices =
  yd_usb_cdc_tcp :: "usb_cdc_tcp_device list"
  yd_ecu_io :: "ecu_io_device list"

record yaml_config =
  yaml_cpu_section :: yaml_cpu
  yaml_regions :: "yaml_region list"
  yaml_patches :: "memory_patch list"
  yaml_devices_section :: "yaml_devices option"

definition option_list :: "'a option \<Rightarrow> 'a list" where
  "option_list x = (case x of None \<Rightarrow> [] | Some v \<Rightarrow> [v])"

definition to_yaml :: "resolved_profile \<Rightarrow> yaml_config" where
  "to_yaml p =
     \<lparr>yaml_cpu_section = \<lparr>yc_model = rp_cpu_model p, yc_svd = utf8_lossy (rp_svd p), yc_vector_table = rp_vector_table p\<rparr>,
      yaml_regions = map (\<lambda>r. \<lparr>yr_name = mr_name r, yr_start = mr_start r, yr_size = mr_size r,
         yr_load = (if mr_load_firmware r then Some (utf8_lossy (rp_firmware p)) else None)\<rparr>) (rp_regions p),
      yaml_patches = rp_patches p,
      yaml_devices_section =
        (if rp_usb_cdc_tcp p \<noteq> None \<or> rp_ecu_io p \<noteq> None
         then Some \<lparr>yd_usb_cdc_tcp = option_list (rp_usb_cdc_tcp p), yd_ecu_io = option_list (rp_ecu_io p)\<rparr>
         else None)\<rparr>"

section \<open>Lemmas\<close>

lemma parse_int_range: "parse_int radix lo hi s = Some i \<Longrightarrow> lo \<le> i \<and> i \<le> hi"
  by (auto simp: parse_int_def Let_def split: prod.splits option.splits if_splits)

lemma after_last_append: "c \<notin> set t \<Longrightarrow> after_last c (s @ c # t) = t"
  by (auto simp: after_last_def takeWhile_append)

lemma port_of_listen:
  assumes "0 \<le> port" "port \<le> 65535"
  shows "parse_u16 (after_last CHR '':'' (''127.0.0.1:'' @ show_int port)) = Some port"
proof -
  have "CHR '':'' \<notin> set (show_int port)"
    using show_int_chars [of port] by (auto simp: char_in_def)
  from after_last_append [OF this, of "''127.0.0.1''"] assms show ?thesis
    by (simp add: parse_u16_def parse_show_int)
qed

lemma set_port_then_port:
  "0 \<le> port \<Longrightarrow> port \<le> 65535 \<Longrightarrow> rp_usb_cdc_tcp p \<noteq> None \<Longrightarrow>
   usb_cdc_tcp_port (set_usb_cdc_tcp_port port p) = Some port"
  using port_of_listen [of port] by (auto simp: usb_cdc_tcp_port_def set_usb_cdc_tcp_port_def)

lemma catalogue_runnable: "v \<in> set all_variants \<Longrightarrow> kv_support v \<noteq> Unsupported \<Longrightarrow> v = variant_proteus_f7"
  by (auto simp: all_variants_def variant_cataloged_def split: if_splits)

end
