(* ===== verification/VariantRegistry.thy ===== *)
theory VariantRegistry
  imports Profiles "HOL-Library.List_Lexorder" "HOL-Library.Char_ord"
begin

text \<open>
  The tool \<open>src/bin/generate-variant-registry.rs\<close> that writes the launcher's catalogue: the walk over
  the firmware's board directory, reading a \<open>board.yaml\<close>, qualifying ambiguous ids, sorting, the
  duplicate check and the text of the table. The YAML library is a record of functions, a directory
  is the list of entries \<open>read_dir\<close> yields, and strings are ordered by their bytes.
\<close>

section \<open>Data\<close>

record variant =
  v_id :: string
  v_board_slug :: string
  v_display_name :: string
  v_mcu_family :: "string option"

text \<open>What the tool uses of \<open>serde_yaml\<close>: parsing, the field of a value or of a mapping, and the two views
  of a value.\<close>

record 'v yaml_lib =
  yaml_parse :: "string \<Rightarrow> 'v fallible"
  yaml_get :: "'v \<Rightarrow> string \<Rightarrow> 'v option"
  mapping_get :: "('v \<times> 'v) list \<Rightarrow> string \<Rightarrow> 'v option"
  as_str :: "'v \<Rightarrow> string option"
  as_mapping :: "'v \<Rightarrow> ('v \<times> 'v) list option"

text \<open>An entry of a directory: one that cannot be read, a file with its contents, or a directory with
  its entries; \<open>None\<close> is a file or directory that cannot be opened.\<close>

datatype dir_entry =
    EntryFailed string
  | FileEntry string "string option"
  | DirEntry string "dir_entry list option"

section \<open>Sorted maps\<close>

text \<open>A \<open>BTreeMap\<close> is its entries in the order of its keys.\<close>

fun bt_insert :: "'k::linorder \<Rightarrow> 'v \<Rightarrow> ('k \<times> 'v) list \<Rightarrow> ('k \<times> 'v) list" where
  "bt_insert k v [] = [(k, v)]"
| "bt_insert k v ((k', v') # m) =
     (if k < k' then (k, v) # (k', v') # m
      else if k = k' then (k, v) # m
      else (k', v') # bt_insert k v m)"

definition bt_of_list :: "('k::linorder \<times> 'v) list \<Rightarrow> ('k \<times> 'v) list" where
  "bt_of_list kvs = fold (\<lambda>(k, v). bt_insert k v) kvs []"

definition read_variant_map :: "'v yaml_lib \<Rightarrow> ('v \<times> 'v) list \<Rightarrow> (string \<times> ('v \<times> 'v) list) list fallible" where
  "read_variant_map y m =
     res_map bt_of_list
       (map_res (\<lambda>(k, settings).
          case as_str y k of
            None \<Rightarrow> Inl ''variant IDs must be strings''
          | Some vid \<Rightarrow>
              (case as_mapping y settings of
                 None \<Rightarrow> Inl ''variant settings must be mappings''
               | Some s \<Rightarrow> Inr (vid, s))) m)"

section \<open>One board\<close>

definition to_ascii_lowercase :: "string \<Rightarrow> string" where
  "to_ascii_lowercase s = map (\<lambda>c. if char_in 65 c 90 then char_of ((of_char c :: nat) + 32) else c) s"

fun join_with :: "string \<Rightarrow> string list \<Rightarrow> string" where
  "join_with sep [] = []"
| "join_with sep [s] = s"
| "join_with sep (s # ss) = s @ sep @ join_with sep ss"

definition board_slug :: "string list \<Rightarrow> string" where
  "board_slug components = to_ascii_lowercase (join_with ''__'' (map utf8_lossy components))"

definition read_board_variants :: "'v yaml_lib \<Rightarrow> (string list \<Rightarrow> string) \<Rightarrow> string list \<Rightarrow> string option \<Rightarrow> variant list fallible" where
  "read_board_variants y display components contents =
     (case contents of
        None \<Rightarrow> Inl (''reading '' @ display (components @ [''board.yaml'']))
      | Some source \<Rightarrow>
          res_bind (yaml_parse y source) (\<lambda>board.
            let description =
                  (case Option.bind (yaml_get y board ''description'') (as_str y) of
                     Some s \<Rightarrow> s
                   | None \<Rightarrow> (case Option.bind (yaml_get y board ''name'') (as_str y) of
                        Some s \<Rightarrow> s | None \<Rightarrow> ''EpicEFI board''))
            in res_map (map (\<lambda>(vid, settings).
                   \<lparr>v_id = vid, v_board_slug = board_slug components,
                    v_display_name = description @ '' / '' @ vid,
                    v_mcu_family = Option.bind (mapping_get y settings ''PROJECT_CPU'') (as_str y)\<rparr>))
                 (case Option.bind (yaml_get y board ''variants'') (as_mapping y) of
                    None \<Rightarrow> Inr [] | Some m \<Rightarrow> read_variant_map y m)))"

section \<open>The walk\<close>

text \<open>\<open>components\<close> is the path of the directory below the boards root; \<open>display\<close> prints such a path.\<close>

fun collect_entries :: "'v yaml_lib \<Rightarrow> (string list \<Rightarrow> string) \<Rightarrow> string list \<Rightarrow> dir_entry list \<Rightarrow> variant list fallible" where
  "collect_entries y display components [] = Inr []"
| "collect_entries y display components (EntryFailed e # es) = Inl e"
| "collect_entries y display components (DirEntry name None # es) =
     Inl (''reading '' @ display (components @ [name]))"
| "collect_entries y display components (DirEntry name (Some ds) # es) =
     res_bind (collect_entries y display (components @ [name]) ds) (\<lambda>vs.
       res_map (\<lambda>ws. vs @ ws) (collect_entries y display components es))"
| "collect_entries y display components (FileEntry name contents # es) =
     res_bind (if name = ''board.yaml'' then read_board_variants y display components contents else Inr []) (\<lambda>vs.
       res_map (\<lambda>ws. vs @ ws) (collect_entries y display components es))"

definition collect_variants :: "'v yaml_lib \<Rightarrow> (string list \<Rightarrow> string) \<Rightarrow> dir_entry list option \<Rightarrow> variant list fallible" where
  "collect_variants y display boards_root =
     (case boards_root of None \<Rightarrow> Inl (''reading '' @ display []) | Some es \<Rightarrow> collect_entries y display [] es)"

section \<open>The table\<close>

definition id_count :: "string \<Rightarrow> variant list \<Rightarrow> nat" where
  "id_count i vs = length (filter (\<lambda>v. v_id v = i) vs)"

definition disambiguate_ids :: "variant list \<Rightarrow> variant list" where
  "disambiguate_ids vs =
     map (\<lambda>v. if 1 < id_count (v_id v) vs then v\<lparr>v_id := v_board_slug v @ ''__'' @ v_id v\<rparr> else v) vs"

fun check_seen :: "string list \<Rightarrow> string set \<Rightarrow> unit fallible" where
  "check_seen [] seen = Inr ()"
| "check_seen (i # is) seen =
     (if i \<in> seen then Inl (''duplicate stable variant ID '' @ [CHR 0x27] @ i @ [CHR 0x27])
      else check_seen is (insert i seen))"

definition registry_variants :: "variant list \<Rightarrow> variant list fallible" where
  "registry_variants vs =
     (let sorted = sort_key v_id (disambiguate_ids vs)
      in res_map (\<lambda>_. sorted) (check_seen (map v_id sorted) {}))"

text \<open>\<open>debug\<close> is the library's \<open>{:?}\<close> of a string.\<close>

definition line :: "string \<Rightarrow> string" where
  "line s = s @ [CHR 0x0A]"

definition render_variant :: "(string \<Rightarrow> string) \<Rightarrow> variant \<Rightarrow> string" where
  "render_variant debug v =
     line ''    GeneratedVariant {''
     @ line (''        id: '' @ debug (v_id v) @ '','')
     @ line (''        display_name: '' @ debug (v_display_name v) @ '','')
     @ (case v_mcu_family v of
          Some f \<Rightarrow> line (''        mcu_family: Some('' @ debug f @ ''),'')
        | None \<Rightarrow> line ''        mcu_family: None,'')
     @ line ''    },''"

definition render_registry ::
  "'v yaml_lib \<Rightarrow> (string list \<Rightarrow> string) \<Rightarrow> (string \<Rightarrow> string) \<Rightarrow> dir_entry list option \<Rightarrow> string fallible" where
  "render_registry y display debug boards_root =
     res_bind (collect_variants y display boards_root) (\<lambda>vs.
       res_map (\<lambda>sorted.
           line ''// Generated by generate-variant-registry. Do not edit by hand.'' @ line ''''
           @ line ''use super::GeneratedVariant;'' @ line ''''
           @ line ''pub(super) const GENERATED_VARIANTS: &[GeneratedVariant] = &[''
           @ concat (map (render_variant debug) sorted)
           @ line ''];'')
         (registry_variants vs))"

section \<open>Sorted maps hold the last entry of each key\<close>

lemma bt_insert_keys: "fst ` set (bt_insert k v m) = insert k (fst ` set m)"
  by (induction k v m rule: bt_insert.induct) auto

lemma bt_insert_sorted:
  "sorted_wrt (<) (map fst m) \<Longrightarrow> sorted_wrt (<) (map fst (bt_insert k v m))"
proof (induction k v m rule: bt_insert.induct)
  case (2 k v k' v' m)
  have "\<forall>x \<in> set (bt_insert k v m). fst x = k \<or> fst x \<in> fst ` set m"
    using bt_insert_keys [of k v m] by blast
  with 2 show ?case by fastforce
qed simp

lemma map_of_bt_insert:
  "sorted_wrt (<) (map fst m) \<Longrightarrow> map_of (bt_insert k v m) = (map_of m)(k \<mapsto> v)"
  by (induction k v m rule: bt_insert.induct) (auto simp: fun_upd_twist)

lemma bt_of_list_snoc: "bt_of_list (xs @ [(k, v)]) = bt_insert k v (bt_of_list xs)"
  by (simp add: bt_of_list_def)

lemma bt_of_list: "sorted_wrt (<) (map fst (bt_of_list kvs)) \<and> map_of (bt_of_list kvs) = map_of (rev kvs)"
proof (induction kvs rule: rev_induct)
  case Nil
  show ?case by (simp add: bt_of_list_def)
next
  case (snoc kv kvs)
  then show ?case by (cases kv) (simp add: bt_of_list_snoc bt_insert_sorted map_of_bt_insert)
qed

section \<open>Ids\<close>

lemma check_seen_iff: "check_seen is seen = Inr () \<longleftrightarrow> distinct is \<and> set is \<inter> seen = {}"
  by (induction "is" seen rule: check_seen.induct) auto

lemma id_count_one: "i \<in> v_id ` set vs \<Longrightarrow> 0 < id_count i vs"
  by (auto simp: id_count_def filter_empty_conv)

text \<open>Two variants of one id are both qualified; two qualified ids agree only for the same board and id,
  as long as ids hold no double underscore and do not start with one.\<close>

definition plain_id :: "string \<Rightarrow> bool" where
  "plain_id i \<longleftrightarrow> take 1 i \<noteq> ''_'' \<and> \<not> (\<exists>a b. i = a @ ''__'' @ b)"

lemma qualified_inject_aux:
  assumes "s @ ''__'' = t @ ''__'' @ us" "j = us @ i" "plain_id j"
  shows "s = t \<and> i = j"
proof -
  have "us = [] \<or> us = ''_'' \<or> (\<exists>w. us = w @ ''__'')"
  proof (cases us rule: rev_cases)
    case (snoc u c)
    have "(s @ ''_'') @ ''_'' = (t @ ''__'' @ u) @ [c]"
      using assms(1) unfolding snoc by (simp only: append_assoc append.simps)
    then have "s @ ''_'' = t @ ''__'' @ u \<and> CHR ''_'' = c" by (rule append1_eq_conv [THEN iffD1])
    then have c: "c = CHR ''_''" "s @ ''_'' = t @ ''__'' @ u" by (rule conjunct2 [THEN sym], rule conjunct1)
    then show ?thesis
    proof (cases u rule: rev_cases)
      case (snoc v d)
      with c(2) have "s @ ''_'' = (t @ ''__'' @ v) @ [d]" by simp
      then have "d = CHR ''_''" by (simp only: append1_eq_conv)
      then show ?thesis using \<open>us = u @ [c]\<close> snoc c(1) by simp
    qed (use \<open>us = u @ [c]\<close> in simp)
  qed simp
  then consider "us = []" | "us = ''_''" | w where "us = w @ ''__''" by blast
  then show ?thesis
  proof cases
    case (3 w)
    then have "j = w @ ''__'' @ i" using assms(2) by simp
    then show ?thesis using assms(3) unfolding plain_id_def by blast
  qed (use assms in \<open>simp_all add: plain_id_def\<close>)
qed

lemma qualified_inject:
  assumes "s @ ''__'' @ i = t @ ''__'' @ j" "plain_id i" "plain_id j"
  shows "s = t \<and> i = j"
proof -
  have "(s @ ''__'') @ i = (t @ ''__'') @ j" using assms(1) by simp
  then obtain us where "s @ ''__'' = (t @ ''__'') @ us \<and> us @ i = j \<or> (s @ ''__'') @ us = t @ ''__'' \<and> i = us @ j"
    unfolding append_eq_append_conv2 by blast
  then show ?thesis
  proof
    assume "s @ ''__'' = (t @ ''__'') @ us \<and> us @ i = j"
    then show ?thesis by (intro qualified_inject_aux [of s t us j i] assms(3)) simp_all
  next
    assume "(s @ ''__'') @ us = t @ ''__'' \<and> i = us @ j"
    then have "t = s \<and> j = i" by (intro qualified_inject_aux [of t s us i j] assms(2)) simp_all
    then show ?thesis by simp
  qed
qed

lemma id_count_unique: "id_count i vs \<le> 1 \<Longrightarrow> v \<in> set vs \<Longrightarrow> w \<in> set vs \<Longrightarrow> v_id v = i \<Longrightarrow> v_id w = i \<Longrightarrow> v = w"
proof -
  assume a: "id_count i vs \<le> 1" "v \<in> set vs" "w \<in> set vs" "v_id v = i" "v_id w = i"
  then have "v \<in> set (filter (\<lambda>v. v_id v = i) vs)" "w \<in> set (filter (\<lambda>v. v_id v = i) vs)" by auto
  then show "v = w" using a(1)
    by (cases "filter (\<lambda>v. v_id v = i) vs") (auto simp: id_count_def)
qed

definition new_id :: "variant list \<Rightarrow> variant \<Rightarrow> string" where
  "new_id vs v = (if 1 < id_count (v_id v) vs then v_board_slug v @ ''__'' @ v_id v else v_id v)"

lemma disambiguated_ids: "map v_id (disambiguate_ids vs) = map (new_id vs) vs"
  by (simp add: disambiguate_ids_def new_id_def)

lemma new_id_inject:
  assumes "new_id vs v = new_id vs w" "v \<in> set vs" "w \<in> set vs" "plain_id (v_id v)" "plain_id (v_id w)"
  shows "v = w \<or> v_board_slug v = v_board_slug w \<and> v_id v = v_id w"
proof -
  have mixed: "x @ ''__'' @ y \<noteq> i" if "plain_id i" for x y i
    using that unfolding plain_id_def by blast
  show ?thesis
  proof (cases "1 < id_count (v_id v) vs"; cases "1 < id_count (v_id w) vs")
    assume "1 < id_count (v_id v) vs" "1 < id_count (v_id w) vs"
    then have "v_board_slug v @ ''__'' @ v_id v = v_board_slug w @ ''__'' @ v_id w"
      using assms(1) by (simp only: new_id_def if_True)
    from qualified_inject [OF this assms(4,5)] show ?thesis by blast
  next
    assume "1 < id_count (v_id v) vs" "\<not> 1 < id_count (v_id w) vs"
    then have "v_board_slug v @ ''__'' @ v_id v = v_id w"
      using assms(1) by (simp only: new_id_def if_True if_False)
    then show ?thesis using mixed [OF assms(5)] by blast
  next
    assume "\<not> 1 < id_count (v_id v) vs" "1 < id_count (v_id w) vs"
    then have "v_board_slug w @ ''__'' @ v_id w = v_id v"
      using assms(1) by (simp only: new_id_def if_True if_False)
    then show ?thesis using mixed [OF assms(4)] by blast
  next
    assume *: "\<not> 1 < id_count (v_id v) vs" "\<not> 1 < id_count (v_id w) vs"
    then have same: "v_id w = v_id v" using assms(1) by (simp only: new_id_def if_False)
    from *(1) have "id_count (v_id v) vs \<le> 1" by simp
    from id_count_unique [OF this assms(2,3) refl same] show ?thesis ..
  qed
qed

lemma distinct_sorted_ids: "distinct (map f (sort_key f xs)) \<longleftrightarrow> distinct (map f xs)"
  by (simp add: distinct_map)

lemma check_seen_returns: "(\<exists>u. check_seen is {} = Inr u) \<longleftrightarrow> distinct is"
  using check_seen_iff [of "is" "{}"] by simp

text \<open>The registry generator succeeds exactly when the qualified ids are distinct, and then writes
  every collected variant once, in strictly increasing order of the ids.\<close>
theorem registry_sorted:
  "registry_variants vs = Inr ws \<longleftrightarrow>
     sorted_wrt (<) (map v_id ws) \<and> ws = sort_key v_id (disambiguate_ids vs)"
proof -
  have "sorted_wrt (<) (map v_id ws) \<longleftrightarrow> distinct (map v_id ws)" if "ws = sort_key v_id (disambiguate_ids vs)"
    unfolding that strict_sorted_iff by simp
  then show ?thesis
    using check_seen_returns [of "map v_id (sort_key v_id (disambiguate_ids vs))"]
    unfolding registry_variants_def Let_def res_map_eq_Inr by blast
qed

text \<open>Qualification removes every ambiguity: when no board has an id twice and no id holds a double
  underscore or starts with an underscore, the ids after qualification are distinct, so the
  generator does not fail.\<close>
theorem ids_disambiguated:
  assumes "distinct (map (\<lambda>v. (v_board_slug v, v_id v)) vs)" "\<forall>v \<in> set vs. plain_id (v_id v)"
  shows "registry_variants vs = Inr (sort_key v_id (disambiguate_ids vs))"
proof -
  have "inj_on (new_id vs) (set vs)"
  proof (rule inj_onI)
    fix v w
    assume vw: "v \<in> set vs" "w \<in> set vs" "new_id vs v = new_id vs w"
    have "inj_on (\<lambda>v. (v_board_slug v, v_id v)) (set vs)" using assms(1) by (simp add: distinct_map)
    then show "v = w" using new_id_inject [OF vw(3) vw(1,2)] vw assms(2) by (auto dest: inj_onD)
  qed
  moreover have "distinct vs" using assms(1) by (simp add: distinct_map)
  ultimately have "distinct (map v_id (disambiguate_ids vs))"
    by (simp add: disambiguated_ids distinct_map)
  then show ?thesis
    using check_seen_iff [of "map v_id (sort_key v_id (disambiguate_ids vs))" "{}"]
    by (simp add: registry_variants_def distinct_sorted_ids)
qed

definition demo_variant :: "string \<Rightarrow> string \<Rightarrow> variant" where
  "demo_variant slug i = \<lparr>v_id = i, v_board_slug = slug, v_display_name = i, v_mcu_family = None\<rparr>"

lemma ids_disambiguated_witness:
  "registry_variants [demo_variant ''x'' ''s'', demo_variant ''y'' ''s'', demo_variant ''z'' ''f7''] =
   Inr [demo_variant ''z'' ''f7'',
     \<lparr>v_id = ''x__s'', v_board_slug = ''x'', v_display_name = ''s'', v_mcu_family = None\<rparr>,
     \<lparr>v_id = ''y__s'', v_board_slug = ''y'', v_display_name = ''s'', v_mcu_family = None\<rparr>]"
proof -
  let ?vs = "[demo_variant ''x'' ''s'', demo_variant ''y'' ''s'', demo_variant ''z'' ''f7'']"
  have "registry_variants ?vs = Inr (sort_key v_id (disambiguate_ids ?vs))"
    by (rule ids_disambiguated) (auto simp: demo_variant_def plain_id_def Cons_eq_append_conv)
  also have "sort_key v_id (disambiguate_ids ?vs) = [demo_variant ''z'' ''f7'',
     \<lparr>v_id = ''x__s'', v_board_slug = ''x'', v_display_name = ''s'', v_mcu_family = None\<rparr>,
     \<lparr>v_id = ''y__s'', v_board_slug = ''y'', v_display_name = ''s'', v_mcu_family = None\<rparr>]"
    by (simp add: demo_variant_def disambiguate_ids_def id_count_def less_list_code less_char_def)
  finally show ?thesis .
qed

lemma catalogue_sorted: "sorted_wrt (<) (map gv_id GENERATED_VARIANTS)"
  by code_simp

end
