(* ===== verification/Launcher.thy ===== *)
theory Launcher
  imports Profiles Interfaces
begin

text \<open>
  The launcher below its user interface: \<open>src/launcher/ui_state.rs\<close>, the emulator process of
  \<open>src/launcher/process.rs\<close> and the saved workspace of \<open>src/launcher/workspace.rs\<close>. What the operating
  system and the YAML library answer are arguments: the record \<open>env\<close> holds the file system and the
  environment as one call sees them, the answers about a child process are passed to each operation.
\<close>

section \<open>The environment\<close>

record env =
  is_file :: "string \<Rightarrow> bool"
  current_exe :: "string fallible"
  current_dir :: "string option"
  env_var :: "string \<Rightarrow> string option"
  path_join :: "string \<Rightarrow> string \<Rightarrow> string"
  with_file_name :: "string \<Rightarrow> string \<Rightarrow> string"
  exe_suffix :: string
  tempdir :: "string fallible"
  write_file :: "string \<Rightarrow> string \<Rightarrow> unit fallible"
  yaml_text :: "yaml_config \<Rightarrow> string fallible"
  spawn_child :: "string \<Rightarrow> string list \<Rightarrow> unit fallible"
  to_lowercase :: "string \<Rightarrow> string"

section \<open>State of the user interface\<close>

datatype run_status = Idle | Running | Halted | Crashed

record launcher_state =
  ls_firmware :: "string option"
  ls_svd :: "string option"
  ls_emulator_executable :: "string option"
  ls_selected_variant :: "string option"
  ls_status :: run_status
  ls_last_error :: "string option"

definition launcher_can_run :: "launcher_state \<Rightarrow> bool" where
  "launcher_can_run s \<longleftrightarrow> ls_firmware s \<noteq> None \<and> ls_selected_variant s \<noteq> None \<and> ls_status s \<noteq> Running"

section \<open>The emulator process\<close>

definition MAX_OUTPUT_LINES :: nat where "MAX_OUTPUT_LINES = 2000"

datatype output_stream = Stdout | Stderr

record output_line =
  ol_stream :: output_stream
  ol_text :: string

record temporary_config =
  tc_path :: string
  tc_text :: string

definition temporary_config_write :: "env \<Rightarrow> string \<Rightarrow> temporary_config fallible" where
  "temporary_config_write w yaml =
     res_bind (tempdir w) (\<lambda>directory.
       let path = path_join w directory ''resolved.yaml''
       in res_map (\<lambda>_. \<lparr>tc_path = path, tc_text = yaml\<rparr>) (write_file w path yaml))"

definition build_emulator_arguments :: "string \<Rightarrow> nat \<Rightarrow> string list" where
  "build_emulator_arguments config_path verbosity = utf8_lossy config_path # replicate verbosity ''-v''"

definition validate_firmware :: "env \<Rightarrow> string \<Rightarrow> unit fallible" where
  "validate_firmware w path =
     (if is_file w path then Inr () else Inl (''Firmware file does not exist: '' @ utf8_lossy path))"

definition validate_executable :: "env \<Rightarrow> string \<Rightarrow> string fallible" where
  "validate_executable w path =
     (if is_file w path then Inr path else Inl (''Emulator executable does not exist: '' @ utf8_lossy path))"

definition discover_emulator :: "env \<Rightarrow> string option \<Rightarrow> string fallible" where
  "discover_emulator w provided =
     (case provided of
        Some path \<Rightarrow> validate_executable w path
      | None \<Rightarrow> res_bind (current_exe w) (\<lambda>launcher.
          let sibling = with_file_name w launcher (''stm32-emulator'' @ exe_suffix w)
          in (case validate_executable w sibling of
                Inr p \<Rightarrow> Inr p
              | Inl _ \<Rightarrow> Inl (''Choose the stm32-emulator executable. No sibling executable was found at ''
                   @ utf8_lossy sibling))))"

datatype process_state = ProcRunning | ProcExited bool

text \<open>A running emulator: the arguments its child was spawned with, the lines shown, and how many reader
  threads have not been joined.\<close>

record running_emulator =
  re_executable :: string
  re_arguments :: "string list"
  re_readers :: nat
  re_output :: "output_line list"

definition running_emulator_spawn :: "env \<Rightarrow> string \<Rightarrow> string \<Rightarrow> nat \<Rightarrow> running_emulator fallible" where
  "running_emulator_spawn w executable config_path verbosity =
     res_bind (validate_executable w executable) (\<lambda>_.
       if \<not> is_file w config_path
       then Inl (''Resolved configuration does not exist: '' @ utf8_lossy config_path)
       else let arguments = build_emulator_arguments config_path verbosity
            in res_map (\<lambda>_. \<lparr>re_executable = executable, re_arguments = arguments, re_readers = 2, re_output = []\<rparr>)
                 (spawn_child w executable arguments))"

text \<open>What a reader thread sends to the channel for the bytes its pipe delivered: complete lines without their
  ending, a last line without one, and nothing from the first line on that is not UTF-8.\<close>

definition strip_cr :: "string \<Rightarrow> string" where
  "strip_cr line = (if line \<noteq> [] \<and> last line = CHR 0x0D then butlast line else line)"

fun buf_lines :: "string \<Rightarrow> string \<Rightarrow> string list" where
  "buf_lines acc [] = (if acc = [] then [] else [acc])"
| "buf_lines acc (c # s) = (if c = CHR 0x0A then strip_cr acc # buf_lines [] s else buf_lines (acc @ [c]) s)"

definition spawn_reader :: "output_stream \<Rightarrow> string \<Rightarrow> output_line list" where
  "spawn_reader stream bytes =
     map (\<lambda>text. \<lparr>ol_stream = stream, ol_text = text\<rparr>) (takeWhile (\<lambda>line. utf8_lossy line = line) (buf_lines [] bytes))"

text \<open>The lines waiting in the channel, an interleaving of what the two readers sent, are the argument.\<close>

fun push_lines :: "output_line list \<Rightarrow> output_line list \<Rightarrow> output_line list" where
  "push_lines output [] = output"
| "push_lines output (line # lines) =
     push_lines ((if length output = MAX_OUTPUT_LINES then tl output else output) @ [line]) lines"

definition poll_output :: "output_line list \<Rightarrow> running_emulator \<Rightarrow> running_emulator" where
  "poll_output lines r = r\<lparr>re_output := push_lines (re_output r) lines\<rparr>"

text \<open>\<open>try_wait\<close> answers with an error, with nothing while the child runs, or whether it succeeded.\<close>

type_synonym wait_answer = "bool option fallible"

definition classify_exit :: "bool \<Rightarrow> process_state" where
  "classify_exit success = ProcExited success"

definition poll_state :: "wait_answer \<Rightarrow> process_state fallible" where
  "poll_state try_wait =
     res_map (\<lambda>status. case status of None \<Rightarrow> ProcRunning | Some success \<Rightarrow> classify_exit success) try_wait"

record stop_answers =
  sa_try_wait :: wait_answer
  sa_kill :: "unit fallible"
  sa_wait :: "unit fallible"
  sa_lines :: "output_line list"

definition running_emulator_stop :: "stop_answers \<Rightarrow> running_emulator \<Rightarrow> unit fallible \<times> running_emulator" where
  "running_emulator_stop a r =
     (case res_bind (sa_try_wait a) (\<lambda>status.
         if status = None then res_bind (sa_kill a) (\<lambda>_. sa_wait a) else Inr ()) of
        Inl e \<Rightarrow> (Inl e, r)
      | Inr _ \<Rightarrow> (Inr (), poll_output (sa_lines a) (r\<lparr>re_readers := 0\<rparr>)))"

section \<open>The workspace\<close>

record window_placement =
  wp_x :: int
  wp_y :: int
  wp_width :: u32
  wp_height :: u32

record saved_launcher_state =
  sv_firmware :: "string option"
  sv_svd :: "string option"
  sv_emulator_executable :: "string option"
  sv_selected_variant :: "string option"
  sv_filter :: string
  sv_manual_enabled :: bool
  sv_manual_cpu_model :: launcher_cpu_model
  sv_manual_svd :: string
  sv_manual_vector_table :: string
  sv_manual_flash_start :: string
  sv_manual_flash_size :: string
  sv_manual_ram_start :: string
  sv_manual_ram_size :: string
  sv_usb_cdc_tcp_port :: string

definition saved_default :: saved_launcher_state where
  "saved_default = \<lparr>sv_firmware = None, sv_svd = None, sv_emulator_executable = None,
     sv_selected_variant = None, sv_filter = [], sv_manual_enabled = False,
     sv_manual_cpu_model = launcher_cpu_model_default, sv_manual_svd = [], sv_manual_vector_table = [],
     sv_manual_flash_start = [], sv_manual_flash_size = [], sv_manual_ram_start = [],
     sv_manual_ram_size = [], sv_usb_cdc_tcp_port = []\<rparr>"

record workspace =
  ws_window :: "window_placement option"
  ws_state :: saved_launcher_state

definition workspace_default :: workspace where
  "workspace_default = \<lparr>ws_window = None, ws_state = saved_default\<rparr>"

text \<open>A store is its directory. The files are a map; \<open>mkdir\<close> is \<open>create_dir_all\<close>.\<close>

definition in_directory :: "(string \<Rightarrow> unit fallible) \<Rightarrow> string \<Rightarrow> string fallible" where
  "in_directory mkdir directory = res_map (\<lambda>_. directory) (mkdir directory)"

definition for_current_user :: "env \<Rightarrow> (string \<Rightarrow> unit fallible) \<Rightarrow> string fallible" where
  "for_current_user w mkdir =
     (case (case env_var w ''LOCALAPPDATA'' of
              Some p \<Rightarrow> Some p
            | None \<Rightarrow> (case env_var w ''XDG_STATE_HOME'' of
                  Some p \<Rightarrow> Some p
                | None \<Rightarrow> map_option (\<lambda>home. path_join w (path_join w home ''.local'') ''state'') (env_var w ''HOME''))) of
        None \<Rightarrow> Inl ''No user state directory is available.''
      | Some root \<Rightarrow> in_directory mkdir (path_join w (path_join w root ''stm32-emulator'') ''launcher''))"

definition workspace_path :: "env \<Rightarrow> string \<Rightarrow> string" where
  "workspace_path w directory = path_join w directory ''workspace.yaml''"

definition imgui_ini_path :: "env \<Rightarrow> string \<Rightarrow> string" where
  "imgui_ini_path w directory = path_join w directory ''imgui.ini''"

datatype read_answer = Contents string | NotFound | ReadFailed string

definition workspace_load ::
  "(string \<Rightarrow> workspace option) \<Rightarrow> env \<Rightarrow> (string \<Rightarrow> read_answer) \<Rightarrow> string \<Rightarrow> workspace fallible" where
  "workspace_load parse w read_to_string directory =
     (case read_to_string (workspace_path w directory) of
        Contents contents \<Rightarrow> Inr (case parse contents of Some ws \<Rightarrow> ws | None \<Rightarrow> workspace_default)
      | NotFound \<Rightarrow> Inr workspace_default
      | ReadFailed e \<Rightarrow> Inl e)"

definition workspace_save ::
  "(workspace \<Rightarrow> string fallible) \<Rightarrow> env \<Rightarrow> string \<Rightarrow> workspace \<Rightarrow> (string \<times> string) fallible" where
  "workspace_save print w directory ws =
     res_bind (print ws) (\<lambda>yaml.
       res_map (\<lambda>_. (workspace_path w directory, yaml)) (write_file w (workspace_path w directory) yaml))"

section \<open>Lemmas\<close>

lemma buf_lines_line: "CHR 0x0A \<notin> set l \<Longrightarrow> buf_lines acc (l @ CHR 0x0A # s) = strip_cr (acc @ l) # buf_lines [] s"
  by (induction l arbitrary: acc) auto

text \<open>Lines of UTF-8 are forwarded in order; the first other line ends the stream.\<close>

lemma reader_forwards:
  assumes "\<forall>l \<in> set ls. CHR 0x0A \<notin> set l \<and> utf8_lossy (strip_cr l) = strip_cr l"
  shows "spawn_reader stream (concat (map (\<lambda>l. l @ [CHR 0x0A]) ls) @ rest) =
    map (\<lambda>l. \<lparr>ol_stream = stream, ol_text = strip_cr l\<rparr>) ls @ spawn_reader stream rest"
  using assms by (induction ls) (simp_all add: spawn_reader_def buf_lines_line [of _ "[]", simplified])

lemma reader_stops:
  assumes "CHR 0x0A \<notin> set l" "utf8_lossy (strip_cr l) \<noteq> strip_cr l"
  shows "spawn_reader stream (l @ CHR 0x0A # rest) = []"
  using assms by (simp add: spawn_reader_def buf_lines_line [of _ "[]", simplified])

lemma push_lines_last_n: "length out \<le> MAX_OUTPUT_LINES \<Longrightarrow> push_lines out ls = last_n MAX_OUTPUT_LINES (out @ ls)"
proof (induction out ls rule: push_lines.induct)
  case (2 out l ls)
  show ?case
  proof (cases "length out = MAX_OUTPUT_LINES")
    case True
    then have "tl out @ [l] = last_n MAX_OUTPUT_LINES (out @ [l])"
      by (simp add: last_n_snoc_full MAX_OUTPUT_LINES_def)
    then show ?thesis using 2 True
      by (simp add: MAX_OUTPUT_LINES_def) (metis append_Cons append_Nil append_assoc last_n_append_last_n)
  next
    case False
    then show ?thesis using 2 by simp
  qed
qed simp

interpretation emulator_output: capped_queue "\<lambda>ls out. push_lines out ls" "\<lambda>q. q" "\<lambda>_. MAX_OUTPUT_LINES"
  by unfold_locales (simp_all add: push_lines_last_n)

end
