(* ===== verification/LauncherApp.thy ===== *)
theory LauncherApp
  imports Launcher
begin

text \<open>
  The launcher's window, \<open>src/bin/stm32-launcher.rs\<close>: the application state, resolving a profile, starting
  and stopping the emulator, and one frame of the event loop as a function of what the user did in
  it. A panel whose window is collapsed does not run; then its input is \<open>None\<close>. Drawing is left out.
\<close>

section \<open>State\<close>

record manual_form =
  mf_enabled :: bool
  mf_cpu_model :: launcher_cpu_model
  mf_svd :: string
  mf_vector_table :: string
  mf_flash_start :: string
  mf_flash_size :: string
  mf_ram_start :: string
  mf_ram_size :: string

record app =
  app_state :: launcher_state
  app_variants :: "known_variant list"
  app_filter :: string
  app_manual :: manual_form
  app_port :: string
  app_config :: "temporary_config option"
  app_process :: "running_emulator option"

definition or_default :: "string \<Rightarrow> string \<Rightarrow> string" where
  "or_default s d = (if s = [] then d else s)"

definition app_new :: "saved_launcher_state \<Rightarrow> app" where
  "app_new saved =
     \<lparr>app_state = \<lparr>ls_firmware = sv_firmware saved, ls_svd = sv_svd saved,
        ls_emulator_executable = sv_emulator_executable saved,
        ls_selected_variant = sv_selected_variant saved, ls_status = Idle, ls_last_error = None\<rparr>,
      app_variants = all_variants, app_filter = sv_filter saved,
      app_manual = \<lparr>mf_enabled = sv_manual_enabled saved, mf_cpu_model = sv_manual_cpu_model saved,
        mf_svd = sv_manual_svd saved,
        mf_vector_table = or_default (sv_manual_vector_table saved) ''0x08000000'',
        mf_flash_start = or_default (sv_manual_flash_start saved) ''0x08000000'',
        mf_flash_size = or_default (sv_manual_flash_size saved) ''0x00100000'',
        mf_ram_start = or_default (sv_manual_ram_start saved) ''0x20000000'',
        mf_ram_size = or_default (sv_manual_ram_size saved) ''0x00020000''\<rparr>,
      app_port = or_default (sv_usb_cdc_tcp_port saved) ''29000'',
      app_config = None, app_process = None\<rparr>"

definition saved_state :: "app \<Rightarrow> saved_launcher_state" where
  "saved_state a =
     \<lparr>sv_firmware = ls_firmware (app_state a), sv_svd = ls_svd (app_state a),
      sv_emulator_executable = ls_emulator_executable (app_state a),
      sv_selected_variant = ls_selected_variant (app_state a), sv_filter = app_filter a,
      sv_manual_enabled = mf_enabled (app_manual a), sv_manual_cpu_model = mf_cpu_model (app_manual a),
      sv_manual_svd = mf_svd (app_manual a), sv_manual_vector_table = mf_vector_table (app_manual a),
      sv_manual_flash_start = mf_flash_start (app_manual a),
      sv_manual_flash_size = mf_flash_size (app_manual a),
      sv_manual_ram_start = mf_ram_start (app_manual a), sv_manual_ram_size = mf_ram_size (app_manual a),
      sv_usb_cdc_tcp_port = app_port a\<rparr>"

definition selected_variant :: "app \<Rightarrow> known_variant option" where
  "selected_variant a =
     (case ls_selected_variant (app_state a) of
        None \<Rightarrow> None
      | Some i \<Rightarrow> find (\<lambda>v. kv_id v = i) (app_variants a))"

definition select_variant :: "env \<Rightarrow> known_variant \<Rightarrow> app \<Rightarrow> app" where
  "select_variant w v a =
     (let a1 = a\<lparr>app_manual := (app_manual a)\<lparr>mf_enabled := False\<rparr>,
                 app_state := (app_state a)\<lparr>ls_selected_variant := Some (kv_id v)\<rparr>\<rparr>
      in if kv_id v = ''proteus_f7'' \<and> ls_svd (app_state a1) = None
         then a1\<lparr>app_state := (app_state a1)\<lparr>ls_svd :=
                Some (path_join w (path_join w (case current_dir w of Some d \<Rightarrow> d | None \<Rightarrow> ''.'') ''proteus_f7'')
                        ''STM32F767.svd'')\<rparr>\<rparr>
         else a1)"

section \<open>Resolving a profile\<close>

definition parse_u32 :: "nat \<Rightarrow> string \<Rightarrow> int option" where
  "parse_u32 radix s = parse_int radix 0 (2 ^ 32 - 1) s"

definition parse_address :: "string \<Rightarrow> string \<Rightarrow> u32 fallible" where
  "parse_address input label =
     (let v = str_trim input;
          parsed = (if starts_with v ''0x'' then parse_u32 16 (drop 2 v)
                    else if starts_with v ''0X'' then parse_u32 16 (drop 2 v)
                    else parse_u32 10 v)
      in case parsed of
           Some n \<Rightarrow> Inr (word_of_int n)
         | None \<Rightarrow> Inl (''Manual '' @ label @ '' must be decimal or hexadecimal (0x...).''))"

definition parse_port :: "string \<Rightarrow> int fallible" where
  "parse_port input =
     (case parse_u16 (str_trim input) of
        Some n \<Rightarrow> Inr n
      | None \<Rightarrow> Inl ''USB CDC TCP port must be a number from 1-65535.'')"

definition or_error :: "'a option \<Rightarrow> string \<Rightarrow> 'a fallible" where
  "or_error x e = (case x of Some v \<Rightarrow> Inr v | None \<Rightarrow> Inl e)"

definition manual_resolved :: "env \<Rightarrow> string \<Rightarrow> manual_form \<Rightarrow> resolved_profile fallible" where
  "manual_resolved w firmware m =
     (if \<not> is_file w (mf_svd m) then Inl ''Manual profile requires an existing SVD file.''
      else res_bind (parse_address (mf_vector_table m) ''vector table'') (\<lambda>vector_table.
           res_bind (parse_address (mf_flash_start m) ''flash start'') (\<lambda>flash_start.
           res_bind (parse_address (mf_flash_size m) ''flash size'') (\<lambda>flash_size.
           res_bind (parse_address (mf_ram_start m) ''RAM start'') (\<lambda>ram_start.
           res_map (\<lambda>ram_size. manual_profile (mf_cpu_model m) firmware (mf_svd m) vector_table
                flash_start flash_size ram_start ram_size)
             (parse_address (mf_ram_size m) ''RAM size''))))))"

definition catalogued_resolved :: "env \<Rightarrow> string \<Rightarrow> app \<Rightarrow> resolved_profile fallible" where
  "catalogued_resolved w firmware a =
     res_bind (or_error (selected_variant a) ''Choose a cataloged variant or enable Manual profile.'') (\<lambda>v.
       if kv_support v = Unsupported then Inl (support_summary v)
       else res_bind (or_error (ls_svd (app_state a)) ''Choose the SVD asset required by this profile.'') (\<lambda>svd.
         if \<not> is_file w svd then Inl (''SVD file does not exist: '' @ utf8_lossy svd)
         else res_bind (for_variant v firmware svd) (\<lambda>profile.
           if rp_usb_cdc_tcp profile \<noteq> None
           then res_map (\<lambda>port. set_usb_cdc_tcp_port port profile) (parse_port (app_port a))
           else Inr profile)))"

definition resolved_profile :: "env \<Rightarrow> app \<Rightarrow> resolved_profile fallible" where
  "resolved_profile w a =
     res_bind (or_error (ls_firmware (app_state a)) ''Choose a firmware .bin file.'') (\<lambda>firmware.
       res_bind (validate_firmware w firmware) (\<lambda>_.
         if mf_enabled (app_manual a) then manual_resolved w firmware (app_manual a)
         else catalogued_resolved w firmware a))"

definition app_can_run :: "env \<Rightarrow> app \<Rightarrow> bool" where
  "app_can_run w a \<longleftrightarrow> launcher_can_run (app_state a) \<and> \<not> isl (resolved_profile w a)"

section \<open>Starting, stopping, refreshing\<close>

definition choose_hint :: "string \<Rightarrow> string" where
  "choose_hint e = e @ ''. Use '' @ [CHR 0xE2, CHR 0x80, CHR 0x9C] @ ''Choose emulator''
     @ [CHR 0xE2, CHR 0x80, CHR 0x9D] @ '' to select it explicitly.''"

definition map_error :: "(string \<Rightarrow> string) \<Rightarrow> 'a fallible \<Rightarrow> 'a fallible" where
  "map_error f r = (case r of Inl e \<Rightarrow> Inl (f e) | Inr x \<Rightarrow> Inr x)"

definition launch :: "env \<Rightarrow> app \<Rightarrow> (temporary_config \<times> running_emulator) fallible" where
  "launch w a =
     res_bind (resolved_profile w a) (\<lambda>profile.
     res_bind (yaml_text w (to_yaml profile)) (\<lambda>yaml.
     res_bind (temporary_config_write w yaml) (\<lambda>temporary_config.
     res_bind (map_error choose_hint (discover_emulator w (ls_emulator_executable (app_state a)))) (\<lambda>executable.
     res_map (\<lambda>process. (temporary_config, process))
       (running_emulator_spawn w executable (tc_path temporary_config) 1)))))"

definition app_start :: "env \<Rightarrow> app \<Rightarrow> app" where
  "app_start w a =
     (case launch w a of
        Inl e \<Rightarrow> a\<lparr>app_state := (app_state a)\<lparr>ls_last_error := Some e\<rparr>\<rparr>
      | Inr (temporary_config, process) \<Rightarrow>
          a\<lparr>app_config := Some temporary_config, app_process := Some process,
            app_state := (app_state a)\<lparr>ls_status := Running, ls_last_error := None\<rparr>\<rparr>)"

definition app_stop :: "stop_answers \<Rightarrow> app \<Rightarrow> app" where
  "app_stop s a =
     (let a1 = (case app_process a of
                  None \<Rightarrow> a
                | Some process \<Rightarrow>
                    (case fst (running_emulator_stop s process) of
                       Inl e \<Rightarrow> a\<lparr>app_state := (app_state a)\<lparr>ls_last_error := Some e\<rparr>\<rparr>
                     | Inr _ \<Rightarrow> a))
      in a1\<lparr>app_process := None, app_config := None, app_state := (app_state a1)\<lparr>ls_status := Halted\<rparr>\<rparr>)"

definition note_state :: "process_state fallible \<Rightarrow> launcher_state \<Rightarrow> launcher_state" where
  "note_state p s =
     (case p of
        Inr ProcRunning \<Rightarrow> s
      | Inr (ProcExited success) \<Rightarrow>
          if success then s\<lparr>ls_status := Halted\<rparr>
          else s\<lparr>ls_status := Crashed, ls_last_error := Some ''Emulator exited with a non-zero status.''\<rparr>
      | Inl e \<Rightarrow> s\<lparr>ls_last_error := Some e, ls_status := Crashed\<rparr>)"

definition refresh_process :: "output_line list \<Rightarrow> wait_answer \<Rightarrow> app \<Rightarrow> app" where
  "refresh_process lines try_wait a =
     (case app_process a of
        None \<Rightarrow> a
      | Some process \<Rightarrow>
          a\<lparr>app_process := Some (poll_output lines process),
            app_state := note_state (poll_state try_wait) (app_state a)\<rparr>)"

section \<open>Panels\<close>

text \<open>\<open>str::contains\<close>.\<close>

fun str_contains :: "string \<Rightarrow> string \<Rightarrow> bool" where
  "str_contains [] p \<longleftrightarrow> p = []"
| "str_contains (c # s) p \<longleftrightarrow> starts_with (c # s) p \<or> str_contains s p"

definition visible_variants :: "env \<Rightarrow> app \<Rightarrow> known_variant list" where
  "visible_variants w a =
     (let f = to_lowercase w (app_filter a)
      in filter (\<lambda>v. f = [] \<or> str_contains (to_lowercase w (kv_id v)) f
           \<or> str_contains (to_lowercase w (kv_display_name v)) f) (app_variants a))"

definition set_or_keep :: "'a option \<Rightarrow> 'a option \<Rightarrow> 'a option" where
  "set_or_keep picked old = (case picked of Some p \<Rightarrow> Some p | None \<Rightarrow> old)"

definition edit :: "string option \<Rightarrow> string \<Rightarrow> string" where
  "edit typed old = (case typed of Some t \<Rightarrow> t | None \<Rightarrow> old)"

record firmware_input =
  fi_firmware :: "string option"
  fi_emulator :: "string option"
  fi_toggle :: bool
  fi_filter :: "string option"
  fi_clicked :: "known_variant \<Rightarrow> bool"

definition pick_files :: "firmware_input \<Rightarrow> app \<Rightarrow> app" where
  "pick_files i a =
     a\<lparr>app_state := (app_state a)
         \<lparr>ls_firmware := set_or_keep (fi_firmware i) (ls_firmware (app_state a)),
          ls_emulator_executable := set_or_keep (fi_emulator i) (ls_emulator_executable (app_state a))\<rparr>,
       app_manual := (app_manual a)\<lparr>mf_enabled := (mf_enabled (app_manual a) \<noteq> fi_toggle i)\<rparr>\<rparr>"

definition draw_firmware_panel :: "env \<Rightarrow> firmware_input \<Rightarrow> app \<Rightarrow> app" where
  "draw_firmware_panel w i a =
     (let a1 = pick_files i a in
      if mf_enabled (app_manual a1)
      then a1\<lparr>app_state := (app_state a1)\<lparr>ls_selected_variant := None\<rparr>\<rparr>
      else let a2 = a1\<lparr>app_filter := edit (fi_filter i) (app_filter a1)\<rparr>
           in fold (select_variant w) (filter (fi_clicked i) (visible_variants w a2)) a2)"

record config_input =
  ci_cortex_m4 :: bool
  ci_cortex_m7 :: bool
  ci_manual_svd :: "string option"
  ci_vector_table :: "string option"
  ci_flash_start :: "string option"
  ci_flash_size :: "string option"
  ci_ram_start :: "string option"
  ci_ram_size :: "string option"
  ci_svd :: "string option"
  ci_port :: "string option"

definition draw_configuration_panel :: "config_input \<Rightarrow> app \<Rightarrow> app" where
  "draw_configuration_panel i a =
     (let m = app_manual a in
      if mf_enabled m
      then a\<lparr>app_manual := m
             \<lparr>mf_cpu_model := (if ci_cortex_m7 i then LauncherCortexM7
                  else if ci_cortex_m4 i then LauncherCortexM4 else mf_cpu_model m),
              mf_svd := edit (ci_manual_svd i) (mf_svd m),
              mf_vector_table := edit (ci_vector_table i) (mf_vector_table m),
              mf_flash_start := edit (ci_flash_start i) (mf_flash_start m),
              mf_flash_size := edit (ci_flash_size i) (mf_flash_size m),
              mf_ram_start := edit (ci_ram_start i) (mf_ram_start m),
              mf_ram_size := edit (ci_ram_size i) (mf_ram_size m)\<rparr>\<rparr>
      else a\<lparr>app_state := (app_state a)\<lparr>ls_svd := set_or_keep (ci_svd i) (ls_svd (app_state a))\<rparr>,
             app_port := edit (ci_port i) (app_port a)\<rparr>)"

text \<open>What the panel shows below the fields: the reason the run is blocked, or the text of the configuration.\<close>

definition configuration_text :: "env \<Rightarrow> app \<Rightarrow> string fallible fallible" where
  "configuration_text w a = res_map (\<lambda>profile. yaml_text w (to_yaml profile)) (resolved_profile w a)"

record output_input =
  oi_run :: bool
  oi_stop :: bool
  oi_stop_answers :: stop_answers
  oi_start_env :: env

definition draw_output_panel :: "env \<Rightarrow> output_input \<Rightarrow> app \<Rightarrow> app" where
  "draw_output_panel w i a =
     (let run_clicked = (oi_run i \<and> app_can_run w a);
          a1 = (if oi_stop i then app_stop (oi_stop_answers i) a else a)
      in if run_clicked then app_start (oi_start_env i) a1 else a1)"

definition signal_chain :: "env \<Rightarrow> app \<Rightarrow> bool \<times> bool \<times> bool \<times> run_status" where
  "signal_chain w a =
     (ls_firmware (app_state a) \<noteq> None,
      mf_enabled (app_manual a) \<or> selected_variant a \<noteq> None,
      \<not> isl (resolved_profile w a),
      ls_status (app_state a))"

definition status_label :: "run_status \<Rightarrow> string" where
  "status_label s = (case s of Idle \<Rightarrow> ''Idle'' | Running \<Rightarrow> ''Running'' | Halted \<Rightarrow> ''Halted'' | Crashed \<Rightarrow> ''Crashed'')"

text \<open>The colours of the status line: red, green, blue and opacity in thousandths.\<close>

definition AMBER :: "nat list" where "AMBER = [949, 722, 294, 1000]"
definition CYAN :: "nat list" where "CYAN = [314, 769, 827, 1000]"
definition RED :: "nat list" where "RED = [878, 424, 459, 1000]"
definition GRAY :: "nat list" where "GRAY = [600, 600, 600, 1000]"

definition status_color :: "run_status \<Rightarrow> nat list" where
  "status_color s = (case s of Idle \<Rightarrow> GRAY | Running \<Rightarrow> CYAN | Halted \<Rightarrow> AMBER | Crashed \<Rightarrow> RED)"

definition support_label :: "emulation_support \<Rightarrow> string" where
  "support_label s = (case s of Runnable \<Rightarrow> ''runnable'' | Partial \<Rightarrow> ''partial'' | Unsupported \<Rightarrow> ''cataloged'')"

definition display_path :: "string option \<Rightarrow> string" where
  "display_path p = (case p of Some path \<Rightarrow> utf8_lossy path | None \<Rightarrow> ''not selected'')"

text \<open>The window: its size, and its position when a usable placement was saved.\<close>

definition window_attributes :: "window_placement option \<Rightarrow> (u32 \<times> u32) \<times> (int \<times> int) option" where
  "window_attributes placement =
     (case placement of
        Some p \<Rightarrow> if 0 < wp_width p \<and> 0 < wp_height p
                   then ((wp_width p, wp_height p), Some (wp_x p, wp_y p)) else ((1440, 900), None)
      | None \<Rightarrow> ((1440, 900), None))"

section \<open>The event loop\<close>

record frame_input =
  fr_env :: env
  fr_lines :: "output_line list"
  fr_wait :: wait_answer
  fr_firmware :: "firmware_input option"
  fr_config :: "config_input option"
  fr_output :: "output_input option"

definition panel :: "('i \<Rightarrow> app \<Rightarrow> app) \<Rightarrow> 'i option \<Rightarrow> app \<Rightarrow> app" where
  "panel draw input a = (case input of Some i \<Rightarrow> draw i a | None \<Rightarrow> a)"

definition redraw :: "frame_input \<Rightarrow> app \<Rightarrow> app" where
  "redraw i a =
     panel (draw_output_panel (fr_env i)) (fr_output i)
       (panel draw_configuration_panel (fr_config i)
         (panel (draw_firmware_panel (fr_env i)) (fr_firmware i)
           (refresh_process (fr_lines i) (fr_wait i) a)))"

text \<open>The states the launcher goes through after it was opened with a saved workspace.\<close>

inductive launched :: "saved_launcher_state \<Rightarrow> app \<Rightarrow> bool" for saved where
  opened: "launched saved (app_new saved)"
| frame: "launched saved a \<Longrightarrow> launched saved (redraw i a)"

definition closing_workspace :: "window_placement \<Rightarrow> app \<Rightarrow> workspace" where
  "closing_workspace p a = \<lparr>ws_window = Some p, ws_state = saved_state a\<rparr>"

section \<open>Invariants of the window\<close>

definition manual_unselected :: "app \<Rightarrow> bool" where
  "manual_unselected a \<longleftrightarrow> \<not> (mf_enabled (app_manual a) \<and> ls_selected_variant (app_state a) \<noteq> None)"

definition process_consistent :: "app \<Rightarrow> bool" where
  "process_consistent a \<longleftrightarrow>
     (ls_status (app_state a) = Running \<longrightarrow> app_process a \<noteq> None)
     \<and> (app_config a = None \<longleftrightarrow> app_process a = None)
     \<and> pred_option (\<lambda>r. length (re_output r) \<le> MAX_OUTPUT_LINES) (app_process a)"

definition launcher_inv :: "app \<Rightarrow> bool" where
  "launcher_inv a \<longleftrightarrow> manual_unselected a \<and> process_consistent a \<and> app_variants a = all_variants"

named_theorems launcher_defs

lemmas [launcher_defs] = launcher_inv_def manual_unselected_def process_consistent_def

lemma inv_select: "launcher_inv a \<Longrightarrow> launcher_inv (select_variant w v a)"
  by (auto simp: launcher_defs select_variant_def Let_def)

lemma inv_fold_select: "launcher_inv a \<Longrightarrow> launcher_inv (fold (select_variant w) vs a)"
  by (induction vs arbitrary: a) (simp_all add: inv_select)

lemma inv_firmware_panel: "launcher_inv a \<Longrightarrow> launcher_inv (draw_firmware_panel w i a)"
proof -
  assume inv: "launcher_inv a"
  show ?thesis
  proof (cases "mf_enabled (app_manual (pick_files i a))")
    case True
    with inv show ?thesis by (auto simp: launcher_defs draw_firmware_panel_def pick_files_def)
  next
    case False
    with inv have "launcher_inv (pick_files i a\<lparr>app_filter := edit (fi_filter i) (app_filter (pick_files i a))\<rparr>)"
      by (auto simp: launcher_defs pick_files_def)
    with False show ?thesis by (simp add: draw_firmware_panel_def Let_def inv_fold_select)
  qed
qed

lemma inv_config_panel: "launcher_inv a \<Longrightarrow> launcher_inv (draw_configuration_panel i a)"
  by (auto simp: launcher_defs draw_configuration_panel_def Let_def)

lemma spawn_output: "running_emulator_spawn w e c v = Inr r \<Longrightarrow> re_output r = []"
  by (auto simp: running_emulator_spawn_def Let_def split: if_splits)

lemma inv_start: "launcher_inv a \<Longrightarrow> launcher_inv (app_start w a)"
  by (auto simp: launcher_defs app_start_def launch_def split: sum.splits dest!: spawn_output)

lemma inv_stop: "launcher_inv a \<Longrightarrow> launcher_inv (app_stop s a)"
  by (auto simp: launcher_defs app_stop_def Let_def split: option.splits sum.splits)

lemma inv_output_panel: "launcher_inv a \<Longrightarrow> launcher_inv (draw_output_panel w i a)"
  by (simp add: draw_output_panel_def Let_def inv_start inv_stop)

lemma note_state_fields [simp]:
  "ls_selected_variant (note_state p s) = ls_selected_variant s"
  "ls_firmware (note_state p s) = ls_firmware s"
  by (auto simp: note_state_def split: sum.splits process_state.splits)

lemma inv_refresh: "launcher_inv a \<Longrightarrow> launcher_inv (refresh_process ls t a)"
  by (auto simp: launcher_defs refresh_process_def poll_output_def push_lines_last_n split: option.splits)

lemma inv_panel: "(\<And>i a. launcher_inv a \<Longrightarrow> launcher_inv (draw i a)) \<Longrightarrow> launcher_inv a \<Longrightarrow> launcher_inv (panel draw i a)"
  by (simp add: panel_def split: option.splits)

lemma inv_redraw: "launcher_inv a \<Longrightarrow> launcher_inv (redraw i a)"
  by (simp add: redraw_def inv_panel inv_refresh inv_firmware_panel inv_config_panel inv_output_panel)

lemma launched_inv:
  assumes "launched saved a" "\<not> (sv_manual_enabled saved \<and> sv_selected_variant saved \<noteq> None)"
  shows "launcher_inv a"
  using assms(1)
proof induction
  case opened
  show ?case using assms(2) by (auto simp: launcher_defs app_new_def)
qed (rule inv_redraw)

section \<open>Properties\<close>

text \<open>Closing the window saves the state and the placement.\<close>

theorem launcher_invariant:
  assumes "launched saved a" "\<not> (sv_manual_enabled saved \<and> sv_selected_variant saved \<noteq> None)"
  shows "process_consistent a \<and> manual_unselected a \<and> app_variants a = all_variants
     \<and> \<not> (sv_manual_enabled (saved_state a) \<and> sv_selected_variant (saved_state a) \<noteq> None)"
  using launched_inv [OF assms] by (auto simp: launcher_defs saved_state_def)

lemma resolved_catalogued:
  assumes "app_variants a = all_variants" "\<not> mf_enabled (app_manual a)" "resolved_profile w a = Inr p"
  shows "rp_variant p = variant_proteus_f7 \<and> rp_regions p = REGIONS \<and> rp_patches p = PATCHES
     \<and> rp_vector_table p = 0x200000 \<and> rp_cpu_model p = LauncherCortexM7
     \<and> (\<exists>port. parse_port (app_port a) = Inr port \<and> usb_cdc_tcp_port p = Some port)"
proof -
  obtain firmware where "catalogued_resolved w firmware a = Inr p"
    using assms(2,3) by (auto simp: resolved_profile_def)
  then obtain v svd q where v: "selected_variant a = Some v" "kv_support v \<noteq> Unsupported"
    and q: "for_variant v firmware svd = Inr q"
      "(if rp_usb_cdc_tcp q \<noteq> None then res_map (\<lambda>port. set_usb_cdc_tcp_port port q) (parse_port (app_port a)) else Inr q) = Inr p"
    by (auto simp: catalogued_resolved_def or_error_def split: option.splits if_splits)
  from v(1) have "v \<in> set all_variants"
    using assms(1) by (auto simp: selected_variant_def find_Some_iff split: option.splits)
  with v(2) have "v = variant_proteus_f7" by (rule catalogue_runnable [rotated])
  with q(1) have q_fields: "rp_variant q = variant_proteus_f7" "rp_regions q = REGIONS" "rp_patches q = PATCHES"
      "rp_vector_table q = 0x200000" "rp_cpu_model q = LauncherCortexM7" "rp_usb_cdc_tcp q \<noteq> None"
    by (auto simp: for_variant_def variant_proteus_f7_def PROFILE_def)
  with q(2) obtain port where port: "parse_port (app_port a) = Inr port" "p = set_usb_cdc_tcp_port port q"
    by auto
  then have "0 \<le> port \<and> port \<le> 65535"
    by (auto simp: parse_port_def parse_u16_def split: option.splits dest: parse_int_range)
  with q_fields(6) have "usb_cdc_tcp_port p = Some port" by (simp add: port(2) set_port_then_port)
  with port(1) q_fields show ?thesis by (simp add: port(2) set_usb_cdc_tcp_port_def)
qed


definition demo_env :: env where
  "demo_env = \<lparr>is_file = (\<lambda>_. True), current_exe = Inr ''launcher'', current_dir = None, env_var = Map.empty,
     path_join = (\<lambda>a b. a @ ''/'' @ b), with_file_name = (\<lambda>_ n. n), exe_suffix = [], tempdir = Inr ''tmp'',
     write_file = (\<lambda>_ _. Inr ()), yaml_text = (\<lambda>_. Inr ''text''), spawn_child = (\<lambda>_ _. Inr ()),
     to_lowercase = (\<lambda>s. s)\<rparr>"

definition demo_saved :: saved_launcher_state where
  "demo_saved = saved_default\<lparr>sv_firmware := Some ''fw.bin'', sv_svd := Some ''f7.svd'',
     sv_selected_variant := Some ''proteus_f7''\<rparr>"

lemma find_proteus: "find (\<lambda>v. kv_id v = ''proteus_f7'') all_variants = Some variant_proteus_f7"
  by (simp add: all_variants_def GENERATED_VARIANTS_defs variant_cataloged_def variant_proteus_f7_def)

lemma parse_default_port: "parse_port ''29000'' = Inr 29000"
  by code_simp

lemma demo_can_run: "app_can_run demo_env (app_new demo_saved)"
  by (simp add: app_can_run_def launcher_can_run_def app_new_def demo_saved_def saved_default_def
      resolved_profile_def or_error_def validate_firmware_def demo_env_def catalogued_resolved_def
      selected_variant_def find_proteus variant_proteus_f7_def for_variant_def PROFILE_def or_default_def
      parse_default_port)

lemma demo_started: "launched demo_saved (app_new demo_saved)"
    "\<not> (sv_manual_enabled demo_saved \<and> sv_selected_variant demo_saved \<noteq> None)"
  by (rule opened) (simp add: demo_saved_def saved_default_def)

lemma launcher_invariant_witness: "process_consistent (app_new demo_saved)"
  using launcher_invariant [OF demo_started] by blast


text \<open>The manual form a new launcher shows resolves once a firmware and an SVD file are chosen, and the
  Run button stays disabled.\<close>

definition manual_saved :: saved_launcher_state where
  "manual_saved = saved_default\<lparr>sv_firmware := Some ''fw.bin'', sv_manual_enabled := True, sv_manual_svd := ''x.svd''\<rparr>"

lemma addresses_trimmed:
  "str_trim ''0x08000000'' = ''0x08000000''" "str_trim ''0x00100000'' = ''0x00100000''"
  "str_trim ''0x20000000'' = ''0x20000000''" "str_trim ''0x00020000'' = ''0x00020000''"
  by code_simp+

lemma default_addresses:
  "parse_address ''0x08000000'' l = Inr 0x08000000" "parse_address ''0x00100000'' l = Inr 0x00100000"
  "parse_address ''0x20000000'' l = Inr 0x20000000" "parse_address ''0x00020000'' l = Inr 0x00020000"
  by (simp_all add: parse_address_def addresses_trimmed starts_with_def parse_u32_def parse_int_def
      digit_val_def char_in_def)

text \<open>The manual form of a fresh launcher, with a firmware and an SVD file chosen, resolves to a profile with
  the flash and RAM regions of the form, and yet cannot be run in any later frame in which manual mode
  is still on.\<close>

text \<open>C40: Only the Proteus F7 board can be run: whenever the Run button is enabled, the profile that would be
  written is the board's, with the regions, patches, vector table and CPU of the verified profile and the
  serial bridge on the port the user entered. In particular a manual profile can never be run, even
  when it resolves, because manual mode clears the selected variant that \<open>can_run\<close> asks for.\<close>

theorem manual_profile_blocked:
  assumes "launched manual_saved a" "mf_enabled (app_manual a)"
  shows "resolved_profile demo_env (app_new manual_saved) =
       Inr (manual_profile LauncherCortexM4 ''fw.bin'' ''x.svd'' 0x08000000 0x08000000 0x00100000 0x20000000 0x00020000)
     \<and> \<not> app_can_run w a"
proof -
  have "launcher_inv a" by (rule launched_inv [OF assms(1)]) (simp add: manual_saved_def saved_default_def)
  with assms(2) have "\<not> app_can_run w a" by (auto simp: launcher_defs app_can_run_def launcher_can_run_def)
  moreover have "resolved_profile demo_env (app_new manual_saved) =
       Inr (manual_profile LauncherCortexM4 ''fw.bin'' ''x.svd'' 0x08000000 0x08000000 0x00100000 0x20000000 0x00020000)"
    by (simp add: resolved_profile_def manual_resolved_def app_new_def manual_saved_def saved_default_def
        demo_env_def or_error_def validate_firmware_def or_default_def default_addresses launcher_cpu_model_default_def)
  ultimately show ?thesis by blast
qed

lemma manual_profile_blocked_witness: "\<not> app_can_run demo_env (app_new manual_saved)"
proof -
  have "launched manual_saved (app_new manual_saved)" "mf_enabled (app_manual (app_new manual_saved))"
    by (rule opened) (simp add: manual_saved_def saved_default_def app_new_def)
  from manual_profile_blocked [OF this] show ?thesis by blast
qed

text \<open>Starting: when it succeeds the profile resolved, its YAML is in the temporary configuration, both
  the emulator and the configuration file exist, and the child's arguments are the configuration's
  path and one \<open>-v\<close>; the application is running with exactly that process and no error. When it fails
  nothing changes but the error message, the earlier process included.\<close>
theorem start_outcomes:
  "(\<exists>profile c r. resolved_profile w a = Inr profile \<and> yaml_text w (to_yaml profile) = Inr (tc_text c)
      \<and> is_file w (re_executable r) \<and> is_file w (tc_path c)
      \<and> re_arguments r = [utf8_lossy (tc_path c), ''-v''] \<and> re_output r = []
      \<and> app_start w a = a\<lparr>app_config := Some c, app_process := Some r,
           app_state := (app_state a)\<lparr>ls_status := Running, ls_last_error := None\<rparr>\<rparr>)
   \<or> (\<exists>e. launch w a = Inl e \<and> app_start w a = a\<lparr>app_state := (app_state a)\<lparr>ls_last_error := Some e\<rparr>\<rparr>)"
proof (cases "launch w a")
  case (Inl e)
  then show ?thesis by (simp add: app_start_def)
next
  case (Inr cr)
  obtain c r where cr: "cr = (c, r)" by (cases cr)
  obtain profile yaml exe where *: "resolved_profile w a = Inr profile"
      "yaml_text w (to_yaml profile) = Inr yaml" "temporary_config_write w yaml = Inr c"
      "running_emulator_spawn w exe (tc_path c) 1 = Inr r"
    using Inr by (auto simp: launch_def cr)
  have "tc_text c = yaml" using *(3) by (auto simp: temporary_config_write_def Let_def)
  moreover have "is_file w (re_executable r) \<and> is_file w (tc_path c)
      \<and> re_arguments r = [utf8_lossy (tc_path c), ''-v''] \<and> re_output r = []"
    using *(4) by (auto simp: running_emulator_spawn_def validate_executable_def Let_def
        build_emulator_arguments_def split: if_splits)
  ultimately show ?thesis using *(1,2) Inr by (auto simp: app_start_def cr)
qed

text \<open>Saving the workspace when the window closes and opening the launcher again restores the session:
  with a YAML library that reads back what it wrote, the new window has every field of the old one
  that was not left empty, no process, and the status idle.\<close>
theorem session_restored:
  assumes "\<forall>ws yaml. print ws = Inr yaml \<longrightarrow> parse yaml = Some ws"
    and "workspace_save print w dir (closing_workspace place a) = Inr (path, yaml)"
    and "files path = Contents yaml"
  shows "workspace_load parse w files dir = Inr (closing_workspace place a)
    \<and> (let b = app_new (ws_state (closing_workspace place a)) in
        app_state b = (app_state a)\<lparr>ls_status := Idle, ls_last_error := None\<rparr>
        \<and> app_filter b = app_filter a \<and> app_port b = or_default (app_port a) ''29000''
        \<and> mf_enabled (app_manual b) = mf_enabled (app_manual a)
        \<and> mf_cpu_model (app_manual b) = mf_cpu_model (app_manual a)
        \<and> mf_svd (app_manual b) = mf_svd (app_manual a)
        \<and> mf_vector_table (app_manual b) = or_default (mf_vector_table (app_manual a)) ''0x08000000''
        \<and> mf_flash_start (app_manual b) = or_default (mf_flash_start (app_manual a)) ''0x08000000''
        \<and> mf_flash_size (app_manual b) = or_default (mf_flash_size (app_manual a)) ''0x00100000''
        \<and> mf_ram_start (app_manual b) = or_default (mf_ram_start (app_manual a)) ''0x20000000''
        \<and> mf_ram_size (app_manual b) = or_default (mf_ram_size (app_manual a)) ''0x00020000''
        \<and> app_process b = None)"
proof -
  have "path = workspace_path w dir" "print (closing_workspace place a) = Inr yaml"
    using assms(2) by (auto simp: workspace_save_def)
  with assms(1,3) have "workspace_load parse w files dir = Inr (closing_workspace place a)"
    by (simp add: workspace_load_def)
  then show ?thesis
    by (simp add: Let_def closing_workspace_def app_new_def saved_state_def)
qed

text \<open>A failure to start is lost when an emulator that crashed is still held: the next refresh replaces
  the message by that of the old process, whose exit status is reported again on every frame.\<close>
theorem start_error_overwritten:
  assumes "launch w a = Inl e" "app_process a \<noteq> None"
  shows "ls_last_error (app_state (app_start w a)) = Some e
    \<and> ls_last_error (app_state (refresh_process ls (Inr (Some False)) (app_start w a))) =
        Some ''Emulator exited with a non-zero status.''
    \<and> ls_status (app_state (refresh_process ls (Inr (Some False)) (app_start w a))) = Crashed"
  using assms
  by (auto simp: app_start_def refresh_process_def note_state_def poll_state_def classify_exit_def)

lemma start_error_overwritten_witness:
  "ls_last_error (app_state (refresh_process [] (Inr (Some False)) (app_start demo_env
     ((app_new saved_default)\<lparr>app_process := Some \<lparr>re_executable = [], re_arguments = [], re_readers = 2, re_output = []\<rparr>\<rparr>))))
   = Some ''Emulator exited with a non-zero status.''"
  by (rule start_error_overwritten [where e = "''Choose a firmware .bin file.''", THEN conjunct2, THEN conjunct1])
    (simp_all add: launch_def resolved_profile_def or_error_def app_new_def saved_default_def)

definition print_demo :: "workspace \<Rightarrow> string fallible" where
  "print_demo ws = (if ws = closing_workspace \<lparr>wp_x = 0, wp_y = 0, wp_width = 800, wp_height = 600\<rparr> (app_new demo_saved)
     then Inr ''saved'' else Inl [])"

lemma session_restored_witness:
  "workspace_load (\<lambda>_. Some (closing_workspace \<lparr>wp_x = 0, wp_y = 0, wp_width = 800, wp_height = 600\<rparr> (app_new demo_saved)))
     demo_env (\<lambda>_. Contents ''saved'') ''dir''
   = Inr (closing_workspace \<lparr>wp_x = 0, wp_y = 0, wp_width = 800, wp_height = 600\<rparr> (app_new demo_saved))"
  by (rule session_restored [where print = print_demo and yaml = "''saved''" and path = "''dir/workspace.yaml''", THEN conjunct1])
    (auto simp: print_demo_def workspace_save_def workspace_path_def demo_env_def split: if_splits)

end
