(* ===== verification/Boards.thy ===== *)
theory Boards
  imports Profiles EcuIo Adc Bus
begin

text \<open>
  Consistency of the board data with the models of the devices it configures: the Proteus F7
  profile of \<open>src/launcher/boards/proteus_f7.rs\<close> against the ECU harness, the ADC's channel table,
  the EXTI lines and the MMIO ranges of the bus, and the editable port of the serial bridge.
\<close>

section \<open>What the emulator reads back\<close>

text \<open>The YAML the launcher writes is read by the emulator's configuration types: a direction is
  \<open>input\<close> or \<open>output\<close>, the fields keep their names and values.\<close>

definition read_direction :: "string \<Rightarrow> pin_direction option" where
  "read_direction s = (if s = ''input'' then Some DirInput else if s = ''output'' then Some DirOutput else None)"

definition read_wheel :: "ecu_io_trigger_wheel \<Rightarrow> wheel_config" where
  "read_wheel w = \<lparr>wheel_signal = et_signal w, wheel_pin_signal = et_pin_signal w, teeth = et_teeth w, missing = et_missing w\<rparr>"

definition read_ecu_io :: "ecu_io_device \<Rightarrow> ecu_io_config option" where
  "read_ecu_io d =
     (if \<forall>p \<in> set (ed_pins d). read_direction (ep_direction p) \<noteq> None
      then Some \<lparr>ecu_listen = ed_listen d,
        ecu_pins = map (\<lambda>p. \<lparr>pc_name = ep_name p, pc_pin = ep_pin p,
          pc_direction = the (read_direction (ep_direction p))\<rparr>) (ed_pins d),
        ecu_adc_channels = map (\<lambda>c. \<lparr>ac_name = ea_name c, ac_pin = ea_pin c\<rparr>) (ed_adc_channels d),
        ecu_wheel_config = map_option read_wheel (ed_trigger_wheel d)\<rparr>
      else None)"

definition pins_of :: "ecu_io_pin list \<Rightarrow> pin list" where
  "pins_of ps = map (\<lambda>p. case pin_from_str (ep_pin p) of Inr q \<Rightarrow> q | Inl _ \<Rightarrow> \<lparr>pin_port = 99, pin_number = 99\<rparr>) ps"

definition adc_pins_of :: "ecu_io_adc_channel list \<Rightarrow> pin list" where
  "adc_pins_of cs = map (\<lambda>c. case pin_from_str (ea_pin c) of Inr q \<Rightarrow> q | Inl _ \<Rightarrow> \<lparr>pin_port = 99, pin_number = 99\<rparr>) cs"

text \<open>Regions as intervals of addresses.\<close>

definition region_interval :: "memory_region \<Rightarrow> nat \<times> nat" where
  "region_interval r = (unat (mr_start r), unat (mr_start r) + unat (mr_size r))"

fun disjoint_intervals :: "(nat \<times> nat) list \<Rightarrow> bool" where
  "disjoint_intervals [] \<longleftrightarrow> True"
| "disjoint_intervals ((a, b) # is) \<longleftrightarrow> list_all (\<lambda>(c, d). b \<le> c \<or> d \<le> a) is \<and> disjoint_intervals is"

definition inside :: "nat \<times> nat \<Rightarrow> nat \<times> nat \<Rightarrow> bool" where
  "inside i j \<longleftrightarrow> fst j \<le> fst i \<and> snd i \<le> snd j"

section \<open>Properties\<close>

lemmas pin_parsing = pin_from_str_def pin_captures_def char_in_def port_index_def parse_int_def digit_val_def

lemma proteus_pins: "pins_of ECU_IO_PINS =
    [\<lparr>pin_port = 4, pin_number = 7\<rparr>, \<lparr>pin_port = 4, pin_number = 8\<rparr>, \<lparr>pin_port = 2, pin_number = 6\<rparr>,
     \<lparr>pin_port = 4, pin_number = 11\<rparr>, \<lparr>pin_port = 4, pin_number = 12\<rparr>, \<lparr>pin_port = 4, pin_number = 14\<rparr>,
     \<lparr>pin_port = 4, pin_number = 13\<rparr>, \<lparr>pin_port = 4, pin_number = 15\<rparr>, \<lparr>pin_port = 3, pin_number = 7\<rparr>,
     \<lparr>pin_port = 6, pin_number = 9\<rparr>, \<lparr>pin_port = 6, pin_number = 10\<rparr>, \<lparr>pin_port = 6, pin_number = 11\<rparr>,
     \<lparr>pin_port = 6, pin_number = 12\<rparr>, \<lparr>pin_port = 6, pin_number = 13\<rparr>, \<lparr>pin_port = 6, pin_number = 14\<rparr>,
     \<lparr>pin_port = 1, pin_number = 4\<rparr>, \<lparr>pin_port = 1, pin_number = 5\<rparr>, \<lparr>pin_port = 1, pin_number = 6\<rparr>,
     \<lparr>pin_port = 1, pin_number = 7\<rparr>, \<lparr>pin_port = 1, pin_number = 8\<rparr>, \<lparr>pin_port = 1, pin_number = 9\<rparr>,
     \<lparr>pin_port = 4, pin_number = 0\<rparr>, \<lparr>pin_port = 4, pin_number = 1\<rparr>, \<lparr>pin_port = 4, pin_number = 2\<rparr>,
     \<lparr>pin_port = 0, pin_number = 9\<rparr>, \<lparr>pin_port = 0, pin_number = 8\<rparr>, \<lparr>pin_port = 3, pin_number = 15\<rparr>,
     \<lparr>pin_port = 3, pin_number = 14\<rparr>, \<lparr>pin_port = 3, pin_number = 4\<rparr>, \<lparr>pin_port = 3, pin_number = 3\<rparr>,
     \<lparr>pin_port = 2, pin_number = 9\<rparr>, \<lparr>pin_port = 2, pin_number = 8\<rparr>, \<lparr>pin_port = 2, pin_number = 7\<rparr>,
     \<lparr>pin_port = 6, pin_number = 8\<rparr>, \<lparr>pin_port = 6, pin_number = 7\<rparr>, \<lparr>pin_port = 6, pin_number = 6\<rparr>,
     \<lparr>pin_port = 6, pin_number = 5\<rparr>, \<lparr>pin_port = 6, pin_number = 4\<rparr>, \<lparr>pin_port = 6, pin_number = 3\<rparr>,
     \<lparr>pin_port = 6, pin_number = 2\<rparr>]"
  by (simp add: pins_of_def ECU_IO_PINS_defs pin_parsing)

lemma proteus_adc_channel_pins: "adc_pins_of ECU_IO_ADC_CHANNELS =
    [\<lparr>pin_port = 2, pin_number = 4\<rparr>, \<lparr>pin_port = 2, pin_number = 5\<rparr>, \<lparr>pin_port = 1, pin_number = 0\<rparr>,
     \<lparr>pin_port = 1, pin_number = 1\<rparr>, \<lparr>pin_port = 2, pin_number = 0\<rparr>, \<lparr>pin_port = 2, pin_number = 1\<rparr>,
     \<lparr>pin_port = 2, pin_number = 2\<rparr>, \<lparr>pin_port = 2, pin_number = 3\<rparr>, \<lparr>pin_port = 0, pin_number = 0\<rparr>,
     \<lparr>pin_port = 0, pin_number = 1\<rparr>, \<lparr>pin_port = 0, pin_number = 2\<rparr>, \<lparr>pin_port = 0, pin_number = 3\<rparr>,
     \<lparr>pin_port = 0, pin_number = 4\<rparr>, \<lparr>pin_port = 0, pin_number = 5\<rparr>, \<lparr>pin_port = 0, pin_number = 6\<rparr>,
     \<lparr>pin_port = 0, pin_number = 7\<rparr>]"
  by (simp add: adc_pins_of_def ECU_IO_ADC_CHANNELS_def pin_parsing)

lemma proteus_distinct_pins: "distinct (pins_of ECU_IO_PINS @ adc_pins_of ECU_IO_ADC_CHANNELS)"
  by (simp add: proteus_pins proteus_adc_channel_pins)

lemma proteus_adc_pins: "set (adc_pins_of ECU_IO_ADC_CHANNELS) = set channel_pins"
  by (auto simp: proteus_adc_channel_pins channel_pins_def)

lemma proteus_input_names: "map ep_name (filter (\<lambda>p. ep_direction p = ''input'') ECU_IO_PINS) =
    [''vr1'', ''vr2'', ''din1'', ''din2'', ''din3'', ''din4'', ''din5'', ''din6'']"
  by (simp add: ECU_IO_PINS_defs)

lemma proteus_lines: "distinct (map pin_number (pins_of (filter (\<lambda>p. ep_direction p = ''input'') ECU_IO_PINS)))"
  by (simp add: pins_of_def ECU_IO_PINS_defs pin_parsing)

lemma proteus_names: "distinct (''trigger_rpm'' # map ep_name ECU_IO_PINS @ map ea_name ECU_IO_ADC_CHANNELS)"
  by (simp add: ECU_IO_PINS_defs ECU_IO_ADC_CHANNELS_def)

lemma proteus_regions:
  "disjoint_intervals (map region_interval REGIONS @ map (\<lambda>(a, b). (unat a, unat b)) MEMORY_MAPS)"
  "list_all (\<lambda>r. unat (mr_start r) mod 4096 = 0 \<and> unat (mr_size r) mod 4096 = 0) REGIONS"
  by (simp_all add: REGIONS_def MEMORY_MAPS_def region_interval_def)

lemma proteus_patches:
  "list_all (\<lambda>p. list_ex (\<lambda>r. \<not> mr_load_firmware r
     \<and> inside (unat (mp_start p), unat (mp_start p) + length (mp_data p)) (region_interval r)) REGIONS) PATCHES"
  by (simp add: PATCHES_def REGIONS_def region_interval_def inside_def)

lemma proteus_vector_table:
  "list_ex (\<lambda>r. mr_load_firmware r \<and> mr_start r = pt_vector_table PROFILE) REGIONS"
  by (simp add: PROFILE_def REGIONS_def)

lemma proteus_directions:
  "list_all (\<lambda>p. read_direction (ep_direction p) \<noteq> None) ECU_IO_PINS"
  by (simp add: ECU_IO_PINS_defs read_direction_def)

text \<open>The Proteus F7 board data is consistent with the models that consume it. Its regions are page
  aligned and disjoint from each other and from the MMIO ranges of the bus; the identifier patch lies in
  a region the firmware image is not loaded to; the vector table is the base of a region that is. Every
  pin name parses, no pin is used twice, signal names are distinct, the sixteen analog channels are
  exactly the pins the ADC model samples, and the inputs sit on pairwise different EXTI lines.\<close>
theorem proteus_profile_consistent:
  "disjoint_intervals (map region_interval (pt_regions PROFILE) @ map (\<lambda>(a, b). (unat a, unat b)) MEMORY_MAPS)
   \<and> list_all (\<lambda>r. unat (mr_start r) mod 4096 = 0 \<and> unat (mr_size r) mod 4096 = 0) (pt_regions PROFILE)
   \<and> list_all (\<lambda>p. list_ex (\<lambda>r. \<not> mr_load_firmware r
       \<and> inside (unat (mp_start p), unat (mp_start p) + length (mp_data p)) (region_interval r))
       (pt_regions PROFILE)) (pt_patches PROFILE)
   \<and> list_ex (\<lambda>r. mr_load_firmware r \<and> mr_start r = pt_vector_table PROFILE) (pt_regions PROFILE)
   \<and> distinct (pins_of ECU_IO_PINS @ adc_pins_of ECU_IO_ADC_CHANNELS)
   \<and> distinct (''trigger_rpm'' # map ep_name ECU_IO_PINS @ map ea_name ECU_IO_ADC_CHANNELS)
   \<and> set (adc_pins_of ECU_IO_ADC_CHANNELS) = set channel_pins
   \<and> distinct (map pin_number (pins_of (filter (\<lambda>p. ep_direction p = ''input'') ECU_IO_PINS)))"
  using proteus_regions proteus_patches proteus_vector_table proteus_distinct_pins proteus_names
    proteus_adc_pins proteus_lines
  by (simp only: PROFILE_def profile_template.simps simp_thms)

text \<open>The harness built from what the emulator reads back of the Proteus profile starts: no pin name
  panics, and its input table is the eight inputs in the order of the profile, its sixteen analog channels are those of the profile, and
  the trigger wheel listens to a known signal, drives one of the inputs and has fewer missing teeth than
  teeth.\<close>
theorem proteus_harness_starts:
  "\<exists>e c. Option.bind (pt_ecu_io PROFILE) read_ecu_io = Some c
     \<and> ecu_new c None True = Inr (Inr e)
     \<and> map snd (digital_input_pins e) = [''vr1'', ''vr2'', ''din1'', ''din2'', ''din3'', ''din4'', ''din5'', ''din6'']
     \<and> map fst (adc_channels e) = adc_pins_of ECU_IO_ADC_CHANNELS
     \<and> length (adc_channels e) = 16
     \<and> pred_option (\<lambda>w. wheel_signal w \<in> known_names e
          \<and> wheel_pin_signal w \<in> set (map snd (digital_input_pins e))
          \<and> missing w < teeth w) (ecu_wheel_config c)"
  by (simp add: PROFILE_def read_ecu_io_def read_wheel_def ecu_new_def ecu_known_names_def
      read_direction_def ECU_IO_PINS_defs ECU_IO_ADC_CHANNELS_def adc_pins_of_def pin_parsing)

lemma catalogue_ids: "map kv_id all_variants = map gv_id GENERATED_VARIANTS"
  by (simp add: all_variants_def variant_cataloged_def variant_proteus_f7_def)

lemma catalogue_ids_distinct: "distinct (map gv_id GENERATED_VARIANTS)"
  by code_simp

text \<open>The catalogue: variant ids are distinct, the only entry the launcher offers to run is the Proteus
  F7, and the only entry a profile can be resolved for is the same one, whatever the paths.\<close>
theorem catalogue_supported:
  "distinct (map kv_id all_variants)
   \<and> filter (\<lambda>v. kv_support v \<noteq> Unsupported) all_variants = [variant_proteus_f7]
   \<and> filter (\<lambda>v. \<not> isl (for_variant v firmware svd)) all_variants = [variant_proteus_f7]"
  using catalogue_ids_distinct
  by (simp only: catalogue_ids)
    (simp add: all_variants_def GENERATED_VARIANTS_defs variant_cataloged_def variant_proteus_f7_def for_variant_def)

text \<open>Editing the port of the serial bridge and reading it back gives the port, for every 16-bit
  value and every profile that has a bridge; the other fields of the profile stay.\<close>
theorem usb_port_round_trip:
  assumes "0 \<le> port" "port \<le> 65535" "rp_usb_cdc_tcp p = Some d"
  shows "usb_cdc_tcp_port (set_usb_cdc_tcp_port port p) = Some port
     \<and> set_usb_cdc_tcp_port port p = p\<lparr>rp_usb_cdc_tcp := Some (d\<lparr>ud_listen := ''127.0.0.1:'' @ show_int port\<rparr>)\<rparr>"
  using assms set_port_then_port [of port p] by (simp add: set_usb_cdc_tcp_port_def)

lemma usb_port_round_trip_witness:
  "usb_cdc_tcp_port (set_usb_cdc_tcp_port 29001
     \<lparr>rp_variant = variant_proteus_f7, rp_cpu_model = LauncherCortexM7, rp_vector_table = 0, rp_firmware = [],
      rp_svd = [], rp_regions = [], rp_patches = [], rp_usb_cdc_tcp = pt_usb_cdc_tcp PROFILE,
      rp_ecu_io = None\<rparr>) = Some 29001"
  by (rule usb_port_round_trip [THEN conjunct1]) (simp_all add: PROFILE_def)

end
