(* ===== verification/ExtDevices.thy ===== *)
theory ExtDevices
  imports SerialDevices Displays UsbCdc EcuIo
begin

text \<open>
  The registry of external devices, \<open>src/ext_devices/mod.rs\<close>: construction from the configuration, lookup
  by the peripheral a device is wired to, the serial and memory device interfaces over the registry,
  and the polling of bridges and ECU harnesses. The \<open>Rc\<close> handles are positions in the registry's
  lists. Each display, LCD and touch screen has its own framebuffer here; two devices drawing on one
  framebuffer are not modelled.
\<close>

section \<open>The registry\<close>

record lcd_config =
  lc_peripheral :: string
  lc_framebuffer :: string

record ext_devices_config =
  cfg_spi_flash :: "spi_flash_config list option"
  cfg_usart_probe :: "string list option"
  cfg_display :: "display_config list option"
  cfg_lcd :: "lcd_config list option"
  cfg_touchscreen :: "touchscreen_config list option"
  cfg_usb_cdc_tcp :: "usb_cdc_config list option"
  cfg_ecu_io :: "ecu_io_config list option"

definition ext_devices_config_default :: ext_devices_config where
  "ext_devices_config_default = \<lparr>cfg_spi_flash = None, cfg_usart_probe = None, cfg_display = None,
     cfg_lcd = None, cfg_touchscreen = None, cfg_usb_cdc_tcp = None, cfg_ecu_io = None\<rparr>"

record ext_devices =
  spi_flashes :: "spi_flash list"
  usart_probes :: "usart_probe list"
  displays :: "(display \<times> u16 framebuffer) list"
  lcds :: "(lcd \<times> u32 framebuffer) list"
  touchscreens :: "(touchscreen \<times> u16 framebuffer) list"
  usb_cdc_tcps :: "usb_cdc list"
  ecu_ios :: "ecu_io list"

definition ext_devices_default :: ext_devices where
  "ext_devices_default = \<lparr>spi_flashes = [], usart_probes = [], displays = [], lcds = [], touchscreens = [],
     usb_cdc_tcps = [], ecu_ios = []\<rparr>"

section \<open>Lookup\<close>

fun position :: "('a \<Rightarrow> bool) \<Rightarrow> 'a list \<Rightarrow> nat option" where
  "position P [] = None"
| "position P (x # xs) = (if P x then Some 0 else map_option Suc (position P xs))"

datatype serial_handle = FlashAt nat | ProbeAt nat | LcdAt nat | TouchAt nat

definition or_else :: "'a option \<Rightarrow> 'a option \<Rightarrow> 'a option" where
  "or_else x y = (case x of Some v \<Rightarrow> Some v | None \<Rightarrow> y)"

definition find_serial_device :: "string \<Rightarrow> ext_devices \<Rightarrow> serial_handle option" where
  "find_serial_device peri_name d =
     or_else (or_else (or_else
       (map_option FlashAt (position (\<lambda>f. sf_peripheral (sf_config f) = peri_name) (spi_flashes d)))
       (map_option ProbeAt (position (\<lambda>p. up_peripheral p = peri_name) (usart_probes d))))
       (map_option LcdAt (position (\<lambda>l. lcd_peripheral (fst l) = peri_name) (lcds d))))
       (map_option TouchAt (position (\<lambda>t. tc_peripheral (tc_config (fst t)) = peri_name) (touchscreens d)))"

definition find_mem_device :: "string \<Rightarrow> ext_devices \<Rightarrow> nat option" where
  "find_mem_device peri_name d = position (\<lambda>x. dc_peripheral (d_config (fst x)) = peri_name) (displays d)"

definition find_usb_cdc_tcp :: "string \<Rightarrow> ext_devices \<Rightarrow> nat option" where
  "find_usb_cdc_tcp peri_name d = position (\<lambda>b. cdc_peripheral (cdc_config b) = peri_name) (usb_cdc_tcps d)"

definition first_ecu_io :: "ext_devices \<Rightarrow> nat option" where
  "first_ecu_io d = (if ecu_ios d = [] then None else Some 0)"

section \<open>The device interfaces\<close>

text \<open>A device names itself after the peripheral it is connected to.\<close>

definition connect_serial :: "string \<Rightarrow> serial_handle \<Rightarrow> ext_devices \<Rightarrow> string \<times> ext_devices" where
  "connect_serial peri_name h d =
     (case h of
        FlashAt i \<Rightarrow> let name = peri_name @ '' spi-flash''
                     in (name, d\<lparr>spi_flashes := (spi_flashes d)[i := (spi_flashes d ! i)\<lparr>sf_name := name\<rparr>]\<rparr>)
      | ProbeAt i \<Rightarrow> let name = peri_name @ '' usart-probe''
                     in (name, d\<lparr>usart_probes := (usart_probes d)[i := (usart_probes d ! i)\<lparr>up_name := name\<rparr>]\<rparr>)
      | LcdAt i \<Rightarrow> let name = peri_name @ '' LCD''; (l, fb) = lcds d ! i
                   in (name, d\<lparr>lcds := (lcds d)[i := (l\<lparr>lcd_name := name\<rparr>, fb)]\<rparr>)
      | TouchAt i \<Rightarrow> (peri_name @ '' touchscreen'', d))"

text \<open>Run an operation of the device at a position and put the device back.\<close>

definition at_device ::
  "('d \<Rightarrow> 'r \<Rightarrow> 'r) \<Rightarrow> ('r \<Rightarrow> 'd) \<Rightarrow> ('d \<Rightarrow> ('t \<times> 'd) res) \<Rightarrow> 'r \<Rightarrow> ('t \<times> 'r) res" where
  "at_device put get f r = res_map (\<lambda>(v, d). (v, put d r)) (f (get r))"

definition serial_read :: "serial_handle \<Rightarrow> ext_devices \<Rightarrow> (u8 \<times> ext_devices) res" where
  "serial_read h d =
     (case h of
        FlashAt i \<Rightarrow> at_device (\<lambda>x. spi_flashes_update (\<lambda>xs. xs[i := x])) (\<lambda>d. spi_flashes d ! i) (spi_flash_read ()) d
      | ProbeAt i \<Rightarrow> at_device (\<lambda>x. usart_probes_update (\<lambda>xs. xs[i := x])) (\<lambda>d. usart_probes d ! i) (usart_probe_read ()) d
      | LcdAt i \<Rightarrow> at_device (\<lambda>x. lcds_update (\<lambda>xs. xs[i := x])) (\<lambda>d. lcds d ! i) (dev_read lcd_dev ()) d
      | TouchAt i \<Rightarrow> at_device (\<lambda>x. touchscreens_update (\<lambda>xs. xs[i := x])) (\<lambda>d. touchscreens d ! i) (touch_read ()) d)"

definition written_device :: "('d \<Rightarrow> 'd res) \<Rightarrow> 'd \<Rightarrow> (unit \<times> 'd) res" where
  "written_device f d = res_map (Pair ()) (f d)"

definition serial_write :: "serial_handle \<Rightarrow> u8 \<Rightarrow> ext_devices \<Rightarrow> ext_devices res" where
  "serial_write h v d =
     res_map snd
       (case h of
          FlashAt i \<Rightarrow> at_device (\<lambda>x. spi_flashes_update (\<lambda>xs. xs[i := x])) (\<lambda>d. spi_flashes d ! i)
             (written_device (spi_flash_write () v)) d
        | ProbeAt i \<Rightarrow> at_device (\<lambda>x. usart_probes_update (\<lambda>xs. xs[i := x])) (\<lambda>d. usart_probes d ! i)
             (written_device (usart_probe_write () v)) d
        | LcdAt i \<Rightarrow> at_device (\<lambda>x. lcds_update (\<lambda>xs. xs[i := x])) (\<lambda>d. lcds d ! i) (written_device (lcd_write () v)) d
        | TouchAt i \<Rightarrow> at_device (\<lambda>x. touchscreens_update (\<lambda>xs. xs[i := x])) (\<lambda>d. touchscreens d ! i)
             (written_device (touch_write () v)) d)"

text \<open>The serial bus a peripheral sees: its device is a handle into the shared registry.\<close>

definition serial_bus :: "(unit, u8, serial_handle \<times> ext_devices) ext_device" where
  "serial_bus = \<lparr>dev_read = (\<lambda>_ (h, d). res_map (\<lambda>(v, d). (v, h, d)) (serial_read h d)),
     dev_write = (\<lambda>_ v (h, d). res_map (Pair h) (serial_write h v d))\<rparr>"

section \<open>Polling\<close>

text \<open>What the sockets of one device answer in one poll; errors are logged and dropped.\<close>

record socket_answers =
  so_time :: nat
  so_accept :: "accept_result list"
  so_read :: "read_result list"
  so_write :: "write_result list"

definition poll_bridge :: "socket_answers \<Rightarrow> usb_cdc \<Rightarrow> usb_cdc" where
  "poll_bridge s b = snd (bridge_poll (so_time s) (so_accept s) (so_read s) (so_write s) b)"

definition poll_ecu :: "u64 \<Rightarrow> socket_answers \<Rightarrow> ecu_io \<times> exti \<times> nvic \<Rightarrow> (ecu_io \<times> exti \<times> nvic) res" where
  "poll_ecu now s st =
     (case st of (e, x, n) \<Rightarrow>
        check_digital_edges
          (advance_trigger_wheel now (snd (ecu_poll (so_accept s) (so_read s) (so_write s) e)), x, n))"

fun poll_ecus ::
  "u64 \<Rightarrow> (nat \<Rightarrow> socket_answers) \<Rightarrow> nat \<Rightarrow> ecu_io list \<times> exti \<times> nvic \<Rightarrow> (ecu_io list \<times> exti \<times> nvic) res" where
  "poll_ecus now answers i ([], x, n) = Inr ([], x, n)"
| "poll_ecus now answers i (e # es, x, n) =
     res_bind (poll_ecu now (answers i) (e, x, n)) (\<lambda>(e, x, n).
       res_map (\<lambda>(es, x, n). (e # es, x, n)) (poll_ecus now answers (Suc i) (es, x, n)))"

text \<open>The answers of the bridges and those of the harnesses, by position.\<close>

type_synonym poll_answers = "(nat \<Rightarrow> socket_answers) \<times> (nat \<Rightarrow> socket_answers)"

definition devices_poll ::
  "u64 \<Rightarrow> poll_answers \<Rightarrow> ext_devices \<times> exti \<times> nvic \<Rightarrow> (ext_devices \<times> exti \<times> nvic) res" where
  "devices_poll now answers st =
     (case st of (d, x, n) \<Rightarrow>
        let d = d\<lparr>usb_cdc_tcps := map (\<lambda>(i, b). poll_bridge (fst answers i) b) (enumerate 0 (usb_cdc_tcps d))\<rparr>
        in res_map (\<lambda>(es, x, n). (d\<lparr>ecu_ios := es\<rparr>, x, n)) (poll_ecus now (snd answers) 0 (ecu_ios d, x, n)))"

section \<open>Construction\<close>

text \<open>What construction takes from outside: the files, whether a socket address can be bound, the pending
  in-process links (only the first device of a kind gets one), the size in bytes of an SDL surface,
  and how the closures of touch screens and harnesses reach their device in the state.\<close>

record 's device_access =
  acc_file :: "string \<Rightarrow> u8 list fallible"
  acc_bind :: "string \<Rightarrow> bool"
  acc_cdc_link :: "cdc_state option"
  acc_ecu_link :: "io_state option"
  acc_sdl_bytes :: "framebuffer_config \<Rightarrow> nat"
  acc_touch :: "nat \<Rightarrow> 's \<Rightarrow> u16 framebuffer"
  acc_ecu :: "nat \<Rightarrow> 's \<Rightarrow> ecu_io"
  acc_upd_ecu :: "nat \<Rightarrow> (ecu_io \<Rightarrow> ecu_io) \<Rightarrow> 's \<Rightarrow> 's"
  acc_clock :: "'s \<Rightarrow> u64"

definition unwrap_or_default :: "'a list option \<Rightarrow> 'a list" where
  "unwrap_or_default x = (case x of Some xs \<Rightarrow> xs | None \<Rightarrow> [])"

text \<open>A pixel view of a framebuffer, in colours of the given number of bytes.\<close>

definition pixel_view :: "(framebuffer_config \<Rightarrow> nat) \<Rightarrow> nat \<Rightarrow> framebuffer_config \<Rightarrow> ('c::zero) framebuffer" where
  "pixel_view sdl_bytes width c =
     \<lparr>fb_config = c,
      fb_pixels = replicate ((if fbc_image c \<noteq> None then 2 * (unat (fbc_width c) * unat (fbc_height c))
                              else sdl_bytes c) div width) 0,
      fb_touch = None\<rparr>"

definition new_flashes :: "'s device_access \<Rightarrow> spi_flash_config list \<Rightarrow> spi_flash list fallible" where
  "new_flashes a = map_res (\<lambda>c. res_map (\<lambda>file. spi_flash_new file c) (acc_file a (sf_file c)))"

definition new_displays ::
  "'s device_access \<Rightarrow> framebuffer_config list \<times> framebuffer_config list \<Rightarrow> display_config list \<Rightarrow>
   (display \<times> u16 framebuffer) list fallible" where
  "new_displays a fbs = map_res (\<lambda>c. res_bind (framebuffers_get (dc_framebuffer c) fbs) (\<lambda>fb.
     res_map (\<lambda>d. (d, pixel_view (acc_sdl_bytes a) 2 fb)) (display_new c fbs)))"

definition new_lcds ::
  "'s device_access \<Rightarrow> framebuffer_config list \<times> framebuffer_config list \<Rightarrow> lcd_config list \<Rightarrow>
   (lcd \<times> u32 framebuffer) list fallible" where
  "new_lcds a fbs = map_res (\<lambda>c. res_bind (framebuffers_get (lc_framebuffer c) fbs) (\<lambda>fb.
     res_map (\<lambda>l. (l, pixel_view (acc_sdl_bytes a) 4 fb)) (lcd_new (lc_peripheral c) (lc_framebuffer c) fbs)))"

text \<open>A touch screen's detection pin reads high while nothing touches.\<close>

definition touchscreen_new ::
  "'s device_access \<Rightarrow> framebuffer_config list \<times> framebuffer_config list \<Rightarrow> nat \<Rightarrow> touchscreen_config \<Rightarrow>
   's gpio_ports \<Rightarrow> ((touchscreen \<times> u16 framebuffer) \<times> 's gpio_ports) fallible res" where
  "touchscreen_new a fbs i c gpio =
     (case framebuffers_get (tc_framebuffer c) fbs of
        Inl e \<Rightarrow> Inr (Inl e)
      | Inr fb \<Rightarrow>
          res_map (\<lambda>gpio. Inr ((\<lparr>tc_config = c, tc_reply = None\<rparr>, pixel_view (acc_sdl_bytes a) 2 fb), gpio))
            (case touch_detected_pin c of
               None \<Rightarrow> Inr gpio
             | Some name \<Rightarrow> res_bind (pin_from_str name) (\<lambda>pin.
                 add_read_callback pin (\<lambda>s. (fb_touch (acc_touch a i s) = None, s)) gpio)))"

text \<open>Constructing a list of devices that add closures to the pins; \<open>i\<close> is the position of the next.\<close>

fun new_each ::
  "(nat \<Rightarrow> 'c \<Rightarrow> 'g \<Rightarrow> ('d \<times> 'g) fallible res) \<Rightarrow> nat \<Rightarrow> 'c list \<Rightarrow> 'g \<Rightarrow> ('d list \<times> 'g) fallible res" where
  "new_each new i [] gpio = Inr (Inr ([], gpio))"
| "new_each new i (c # cs) gpio =
     res_bind (new i c gpio) (\<lambda>r. case r of
        Inl e \<Rightarrow> Inr (Inl e)
      | Inr (d, gpio) \<Rightarrow> res_map (res_map (\<lambda>(ds, gpio). (d # ds, gpio))) (new_each new (Suc i) cs gpio))"

fun new_bridges :: "'s device_access \<Rightarrow> cdc_state option \<Rightarrow> usb_cdc_config list \<Rightarrow> usb_cdc list fallible" where
  "new_bridges a link [] = Inr []"
| "new_bridges a link (c # cs) =
     res_bind (usb_cdc_new c link (acc_bind a (cdc_listen c))) (\<lambda>b.
       res_map (\<lambda>bs. b # bs) (new_bridges a None cs))"

definition new_ecu :: "'s device_access \<Rightarrow> nat \<Rightarrow> ecu_io_config \<Rightarrow> 's gpio_ports \<Rightarrow> (ecu_io \<times> 's gpio_ports) fallible res" where
  "new_ecu a i c gpio =
     ecu_register (acc_ecu a i) (acc_upd_ecu a i) (acc_clock a) c (if i = 0 then acc_ecu_link a else None)
       (acc_bind a (ecu_listen c)) gpio"

text \<open>A \<open>?\<close> between a panicking and a failing computation.\<close>

definition try_in :: "'a fallible \<Rightarrow> ('a \<Rightarrow> 'b fallible res) \<Rightarrow> 'b fallible res" where
  "try_in x f = (case x of Inl e \<Rightarrow> Inr (Inl e) | Inr v \<Rightarrow> f v)"

definition into_ext_devices ::
  "'s device_access \<Rightarrow> framebuffer_config list \<times> framebuffer_config list \<Rightarrow> ext_devices_config \<Rightarrow>
   's gpio_ports \<Rightarrow> (ext_devices \<times> 's gpio_ports) fallible res" where
  "into_ext_devices a fbs c gpio =
     try_in (new_flashes a (unwrap_or_default (cfg_spi_flash c))) (\<lambda>flashes.
     let probes = map usart_probe_new (unwrap_or_default (cfg_usart_probe c)) in
     try_in (new_displays a fbs (unwrap_or_default (cfg_display c))) (\<lambda>ds.
     try_in (new_lcds a fbs (unwrap_or_default (cfg_lcd c))) (\<lambda>ls.
     res_bind (new_each (touchscreen_new a fbs) 0 (unwrap_or_default (cfg_touchscreen c)) gpio) (\<lambda>r.
     try_in r (\<lambda>(ts, gpio).
     try_in (new_bridges a (acc_cdc_link a) (unwrap_or_default (cfg_usb_cdc_tcp c))) (\<lambda>bs.
     res_map (res_map (\<lambda>(es, gpio).
         (\<lparr>spi_flashes = flashes, usart_probes = probes, displays = ds, lcds = ls, touchscreens = ts,
           usb_cdc_tcps = bs, ecu_ios = es\<rparr>, gpio)))
       (new_each (new_ecu a) 0 (unwrap_or_default (cfg_ecu_io c)) gpio)))))))"

section \<open>Lookup is correct\<close>

lemma position_Some: "position P xs = Some i \<longleftrightarrow> i < length xs \<and> P (xs ! i) \<and> (\<forall>j < i. \<not> P (xs ! j))"
proof (induction P xs arbitrary: i rule: position.induct)
  case (2 P x xs)
  then show ?case by (cases i) (auto simp: less_Suc_eq_0_disj)
qed simp

lemma position_None: "position P xs = None \<longleftrightarrow> (\<forall>x \<in> set xs. \<not> P x)"
  by (induction P xs rule: position.induct) auto

lemma or_else_Some: "or_else x y = Some v \<longleftrightarrow> x = Some v \<or> x = None \<and> y = Some v"
  by (cases x) (auto simp: or_else_def)

lemma or_else_None: "or_else x y = None \<longleftrightarrow> x = None \<and> y = None"
  by (cases x) (auto simp: or_else_def)

text \<open>The peripherals the serial devices are wired to, in the order of precedence.\<close>

definition serial_peripherals :: "ext_devices \<Rightarrow> string list" where
  "serial_peripherals d = map (\<lambda>f. sf_peripheral (sf_config f)) (spi_flashes d) @ map up_peripheral (usart_probes d)
     @ map (\<lambda>l. lcd_peripheral (fst l)) (lcds d) @ map (\<lambda>t. tc_peripheral (tc_config (fst t))) (touchscreens d)"

fun wired_to :: "serial_handle \<Rightarrow> ext_devices \<Rightarrow> string option" where
  "wired_to (FlashAt i) d = (if i < length (spi_flashes d) then Some (sf_peripheral (sf_config (spi_flashes d ! i))) else None)"
| "wired_to (ProbeAt i) d = (if i < length (usart_probes d) then Some (up_peripheral (usart_probes d ! i)) else None)"
| "wired_to (LcdAt i) d = (if i < length (lcds d) then Some (lcd_peripheral (fst (lcds d ! i))) else None)"
| "wired_to (TouchAt i) d =
     (if i < length (touchscreens d) then Some (tc_peripheral (tc_config (fst (touchscreens d ! i)))) else None)"

text \<open>Looking up the serial device of a peripheral finds a device that exists and is wired to it, whenever
  there is one of any kind, and nothing otherwise.\<close>
theorem serial_lookup:
  "(case find_serial_device peri_name d of
      Some h \<Rightarrow> wired_to h d = Some peri_name
    | None \<Rightarrow> peri_name \<notin> set (serial_peripherals d))"
proof (cases "find_serial_device peri_name d")
  case None
  then have "peri_name \<notin> set (serial_peripherals d)"
    by (auto simp: find_serial_device_def or_else_None position_None serial_peripherals_def)
  with None show ?thesis by simp
next
  case (Some h)
  then have "wired_to h d = Some peri_name"
    by (auto simp: find_serial_device_def or_else_Some position_Some)
  with Some show ?thesis by simp
qed

text \<open>Naming a device does not change what is wired where.\<close>

lemma map_update_same: "f y = f (xs ! i) \<Longrightarrow> map f (xs[i := y]) = map f xs"
  by (cases "i < length xs") (simp_all add: map_update list_update_same_conv list_update_beyond)

lemma serial_peripherals_connect [simp]:
  "serial_peripherals (snd (connect_serial peri_name h d)) = serial_peripherals d"
  by (cases h) (auto simp: connect_serial_def serial_peripherals_def Let_def map_update_same split: prod.splits)

end
