(* ===== verification/Chips.thy ===== *)
theory Chips
  imports ExtDevices Bus NvicFrames CoreRegs SimplePeripherals Timers Exti Gpio Adc Dma Flash OtgFs
begin

text \<open>
  The chip: every peripheral model behind the bus of \<open>src/peripherals/mod.rs\<close>. The trait objects are the
  datatype \<^verbatim>\<open>chip\<close>, the \<open>RefCell\<close>s are the positions of a list with a set of borrowed positions, and the
  shared \<open>Rc\<close> devices are handles into the registry. \<^verbatim>\<open>chip_ops\<close> is the bus's view of all of it; \<^verbatim>\<open>system_dma\<close>
  is what a DMA controller sees, which reaches the bus again while it is borrowed itself.
\<close>

section \<open>State\<close>

datatype chip =
    ChipNvic nvic_wrapper
  | ChipSysTick systick
  | ChipScb scb
  | ChipGpio gpio
  | ChipUsart usart "serial_handle option"
  | ChipFsmc "nat fsmc"
  | ChipRcc rcc
  | ChipPwr pwr
  | ChipOtg otg_fs "nat option"
  | ChipRtc rtc
  | ChipFlash flash
  | ChipTim11 tim11
  | ChipTim5 tim5
  | ChipTim6 tim6
  | ChipCan can
  | ChipI2c i2c
  | ChipDma dma
  | ChipSpi spi "serial_handle option"
  | ChipAdc adc "nat option"
  | ChipExti
  | ChipSyscfg
  | ChipDwt dwt
  | ChipStir

record ('u, 'f) hw =
  hw_nvic :: nvic
  hw_exti :: exti
  hw_uc :: 'u
  hw_files :: 'f
  hw_cells :: "chip list"
  hw_borrowed :: "nat set"
  hw_devices :: ext_devices
  hw_soft_spi :: "(sw_spi \<times> serial_handle option) list"
  hw_now :: u64
  hw_round :: nat

text \<open>What does not change while the firmware runs: the CPU and file system interfaces, the slots, the
  closures on the pins (their state is the hardware, or a panic), and what the sockets will answer.\<close>

record ('u, 'f) world =
  w_ops :: "'u uc_ops"
  w_fs :: "'f fs_ops"
  w_slots :: "nat slot list"
  w_ports :: "('u, 'f) hw res gpio_ports"
  w_answers :: "nat \<Rightarrow> poll_answers"

definition put_chip :: "nat \<Rightarrow> ('u, 'f) hw \<Rightarrow> chip \<Rightarrow> ('u, 'f) hw" where
  "put_chip i h c = h\<lparr>hw_cells := (hw_cells h)[i := c]\<rparr>"

section \<open>Handles\<close>

definition lend_serial :: "serial_handle option \<Rightarrow> ('u, 'f) hw \<Rightarrow> (serial_handle \<times> ext_devices) option" where
  "lend_serial x h = map_option (\<lambda>x. (x, hw_devices h)) x"

definition return_serial :: "(serial_handle \<times> ext_devices) option \<Rightarrow> ('u, 'f) hw \<Rightarrow> ('u, 'f) hw" where
  "return_serial x h = (case x of None \<Rightarrow> h | Some (_, d) \<Rightarrow> h\<lparr>hw_devices := d\<rparr>)"

definition lend_displays :: "nat fsmc \<Rightarrow> ('u, 'f) hw \<Rightarrow> (display \<times> u16 framebuffer) fsmc" where
  "lend_displays banks h = map (map_option (\<lambda>j. displays (hw_devices h) ! j)) banks"

definition return_displays ::
  "nat fsmc \<Rightarrow> (display \<times> u16 framebuffer) fsmc \<Rightarrow> ('u, 'f) hw \<Rightarrow> ('u, 'f) hw" where
  "return_displays banks ds h =
     fold (\<lambda>(j, d) h. case (j, d) of
         (Some j, Some d) \<Rightarrow> h\<lparr>hw_devices := displays_update (\<lambda>xs. xs[j := d]) (hw_devices h)\<rparr>
       | _ \<Rightarrow> h) (zip banks ds) h"

definition lend_bridge :: "nat option \<Rightarrow> ('u, 'f) hw \<Rightarrow> otg_fs \<Rightarrow> otg_fs" where
  "lend_bridge j h t = t\<lparr>bridge := map_option (\<lambda>j. usb_cdc_tcps (hw_devices h) ! j) j\<rparr>"

definition return_bridge :: "nat option \<Rightarrow> otg_fs \<Rightarrow> ('u, 'f) hw \<Rightarrow> ('u, 'f) hw" where
  "return_bridge j t h =
     (case (j, bridge t) of
        (Some j, Some b) \<Rightarrow> h\<lparr>hw_devices := usb_cdc_tcps_update (\<lambda>xs. xs[j := b]) (hw_devices h)\<rparr>
      | _ \<Rightarrow> h)"

definition lend_ecu :: "nat option \<Rightarrow> ('u, 'f) hw \<Rightarrow> (pin \<Rightarrow> int) option" where
  "lend_ecu j h = map_option (\<lambda>j p. adc_millivolts p (ecu_ios (hw_devices h) ! j)) j"

section \<open>Registers\<close>

definition chip_read :: "('u, 'f) world \<Rightarrow> nat \<Rightarrow> u32 \<Rightarrow> ('u, 'f) hw \<Rightarrow> (u32 \<times> ('u, 'f) hw) res" where
  "chip_read w i offset h =
     (case hw_cells h ! i of
        ChipNvic x \<Rightarrow> res_map (\<lambda>v. (v, h)) (nvic_wrapper_read x offset (hw_nvic h))
      | ChipSysTick x \<Rightarrow> let (v, x) = systick_read offset x in Inr (v, put_chip i h (ChipSysTick x))
      | ChipScb x \<Rightarrow> Inr (scb_read offset x (hw_nvic h), h)
      | ChipGpio x \<Rightarrow> res_bind (gpio_read (w_ports w) offset x (Inr h)) (\<lambda>(v, s). res_map (Pair v) s)
      | ChipUsart x d \<Rightarrow>
          res_map (\<lambda>(v, d). (v, return_serial d h)) (usart_read serial_bus offset (lend_serial d h))
      | ChipFsmc banks \<Rightarrow>
          res_map (\<lambda>(v, ds). (v, return_displays banks ds h)) (fsmc_read display_dev offset (lend_displays banks h))
      | ChipRcc x \<Rightarrow> Inr (rcc_read offset x, h)
      | ChipPwr x \<Rightarrow> Inr (pwr_read offset x, h)
      | ChipOtg t j \<Rightarrow>
          res_map (\<lambda>(v, t). (v, return_bridge j t (put_chip i h (ChipOtg t j))))
            (register_read offset (lend_bridge j h t))
      | ChipRtc x \<Rightarrow> Inr (rtc_read offset x, h)
      | ChipFlash x \<Rightarrow> Inr (flash_read offset x, h)
      | ChipTim11 x \<Rightarrow> Inr (tim11_read offset x, h)
      | ChipTim5 x \<Rightarrow> Inr (tim5_read (hw_now h) offset x, h)
      | ChipTim6 x \<Rightarrow> Inr (tim6_read (hw_now h) offset x, h)
      | ChipCan x \<Rightarrow> Inr (can_read offset x, h)
      | ChipI2c x \<Rightarrow> let (v, x) = i2c_read offset x in Inr (v, put_chip i h (ChipI2c x))
      | ChipDma x \<Rightarrow> res_map (\<lambda>(v, x). (v, put_chip i h (ChipDma x))) (dma_read offset x)
      | ChipSpi x d \<Rightarrow> let (v, x) = spi_read offset x in Inr (v, put_chip i h (ChipSpi x d))
      | ChipAdc x j \<Rightarrow> let (v, x) = adc_read (lend_ecu j h) offset x in Inr (v, put_chip i h (ChipAdc x j))
      | ChipExti \<Rightarrow> Inr (read_exti offset (hw_exti h), h)
      | ChipSyscfg \<Rightarrow> Inr (read_syscfg offset (hw_exti h), h)
      | ChipDwt x \<Rightarrow> Inr (dwt_read (hw_now h) offset x, h)
      | ChipStir \<Rightarrow> Inr (nvic_stir_read offset, h))"

definition chip_write :: "('u, 'f) world \<Rightarrow> nat \<Rightarrow> u32 \<Rightarrow> u32 \<Rightarrow> ('u, 'f) hw \<Rightarrow> ('u, 'f) hw res" where
  "chip_write w i offset value h =
     (case hw_cells h ! i of
        ChipNvic x \<Rightarrow> res_map (\<lambda>n. h\<lparr>hw_nvic := n\<rparr>) (nvic_wrapper_write x offset value (hw_nvic h))
      | ChipSysTick x \<Rightarrow>
          let (x, n) = systick_write offset value (x, hw_nvic h)
          in Inr (put_chip i (h\<lparr>hw_nvic := n\<rparr>) (ChipSysTick x))
      | ChipScb x \<Rightarrow>
          res_map (\<lambda>(x, n). put_chip i (h\<lparr>hw_nvic := n\<rparr>) (ChipScb x)) (scb_write offset value (x, hw_nvic h))
      | ChipGpio x \<Rightarrow>
          res_bind (gpio_write (w_ports w) offset value (x, Inr h))
            (\<lambda>(x, s). res_map (\<lambda>h. put_chip i h (ChipGpio x)) s)
      | ChipUsart x d \<Rightarrow>
          res_map (\<lambda>d. return_serial d h) (usart_write serial_bus offset value (lend_serial d h))
      | ChipFsmc banks \<Rightarrow>
          res_map (\<lambda>ds. return_displays banks ds h) (fsmc_write display_dev offset value (lend_displays banks h))
      | ChipRcc x \<Rightarrow> Inr (put_chip i h (ChipRcc (rcc_write offset value x)))
      | ChipPwr x \<Rightarrow> Inr (put_chip i h (ChipPwr (pwr_write offset value x)))
      | ChipOtg t j \<Rightarrow>
          let t = register_write offset value (lend_bridge j h t)
          in Inr (return_bridge j t (put_chip i h (ChipOtg t j)))
      | ChipRtc x \<Rightarrow> Inr (put_chip i h (ChipRtc (rtc_write offset value x)))
      | ChipFlash x \<Rightarrow>
          let (x, u, files) = flash_write (w_ops w) (w_fs w) offset value (x, hw_uc h, hw_files h)
          in Inr (put_chip i (h\<lparr>hw_uc := u, hw_files := files\<rparr>) (ChipFlash x))
      | ChipTim11 x \<Rightarrow> Inr (put_chip i h (ChipTim11 (tim11_write offset value x)))
      | ChipTim5 x \<Rightarrow> Inr (put_chip i h (ChipTim5 (tim5_write (hw_now h) offset value x)))
      | ChipTim6 x \<Rightarrow> Inr (put_chip i h (ChipTim6 (tim6_write (hw_now h) offset value x)))
      | ChipCan x \<Rightarrow> Inr (put_chip i h (ChipCan (can_write offset value x)))
      | ChipI2c x \<Rightarrow> Inr (put_chip i h (ChipI2c (i2c_write offset value x)))
      | ChipDma x \<Rightarrow> res_map (\<lambda>x. put_chip i h (ChipDma x)) (dma_write offset value x)
      | ChipSpi x d \<Rightarrow>
          res_map (\<lambda>(x, d'). put_chip i (return_serial d' h) (ChipSpi x d))
            (spi_write serial_bus offset value (x, lend_serial d h))
      | ChipAdc x j \<Rightarrow> Inr (put_chip i h (ChipAdc (adc_write offset value x) j))
      | ChipExti \<Rightarrow> Inr (h\<lparr>hw_exti := write_exti offset value (hw_exti h)\<rparr>)
      | ChipSyscfg \<Rightarrow> Inr (h\<lparr>hw_exti := write_syscfg offset value (hw_exti h)\<rparr>)
      | ChipDwt x \<Rightarrow> Inr (put_chip i h (ChipDwt (dwt_write (hw_now h) offset value x)))
      | ChipStir \<Rightarrow> res_map (\<lambda>n. h\<lparr>hw_nvic := n\<rparr>) (nvic_stir_write offset value (hw_nvic h)))"

section \<open>DMA\<close>

definition chip_read_dma :: "('u, 'f) world \<Rightarrow> nat \<Rightarrow> u32 \<Rightarrow> nat \<Rightarrow> ('u, 'f) hw \<Rightarrow> (u8 list \<times> ('u, 'f) hw) res" where
  "chip_read_dma w i offset sz h =
     (case hw_cells h ! i of
        ChipAdc x j \<Rightarrow> let (bs, x) = dma_read_bytes (lend_ecu j h) offset sz x in Inr (bs, put_chip i h (ChipAdc x j))
      | _ \<Rightarrow> read_dma (chip_read w i offset) sz h)"

definition borrow_chip :: "nat \<Rightarrow> (('u, 'f) hw \<Rightarrow> ('t \<times> ('u, 'f) hw) res) \<Rightarrow> ('u, 'f) hw \<Rightarrow> ('t \<times> ('u, 'f) hw) res" where
  "borrow_chip i f h =
     (if i \<in> hw_borrowed h then Inl BorrowConflict
      else res_map (\<lambda>(v, h). (v, h\<lparr>hw_borrowed := hw_borrowed h - {i}\<rparr>))
             (f (h\<lparr>hw_borrowed := insert i (hw_borrowed h)\<rparr>)))"

definition system_dma :: "('u, 'f) world \<Rightarrow> ('u, 'f) hw dma_system" where
  "system_dma w =
     \<lparr>sys_peri_present = (\<lambda>addr h. get_peripheral (w_slots w) addr \<noteq> None),
      sys_read_dma = (\<lambda>addr n h. case get_peripheral (w_slots w) addr of
         None \<Rightarrow> Inr ([], h)
       | Some p \<Rightarrow> borrow_chip (slot_peripheral p) (chip_read_dma w (slot_peripheral p) (addr - slot_start p) n) h),
      sys_write_dma = (\<lambda>addr bs h. case get_peripheral (w_slots w) addr of
         None \<Rightarrow> Inr h
       | Some p \<Rightarrow> res_map snd (borrow_chip (slot_peripheral p)
            (\<lambda>h. res_map (Pair ()) (write_dma (chip_write w (slot_peripheral p) (addr - slot_start p)) bs h)) h)),
      sys_mem_read = (\<lambda>addr n h. uc_mem_read (w_ops w) (ucast addr) n (hw_uc h)),
      sys_mem_write = (\<lambda>addr bs h. map_option (\<lambda>u. h\<lparr>hw_uc := u\<rparr>) (uc_mem_write (w_ops w) (ucast addr) bs (hw_uc h))),
      sys_pend = (\<lambda>irq h. res_map (\<lambda>n. h\<lparr>hw_nvic := n\<rparr>) (set_intr_pending irq (hw_nvic h)))\<rparr>"

section \<open>Polling\<close>

definition chip_poll :: "('u, 'f) world \<Rightarrow> nat \<Rightarrow> ('u, 'f) hw \<Rightarrow> ('u, 'f) hw res" where
  "chip_poll w i h =
     (case hw_cells h ! i of
        ChipTim5 x \<Rightarrow>
          res_map (\<lambda>(x, n). put_chip i (h\<lparr>hw_nvic := n\<rparr>) (ChipTim5 x)) (tim5_poll (hw_now h) (x, hw_nvic h))
      | ChipTim6 x \<Rightarrow>
          res_map (\<lambda>(x, n). put_chip i (h\<lparr>hw_nvic := n\<rparr>) (ChipTim6 x)) (tim6_poll (hw_now h) (x, hw_nvic h))
      | ChipOtg t j \<Rightarrow>
          res_map (\<lambda>(t, n). return_bridge j t (put_chip i (h\<lparr>hw_nvic := n\<rparr>) (ChipOtg t j)))
            (otg_poll (hw_now h) (lend_bridge j h t, hw_nvic h))
      | ChipDma x \<Rightarrow>
          res_map (\<lambda>(x, h). put_chip i h (ChipDma x)) (dma_poll (system_dma w) (hw_now h) (x, h))
      | _ \<Rightarrow> Inr h)"

section \<open>The bus over the chip\<close>

definition chip_ops :: "('u, 'f) world \<Rightarrow> (nat, ('u, 'f) hw) peripheral_ops" where
  "chip_ops w =
     \<lparr>per_read = chip_read w, per_write = chip_write w, per_poll = chip_poll w,
      cell_borrowed = (\<lambda>i h. i \<in> hw_borrowed h),
      set_borrowed = (\<lambda>i b h. h\<lparr>hw_borrowed := (if b then insert i (hw_borrowed h) else hw_borrowed h - {i})\<rparr>)\<rparr>"

definition system_read :: "('u, 'f) world \<Rightarrow> u32 \<Rightarrow> u8 \<Rightarrow> ('u, 'f) hw \<Rightarrow> (u32 \<times> ('u, 'f) hw) res" where
  "system_read w addr sz h = bus_read (chip_ops w) (w_slots w) addr sz h"

definition system_write :: "('u, 'f) world \<Rightarrow> u32 \<Rightarrow> u8 \<Rightarrow> u32 \<Rightarrow> ('u, 'f) hw \<Rightarrow> ('u, 'f) hw res" where
  "system_write w addr sz value h = bus_write (chip_ops w) (w_slots w) addr sz value h"

definition system_poll :: "('u, 'f) world \<Rightarrow> ('u, 'f) hw \<Rightarrow> ('u, 'f) hw res" where
  "system_poll w h = bus_poll (chip_ops w) (w_slots w) h"

text \<open>\<open>ExtDevices::poll\<close> on the system: each call sees the next answers of the sockets.\<close>

definition system_poll_devices :: "('u, 'f) world \<Rightarrow> ('u, 'f) hw \<Rightarrow> ('u, 'f) hw res" where
  "system_poll_devices w h =
     res_map (\<lambda>(d, x, n). h\<lparr>hw_devices := d, hw_exti := x, hw_nvic := n, hw_round := hw_round h + 1\<rparr>)
       (devices_poll (hw_now h) (w_answers w (hw_round h)) (hw_devices h, hw_exti h, hw_nvic h))"

end
