(* ===== verification/System.thy ===== *)
theory System
  imports Chips Emulator
begin

text \<open>
  Building the system and running it: the configuration of \<open>src/config.rs\<close>, the register list of
  \<open>src/util.rs\<close>, registration of the peripherals (\<open>src/peripherals/mod.rs\<close>), loading memory and
  \<open>prepare\<close> of \<open>src/system.rs\<close>. The last part is the host the emulation loop runs against.
\<close>

section \<open>Configuration\<close>

record region =
  rg_name :: string
  rg_start :: u32
  rg_size :: u32
  rg_load :: "string option"

record memory_overlay =
  pa_start :: u32
  pa_data :: "u8 list"

datatype cpu_model = CortexM4 | CortexM7

record cpu =
  cpu_model :: cpu_model
  cpu_svd :: string
  cpu_vector_table :: u32

record software_spi_config =
  ss_name :: string
  ss_cs :: "string option"
  ss_clk :: string
  ss_miso :: string
  ss_mosi :: string

record config =
  cf_cpu :: cpu
  cf_regions :: "region list"
  cf_internal_flash :: "internal_flash_config option"
  cf_patches :: "memory_overlay list option"
  cf_software_spi :: "software_spi_config list option"
  cf_devices :: "ext_devices_config option"
  cf_framebuffers :: "framebuffer_config list option"

section \<open>SVD registers\<close>

text \<open>A register or a cluster, single or an array; the library computes the addresses and the names of an
  array's elements.\<close>

datatype svd_register =
    SingleRegister u32 string
  | RegisterArray "u32 list" "string list"

datatype svd_cluster =
    SingleCluster "svd_register list"
  | ClusterArray "u32 list" "string list" "svd_register list"

record svd_peripheral =
  svd_name :: string
  svd_base :: u64
  svd_derived :: "string option"
  svd_registers :: "svd_register list"
  svd_clusters :: "svd_cluster list"

definition collect_register :: "(u32 \<times> string) option \<Rightarrow> u32 \<times> string \<Rightarrow> u32 \<times> string" where
  "collect_register cluster r =
     (case cluster of None \<Rightarrow> r | Some (offset, suffix) \<Rightarrow> (fst r + offset, snd r @ suffix))"

definition collect_registers :: "svd_register list \<Rightarrow> (u32 \<times> string) option \<Rightarrow> (u32 \<times> string) list" where
  "collect_registers regs cluster =
     concat (map (\<lambda>r. case r of
         SingleRegister offset name \<Rightarrow> [collect_register cluster (offset, name)]
       | RegisterArray offsets names \<Rightarrow> map (collect_register cluster) (zip offsets names)) regs)"

definition extract_svd_registers :: "svd_peripheral \<Rightarrow> (u32 \<times> string) list" where
  "extract_svd_registers p =
     collect_registers (svd_registers p) None
     @ concat (map (\<lambda>c. case c of
           SingleCluster regs \<Rightarrow> collect_registers regs None
         | ClusterArray offsets indexes regs \<Rightarrow>
             concat (map (\<lambda>oi. collect_registers regs (Some oi)) (zip offsets indexes)))
         (svd_clusters p))"

section \<open>The models a name selects\<close>

definition connect_found :: "string \<Rightarrow> ext_devices \<Rightarrow> string option \<times> serial_handle option \<times> ext_devices" where
  "connect_found name d =
     (case find_serial_device name d of
        None \<Rightarrow> (None, None, d)
      | Some x \<Rightarrow> let (device_name, d) = connect_serial name x d in (Some device_name, Some x, d))"

definition connect_display :: "string \<Rightarrow> nat option \<Rightarrow> ext_devices \<Rightarrow> ext_devices" where
  "connect_display name j d =
     (case j of None \<Rightarrow> d
      | Some j \<Rightarrow> displays_update (\<lambda>xs. xs[j := (snd (display_connect_peripheral name (fst (xs ! j))), snd (xs ! j))]) d)"

definition nvic_wrapper_new :: "string \<Rightarrow> nvic_wrapper option" where
  "nvic_wrapper_new name = (if name = ''NVIC'' then Some \<lparr>base_offset = 0\<rparr> else None)"

text \<open>The chain of constructors. Those that look a device up do so only for their own names.\<close>

definition new_usart :: "string \<Rightarrow> ext_devices \<Rightarrow> (chip \<times> ext_devices) option" where
  "new_usart name d =
     (let (device_name, x, d) = connect_found name d
      in map_option (\<lambda>u. (ChipUsart u x, d)) (usart_new name device_name))"

definition new_spi :: "string \<Rightarrow> ext_devices \<Rightarrow> (chip \<times> ext_devices) option" where
  "new_spi name d =
     (let (device_name, x, d) = connect_found name d
      in map_option (\<lambda>s. (ChipSpi s x, d)) (spi_new name device_name))"

text \<open>\<open>Bank::new\<close> connects the display of its bank, if there is one.\<close>

definition bank_new :: "nat \<Rightarrow> ext_devices \<Rightarrow> nat option \<times> ext_devices" where
  "bank_new bank d =
     (let name = fsmc_bank_name bank; ext_device = find_mem_device name d
      in (ext_device, connect_display name ext_device d))"

definition fsmc_new :: "string \<Rightarrow> ext_devices \<Rightarrow> (chip \<times> ext_devices) option" where
  "fsmc_new name d =
     (if starts_with name ''FSMC'' then
        let (b0, d) = bank_new 0 d; (b1, d) = bank_new 1 d; (b2, d) = bank_new 2 d; (b3, d) = bank_new 3 d
        in Some (ChipFsmc [b0, b1, b2, b3], d)
      else None)"

fun first_some :: "'a option list \<Rightarrow> 'a option" where
  "first_some [] = None"
| "first_some (x # xs) = or_else x (first_some xs)"

definition new_chip ::
  "internal_flash_config option \<Rightarrow> string \<Rightarrow> ext_devices \<Rightarrow> (chip \<times> ext_devices) option res" where
  "new_chip flash_config name d =
     (let plain = map_option (\<lambda>c. (c, d));
          core = or_else (map_option ChipNvic (nvic_wrapper_new name))
                  (or_else (map_option ChipSysTick (systick_new name)) (map_option ChipScb (scb_new name)))
      in if core \<noteq> None then Inr (plain core)
         else res_map (\<lambda>gpio. first_some
           [plain (map_option ChipGpio gpio),
            new_usart name d,
            fsmc_new name d,
            plain (map_option ChipRcc (rcc_new name)),
            plain (map_option ChipPwr (pwr_new name)),
            plain (map_option (\<lambda>t. ChipOtg t (find_usb_cdc_tcp name d)) (otg_new name None)),
            plain (map_option ChipRtc (rtc_new name)),
            plain (map_option ChipFlash (flash_new name flash_config)),
            plain (map_option ChipTim11 (tim11_new name)),
            plain (map_option ChipTim5 (tim5_new name)),
            plain (map_option ChipTim6 (tim6_new name)),
            plain (map_option ChipCan (can_new name)),
            plain (map_option ChipI2c (i2c_new name)),
            plain (map_option ChipDma (dma_new name)),
            new_spi name d,
            plain (map_option (\<lambda>a. ChipAdc a (first_ecu_io d)) (adc_new name)),
            plain (if exti_new name then Some ChipExti else None),
            plain (if syscfg_new name then Some ChipSyscfg else None)])
         (gpio_new name))"

section \<open>Registration\<close>

record registration =
  reg_debug :: "generic_peripheral slot list"
  reg_slots :: "nat slot list"
  reg_cells :: "chip list"
  reg_devices :: ext_devices

definition register_svd ::
  "internal_flash_config option \<Rightarrow> string \<Rightarrow> u32 \<Rightarrow> (u32 \<times> string) list \<Rightarrow> registration \<Rightarrow> registration res" where
  "register_svd flash_config name base regs r =
     res_map (\<lambda>made.
         let (debug, slots) =
               register_peripheral (\<lambda>_. map_option (\<lambda>_. length (reg_cells r)) made) name base regs
                 (reg_debug r, reg_slots r)
         in (case made of
               None \<Rightarrow> r\<lparr>reg_debug := debug, reg_slots := slots\<rparr>
             | Some (c, d) \<Rightarrow> r\<lparr>reg_debug := debug, reg_slots := slots, reg_cells := reg_cells r @ [c], reg_devices := d\<rparr>))
       (new_chip flash_config name (reg_devices r))"

definition push_slot :: "u32 \<Rightarrow> u32 \<Rightarrow> chip \<Rightarrow> registration \<Rightarrow> registration" where
  "push_slot start fin c r =
     r\<lparr>reg_slots := reg_slots r @ [\<lparr>slot_start = start, slot_end = fin, slot_peripheral = length (reg_cells r)\<rparr>],
       reg_cells := reg_cells r @ [c]\<rparr>"

definition push_model :: "u32 \<Rightarrow> u32 \<Rightarrow> chip option \<Rightarrow> registration \<Rightarrow> registration" where
  "push_model start fin c r = (case c of None \<Rightarrow> r | Some c \<Rightarrow> push_slot start fin c r)"

definition register_core_peripherals :: "registration \<Rightarrow> registration" where
  "register_core_peripherals r =
     push_slot 0xe000ef00 0xe000ef04 ChipStir
       (push_model 0xe000ed00 0xe000ed8f (map_option ChipScb (scb_new ''SCB''))
         (push_slot 0xe000e100 0xe000e4ef (ChipNvic \<lparr>base_offset = 0x100\<rparr>)
           (push_model 0xe000e010 0xe000e01c (map_option ChipSysTick (systick_new ''STK''))
             (push_model 0xe0001000 0xe0001008 (map_option ChipDwt (dwt_new ''DWT'')) r))))"

text \<open>\<open>SoftwareSpi::register\<close>: the closures reach the bus object at its position in the state.\<close>

definition on_soft_spi ::
  "nat \<Rightarrow> (sw_spi \<times> (serial_handle \<times> ext_devices) option \<Rightarrow> (sw_spi \<times> (serial_handle \<times> ext_devices) option) res) \<Rightarrow>
   ('u, 'f) hw res \<Rightarrow> ('u, 'f) hw res" where
  "on_soft_spi k f st =
     res_bind st (\<lambda>h. let (s, x) = hw_soft_spi h ! k in
       res_map (\<lambda>(s, d). return_serial d (h\<lparr>hw_soft_spi := (hw_soft_spi h)[k := (s, x)]\<rparr>))
         (f (s, lend_serial x h)))"

definition soft_spi_register ::
  "nat \<Rightarrow> software_spi_config \<Rightarrow> ext_devices \<Rightarrow> ('u, 'f) hw res gpio_ports \<Rightarrow>
   ((sw_spi \<times> serial_handle option) \<times> ext_devices \<times> ('u, 'f) hw res gpio_ports) res" where
  "soft_spi_register k c d ports =
     res_bind (case ss_cs c of None \<Rightarrow> Inr None | Some s \<Rightarrow> res_map Some (pin_from_str s)) (\<lambda>cs.
     res_bind (pin_from_str (ss_clk c)) (\<lambda>clk.
     res_bind (pin_from_str (ss_miso c)) (\<lambda>miso.
     res_bind (pin_from_str (ss_mosi c)) (\<lambda>mosi.
       let (_, x, d) = connect_found (ss_name c) d in
       res_bind (case cs of None \<Rightarrow> Inr ports
                 | Some cs \<Rightarrow> add_write_callback cs (\<lambda>v. on_soft_spi k (\<lambda>s. Inr (write_cs v s))) ports) (\<lambda>ports.
       res_bind (add_write_callback clk (\<lambda>v. on_soft_spi k (write_clk serial_bus v)) ports) (\<lambda>ports.
       res_bind (add_read_callback miso
           (\<lambda>st. (case st of Inl _ \<Rightarrow> False
                  | Inr h \<Rightarrow> read_miso (fst (hw_soft_spi h ! k), lend_serial (snd (hw_soft_spi h ! k)) h), st)) ports) (\<lambda>ports.
       res_map (\<lambda>ports. ((sw_spi_default, x), d, ports))
         (add_write_callback mosi (\<lambda>v. on_soft_spi k (\<lambda>s. Inr (write_mosi v s))) ports))))))))"

fun soft_spis_register ::
  "nat \<Rightarrow> software_spi_config list \<Rightarrow> ext_devices \<Rightarrow> ('u, 'f) hw res gpio_ports \<Rightarrow>
   ((sw_spi \<times> serial_handle option) list \<times> ext_devices \<times> ('u, 'f) hw res gpio_ports) res" where
  "soft_spis_register k [] d ports = Inr ([], d, ports)"
| "soft_spis_register k (c # cs) d ports =
     res_bind (soft_spi_register k c d ports) (\<lambda>(s, d, ports).
       res_map (\<lambda>(ss, d, ports). (s # ss, d, ports)) (soft_spis_register (Suc k) cs d ports))"

text \<open>A derived peripheral has the registers of the one it names, which must exist.\<close>

definition registers_of :: "svd_peripheral list \<Rightarrow> svd_peripheral \<Rightarrow> (u32 \<times> string) list res" where
  "registers_of all p =
     (case svd_derived p of
        None \<Rightarrow> Inr (extract_svd_registers p)
      | Some name \<Rightarrow>
          (case map_of (rev (map (\<lambda>q. (svd_name q, q)) all)) name of
             None \<Rightarrow> Inl ExplicitPanic
           | Some q \<Rightarrow> Inr (extract_svd_registers q)))"

definition from_svd ::
  "svd_peripheral list \<Rightarrow> software_spi_config list \<Rightarrow> internal_flash_config option \<Rightarrow> ext_devices \<Rightarrow>
   ('u, 'f) hw res gpio_ports \<Rightarrow>
   (registration \<times> (sw_spi \<times> serial_handle option) list \<times> ('u, 'f) hw res gpio_ports) res" where
  "from_svd svd_peripherals software_spi flash_config d ports =
     (let all = sort_key svd_base svd_peripherals in
      res_bind (fold_res (\<lambda>p r. res_bind (registers_of all p) (\<lambda>regs.
                    register_svd flash_config (svd_name p) (ucast (svd_base p)) regs r)) all
                  \<lparr>reg_debug = [], reg_slots = [], reg_cells = [], reg_devices = d\<rparr>) (\<lambda>r.
      let r = register_core_peripherals r in
      res_bind (soft_spis_register 0 software_spi (reg_devices r) ports) (\<lambda>(ss, d, ports).
      res_map (\<lambda>(debug, slots). (r\<lparr>reg_debug := debug, reg_slots := slots, reg_devices := d\<rparr>, ss, ports))
        (finish_registration (reg_debug r, reg_slots r)))))"

section \<open>Memory\<close>

definition round_up :: "nat \<Rightarrow> nat \<Rightarrow> nat" where
  "round_up n boundary = ((n + boundary - 1) div boundary) * boundary"

text \<open>Mapping is the CPU library's; \<open>files\<close> is \<open>util::read_file\<close>.\<close>

definition load_region ::
  "'u uc_ops \<Rightarrow> (u32 \<Rightarrow> nat \<Rightarrow> 'u \<Rightarrow> 'u option) \<Rightarrow> (string \<Rightarrow> u8 list fallible) \<Rightarrow>
   internal_flash_config option \<Rightarrow> region \<Rightarrow> 'u \<Rightarrow> 'u attempt" where
  "load_region ops mem_map files flash rg u =
     (let sz = round_up (unat (rg_size rg)) 4096 in
      case mem_map (rg_start rg) sz u of
        None \<Rightarrow> (u, Some (''Memory mapping of peripheral='' @ rg_name rg @ '' failed''))
      | Some u \<Rightarrow>
          and_then
            (case flash of None \<Rightarrow> (u, None)
             | Some c \<Rightarrow> initialize_memory ops c [(rg_start rg, rg_size rg)] u)
            (\<lambda>u. case rg_load rg of None \<Rightarrow> (u, None)
              | Some path \<Rightarrow>
                  (case files path of Inl e \<Rightarrow> (u, Some e)
                   | Inr content \<Rightarrow> mem_write_or ops (rg_start rg) (take (min (length content) sz) content) u)))"

definition load_memory_regions ::
  "'u uc_ops \<Rightarrow> 'f fs_ops \<Rightarrow> (u32 \<Rightarrow> nat \<Rightarrow> 'u \<Rightarrow> 'u option) \<Rightarrow> (string \<Rightarrow> u8 list fallible) \<Rightarrow> config \<Rightarrow>
   'f \<Rightarrow> 'u \<Rightarrow> 'u attempt" where
  "load_memory_regions ops fs mem_map files c backing u =
     and_then (attempt_all (load_region ops mem_map files (cf_internal_flash c)) (cf_regions c) u)
       (\<lambda>u. and_then (case cf_internal_flash c of None \<Rightarrow> (u, None) | Some f \<Rightarrow> load_persistent ops fs f backing u)
         (attempt_all (\<lambda>p. mem_write_or ops (pa_start p) (pa_data p)) (unwrap_or_default (cf_patches c))))"

section \<open>prepare\<close>

definition blank_framebuffer :: "u16 framebuffer" where
  "blank_framebuffer = \<lparr>fb_config = \<lparr>fbc_name = [], fbc_width = 0, fbc_height = 0, fbc_mode = [], fbc_image = None,
     fbc_sdl = None, fbc_downscale = None\<rparr>, fb_pixels = [], fb_touch = None\<rparr>"

definition blank_ecu :: ecu_io where
  "blank_ecu = \<lparr>ecu_config = \<lparr>ecu_listen = [], ecu_pins = [], ecu_adc_channels = [], ecu_wheel_config = None\<rparr>,
     ecu_listener = False, ecu_embedded = None, ecu_client = False, recv_buffer = [], outgoing = [],
     ecu_values = Map.empty, adc_channels = [], digital_input_pins = [], last_digital_levels = Map.empty,
     known_names = {}, ecu_trigger_wheel = None\<rparr>"

text \<open>The outside of \<open>prepare\<close>. After a panic the closures have no device to reach; what they answer then is
  never seen.\<close>

record ('u, 'f) outside =
  o_ops :: "'u uc_ops"
  o_fs :: "'f fs_ops"
  o_mem_map :: "u32 \<Rightarrow> nat \<Rightarrow> 'u \<Rightarrow> 'u option"
  o_mmio_map :: "u32 \<Rightarrow> nat \<Rightarrow> 'u \<Rightarrow> 'u option"
  o_file :: "string \<Rightarrow> u8 list fallible"
  o_bind :: "string \<Rightarrow> bool"
  o_cdc_link :: "cdc_state option"
  o_ecu_link :: "io_state option"
  o_sdl_bytes :: "framebuffer_config \<Rightarrow> nat"
  o_answers :: "nat \<Rightarrow> poll_answers"

definition hw_access :: "('u, 'f) outside \<Rightarrow> ('u, 'f) hw res device_access" where
  "hw_access out =
     \<lparr>acc_file = o_file out, acc_bind = o_bind out, acc_cdc_link = o_cdc_link out, acc_ecu_link = o_ecu_link out,
      acc_sdl_bytes = o_sdl_bytes out,
      acc_touch = (\<lambda>i s. case s of Inr h \<Rightarrow> snd (touchscreens (hw_devices h) ! i) | Inl _ \<Rightarrow> blank_framebuffer),
      acc_ecu = (\<lambda>i s. case s of Inr h \<Rightarrow> ecu_ios (hw_devices h) ! i | Inl _ \<Rightarrow> blank_ecu),
      acc_upd_ecu = (\<lambda>i f. res_map (\<lambda>h. h\<lparr>hw_devices := ecu_ios_update (\<lambda>es. es[i := f (es ! i)]) (hw_devices h)\<rparr>)),
      acc_clock = (\<lambda>s. case s of Inr h \<Rightarrow> hw_now h | Inl _ \<Rightarrow> 0)\<rparr>"

definition bind_peripherals :: "('u, 'f) outside \<Rightarrow> 'u \<Rightarrow> 'u attempt" where
  "bind_peripherals out =
     attempt_all (\<lambda>(start, fin) u. case o_mmio_map out start (unat (fin - start)) u of
         None \<Rightarrow> (u, Some ''Failed to mmio_map()'') | Some u \<Rightarrow> (u, None)) MEMORY_MAPS"

definition attempted :: "'u attempt \<Rightarrow> ('u \<Rightarrow> 'b fallible res) \<Rightarrow> 'b fallible res" where
  "attempted a f = (case a of (u, None) \<Rightarrow> f u | (u, Some e) \<Rightarrow> Inr (Inl e))"

definition prepare ::
  "('u, 'f) outside \<Rightarrow> config \<Rightarrow> svd_peripheral list \<Rightarrow> 'f \<Rightarrow> 'u \<Rightarrow>
   ((('u, 'f) world \<times> ('u, 'f) hw) fallible) res" where
  "prepare out c svd files u =
     attempted (load_memory_regions (o_ops out) (o_fs out) (o_mem_map out) (o_file out) c files u) (\<lambda>u.
     res_bind (from_config (unwrap_or_default (cf_framebuffers c))) (\<lambda>fbs.
     res_bind (into_ext_devices (hw_access out) fbs
         (case cf_devices c of Some d \<Rightarrow> d | None \<Rightarrow> ext_devices_config_default) gpio_ports_default) (\<lambda>made.
     try_in made (\<lambda>(d, ports).
     res_bind (from_svd svd (unwrap_or_default (cf_software_spi c)) (cf_internal_flash c) d ports) (\<lambda>(r, ss, ports).
     attempted (bind_peripherals out u) (\<lambda>u.
       Inr (Inr
        (\<lparr>w_ops = o_ops out, w_fs = o_fs out, w_slots = reg_slots r, w_ports = ports, w_answers = o_answers out\<rparr>,
         \<lparr>hw_nvic = nvic_default, hw_exti = exti_default, hw_uc = u, hw_files = files, hw_cells = reg_cells r,
          hw_borrowed = {}, hw_devices = reg_devices r, hw_soft_spi = ss, hw_now = 0, hw_round = 0\<rparr>))))))))"

section \<open>The host of the emulation loop\<close>

text \<open>The loop keeps the NVIC and the CPU apart; the rest of its state is the hardware.\<close>

definition enter :: "u64 \<Rightarrow> nvic \<times> 'u \<times> ('u, 'f) hw \<Rightarrow> ('u, 'f) hw" where
  "enter now st = (case st of (n, u, h) \<Rightarrow> h\<lparr>hw_nvic := n, hw_uc := u, hw_now := now\<rparr>)"

definition leave :: "('u, 'f) hw \<Rightarrow> nvic \<times> 'u \<times> ('u, 'f) hw" where
  "leave h = (hw_nvic h, hw_uc h, h)"

definition system_host :: "('u, 'f) world \<Rightarrow> (('u, 'f) hw \<Rightarrow> bool \<times> ('u, 'f) hw) \<Rightarrow> ('u, ('u, 'f) hw) host" where
  "system_host w pump =
     \<lparr>host_read = (\<lambda>now addr sz st. res_map (\<lambda>(v, h). (v, leave h)) (system_read w addr sz (enter now st))),
      host_write = (\<lambda>now addr sz v st. res_map leave (system_write w addr sz v (enter now st))),
      host_poll_devices = (\<lambda>now st. res_map leave (system_poll_devices w (enter now st))),
      host_poll_peripherals = (\<lambda>now st. res_map leave (system_poll w (enter now st))),
      host_pump_events = pump\<rparr>"

end
