(* ===== verification/SystemProps.thy ===== *)
theory SystemProps
  imports System Boards
begin

text \<open>
  What the assembled system does: how registration lays out the slots, that the core peripherals are
  reached through the bus, what memory holds when the run starts, the boot of the Proteus F7 profile,
  and the path of a signal edge from the harness into an interrupt handler.
\<close>

section \<open>Registration\<close>

text \<open>Every chip has exactly one slot, and the slots are numbered in the order of registration.\<close>

definition numbered :: "registration \<Rightarrow> bool" where
  "numbered r \<longleftrightarrow> map slot_peripheral (reg_slots r) = [0..<length (reg_cells r)]"

lemma numbered_push: "numbered r \<Longrightarrow> numbered (push_slot a b c r)"
  by (simp add: numbered_def push_slot_def)

lemma numbered_push_model: "numbered r \<Longrightarrow> numbered (push_model a b c r)"
  by (simp add: push_model_def numbered_push split: option.split)

lemma numbered_core: "numbered r \<Longrightarrow> numbered (register_core_peripherals r)"
  by (simp add: register_core_peripherals_def numbered_push numbered_push_model)

lemma numbered_svd: "numbered r \<Longrightarrow> register_svd fl name base regs r = Inr r' \<Longrightarrow> numbered r'"
  by (auto simp: register_svd_def register_peripheral_def numbered_def Let_def
      split: prod.splits option.splits)

definition core_slots :: "nat \<Rightarrow> nat slot list" where
  "core_slots k =
     [\<lparr>slot_start = 0xe0001000, slot_end = 0xe0001008, slot_peripheral = k\<rparr>,
      \<lparr>slot_start = 0xe000e010, slot_end = 0xe000e01c, slot_peripheral = k + 1\<rparr>,
      \<lparr>slot_start = 0xe000e100, slot_end = 0xe000e4ef, slot_peripheral = k + 2\<rparr>,
      \<lparr>slot_start = 0xe000ed00, slot_end = 0xe000ed8f, slot_peripheral = k + 3\<rparr>,
      \<lparr>slot_start = 0xe000ef00, slot_end = 0xe000ef04, slot_peripheral = k + 4\<rparr>]"

definition core_chips :: "chip list" where
  "core_chips = [ChipDwt dwt_default, ChipSysTick systick_default, ChipNvic \<lparr>base_offset = 0x100\<rparr>,
     ChipScb scb_default, ChipStir]"

lemma register_core_eq:
  "register_core_peripherals r =
     r\<lparr>reg_slots := reg_slots r @ core_slots (length (reg_cells r)), reg_cells := reg_cells r @ core_chips\<rparr>"
  by (simp add: register_core_peripherals_def push_slot_def push_model_def core_slots_def core_chips_def
      dwt_new_def systick_new_def scb_new_def)

lemma fold_res_inv: "(\<And>x s s'. P s \<Longrightarrow> f x s = Inr s' \<Longrightarrow> P s') \<Longrightarrow> P s \<Longrightarrow> fold_res f xs s = Inr s' \<Longrightarrow> P s'"
  by (induction xs arbitrary: s) auto

lemma from_svd_shape:
  assumes "from_svd svd ss fl d ports = Inr (r, soft, ports')"
  obtains cells slots where "reg_cells r = cells @ core_chips"
    "reg_slots r = sort_key slot_start (slots @ core_slots (length cells))"
    "map slot_peripheral slots = [0..<length cells]"
proof -
  obtain r0 where r0: "fold_res (\<lambda>p r. res_bind (registers_of (sort_key svd_base svd) p) (\<lambda>regs.
        register_svd fl (svd_name p) (ucast (svd_base p)) regs r)) (sort_key svd_base svd)
      \<lparr>reg_debug = [], reg_slots = [], reg_cells = [], reg_devices = d\<rparr> = Inr r0"
    and r: "reg_cells r = reg_cells (register_core_peripherals r0)"
      "reg_slots r = sort_key slot_start (reg_slots (register_core_peripherals r0))"
    using assms by (auto simp: from_svd_def finish_registration_def Let_def)
  have "numbered r0"
  proof (rule fold_res_inv [OF _ _ r0])
    show "numbered \<lparr>reg_debug = [], reg_slots = [], reg_cells = [], reg_devices = d\<rparr>"
      by (simp add: numbered_def)
  qed (auto elim: numbered_svd)
  with r show thesis
    by (intro that [of "reg_cells r0" "reg_slots r0"]) (simp_all add: register_core_eq numbered_def)
qed

lemma from_svd_numbers:
  assumes "from_svd svd ss fl d ports = Inr (r, soft, ports')"
  shows "distinct (map slot_peripheral (reg_slots r)) \<and> set (map slot_peripheral (reg_slots r)) = {0..<length (reg_cells r)}"
proof -
  obtain cells slots where s: "reg_cells r = cells @ core_chips"
    "reg_slots r = sort_key slot_start (slots @ core_slots (length cells))"
    "map slot_peripheral slots = [0..<length cells]" by (rule from_svd_shape [OF assms])
  let ?k = "length cells"
  have all: "map slot_peripheral (slots @ core_slots ?k) = [0..<length (reg_cells r)]"
  proof -
    have "[0..<?k + 5] = [0..<?k] @ [?k, ?k + 1, ?k + 2, ?k + 3, ?k + 4]"
      by (simp add: eval_nat_numeral)
    then show ?thesis by (simp add: s core_slots_def core_chips_def)
  qed
  have image: "set (map slot_peripheral (reg_slots r)) = set (map slot_peripheral (slots @ core_slots ?k))"
    unfolding s(2) by (simp add: image_Un)
  have "distinct (map slot_peripheral (slots @ core_slots ?k))" unfolding all by simp
  then have "distinct (map slot_peripheral (reg_slots r))"
    unfolding s(2) by (simp only: distinct_map set_sort distinct_sort)
  moreover have "set (map slot_peripheral (reg_slots r)) = {0..<length (reg_cells r)}"
    unfolding image all by simp
  ultimately show ?thesis by blast
qed

text \<open>C21: Registration, for every SVD file and device configuration it accepts: the slots are sorted by
  address, each chip has exactly one slot, and the five core peripherals that SVD files omit are
  registered at their architectural addresses.\<close>
theorem registration_complete:
  assumes "from_svd svd ss fl d ports = Inr (r, soft, ports')"
  shows "sorted (map slot_start (reg_slots r)) \<and> distinct (map slot_peripheral (reg_slots r))
     \<and> set (map slot_peripheral (reg_slots r)) = {0..<length (reg_cells r)}
     \<and> (\<exists>k. set (core_slots k) \<subseteq> set (reg_slots r) \<and> drop k (reg_cells r) = core_chips)"
proof -
  obtain cells slots where s: "reg_cells r = cells @ core_chips"
    "reg_slots r = sort_key slot_start (slots @ core_slots (length cells))" by (rule from_svd_shape [OF assms])
  then have "sorted (map slot_start (reg_slots r))" "set (core_slots (length cells)) \<subseteq> set (reg_slots r)"
    "drop (length cells) (reg_cells r) = core_chips" by simp_all
  with from_svd_numbers [OF assms] show ?thesis by blast
qed

section \<open>The core peripherals on the bus\<close>

lemma slot_lookup:
  assumes "slots_ok slots" "p \<in> set slots" "slot_start p \<le> a" "a \<le> slot_end p"
    and "\<And>q. q \<in> set slots \<Longrightarrow> slot_start q \<le> a \<Longrightarrow> slot_start q \<le> slot_start p"
  shows "get_peripheral slots a = Some p"
proof -
  from assms(2) obtain i where i: "i < length slots" "slots ! i = p" by (auto simp: in_set_conv_nth)
  have "a < slot_start (slots ! j)" if "j < length slots" "i < j" for j
    using slots_ok_less [OF assms(1) that(2,1)] assms(5) [of "slots ! j"] that i by (force simp: not_le [symmetric])
  with i assms show ?thesis by (subst lookup_index [where i = i]) auto
qed

lemma bus_write_word:
  assumes "bitbanding addr = None" "addr mod 4 = 0" "get_peripheral slots addr = Some p"
  shows "bus_write ops slots addr 4 v s = slot_write ops (slot_peripheral p) (addr - slot_start p) v s"
  using assms unat_mod_4 [of addr] by (subst bus_write.simps) (simp add: align_addr_4_eq)

text \<open>No slot of the SVD file starts inside the private peripheral block.\<close>

definition core_block_clear :: "nat \<Rightarrow> nat slot list \<Rightarrow> bool" where
  "core_block_clear k slots \<longleftrightarrow> slots_ok slots \<and>
     (\<forall>q \<in> set slots. q \<in> set (core_slots k) \<or> slot_start q < 0xe0001000 \<or> 0xe000ef04 < slot_start q)"

lemma core_slots_apart:
  "p \<in> set (core_slots k) \<Longrightarrow> q \<in> set (core_slots k) \<Longrightarrow>
   slot_start q \<le> slot_start p \<or> slot_end p < slot_start q"
  unfolding core_slots_def by (simp, elim disjE) simp_all

lemma core_slots_within:
  "p \<in> set (core_slots k) \<Longrightarrow> 0xe0001000 \<le> slot_start p \<and> slot_end p \<le> 0xe000ef04"
  unfolding core_slots_def by (simp, elim disjE) simp_all

lemma core_lookup:
  assumes "core_block_clear k slots" "set (core_slots k) \<subseteq> set slots"
    and p: "p \<in> set (core_slots k)" "slot_start p \<le> a" "a \<le> slot_end p"
  shows "get_peripheral slots a = Some p"
proof (rule slot_lookup)
  fix q assume q: "q \<in> set slots" "slot_start q \<le> a"
  with assms(1) consider "q \<in> set (core_slots k)" | "slot_start q < 0xe0001000" | "0xe000ef04 < slot_start q"
    by (auto simp: core_block_clear_def)
  then show "slot_start q \<le> slot_start p"
  proof cases
    case 1
    from q(2) p(3) have "\<not> slot_end p < slot_start q" by (meson not_le order_trans)
    with core_slots_apart [OF p(1) 1] show ?thesis by blast
  next
    case 2
    with core_slots_within [OF p(1)] show ?thesis by (meson order_less_imp_le order_less_le_trans)
  next
    case 3
    with q(2) p(3) core_slots_within [OF p(1)] show ?thesis by (meson leD order_trans)
  qed
qed (use assms in \<open>auto simp: core_block_clear_def\<close>)

text \<open>A system with its core peripherals in place: what \<^verbatim>\<open>prepare\<close> builds when no SVD peripheral overlaps
  the private peripheral block.\<close>

definition core_ready :: "('u, 'f) world \<Rightarrow> ('u, 'f) hw \<Rightarrow> bool" where
  "core_ready w h \<longleftrightarrow> hw_borrowed h = {} \<and>
     (let k = length (hw_cells h) - 5 in
      drop k (hw_cells h) = core_chips \<and> set (core_slots k) \<subseteq> set (w_slots w) \<and> core_block_clear k (w_slots w))"

lemma from_svd_core:
  assumes "from_svd svd ss fl d ports = Inr (r, soft, ports')"
  shows "set (core_slots (length (reg_cells r) - 5)) \<subseteq> set (reg_slots r) \<and>
    drop (length (reg_cells r) - 5) (reg_cells r) = core_chips"
proof -
  obtain cells slots where s: "reg_cells r = cells @ core_chips"
    "reg_slots r = sort_key slot_start (slots @ core_slots (length cells))" by (rule from_svd_shape [OF assms])
  then have "length (reg_cells r) - 5 = length cells" by (simp add: core_chips_def)
  then show ?thesis by (simp add: s)
qed

lemma attempted_done: "attempted a f = Inr (Inr y) \<longleftrightarrow> (\<exists>u. a = (u, None) \<and> f u = Inr (Inr y))"
  by (auto simp: attempted_def split: prod.splits option.splits)

lemma try_in_done: "try_in x f = Inr (Inr y) \<longleftrightarrow> (\<exists>v. x = Inr v \<and> f v = Inr (Inr y))"
  by (auto simp: try_in_def split: sum.splits)

lemma prepare_core_ready:
  fixes h :: "('u, 'f) hw"
  assumes "prepare out c svd files u = Inr (Inr (w, h))"
    and "core_block_clear (length (hw_cells h) - 5) (w_slots w)"
  shows "core_ready w h \<and> hw_nvic h = nvic_default"
proof -
  from assms(1) obtain d r ss and ports ports' :: "('u, 'f) hw res gpio_ports" where r:
    "from_svd svd (unwrap_or_default (cf_software_spi c)) (cf_internal_flash c) d ports = Inr (r, ss, ports')"
    and "w_slots w = reg_slots r" "hw_cells h = reg_cells r" "hw_borrowed h = {}" "hw_nvic h = nvic_default"
    unfolding prepare_def attempted_done try_in_done res_bind_eq_Inr split_paired_Ex prod.case
    by (elim exE conjE) (rule that, assumption, auto)
  with from_svd_core [OF r] assms(2) show ?thesis by (simp add: core_ready_def Let_def)
qed

lemma core_write:
  assumes "core_ready w h" "i < 5"
    and "slot_start (core_slots 0 ! i) \<le> a" "a \<le> slot_end (core_slots 0 ! i)" "a mod 4 = 0" "bitbanding a = None"
  shows "system_write w a 4 v h =
    slot_write (chip_ops w) (length (hw_cells h) - 5 + i) (a - slot_start (core_slots 0 ! i)) v h \<and>
    hw_cells h ! (length (hw_cells h) - 5 + i) = core_chips ! i"
proof -
  let ?k = "length (hw_cells h) - 5" let ?p = "core_slots ?k ! i"
  from assms(2) have "i = 0 \<or> i = 1 \<or> i = 2 \<or> i = 3 \<or> i = 4" by linarith
  then have p: "slot_start ?p = slot_start (core_slots 0 ! i)" "slot_end ?p = slot_end (core_slots 0 ! i)"
    "slot_peripheral ?p = ?k + i" by (auto simp: core_slots_def)
  from assms(1) have d: "drop ?k (hw_cells h) = core_chips" and s: "set (core_slots ?k) \<subseteq> set (w_slots w)"
    "core_block_clear ?k (w_slots w)" by (simp_all add: core_ready_def Let_def)
  have "?p \<in> set (core_slots ?k)" using assms(2) by (intro nth_mem) (simp add: core_slots_def)
  then have "get_peripheral (w_slots w) a = Some ?p"
    by (rule core_lookup [OF s(2,1)]) (use assms p in simp_all)
  from bus_write_word [OF assms(6,5) this] p
  have "system_write w a 4 v h = slot_write (chip_ops w) (?k + i) (a - slot_start (core_slots 0 ! i)) v h"
    by (simp add: system_write_def)
  moreover have "hw_cells h ! (?k + i) = core_chips ! i"
    using arg_cong [OF d, of "\<lambda>xs. xs ! i"] by (simp add: nth_drop)
  ultimately show ?thesis by simp
qed

lemma less_4_cases: "k < 4 \<Longrightarrow> k = 0 \<or> k = 1 \<or> k = 2 \<or> k = (3 :: nat)"
  by linarith

lemma nvic_bus_write:
  assumes "core_ready w h" "off \<le> 0x3ef" "off mod 4 = 0"
  shows "system_write w (0xe000e100 + off) 4 v h =
    res_map (\<lambda>n. h\<lparr>hw_nvic := n\<rparr>) (nvic_write (off + 0x100) v (hw_nvic h))"
proof -
  have free: "hw_borrowed h = {}" using assms(1) by (simp add: core_ready_def)
  have "unat off \<le> 0x3ef" using assms(2) by (simp add: word_le_nat_alt)
  then have u: "unat (0xe000e100 + off) = 0xe000e100 + unat off" by (simp add: unat_word_ariths)
  then have r: "0xe000e100 \<le> 0xe000e100 + off" "0xe000e100 + off \<le> 0xe000e4ef"
    using \<open>unat off \<le> 0x3ef\<close> by (simp_all add: word_le_nat_alt)
  have m: "(0xe000e100 + off) mod 4 = 0"
    using assms(3) by (simp add: word_unat_eq_iff unat_mod u mod_add_right_eq) presburger
  have b: "bitbanding (0xe000e100 + off) = None"
    using u by (simp add: bitbanding_def word_le_nat_alt word_less_nat_alt)
  note w = core_write [OF assms(1), of 2 "0xe000e100 + off" v, unfolded core_slots_def core_chips_def]
  show ?thesis
    using w r m b free
    by (cases "nvic_write (off + 0x100) v (hw_nvic h)")
      (simp_all add: slot_write_def chip_ops_def chip_write_def nvic_wrapper_write_def)
qed

lemma stir_bus_write:
  assumes "core_ready w h"
  shows "system_write w 0xe000ef00 4 v h =
    res_map (\<lambda>n. h\<lparr>hw_nvic := n\<rparr>) (set_intr_pending (uint (v AND 0x1ff)) (hw_nvic h))"
proof -
  have free: "hw_borrowed h = {}" using assms(1) by (simp add: core_ready_def)
  note w = core_write [OF assms(1), of 4 "0xe000ef00" v, unfolded core_slots_def core_chips_def]
  show ?thesis
    using w free
    by (cases "set_intr_pending (uint (v AND 0x1ff)) (hw_nvic h)")
      (simp_all add: slot_write_def chip_ops_def chip_write_def nvic_stir_write_def bitbanding_def)
qed

lemma stir_intid:
  assumes "irq < 512"
  shows "uint (of_nat irq AND 0x1ff :: u32) = int irq"
proof -
  have "(0x1ff :: u32) = mask 9" by (simp add: mask_eq_exp_minus_1)
  moreover have "take_bit 32 irq = irq" "take_bit 9 irq = irq"
    using assms by (simp_all add: take_bit_nat_eq_self_iff)
  ultimately show ?thesis
    by (simp only: take_bit_eq_mask [symmetric] unsigned_take_bit_eq unsigned_of_nat) (simp flip: of_nat_take_bit)
qed

lemma enter_only_ready:
  assumes "ready_irqs n' = {irq}" "\<not> systick_due now n'" "\<not> dispatch_blocked ops n' uc"
    and "n'\<lparr>pending := pending n' AND NOT (bit_mask (nat (irq + 16)))\<rparr> = n"
  shows "run_pending_interrupts ops now vt (n', uc) = run_interrupt ops vt irq (n, uc)"
proof -
  have "pending n' \<noteq> 0"
  proof
    assume "pending n' = 0"
    then have "pend_irqs n' = {}" by (simp add: pend_irqs_def)
    with assms(1) show False by (simp add: ready_irqs_def)
  qed
  moreover have "after_systick now n' = n'" using assms(2) by (simp add: after_systick_def)
  moreover have "get_and_clear_next_dispatchable n' = (Some irq, n)"
    using assms(4) unfolding get_and_clear_next_dispatchable_eq assms(1) by simp
  ultimately show ?thesis using assms(3)
    by (simp add: run_pending_interrupts_def maybe_set_systick_eq dispatch_blocked_def are_interrupts_disabled_def)
qed


text \<open>A machine with flat memory, no devices and an empty SVD file, for the witnesses.\<close>

definition flat_outside :: "(flat_cpu, string \<Rightarrow> u8 list option) outside" where
  "flat_outside = \<lparr>o_ops = flat_ops, o_fs = flat_fs, o_mem_map = (\<lambda>a n u. Some u), o_mmio_map = (\<lambda>a n u. Some u),
     o_file = (\<lambda>path. Inr [1, 2, 3, 4, 5, 6, 7, 8]), o_bind = (\<lambda>addr. True), o_cdc_link = None, o_ecu_link = None,
     o_sdl_bytes = (\<lambda>c. 0), o_answers = (\<lambda>round. (\<lambda>i. \<lparr>so_time = 0, so_accept = [], so_read = [], so_write = []\<rparr>,
       \<lambda>i. \<lparr>so_time = 0, so_accept = [], so_read = [], so_write = []\<rparr>))\<rparr>"

definition bare_config :: config where
  "bare_config = \<lparr>cf_cpu = \<lparr>cpu_model = CortexM7, cpu_svd = [], cpu_vector_table = 0x08000000\<rparr>, cf_regions = [],
     cf_internal_flash = None, cf_patches = None, cf_software_spi = None, cf_devices = None, cf_framebuffers = None\<rparr>"

definition flat_start :: flat_cpu where
  "flat_start = \<lparr>fc_regs = (\<lambda>r. 0), fc_mem = (\<lambda>a. 0), fc_stopped = False\<rparr>"

lemma from_svd_bare: "from_svd [] [] None d ports = Inr (\<lparr>reg_debug = [], reg_slots = core_slots 0,
    reg_cells = core_chips, reg_devices = d\<rparr>, [], ports)"
proof -
  have "sort_key slot_start (core_slots 0) = core_slots 0"
    by (rule sort_key_id_if_sorted) (simp add: core_slots_def)
  then show ?thesis
    by (simp add: from_svd_def register_core_eq finish_registration_def)
qed

definition bare_world :: "(flat_cpu, string \<Rightarrow> u8 list option) world" where
  "bare_world = \<lparr>w_ops = flat_ops, w_fs = flat_fs, w_slots = core_slots 0, w_ports = gpio_ports_default,
     w_answers = o_answers flat_outside\<rparr>"

definition bare_hw :: "(flat_cpu, string \<Rightarrow> u8 list option) hw" where
  "bare_hw = \<lparr>hw_nvic = nvic_default, hw_exti = exti_default, hw_uc = flat_start, hw_files = Map.empty,
     hw_cells = core_chips, hw_borrowed = {},
     hw_devices = \<lparr>spi_flashes = [], usart_probes = [], displays = [], lcds = [], touchscreens = [],
       usb_cdc_tcps = [], ecu_ios = []\<rparr>,
     hw_soft_spi = [], hw_now = 0, hw_round = 0\<rparr>"

lemma prepare_bare: "prepare flat_outside bare_config [] Map.empty flat_start = Inr (Inr (bare_world, bare_hw))"
proof -
  have "load_memory_regions (o_ops flat_outside) (o_fs flat_outside) (o_mem_map flat_outside) (o_file flat_outside)
      bare_config Map.empty flat_start = (flat_start, None)"
    by (simp add: load_memory_regions_def bare_config_def and_then_def unwrap_or_default_def)
  moreover have "bind_peripherals flat_outside flat_start = (flat_start, None)"
    by (simp add: bind_peripherals_def flat_outside_def MEMORY_MAPS_def and_then_def)
  moreover have "o_ops flat_outside = flat_ops" "o_fs flat_outside = flat_fs" by (simp_all add: flat_outside_def)
  ultimately show ?thesis
    by (simp add: prepare_def attempted_def try_in_def)
      (simp add: into_ext_devices_def bare_config_def unwrap_or_default_def try_in_def
        ext_devices_config_default_def new_flashes_def new_displays_def new_lcds_def from_svd_bare
        bare_world_def bare_hw_def)
qed

lemma bare_clear: "core_block_clear (length (hw_cells bare_hw) - 5) (w_slots bare_world)"
  unfolding core_block_clear_def slots_ok_def
  by (simp add: bare_world_def bare_hw_def core_slots_def core_chips_def)




section \<open>From a signal edge to an interrupt handler\<close>

lemma pending_added_cleared:
  assumes "irq \<notin> pend_irqs n" "- 16 \<le> irq"
  shows "(n\<lparr>pending := pending n OR bit_mask (nat (irq + 16))\<rparr>)\<lparr>pending :=
     (pending n OR bit_mask (nat (irq + 16))) AND NOT (bit_mask (nat (irq + 16)))\<rparr> = n"
proof -
  have "\<not> bit (pending n) (nat (irq + 16))" using assms by (simp add: pend_irqs_def)
  then have "(pending n OR bit_mask (nat (irq + 16))) AND NOT (bit_mask (nat (irq + 16))) = pending n"
    by (intro word_eqI_bits) (auto simp: word_bits)
  then show ?thesis by simp
qed

lemma poll_one_harness:
  assumes "ecu_ios (hw_devices h) = [e]"
    and "poll_ecu (hw_now h) (snd (w_answers w (hw_round h)) 0) (e, hw_exti h, hw_nvic h) = Inr (e', x, n)"
  shows "\<exists>bs. system_poll_devices w h = Inr (h\<lparr>hw_devices := (hw_devices h)\<lparr>usb_cdc_tcps := bs, ecu_ios := [e']\<rparr>,
    hw_exti := x, hw_nvic := n, hw_round := hw_round h + 1\<rparr>)"
  using assms by (simp add: system_poll_devices_def devices_poll_def Let_def) (rule exI, rule refl)

lemma deliver_one:
  "pin_number p < 16 \<Longrightarrow> exticr_port_for_line (pin_number p) x = pin_port p \<Longrightarrow> bit (exti_imr x) (pin_number p) \<Longrightarrow>
   (if level then bit (exti_rtsr x) (pin_number p) else bit (exti_ftsr x) (pin_number p)) \<Longrightarrow>
   deliver [(p, level)] (x, n) =
     (x\<lparr>exti_pr := exti_pr x OR bit_mask (pin_number p)\<rparr>,
      n\<lparr>pending := pending n OR bit_mask (nat (irq_for_line (pin_number p) + 16))\<rparr>)"
  by (auto simp: raise_line_if_configured_def Let_def split: if_splits)

text \<open>C5: From a harness signal to the handler. Suppose one input of the harness changed level, its line is
  routed to the pin's port, unmasked and enabled for that direction, the line's interrupt is enabled in
  the NVIC, and nothing else is ready or masks dispatch. Then one poll of the devices sets exactly the
  line's EXTI pending bit and remembers the level, and the next block boundary enters the line's
  interrupt, taking back the pending bit it set.\<close>
theorem edge_to_handler:
  assumes "ecu_ios (hw_devices h) = [e]"
    and "e' = advance_trigger_wheel (hw_now h) (snd (ecu_poll (so_accept s) (so_read s) (so_write s) e))"
    and "s = snd (w_answers w (hw_round h)) 0"
    and "distinct (map snd (digital_input_pins e'))" "changed_inputs e' = [(p, name)]"
    and "pin_number p < 16" "exticr_port_for_line (pin_number p) (hw_exti h) = pin_port p"
    and "bit (exti_imr (hw_exti h)) (pin_number p)"
    and "bit ((if digital_level name e' then exti_rtsr else exti_ftsr) (hw_exti h)) (pin_number p)"
    and "is_enabled (irq_for_line (pin_number p)) (hw_nvic h)" "ready_irqs (hw_nvic h) = {}"
    and "\<not> systick_due now (hw_nvic h)" "\<not> dispatch_blocked (w_ops w) (hw_nvic h) (hw_uc h)"
  shows "\<exists>h'. system_poll_devices w h = Inr h'
    \<and> hw_exti h' = (hw_exti h)\<lparr>exti_pr := exti_pr (hw_exti h) OR bit_mask (pin_number p)\<rparr>
    \<and> hw_cells h' = hw_cells h \<and> ecu_ios (hw_devices h') = [see_level name e']
    \<and> run_pending_interrupts (w_ops w) now vt (hw_nvic h', hw_uc h') =
        run_interrupt (w_ops w) vt (irq_for_line (pin_number p)) (hw_nvic h, hw_uc h)"
proof -
  let ?irq = "irq_for_line (pin_number p)" let ?n = "hw_nvic h" let ?x = "hw_exti h"
  let ?n' = "?n\<lparr>pending := pending ?n OR bit_mask (nat (?irq + 16))\<rparr>"
  let ?x' = "?x\<lparr>exti_pr := exti_pr ?x OR bit_mask (pin_number p)\<rparr>"
  have irq: "- 16 \<le> ?irq" "?irq \<le> 111" by (simp_all add: irq_for_line_def)
  have en: "?irq \<in> enabled_irqs ?n" using assms(10) by (simp add: is_enabled_iff)
  with assms(11) have fresh: "?irq \<notin> pend_irqs ?n" by (auto simp: ready_irqs_def)
  have "deliver [(p, digital_level name e')] (?x, ?n) = (?x', ?n')"
    by (rule deliver_one) (use assms in \<open>auto split: if_splits\<close>)
  then have "poll_ecu (hw_now h) s (e, ?x, ?n) = Inr (see_level name e', ?x', ?n')"
    using check_digital_edges_eq [OF assms(4), of ?x ?n] by (simp add: poll_ecu_def assms(5) assms(2) [symmetric])
  then obtain bs where poll: "system_poll_devices w h =
      Inr (h\<lparr>hw_devices := (hw_devices h)\<lparr>usb_cdc_tcps := bs, ecu_ios := [see_level name e']\<rparr>,
        hw_exti := ?x', hw_nvic := ?n', hw_round := hw_round h + 1\<rparr>)"
    using poll_one_harness [OF assms(1)] unfolding assms(3) by blast
  have ready: "ready_irqs ?n' = {?irq}"
  proof -
    have "ready_irqs ?n' = ready_irqs ?n \<union> {?irq}"
      using en unfolding ready_irqs_def pend_irqs_set [OF irq] enabled_irqs_update_pending by auto
    with assms(11) show ?thesis by simp
  qed
  have "\<not> systick_due now ?n'" "\<not> dispatch_blocked (w_ops w) ?n' (hw_uc h)"
    using assms(12,13) by (auto simp: systick_due_def dispatch_blocked_def split: option.splits)
  then have "run_pending_interrupts (w_ops w) now vt (?n', hw_uc h) = run_interrupt (w_ops w) vt ?irq (?n, hw_uc h)"
    by (rule enter_only_ready [OF ready]) (use pending_added_cleared [OF fresh irq(1)] in simp)
  with poll show ?thesis by simp
qed

definition edge_hw :: "(flat_cpu, string \<Rightarrow> u8 list option) hw" where
  "edge_hw = bare_hw\<lparr>hw_devices := (hw_devices bare_hw)\<lparr>ecu_ios := [set_value ''din1'' 1 (demo_ecu\<lparr>ecu_client := False\<rparr>)]\<rparr>,
     hw_exti := exti_default\<lparr>exticr2 := 0x200, exti_imr := 0x40, exti_rtsr := 0x40\<rparr>,
     hw_nvic := nvic_default\<lparr>enabled := bit_mask 23\<rparr>\<rparr>"

theorem edge_to_handler_witness:
  "\<exists>h'. system_poll_devices bare_world edge_hw = Inr h' \<and>
     run_pending_interrupts flat_ops 0 0x08000000 (hw_nvic h', hw_uc h') =
       run_interrupt flat_ops 0x08000000 23 (hw_nvic edge_hw, flat_start)"
proof -
  let ?e = "set_value ''din1'' 1 (demo_ecu\<lparr>ecu_client := False\<rparr>)"
  let ?s = "\<lparr>so_time = 0, so_accept = [], so_read = [], so_write = []\<rparr>"
  have e: "advance_trigger_wheel 0 (snd (ecu_poll [] [] [] ?e)) = ?e"
    by (simp add: advance_trigger_wheel_def ecu_poll_def ecu_receive_from_client_def ecu_send_to_client_def
        set_value_def demo_ecu_def process_none)
  have c: "changed_inputs ?e = [(\<lparr>pin_port = 2, pin_number = 6\<rparr>, ''din1'')]" "digital_level ''din1'' ?e"
    by (simp_all add: demo_ecu_def set_value_def changed_inputs_def digital_level_def last_level_def ecu_value_def)
  have r: "ready_irqs (nvic_default\<lparr>enabled := bit_mask 23\<rparr>) = {}"
    by (simp add: ready_irqs_def pend_irqs_def nvic_default_def)
  have h: "ecu_ios (hw_devices edge_hw) = [?e]" "hw_now edge_hw = 0" "hw_round edge_hw = 0" "hw_uc edge_hw = flat_start"
    "hw_exti edge_hw = exti_default\<lparr>exticr2 := 0x200, exti_imr := 0x40, exti_rtsr := 0x40\<rparr>"
    "hw_nvic edge_hw = nvic_default\<lparr>enabled := bit_mask 23\<rparr>"
    by (simp_all add: edge_hw_def bare_hw_def)
  have w: "snd (w_answers bare_world 0) 0 = ?s" "w_ops bare_world = flat_ops"
    by (simp_all add: bare_world_def flat_outside_def)
  have irq: "irq_for_line 6 = 23" by (simp add: irq_for_line_def)
  have "\<exists>h'. system_poll_devices bare_world edge_hw = Inr h'
    \<and> hw_exti h' = (hw_exti edge_hw)\<lparr>exti_pr := exti_pr (hw_exti edge_hw) OR bit_mask (pin_number \<lparr>pin_port = 2, pin_number = 6\<rparr>)\<rparr>
    \<and> hw_cells h' = hw_cells edge_hw \<and> ecu_ios (hw_devices h') = [see_level ''din1'' ?e]
    \<and> run_pending_interrupts (w_ops bare_world) 0 0x08000000 (hw_nvic h', hw_uc h') =
        run_interrupt (w_ops bare_world) 0x08000000 (irq_for_line (pin_number \<lparr>pin_port = 2, pin_number = 6\<rparr>))
          (hw_nvic edge_hw, hw_uc edge_hw)"
  proof (rule edge_to_handler [OF h(1) _ refl])
    show "distinct (map snd (digital_input_pins ?e))" by (simp add: demo_ecu_def set_value_def)
    show "is_enabled (irq_for_line (pin_number \<lparr>pin_port = 2, pin_number = 6\<rparr>)) (hw_nvic edge_hw)"
      unfolding h is_enabled_iff by (simp add: irq enabled_irqs_def)
  qed (unfold h w, use e c r in \<open>simp_all add: exticr_port_for_line_def exti_default_def systick_due_def nvic_default_def
      dispatch_blocked_def flat_ops_def flat_start_def\<close>)
  then show ?thesis unfolding w h by (auto simp: irq)
qed

theorem registration_complete_witness: "sorted (map slot_start (core_slots 0))"
  using registration_complete [OF from_svd_bare] by simp

end
