(* ===== verification/Boot.thy ===== *)
theory Boot
  imports System Boards
begin

text \<open>
  Memory at the start of a run: what \<open>load_memory_regions\<close> of \<open>src/system.rs\<close> leaves in the mapped
  regions, and the boot of the Proteus F7 profile, from the launcher's catalogue through its YAML to the
  vector table the run starts from (\<open>src/emulator.rs\<close>).
\<close>

section \<open>Mapped memory\<close>

text \<open>What the CPU library documents of its memory: mapping a fresh page-aligned range succeeds and keeps the
  bytes already mapped; a write to mapped addresses sets exactly its bytes; a read returns them.\<close>

definition mapping_laws ::
  "'u uc_ops \<Rightarrow> (u32 \<Rightarrow> nat \<Rightarrow> 'u \<Rightarrow> 'u option) \<Rightarrow> ('u \<Rightarrow> nat set) \<Rightarrow> bool" where
  "mapping_laws ops mem_map mapped \<longleftrightarrow>
     (\<forall>a n u u'. mem_map a n u = Some u' \<longrightarrow> mapped u' = mapped u \<union> span (ucast a) n \<and>
        (\<forall>k \<in> mapped u. byte_at ops u' k = byte_at ops u k)) \<and>
     (\<forall>a n u. unat a mod 4096 = 0 \<longrightarrow> n mod 4096 = 0 \<longrightarrow> 0 < n \<longrightarrow> unat a + n \<le> 2 ^ 32 \<longrightarrow>
        span (ucast a) n \<inter> mapped u = {} \<longrightarrow> mem_map a n u \<noteq> None) \<and>
     (\<forall>a bs u u'. uc_mem_write ops a bs u = Some u' \<longrightarrow> span a (length bs) \<subseteq> mapped u \<and> mapped u' = mapped u \<and>
        (\<forall>i < length bs. byte_at ops u' (unat a + i) = bs ! i) \<and>
        (\<forall>k \<in> mapped u - span a (length bs). byte_at ops u' k = byte_at ops u k)) \<and>
     (\<forall>a bs u. span a (length bs) \<subseteq> mapped u \<longrightarrow> uc_mem_write ops a bs u \<noteq> None) \<and>
     (\<forall>a n u. span a n \<subseteq> mapped u \<longrightarrow>
        uc_mem_read ops a n u = Some (map (byte_at ops u) [unat a ..< unat a + n]))"

lemma mapping_map:
  assumes "mapping_laws ops mem_map mapped" "mem_map a n u = Some u'"
  shows "mapped u' = mapped u \<union> span (ucast a) n \<and> (\<forall>k \<in> mapped u. byte_at ops u' k = byte_at ops u k)"
  using assms(1) [unfolded mapping_laws_def, THEN conjunct1, rule_format, OF assms(2)] by blast

lemma mapping_fresh:
  assumes "mapping_laws ops mem_map mapped" "unat a mod 4096 = 0" "n mod 4096 = 0" "0 < n"
    "unat a + n \<le> 2 ^ 32" "span (ucast a) n \<inter> mapped u = {}"
  obtains u' where "mem_map a n u = Some u'"
  using assms(1) [unfolded mapping_laws_def, THEN conjunct2, THEN conjunct1, rule_format, OF assms(2-6)] by blast

lemma mapping_write:
  assumes "mapping_laws ops mem_map mapped" "uc_mem_write ops a bs u = Some u'"
  shows "span a (length bs) \<subseteq> mapped u" "mapped u' = mapped u"
    "\<And>i. i < length bs \<Longrightarrow> byte_at ops u' (unat a + i) = bs ! i"
    "\<And>k. k \<in> mapped u \<Longrightarrow> k \<notin> span a (length bs) \<Longrightarrow> byte_at ops u' k = byte_at ops u k"
  using assms(1) [unfolded mapping_laws_def, THEN conjunct2, THEN conjunct2, THEN conjunct1, rule_format, OF assms(2)]
  by blast+

lemma mapping_writable:
  assumes "mapping_laws ops mem_map mapped" "span a (length bs) \<subseteq> mapped u"
  obtains u' where "uc_mem_write ops a bs u = Some u'"
  using assms(1) [unfolded mapping_laws_def, THEN conjunct2, THEN conjunct2, THEN conjunct2, THEN conjunct1,
      rule_format, OF assms(2)] by blast

lemma mapping_read:
  assumes "mapping_laws ops mem_map mapped" "span a n \<subseteq> mapped u"
  shows "uc_mem_read ops a n u = Some (map (byte_at ops u) [unat a ..< unat a + n])"
  using assms(1) [unfolded mapping_laws_def, THEN conjunct2, THEN conjunct2, THEN conjunct2, THEN conjunct2,
      rule_format, OF assms(2)] .

lemma and_then_done: "and_then x k = (u', None) \<longleftrightarrow> (\<exists>u1. x = (u1, None) \<and> k u1 = (u', None))"
  by (cases x) (auto simp: and_then_def split: option.splits)

section \<open>The image\<close>

text \<open>The specification: the loads and patches in order, each a block of bytes; a byte is that of the last
  block that covers its address.\<close>

definition region_writes :: "(string \<Rightarrow> u8 list fallible) \<Rightarrow> region \<Rightarrow> (u32 \<times> u8 list) list" where
  "region_writes files rg =
     (case rg_load rg of None \<Rightarrow> []
      | Some path \<Rightarrow> (case files path of Inl e \<Rightarrow> []
          | Inr content \<Rightarrow> [(rg_start rg, take (round_up (unat (rg_size rg)) 4096) content)]))"

definition load_writes :: "(string \<Rightarrow> u8 list fallible) \<Rightarrow> config \<Rightarrow> (u32 \<times> u8 list) list" where
  "load_writes files c = concat (map (region_writes files) (cf_regions c))
     @ map (\<lambda>p. (pa_start p, pa_data p)) (unwrap_or_default (cf_patches c))"

fun image_byte :: "(u32 \<times> u8 list) list \<Rightarrow> nat \<Rightarrow> u8 option" where
  "image_byte [] k = None"
| "image_byte ((a, bs) # ws) k =
     (case image_byte ws k of Some b \<Rightarrow> Some b
      | None \<Rightarrow> if unat a \<le> k \<and> k < unat a + length bs then Some (bs ! (k - unat a)) else None)"

definition holds_image ::
  "'u uc_ops \<Rightarrow> ('u \<Rightarrow> nat set) \<Rightarrow> (u32 \<times> u8 list) list \<Rightarrow> 'u \<Rightarrow> bool" where
  "holds_image ops mapped ws u \<longleftrightarrow>
     (\<forall>k b. image_byte ws k = Some b \<longrightarrow> k \<in> mapped u \<and> byte_at ops u k = b)"

lemma image_byte_snoc:
  "image_byte (ws @ [(a, bs)]) k =
     (if unat a \<le> k \<and> k < unat a + length bs then Some (bs ! (k - unat a)) else image_byte ws k)"
  by (induction ws k rule: image_byte.induct) auto

lemma holds_map:
  assumes "mapping_laws ops mem_map mapped" "mem_map a n u = Some u'" "holds_image ops mapped ws u"
  shows "holds_image ops mapped ws u'"
  using mapping_map [OF assms(1,2)] assms(3) by (auto simp: holds_image_def)

lemma holds_write:
  assumes "mapping_laws ops mem_map mapped" "mem_write_or ops a bs u = (u', None)" "holds_image ops mapped ws u"
  shows "holds_image ops mapped (ws @ [(a, bs)]) u'"
proof -
  from assms(2) have w: "uc_mem_write ops (ucast a) bs u = Some u'"
    by (auto simp: mem_write_or_def split: option.splits)
  note m = mapping_write [OF assms(1) w]
  have "byte_at ops u' k = bs ! (k - unat a)" if "unat a \<le> k" "k < unat a + length bs" for k
    using m(3) [of "k - unat a"] that by simp
  with m(1,2,4) assms(3) show ?thesis
    unfolding holds_image_def image_byte_snoc by (auto simp: span_def subset_iff)
qed

lemma holds_region:
  assumes "mapping_laws ops mem_map mapped" "load_region ops mem_map files None rg u = (u', None)"
    "holds_image ops mapped ws u"
  shows "holds_image ops mapped (ws @ region_writes files rg) u'"
proof -
  from assms(2) obtain u1 where m: "mem_map (rg_start rg) (round_up (unat (rg_size rg)) 4096) u = Some u1"
    by (auto simp: load_region_def Let_def split: option.splits)
  note h = holds_map [OF assms(1) m assms(3)]
  show ?thesis
  proof (cases "rg_load rg")
    case None
    with assms(2) m h show ?thesis by (simp add: load_region_def Let_def and_then_def region_writes_def)
  next
    case (Some path)
    with assms(2) m obtain content where f: "files path = Inr content"
      "mem_write_or ops (rg_start rg)
         (take (min (length content) (round_up (unat (rg_size rg)) 4096)) content) u1 = (u', None)"
      by (auto simp: load_region_def Let_def and_then_def split: sum.splits)
    have "take (min (length content) n) content = take n content" for n by (simp add: min_def)
    with holds_write [OF assms(1) f(2) h] Some f(1) show ?thesis by (simp add: region_writes_def)
  qed
qed

lemma holds_regions:
  "mapping_laws ops mem_map mapped \<Longrightarrow> attempt_all (load_region ops mem_map files None) rs u = (u', None) \<Longrightarrow>
   holds_image ops mapped ws u \<Longrightarrow> holds_image ops mapped (ws @ concat (map (region_writes files) rs)) u'"
proof (induction rs arbitrary: u ws)
  case (Cons r rs)
  from Cons.prems(2) obtain u1 where r: "load_region ops mem_map files None r u = (u1, None)"
    and rs: "attempt_all (load_region ops mem_map files None) rs u1 = (u', None)"
    by (auto simp: and_then_done)
  from Cons.IH [OF Cons.prems(1) rs holds_region [OF Cons.prems(1) r Cons.prems(3)]] show ?case by simp
qed simp

lemma holds_patches:
  "mapping_laws ops mem_map mapped \<Longrightarrow>
   attempt_all (\<lambda>p. mem_write_or ops (pa_start p) (pa_data p)) ps u = (u', None) \<Longrightarrow>
   holds_image ops mapped ws u \<Longrightarrow> holds_image ops mapped (ws @ map (\<lambda>p. (pa_start p, pa_data p)) ps) u'"
proof (induction ps arbitrary: u ws)
  case (Cons p ps)
  from Cons.prems(2) obtain u1 where p: "mem_write_or ops (pa_start p) (pa_data p) u = (u1, None)"
    and ps: "attempt_all (\<lambda>p. mem_write_or ops (pa_start p) (pa_data p)) ps u1 = (u', None)"
    by (auto simp: and_then_done)
  from Cons.IH [OF Cons.prems(1) ps holds_write [OF Cons.prems(1) p Cons.prems(3)]] show ?case by simp
qed simp

lemma load_image:
  assumes "mapping_laws ops mem_map mapped" "cf_internal_flash c = None"
    and "load_memory_regions ops fs mem_map files c backing u = (u', None)"
  shows "holds_image ops mapped (load_writes files c) u'"
proof -
  from assms(2,3) obtain u1 where r: "attempt_all (load_region ops mem_map files None) (cf_regions c) u = (u1, None)"
    and p: "attempt_all (\<lambda>p. mem_write_or ops (pa_start p) (pa_data p)) (unwrap_or_default (cf_patches c)) u1 = (u', None)"
    by (auto simp: load_memory_regions_def and_then_done)
  have "holds_image ops mapped [] u" by (simp add: holds_image_def)
  from holds_patches [OF assms(1) p holds_regions [OF assms(1) r this]] show ?thesis
    by (simp add: load_writes_def)
qed


section \<open>Loading succeeds\<close>

definition cf_interval :: "region \<Rightarrow> nat \<times> nat" where
  "cf_interval r = (unat (rg_start r), unat (rg_start r) + unat (rg_size r))"

definition region_ok :: "(string \<Rightarrow> u8 list fallible) \<Rightarrow> region \<Rightarrow> bool" where
  "region_ok files r \<longleftrightarrow> unat (rg_start r) mod 4096 = 0 \<and> unat (rg_size r) mod 4096 = 0 \<and> 0 < unat (rg_size r) \<and>
     unat (rg_start r) + unat (rg_size r) \<le> 2 ^ 32 \<and>
     (case rg_load r of None \<Rightarrow> True | Some path \<Rightarrow> \<not> isl (files path))"

lemma round_up_aligned: "n mod 4096 = 0 \<Longrightarrow> round_up n 4096 = n"
  by (auto simp: round_up_def elim!: dvdE simp flip: dvd_eq_mod_eq_0)

definition region_span :: "region \<Rightarrow> nat set" where
  "region_span r = {unat (rg_start r) ..< unat (rg_start r) + unat (rg_size r)}"

lemma load_region_ok:
  assumes "mapping_laws ops mem_map mapped" "region_ok files r" "region_span r \<inter> mapped u = {}"
  obtains u' where "load_region ops mem_map files None r u = (u', None)" "mapped u' = mapped u \<union> region_span r"
proof -
  have n: "round_up (unat (rg_size r)) 4096 = unat (rg_size r)"
    using assms(2) by (intro round_up_aligned) (simp add: region_ok_def)
  have s: "span (ucast (rg_start r)) (unat (rg_size r)) = region_span r" by (simp add: span_def region_span_def)
  obtain u1 where m: "mem_map (rg_start r) (unat (rg_size r)) u = Some u1"
    using mapping_fresh [OF assms(1), of "rg_start r" "unat (rg_size r)" u] assms(2,3) s
    by (auto simp: region_ok_def)
  from mapping_map [OF assms(1) m] s have u1: "mapped u1 = mapped u \<union> region_span r" by simp
  show thesis
  proof (cases "rg_load r")
    case None
    with m n u1 show thesis by (intro that [of u1]) (simp_all add: load_region_def and_then_def)
  next
    case (Some path)
    with assms(2) obtain content where f: "files path = Inr content"
      by (auto simp: region_ok_def isl_def split: sum.splits) (metis isl_def obj_sumE)
    let ?bs = "take (min (length content) (unat (rg_size r))) content"
    have "span (ucast (rg_start r)) (length ?bs) \<subseteq> mapped u1"
      unfolding u1 by (auto simp: span_def region_span_def)
    then obtain u2 where w: "uc_mem_write ops (ucast (rg_start r)) ?bs u1 = Some u2"
      by (rule mapping_writable [OF assms(1)])
    with Some f m n u1 mapping_write(2) [OF assms(1) w] show thesis
      by (intro that [of u2]) (simp_all add: load_region_def and_then_def mem_write_or_def)
  qed
qed

lemma load_regions_ok:
  "mapping_laws ops mem_map mapped \<Longrightarrow> list_all (region_ok files) rs \<Longrightarrow> disjoint_intervals (map cf_interval rs) \<Longrightarrow>
   (\<And>r. r \<in> set rs \<Longrightarrow> region_span r \<inter> mapped u = {}) \<Longrightarrow>
   \<exists>u'. attempt_all (load_region ops mem_map files None) rs u = (u', None) \<and>
     mapped u' = mapped u \<union> (\<Union>r \<in> set rs. region_span r)"
proof (induction rs arbitrary: u)
  case (Cons r rs)
  obtain u1 where u1: "load_region ops mem_map files None r u = (u1, None)" "mapped u1 = mapped u \<union> region_span r"
    by (rule load_region_ok [OF Cons.prems(1), of files r u]) (use Cons.prems in auto)
  have "region_span q \<inter> region_span r = {}" if "q \<in> set rs" for q
    using Cons.prems(3) that by (auto simp: cf_interval_def region_span_def list_all_iff)
  then have "region_span q \<inter> mapped u1 = {}" if "q \<in> set rs" for q
    using Cons.prems(4) [of q] that unfolding u1(2) by auto
  from Cons.IH [OF Cons.prems(1) _ _ this] Cons.prems(2,3) obtain u' where
    "attempt_all (load_region ops mem_map files None) rs u1 = (u', None)"
    "mapped u' = mapped u1 \<union> (\<Union>r \<in> set rs. region_span r)" by (auto simp: cf_interval_def)
  with u1 show ?case by (auto simp: and_then_done)
qed simp

lemma load_patches_ok:
  "mapping_laws ops mem_map mapped \<Longrightarrow>
   (\<And>p. p \<in> set ps \<Longrightarrow> span (ucast (pa_start p)) (length (pa_data p)) \<subseteq> mapped u) \<Longrightarrow>
   \<exists>u'. attempt_all (\<lambda>p. mem_write_or ops (pa_start p) (pa_data p)) ps u = (u', None) \<and> mapped u' = mapped u"
proof (induction ps arbitrary: u)
  case (Cons p ps)
  obtain u1 where w: "uc_mem_write ops (ucast (pa_start p)) (pa_data p) u = Some u1"
    by (rule mapping_writable [OF Cons.prems(1)]) (use Cons.prems(2) in auto)
  from mapping_write(2) [OF Cons.prems(1) w] Cons.IH [OF Cons.prems(1), of u1] Cons.prems(2) w
  show ?case by (auto simp: and_then_done mem_write_or_def)
qed simp

section \<open>The Proteus F7 boots\<close>

text \<open>What the emulator reads from the YAML the launcher wrote: fields keep their names and values, the
  CPU models have the same spelling.\<close>

definition read_cpu_model :: "launcher_cpu_model \<Rightarrow> cpu_model" where
  "read_cpu_model m = (case m of LauncherCortexM4 \<Rightarrow> CortexM4 | LauncherCortexM7 \<Rightarrow> CortexM7)"

definition read_region :: "yaml_region \<Rightarrow> region" where
  "read_region r = \<lparr>rg_name = yr_name r, rg_start = yr_start r, rg_size = yr_size r, rg_load = yr_load r\<rparr>"

definition read_patch :: "memory_patch \<Rightarrow> memory_overlay" where
  "read_patch p = \<lparr>pa_start = mp_start p, pa_data = mp_data p\<rparr>"

definition read_bridge :: "usb_cdc_tcp_device \<Rightarrow> usb_cdc_config" where
  "read_bridge d = \<lparr>cdc_peripheral = ud_peripheral d, cdc_listen = ud_listen d,
     max_buffered_bytes = ud_max_buffered_bytes d\<rparr>"

fun read_ecu_ios :: "ecu_io_device list \<Rightarrow> ecu_io_config list option" where
  "read_ecu_ios [] = Some []"
| "read_ecu_ios (d # ds) = (case (read_ecu_io d, read_ecu_ios ds) of
     (Some c, Some cs) \<Rightarrow> Some (c # cs) | _ \<Rightarrow> None)"

definition read_devices :: "yaml_devices \<Rightarrow> ext_devices_config option" where
  "read_devices d = map_option (\<lambda>es. ext_devices_config_default\<lparr>
     cfg_usb_cdc_tcp := Some (map read_bridge (yd_usb_cdc_tcp d)), cfg_ecu_io := Some es\<rparr>) (read_ecu_ios (yd_ecu_io d))"

definition read_config :: "yaml_config \<Rightarrow> config option" where
  "read_config y =
     (let made = (\<lambda>ds. \<lparr>cf_cpu = \<lparr>cpu_model = read_cpu_model (yc_model (yaml_cpu_section y)),
           cpu_svd = yc_svd (yaml_cpu_section y), cpu_vector_table = yc_vector_table (yaml_cpu_section y)\<rparr>,
         cf_regions = map read_region (yaml_regions y), cf_internal_flash = None,
         cf_patches = Some (map read_patch (yaml_patches y)), cf_software_spi = None,
         cf_devices = ds, cf_framebuffers = None\<rparr>)
      in case yaml_devices_section y of None \<Rightarrow> Some (made None)
         | Some d \<Rightarrow> map_option (\<lambda>ds. made (Some ds)) (read_devices d))"

definition proteus_config :: "string \<Rightarrow> string \<Rightarrow> config \<Rightarrow> bool" where
  "proteus_config firmware svd c \<longleftrightarrow>
     (\<exists>p. for_variant variant_proteus_f7 firmware svd = Inr p \<and> read_config (to_yaml p) = Some c)"

lemma proteus_config_exists: "\<exists>c. proteus_config firmware svd c"
  by (auto simp: proteus_config_def for_variant_def variant_proteus_f7_def PROFILE_def read_config_def to_yaml_def
      read_devices_def option_list_def read_ecu_io_def ECU_IO_PINS_defs read_direction_def Let_def)

lemma proteus_config_parts:
  assumes "proteus_config firmware svd c"
  shows "cf_regions c = map (\<lambda>r. \<lparr>rg_name = mr_name r, rg_start = mr_start r, rg_size = mr_size r,
       rg_load = (if mr_load_firmware r then Some (utf8_lossy firmware) else None)\<rparr>) REGIONS"
    "cf_internal_flash c = None" "cf_patches c = Some [\<lparr>pa_start = 0x1FF0F442, pa_data = [0, 8]\<rparr>]"
    "cpu_vector_table (cf_cpu c) = 0x200000" "cpu_model (cf_cpu c) = CortexM7"
  using assms
  by (auto simp: proteus_config_def for_variant_def variant_proteus_f7_def PROFILE_def read_config_def to_yaml_def
      read_devices_def read_region_def read_patch_def read_cpu_model_def PATCHES_def Let_def)

lemma proteus_load_writes:
  assumes "proteus_config firmware svd c" "files (utf8_lossy firmware) = Inr fw"
  shows "load_writes files c = [(0x200000, take 0x200000 fw), (0x8000000, take 0x200000 fw), (0x1FF0F442, [0, 8])]"
  by (simp add: load_writes_def proteus_config_parts [OF assms(1)] unwrap_or_default_def REGIONS_def
      region_writes_def assms(2) round_up_def)

lemma proteus_loads:
  assumes "mapping_laws ops mem_map mapped" "mapped u = {}" "proteus_config firmware svd c"
    and "files (utf8_lossy firmware) = Inr fw"
  obtains u' where "load_memory_regions ops fs mem_map files c backing u = (u', None)"
    "mapped u' = (\<Union>r \<in> set (cf_regions c). region_span r)"
proof -
  note parts = proteus_config_parts [OF assms(3)]
  have "list_all (region_ok files) (cf_regions c)"
    by (simp add: parts REGIONS_def region_ok_def assms(4) isl_def)
  moreover have "disjoint_intervals (map cf_interval (cf_regions c))"
    by (simp add: parts REGIONS_def cf_interval_def)
  ultimately obtain u1 where r: "attempt_all (load_region ops mem_map files None) (cf_regions c) u = (u1, None)"
    and m: "mapped u1 = (\<Union>r \<in> set (cf_regions c). region_span r)"
    using load_regions_ok [OF assms(1), of files "cf_regions c" u] assms(2) by auto
  have "span (ucast (pa_start p)) (length (pa_data p)) \<subseteq> mapped u1" if "p \<in> set (unwrap_or_default (cf_patches c))" for p
    using that unfolding m by (auto simp: parts unwrap_or_default_def REGIONS_def region_span_def span_def)
  from load_patches_ok [OF assms(1) this] obtain u2
    where "attempt_all (\<lambda>p. mem_write_or ops (pa_start p) (pa_data p)) (unwrap_or_default (cf_patches c)) u1 = (u2, None)"
      and u2: "mapped u2 = mapped u1" by blast
  with r show thesis
    by (intro that [OF _ trans [OF u2 m]]) (simp add: load_memory_regions_def parts and_then_done)
qed

text \<open>Reading a block that the image holds.\<close>

lemma read_image:
  assumes "mapping_laws ops mem_map mapped" "holds_image ops mapped ws u"
    and "\<And>i. i < n \<Longrightarrow> image_byte ws (unat a + i) = Some (bs ! i)" "n = length bs"
  shows "uc_mem_read ops a n u = Some bs"
proof -
  have at: "unat a + i \<in> mapped u" "byte_at ops u (unat a + i) = bs ! i" if "i < n" for i
    using assms(2) assms(3) [OF that] by (auto simp: holds_image_def)
  have "k \<in> mapped u" if "k \<in> span a n" for k
    using at(1) [of "k - unat a"] that by (simp add: span_def less_diff_conv2)
  then have "span a n \<subseteq> mapped u" by blast
  moreover have "map (byte_at ops u) [unat a ..< unat a + n] = bs"
    by (rule nth_equalityI) (simp_all add: at(2) assms(4) [symmetric])
  ultimately show ?thesis using mapping_read [OF assms(1)] by simp
qed

text \<open>The Proteus F7 boots on its firmware image. For every firmware file of at least eight bytes, the
  configuration read back from the YAML the launcher writes for the board loads without an error, the
  stack pointer and the reset vector the run starts with are the first two words of the image, the same
  words are seen through the AXI alias, and the two identifier bytes are where the firmware looks for them.\<close>
theorem proteus_boots:
  assumes "mapping_laws ops mem_map mapped" "mapped u = {}" "proteus_config firmware svd c"
    and "files (utf8_lossy firmware) = Inr fw" "8 \<le> length fw"
  shows "\<exists>u'. load_memory_regions ops fs mem_map files c backing u = (u', None)
    \<and> vector_table_from_memory ops u' (cpu_vector_table (cf_cpu c)) =
        Some (from_le_bytes (take 4 fw), from_le_bytes (take 4 (drop 4 fw)))
    \<and> vector_table_from_memory ops u' 0x08000000 =
        vector_table_from_memory ops u' (cpu_vector_table (cf_cpu c))
    \<and> uc_mem_read ops 0x1FF0F442 2 u' = Some [0, 8]"
proof -
  obtain u' where u': "load_memory_regions ops fs mem_map files c backing u = (u', None)"
    by (rule proteus_loads [where mapped = mapped and u = u and files = files and fs = fs and backing = backing, OF assms(1-4)])
  note parts = proteus_config_parts [OF assms(3)]
  note image = load_image [OF assms(1) parts(2) u', unfolded proteus_load_writes [where files = files, OF assms(3,4)]]
  note at = read_image [OF assms(1) image]
  have low: "uc_mem_read ops 0x200000 8 u' = Some (take 8 fw)"
    by (rule at) (use assms(5) in simp_all)
  have axi: "uc_mem_read ops 0x8000000 8 u' = Some (take 8 fw)"
    by (rule at) (use assms(5) in simp_all)
  have ids: "uc_mem_read ops 0x1FF0F442 2 u' = Some [0, 8]"
    by (rule at) (simp_all add: less_2_cases_iff)
  show ?thesis using u' ids
    by (simp add: vector_table_from_memory_def parts low axi drop_take)
qed

section \<open>A memory with pages\<close>

text \<open>A CPU whose memory is mapped piece by piece, for the witnesses.\<close>

definition paged_mapped :: "nat set \<times> (nat \<Rightarrow> u8) \<Rightarrow> nat set" where
  "paged_mapped u = fst u \<inter> {k. k < 2 ^ 64}"

definition paged_ops :: "(nat set \<times> (nat \<Rightarrow> u8)) uc_ops" where
  "paged_ops = \<lparr>uc_reg_read = (\<lambda>r u. 0), uc_reg_write = (\<lambda>r v u. u),
     uc_mem_read = (\<lambda>a n u. if span a n \<subseteq> paged_mapped u then Some (map (snd u) [unat a ..< unat a + n]) else None),
     uc_mem_write = (\<lambda>a bs u. if span a (length bs) \<subseteq> paged_mapped u
       then Some (fst u, fc_store (unat a) bs (snd u)) else None),
     uc_emu_stop = (\<lambda>u. u)\<rparr>"

definition paged_map :: "u32 \<Rightarrow> nat \<Rightarrow> nat set \<times> (nat \<Rightarrow> u8) \<Rightarrow> (nat set \<times> (nat \<Rightarrow> u8)) option" where
  "paged_map a n u = (if unat a + n \<le> 2 ^ 32 then Some (fst u \<union> span (ucast a) n, snd u) else None)"

lemma byte_at_paged: "k \<in> paged_mapped u \<Longrightarrow> byte_at paged_ops u k = snd u k"
  by (simp add: byte_at_def paged_ops_def span_def unat_of_nat_64 paged_mapped_def)

lemma paged_laws: "mapping_laws paged_ops paged_map paged_mapped"
  unfolding mapping_laws_def
proof (intro conjI allI impI)
  fix a :: u32 and n u u'
  assume "paged_map a n u = Some u'"
  then have "unat a + n \<le> 2 ^ 32" "u' = (fst u \<union> span (ucast a) n, snd u)"
    by (auto simp: paged_map_def split: if_splits)
  then show m: "paged_mapped u' = paged_mapped u \<union> span (ucast a) n"
    by (auto simp: paged_mapped_def span_def)
  show "\<forall>k \<in> paged_mapped u. byte_at paged_ops u' k = byte_at paged_ops u k"
    using m \<open>u' = _\<close> by (auto simp: byte_at_paged)
next
  fix a bs u u'
  assume "uc_mem_write paged_ops a bs u = Some u'"
  then have s: "span a (length bs) \<subseteq> paged_mapped u" and u': "u' = (fst u, fc_store (unat a) bs (snd u))"
    by (auto simp: paged_ops_def split: if_splits)
  from s show "span a (length bs) \<subseteq> paged_mapped u" .
  from u' show m: "paged_mapped u' = paged_mapped u" by (simp add: paged_mapped_def)
  show "byte_at paged_ops u' (unat a + i) = bs ! i" if "i < length bs" for i
  proof -
    have "unat a + i \<in> paged_mapped u'" using s that unfolding m by (auto simp: span_def)
    with that u' show ?thesis by (simp add: byte_at_paged fc_store_inside)
  qed
  show "\<forall>k \<in> paged_mapped u - span a (length bs). byte_at paged_ops u' k = byte_at paged_ops u k"
    using m u' by (auto simp: byte_at_paged span_def fc_store_outside)
next
  fix a n u
  assume s: "span a n \<subseteq> paged_mapped u"
  then have "byte_at paged_ops u k = snd u k" if "unat a \<le> k" "k < unat a + n" for k
    using that by (auto simp: span_def byte_at_paged)
  with s show "uc_mem_read paged_ops a n u = Some (map (byte_at paged_ops u) [unat a ..< unat a + n])"
    by (auto simp: paged_ops_def)
qed (auto simp: paged_ops_def paged_map_def)

definition patched_config :: config where
  "patched_config = \<lparr>cf_cpu = \<lparr>cpu_model = CortexM7, cpu_svd = [], cpu_vector_table = 0\<rparr>,
     cf_regions = [\<lparr>rg_name = [], rg_start = 0x20000000, rg_size = 0x1000, rg_load = None\<rparr>],
     cf_internal_flash = None, cf_patches = Some [\<lparr>pa_start = 0x20000000, pa_data = [1, 2]\<rparr>],
     cf_software_spi = None, cf_devices = None, cf_framebuffers = None\<rparr>"


theorem proteus_boots_witness:
  "\<exists>c u'. proteus_config ''fw.bin'' ''f7.svd'' c
    \<and> load_memory_regions paged_ops flat_fs paged_map (\<lambda>path. Inr [0, 0, 2, 0x20, 1, 2, 0x20, 0]) c Map.empty
        ({}, \<lambda>k. 0) = (u', None)
    \<and> vector_table_from_memory paged_ops u' 0x08000000 = Some (0x20020000, 0x00200201)"
proof -
  obtain c where c: "proteus_config ''fw.bin'' ''f7.svd'' c" using proteus_config_exists by blast
  have "paged_mapped ({}, \<lambda>k. 0) = {}" by (simp add: paged_mapped_def)
  from proteus_boots [where files = "\<lambda>path. Inr [0, 0, 2, 0x20, 1, 2, 0x20, 0]" and fs = flat_fs and backing = Map.empty,
      OF paged_laws this c refl] c
  show ?thesis by auto
qed

end
