(* ===== verification/Hosts.thy ===== *)
theory Hosts
  imports System
begin

text \<open>
  The two programs that run the emulator and the window loop they share: the command line
  (\<open>src/main.rs\<close>), the embedding API (\<open>src/embedded.rs\<close>, \<open>src/lib.rs\<close>), reading files
  (\<open>src/util.rs\<close>) and the SDL event pump (\<open>src/framebuffers/sdl_engine.rs\<close>). Paths are strings of
  bytes with Unix separators. The file system, the YAML and SVD parsers and the canonical form of a path
  are arguments; \<^verbatim>\<open>emulate\<close> is the run itself, and \<^verbatim>\<open>run_system\<close> is that run on the model's own system.
\<close>

section \<open>A run\<close>

text \<open>\<open>run_emulator\<close> with the system it prepares: the fuel bounds the engine starts.\<close>

definition run_system ::
  "nat \<Rightarrow> 'u engine \<Rightarrow> ('u, 'f) outside \<Rightarrow> (('u, 'f) hw \<Rightarrow> bool \<times> ('u, 'f) hw) \<Rightarrow> config \<Rightarrow> svd_peripheral list \<Rightarrow>
   emu_args \<Rightarrow> 'f \<Rightarrow> 'u \<Rightarrow> u32 \<times> u8 \<Rightarrow> (run_end \<times> ('u, ('u, 'f) hw) machine option) res option" where
  "run_system fuel eng out pump c svd args files u last_block =
     (case prepare out c svd files u of
        Inl e \<Rightarrow> Some (Inl e)
      | Inr (Inl e) \<Rightarrow> Some (Inr (RunError e, None))
      | Inr (Inr (w, h)) \<Rightarrow>
          run_emulator fuel eng (system_host w pump) args (cpu_vector_table (cf_cpu c))
            (Inr (hw_nvic h, hw_uc h, h)) last_block)"

section \<open>Files\<close>

datatype file_answer = CannotOpen | CannotRead | FileContent string

record host_env =
  he_file :: "string \<Rightarrow> file_answer"
  he_canonicalize :: "string \<Rightarrow> string option"
  he_parse_config :: "string \<Rightarrow> config fallible"
  he_parse_svd :: "string \<Rightarrow> svd_peripheral list fallible"

text \<open>\<open>String::from_utf8\<close>: the lossy conversion changes exactly the ill-formed sequences.\<close>

definition from_utf8 :: "string \<Rightarrow> string fallible" where
  "from_utf8 s = (if utf8_lossy s = s then Inr s else Inl ''invalid utf-8 sequence'')"

definition read_file :: "host_env \<Rightarrow> string \<Rightarrow> string fallible" where
  "read_file env path =
     (case he_file env path of
        CannotOpen \<Rightarrow> Inl (''Failed to open '' @ path)
      | CannotRead \<Rightarrow> Inl (''Failed to read '' @ path)
      | FileContent content \<Rightarrow> Inr content)"

definition read_file_str :: "host_env \<Rightarrow> string \<Rightarrow> string fallible" where
  "read_file_str env path = res_bind (read_file env path) from_utf8"

text \<open>\<open>with_context\<close>: the message of a failure.\<close>

definition in_context :: "string \<Rightarrow> 'a fallible \<Rightarrow> 'a fallible" where
  "in_context msg r = (case r of Inl _ \<Rightarrow> Inl msg | Inr v \<Rightarrow> Inr v)"

section \<open>The command line\<close>

datatype color = ColorAuto | ColorAlways | ColorNever

datatype level_filter = FilterInfo | FilterDebug | FilterTrace

record cli_args =
  ca_config :: string
  ca_verbose :: u8
  ca_max_instructions :: "u64 option"
  ca_stop_addr :: "u32 option"
  ca_busy_loop_stop :: bool
  ca_color :: color
  ca_interrupt_period :: u32
  ca_dump_stack :: "nat option"

definition log_filter :: "u8 \<Rightarrow> level_filter" where
  "log_filter verbose = (if verbose = 0 then FilterInfo else if verbose = 1 then FilterDebug else FilterTrace)"

definition cdc_trace :: "(string \<Rightarrow> string option) \<Rightarrow> bool" where
  "cdc_trace env_var \<longleftrightarrow> (case env_var ''STM32_CDC_TRACE'' of None \<Rightarrow> False | Some v \<Rightarrow> v \<noteq> ''0'' \<and> v \<noteq> [])"

text \<open>What the emulation loop takes from either host.\<close>

type_synonym run_args = "emu_args \<times> nat option"

definition cli_run_args :: "cli_args \<Rightarrow> run_args" where
  "cli_run_args a =
     (\<lparr>max_instructions = ca_max_instructions a, stop_addr = ca_stop_addr a, busy_loop_stop = ca_busy_loop_stop a,
       interrupt_period = ca_interrupt_period a\<rparr>, ca_dump_stack a)"

text \<open>The run, on the process-wide slots for the in-process links: its result and the slots it leaves.\<close>

type_synonym emulator = "config \<Rightarrow> svd_peripheral list \<Rightarrow> run_args \<Rightarrow> registry \<times> registry \<Rightarrow>
   unit fallible res \<times> registry \<times> registry"

definition cli_load :: "host_env \<Rightarrow> cli_args \<Rightarrow> (config \<times> svd_peripheral list) fallible" where
  "cli_load env a =
     res_bind (read_file_str env (ca_config a)) (\<lambda>txt.
     res_bind (in_context (''Failed to parse '' @ ca_config a) (he_parse_config env txt)) (\<lambda>c.
     res_bind (read_file_str env (cpu_svd (cf_cpu c))) (\<lambda>txt.
     res_map (Pair c) (in_context (''Failed to parse '' @ cpu_svd (cf_cpu c)) (he_parse_svd env txt)))))"

definition cli_main :: "host_env \<Rightarrow> emulator \<Rightarrow> cli_args \<Rightarrow> registry \<times> registry \<Rightarrow>
   unit fallible res \<times> registry \<times> registry" where
  "cli_main env emulate a rs =
     (case cli_load env a of
        Inl e \<Rightarrow> (Inr (Inl e), rs)
      | Inr (c, svd) \<Rightarrow> emulate c svd (cli_run_args a) rs)"

section \<open>Paths\<close>

definition is_absolute :: "string \<Rightarrow> bool" where
  "is_absolute p \<longleftrightarrow> (case p of [] \<Rightarrow> False | c # _ \<Rightarrow> c = CHR ''/'')"

text \<open>\<open>Path::join\<close> and, for a canonical path, \<open>Path::parent\<close>.\<close>

definition unix_join :: "string \<Rightarrow> string \<Rightarrow> string" where
  "unix_join base p =
     (if is_absolute p then p
      else if base = [] \<or> base ! (length base - 1) = CHR ''/'' then base @ p
      else base @ ''/'' @ p)"

definition canonical_parent :: "string \<Rightarrow> string option" where
  "canonical_parent p =
     (let up = rev (dropWhile (\<lambda>c. c \<noteq> CHR ''/'') (rev p))
      in if p = ''/'' \<or> up = [] then None else if length up = 1 then Some up else Some (butlast up))"

definition resolve_path :: "string \<Rightarrow> string \<Rightarrow> string" where
  "resolve_path base value = (if is_absolute value then value else unix_join base value)"

definition resolve_region :: "string \<Rightarrow> region \<Rightarrow> region" where
  "resolve_region base r = r\<lparr>rg_load := map_option (\<lambda>p. utf8_lossy (resolve_path base p)) (rg_load r)\<rparr>"

definition resolve_flash :: "string \<Rightarrow> internal_flash_config \<Rightarrow> internal_flash_config" where
  "resolve_flash base f =
     f\<lparr>if_persistent := map_option (\<lambda>p. p\<lparr>backing_file := map_option (resolve_path base) (backing_file p)\<rparr>)
        (if_persistent f)\<rparr>"

definition resolve_config_paths :: "string \<Rightarrow> config \<Rightarrow> config" where
  "resolve_config_paths base c =
     c\<lparr>cf_cpu := (cf_cpu c)\<lparr>cpu_svd := utf8_lossy (resolve_path base (cpu_svd (cf_cpu c)))\<rparr>,
       cf_regions := map (resolve_region base) (cf_regions c),
       cf_internal_flash := map_option (resolve_flash base) (cf_internal_flash c)\<rparr>"

section \<open>The embedding API\<close>

record embedded_options =
  eo_config_path :: string
  eo_flash_backing_path :: "string option"
  eo_verbose :: u8
  eo_max_instructions :: "u64 option"
  eo_stop_addr :: "u32 option"
  eo_busy_loop_stop :: bool
  eo_interrupt_period :: u32
  eo_dump_stack :: "nat option"
  eo_cdc_link :: "nat option"
  eo_ecu_io_link :: "nat option"

definition embedded_options_new :: "string \<Rightarrow> embedded_options" where
  "embedded_options_new path =
     \<lparr>eo_config_path = path, eo_flash_backing_path = None, eo_verbose = 0, eo_max_instructions = None,
      eo_stop_addr = None, eo_busy_loop_stop = False, eo_interrupt_period = 1, eo_dump_stack = None,
      eo_cdc_link = None, eo_ecu_io_link = None\<rparr>"

text \<open>The process-wide state: the run flag, the verbosity, the two link registries.\<close>

record process =
  pr_running :: bool
  pr_verbose :: u8
  pr_cdc :: registry
  pr_ecu :: registry

definition acquire :: "process \<Rightarrow> process fallible" where
  "acquire p = (if pr_running p then Inl ''only one embedded STM32 emulator can run in this process''
     else Inr (p\<lparr>pr_running := True\<rparr>))"

definition release :: "process \<Rightarrow> process" where
  "release p = p\<lparr>pr_running := False\<rparr>"

definition set_backing :: "string option \<Rightarrow> config \<Rightarrow> config fallible" where
  "set_backing path c =
     (case path of None \<Rightarrow> Inr c
      | Some file \<Rightarrow>
          (case Option.bind (cf_internal_flash c) if_persistent of
             None \<Rightarrow> Inl ''flash_backing_path requires an internal_flash.persistent configuration''
           | Some _ \<Rightarrow> Inr (c\<lparr>cf_internal_flash := map_option (\<lambda>f. f\<lparr>if_persistent :=
                map_option (\<lambda>p. p\<lparr>backing_file := Some file\<rparr>) (if_persistent f)\<rparr>) (cf_internal_flash c)\<rparr>)))"

text \<open>Everything \<open>run_embedded\<close> does before the run; only a path without a parent panics.\<close>

definition embedded_load :: "host_env \<Rightarrow> embedded_options \<Rightarrow> (config \<times> svd_peripheral list) fallible res" where
  "embedded_load env opts =
     (case he_canonicalize env (eo_config_path opts) of
        None \<Rightarrow> Inr (Inl (''Config file not found: '' @ eo_config_path opts))
      | Some config_path \<Rightarrow>
     (case canonical_parent config_path of
        None \<Rightarrow> Inl UnwrapFailed
      | Some base \<Rightarrow> Inr (
          if utf8_lossy config_path \<noteq> config_path
          then Inl (''Config path is not valid UTF-8: '' @ utf8_lossy config_path)
          else res_bind (read_file_str env config_path) (\<lambda>txt.
               res_bind (in_context (''Failed to parse '' @ config_path) (he_parse_config env txt)) (\<lambda>c.
               res_bind (set_backing (eo_flash_backing_path opts) (resolve_config_paths base c)) (\<lambda>c.
               res_bind (read_file_str env (cpu_svd (cf_cpu c))) (\<lambda>txt.
               res_map (Pair c) (in_context (''Failed to parse '' @ cpu_svd (cf_cpu c)) (he_parse_svd env txt)))))))))"

definition embedded_run_args :: "embedded_options \<Rightarrow> run_args" where
  "embedded_run_args opts =
     (\<lparr>max_instructions = eo_max_instructions opts, stop_addr = eo_stop_addr opts, busy_loop_stop = eo_busy_loop_stop opts,
       interrupt_period = max (eo_interrupt_period opts) 1\<rparr>, eo_dump_stack opts)"

definition with_link :: "(nat \<Rightarrow> registry \<Rightarrow> registry) \<Rightarrow> nat option \<Rightarrow> registry \<Rightarrow> registry" where
  "with_link f link r = (case link of None \<Rightarrow> r | Some l \<Rightarrow> f l r)"

text \<open>The guards clear the links and the run flag also when the run panics.\<close>

definition run_linked :: "emulator \<Rightarrow> embedded_options \<Rightarrow> config \<Rightarrow> svd_peripheral list \<Rightarrow> process \<Rightarrow>
   unit fallible res \<times> process" where
  "run_linked emulate opts c svd p =
     (let p = p\<lparr>pr_verbose := eo_verbose opts, pr_cdc := with_link install_embedded_link (eo_cdc_link opts) (pr_cdc p),
            pr_ecu := with_link io_install_embedded_link (eo_ecu_io_link opts) (pr_ecu p)\<rparr>;
          (r, cdc, ecu) = emulate c svd (embedded_run_args opts) (pr_cdc p, pr_ecu p)
      in (r, p\<lparr>pr_cdc := with_link clear_embedded_link (eo_cdc_link opts) cdc,
               pr_ecu := with_link io_clear_embedded_link (eo_ecu_io_link opts) ecu\<rparr>))"

definition run_embedded :: "host_env \<Rightarrow> emulator \<Rightarrow> embedded_options \<Rightarrow> process \<Rightarrow>
   unit fallible res \<times> process" where
  "run_embedded env emulate opts p =
     (case acquire p of
        Inl e \<Rightarrow> (Inr (Inl e), p)
      | Inr p \<Rightarrow>
          let (r, p) = (case embedded_load env opts of
                 Inl e \<Rightarrow> (Inl e, p)
               | Inr (Inl e) \<Rightarrow> (Inr (Inl e), p)
               | Inr (Inr (c, svd)) \<Rightarrow> run_linked emulate opts c svd p)
          in (r, release p))"

section \<open>The event pump\<close>

datatype keycode = KeyQ | KeyEscape | KeyOther

datatype window_event =
    QuitEvent
  | KeyDown "keycode option"
  | MouseIn u32 sdl_event
  | OtherWindowEvent

text \<open>A mouse event goes to the first window with its id.\<close>

fun dispatch_mouse :: "u32 \<Rightarrow> sdl_event \<Rightarrow> (u32 \<times> 'c framebuffer) list \<Rightarrow> (u32 \<times> 'c framebuffer) list" where
  "dispatch_mouse w e [] = []"
| "dispatch_mouse w e ((i, fb) # fbs) =
     (if i = w then (i, process_event e fb) # fbs else (i, fb) # dispatch_mouse w e fbs)"

fun pump_events :: "window_event list \<Rightarrow> (u32 \<times> 'c framebuffer) list \<Rightarrow> bool \<times> (u32 \<times> 'c framebuffer) list" where
  "pump_events [] fbs = (True, fbs)"
| "pump_events (e # es) fbs =
     (case e of
        QuitEvent \<Rightarrow> (False, fbs)
      | KeyDown k \<Rightarrow> if k = Some KeyQ \<or> k = Some KeyEscape then (False, fbs) else pump_events es fbs
      | MouseIn w m \<Rightarrow> pump_events es (dispatch_mouse w m fbs)
      | OtherWindowEvent \<Rightarrow> pump_events es fbs)"

section \<open>Lemmas\<close>

lemma utf8_lossy_slash: "utf8_lossy (CHR ''/'' # s) = CHR ''/'' # utf8_lossy s"
  by (simp add: utf8_width_def char_in_def utf8_second_def Let_def)

lemma is_absolute_lossy: "is_absolute p \<Longrightarrow> is_absolute (utf8_lossy p)"
  by (cases p) (auto simp: is_absolute_def utf8_lossy_slash simp del: utf8_lossy.simps)

lemma is_absolute_resolved: "is_absolute base \<Longrightarrow> is_absolute (resolve_path base p)"
  by (cases base) (auto simp: resolve_path_def unix_join_def is_absolute_def)

definition absolute_paths :: "config \<Rightarrow> bool" where
  "absolute_paths c \<longleftrightarrow> is_absolute (cpu_svd (cf_cpu c)) \<and>
     (\<forall>r \<in> set (cf_regions c). pred_option is_absolute (rg_load r)) \<and>
     pred_option (\<lambda>f. pred_option (\<lambda>p. pred_option is_absolute (backing_file p)) (if_persistent f)) (cf_internal_flash c)"

definition valid_paths :: "config \<Rightarrow> bool" where
  "valid_paths c \<longleftrightarrow> utf8_lossy (cpu_svd (cf_cpu c)) = cpu_svd (cf_cpu c) \<and>
     (\<forall>r \<in> set (cf_regions c). pred_option (\<lambda>p. utf8_lossy p = p) (rg_load r))"

lemma resolve_absolute_region:
  "pred_option is_absolute (rg_load r) \<Longrightarrow> pred_option (\<lambda>p. utf8_lossy p = p) (rg_load r) \<Longrightarrow> resolve_region base r = r"
  by (cases "rg_load r") (simp_all add: resolve_region_def resolve_path_def)

lemma resolve_absolute_flash:
  "pred_option (\<lambda>p. pred_option is_absolute (backing_file p)) (if_persistent f) \<Longrightarrow> resolve_flash base f = f"
proof (cases "if_persistent f")
  case (Some p)
  assume "pred_option (\<lambda>p. pred_option is_absolute (backing_file p)) (if_persistent f)"
  with Some show ?thesis by (cases "backing_file p") (simp_all add: resolve_flash_def resolve_path_def)
qed (simp add: resolve_flash_def)

lemma resolve_absolute:
  assumes "absolute_paths c" "valid_paths c"
  shows "resolve_config_paths base c = c"
proof -
  have "map (resolve_region base) (cf_regions c) = cf_regions c"
    by (rule map_idI) (use assms in \<open>auto simp: absolute_paths_def valid_paths_def intro: resolve_absolute_region\<close>)
  moreover have "map_option (resolve_flash base) (cf_internal_flash c) = cf_internal_flash c"
    using assms(1) by (cases "cf_internal_flash c") (auto simp: absolute_paths_def resolve_absolute_flash)
  moreover have "utf8_lossy (resolve_path base (cpu_svd (cf_cpu c))) = cpu_svd (cf_cpu c)"
    using assms by (simp add: absolute_paths_def valid_paths_def resolve_path_def)
  ultimately show ?thesis by (simp add: resolve_config_paths_def)
qed

lemma resolved_is_absolute: "is_absolute base \<Longrightarrow> absolute_paths (resolve_config_paths base c)"
  unfolding absolute_paths_def
  by (auto simp: resolve_config_paths_def resolve_region_def resolve_flash_def is_absolute_lossy is_absolute_resolved
      option.pred_map o_def pred_option_def)

text \<open>What \<^verbatim>\<open>run_emulator\<close> does with the link slots: the device of a run takes the pending link or none does.\<close>

definition takes_links :: "emulator \<Rightarrow> bool" where
  "takes_links emulate \<longleftrightarrow> (\<forall>c svd a cdc ecu.
     fst (snd (emulate c svd a (cdc, ecu))) \<in> {cdc, snd (take_pending_device_link cdc)} \<and>
     snd (snd (emulate c svd a (cdc, ecu))) \<in> {ecu, snd (io_take_pending_device_link ecu)})"

definition no_link :: registry where
  "no_link = \<lparr>pending_device_link = None, active_host_link = None\<rparr>"

definition idle :: "process \<Rightarrow> bool" where
  "idle p \<longleftrightarrow> \<not> pr_running p \<and> pr_cdc p = no_link \<and> pr_ecu p = no_link"

lemma link_cleared:
  "r \<in> {with_link install_embedded_link l no_link, snd (take_pending_device_link (with_link install_embedded_link l no_link))}
   \<Longrightarrow> with_link clear_embedded_link l r = no_link"
  by (cases l) (auto simp: with_link_def install_embedded_link_def take_pending_device_link_def clear_embedded_link_def
      no_link_def Let_def)

lemma io_link_cleared:
  "r \<in> {with_link io_install_embedded_link l no_link,
        snd (io_take_pending_device_link (with_link io_install_embedded_link l no_link))}
   \<Longrightarrow> with_link io_clear_embedded_link l r = no_link"
  by (cases l) (auto simp: with_link_def io_install_embedded_link_def io_take_pending_device_link_def
      io_clear_embedded_link_def no_link_def Let_def)

lemma run_linked_links:
  assumes "takes_links emulate" "pr_cdc p = no_link" "pr_ecu p = no_link"
  shows "pr_cdc (snd (run_linked emulate opts c svd p)) = no_link \<and> pr_ecu (snd (run_linked emulate opts c svd p)) = no_link"
proof -
  let ?cdc = "with_link install_embedded_link (eo_cdc_link opts) no_link"
  let ?ecu = "with_link io_install_embedded_link (eo_ecu_io_link opts) no_link"
  obtain r cdc ecu where e: "emulate c svd (embedded_run_args opts) (?cdc, ?ecu) = (r, cdc, ecu)" by (rule prod_cases3)
  have "cdc \<in> {?cdc, snd (take_pending_device_link ?cdc)}" "ecu \<in> {?ecu, snd (io_take_pending_device_link ?ecu)}"
    using assms(1) [unfolded takes_links_def, rule_format, of c svd "embedded_run_args opts" ?cdc ?ecu] e by auto
  from link_cleared [OF this(1)] io_link_cleared [OF this(2)] e assms(2,3) show ?thesis
    by (simp add: run_linked_def Let_def)
qed

lemma run_embedded_idle:
  assumes "takes_links emulate" "idle p"
  shows "idle (snd (run_embedded env emulate opts p))"
proof -
  let ?p = "p\<lparr>pr_running := True\<rparr>"
  have "pr_cdc (snd (run_linked emulate opts c svd ?p)) = no_link \<and> pr_ecu (snd (run_linked emulate opts c svd ?p)) = no_link"
    for c svd using run_linked_links [OF assms(1), of ?p opts] assms(2) by (simp add: idle_def)
  then show ?thesis using assms(2)
    by (auto simp: run_embedded_def acquire_def release_def idle_def Let_def split_beta split: sum.splits)
qed

definition run_sessions :: "host_env \<Rightarrow> emulator \<Rightarrow> embedded_options list \<Rightarrow> process \<Rightarrow> process" where
  "run_sessions env emulate os p = fold (\<lambda>opts p. snd (run_embedded env emulate opts p)) os p"

lemma run_sessions_idle: "takes_links emulate \<Longrightarrow> idle p \<Longrightarrow> idle (run_sessions env emulate os p)"
  by (induction os arbitrary: p) (simp_all add: run_sessions_def run_embedded_idle)

text \<open>C15: Embedded runs do not leak. In a process where nothing runs and no link is installed, any sequence of
  embedded runs, each of which may fail at any step of loading, return, or panic, leaves the process in
  that state again, so the next run is admitted; and a run asked for while another is in progress is
  refused and changes nothing.\<close>
theorem embedded_runs_leave_nothing:
  assumes "takes_links emulate" "idle p"
  shows "idle (run_sessions env emulate os p)
    \<and> acquire (run_sessions env emulate os p) = Inr ((run_sessions env emulate os p)\<lparr>pr_running := True\<rparr>)
    \<and> run_embedded env emulate opts (q\<lparr>pr_running := True\<rparr>) =
        (Inr (Inl ''only one embedded STM32 emulator can run in this process''), q\<lparr>pr_running := True\<rparr>)"
  using run_sessions_idle [OF assms] by (simp add: acquire_def idle_def run_embedded_def)

text \<open>Relative paths of a board configuration are resolved against its directory: for an absolute
  directory every path of the result is absolute, nothing but the paths changes, and a configuration
  whose paths are absolute and well-formed UTF-8 is unchanged, so resolving a second time against any
  directory does nothing when the paths are well-formed.\<close>
theorem paths_resolved:
  assumes "is_absolute base"
  shows "absolute_paths (resolve_config_paths base c)
    \<and> map (\<lambda>r. r\<lparr>rg_load := None\<rparr>) (cf_regions (resolve_config_paths base c)) =
        map (\<lambda>r. r\<lparr>rg_load := None\<rparr>) (cf_regions c)
    \<and> (valid_paths (resolve_config_paths base c) \<longrightarrow>
         resolve_config_paths base' (resolve_config_paths base c) = resolve_config_paths base c)"
  using resolved_is_absolute [OF assms] resolve_absolute [of "resolve_config_paths base c" base']
  by (simp add: resolve_config_paths_def resolve_region_def o_def)

text \<open>C14: The two hosts agree. For a configuration file named by its canonical path whose paths are absolute
  and well-formed, an embedded run with the same options and no links, in a process where none runs, does
  exactly what the command line does: the same error or the same run, with the same outcome, on the same
  link slots. (The embedded run raises an interrupt period of zero to one.)\<close>
theorem hosts_agree:
  assumes "he_canonicalize env (ca_config a) = Some (ca_config a)" "canonical_parent (ca_config a) \<noteq> None"
    and "utf8_lossy (ca_config a) = ca_config a" "ca_interrupt_period a \<noteq> 0"
    and "\<And>txt c. he_parse_config env txt = Inr c \<Longrightarrow> absolute_paths c \<and> valid_paths c"
    and "opts = \<lparr>eo_config_path = ca_config a, eo_flash_backing_path = None, eo_verbose = ca_verbose a,
       eo_max_instructions = ca_max_instructions a, eo_stop_addr = ca_stop_addr a,
       eo_busy_loop_stop = ca_busy_loop_stop a, eo_interrupt_period = ca_interrupt_period a,
       eo_dump_stack = ca_dump_stack a, eo_cdc_link = None, eo_ecu_io_link = None\<rparr>"
    and "\<not> pr_running p"
  shows "(\<lambda>(r, q). (r, pr_cdc q, pr_ecu q)) (run_embedded env emulate opts p) =
    cli_main env emulate a (pr_cdc p, pr_ecu p)"
proof -
  have same: "res_bind (set_backing None (resolve_config_paths base c)) f = f c"
    if "he_parse_config env content = Inr c" for content base c and f :: "config \<Rightarrow> (config \<times> svd_peripheral list) fallible"
    using assms(5) [OF that] by (simp add: set_backing_def resolve_absolute)
  obtain base where base: "canonical_parent (ca_config a) = Some base" using assms(2) by blast
  have loads: "embedded_load env opts = Inr (cli_load env a)"
  proof (cases "read_file_str env (ca_config a)")
    case (Inr content)
    then show ?thesis
      by (cases "he_parse_config env content")
        (simp_all add: embedded_load_def cli_load_def assms(1,3,6) base in_context_def same)
  qed (simp add: embedded_load_def cli_load_def assms(1,3,6) base)
  have "max (ca_interrupt_period a) 1 = ca_interrupt_period a"
    using assms(4) by (metis max_def word_less_1 linorder_not_le order_le_less)
  then have "embedded_run_args opts = cli_run_args a"
    by (simp add: embedded_run_args_def cli_run_args_def assms(6))
  with loads assms(6,7) show ?thesis
    by (cases "cli_load env a")
      (auto simp: run_embedded_def acquire_def release_def run_linked_def cli_main_def with_link_def Let_def split_beta)
qed

section \<open>Witnesses\<close>

definition demo_host_config :: config where
  "demo_host_config = \<lparr>cf_cpu = \<lparr>cpu_model = CortexM7, cpu_svd = ''/b/f7.svd'', cpu_vector_table = 0x200000\<rparr>,
     cf_regions = [\<lparr>rg_name = ''ROM'', rg_start = 0x200000, rg_size = 0x1000, rg_load = Some ''fw.bin''\<rparr>],
     cf_internal_flash = None, cf_patches = None, cf_software_spi = None, cf_devices = None, cf_framebuffers = None\<rparr>"

definition demo_host :: host_env where
  "demo_host = \<lparr>he_file = (\<lambda>path. FileContent ''x''), he_canonicalize = Some,
     he_parse_config = (\<lambda>txt. Inr (demo_host_config\<lparr>cf_regions := []\<rparr>)), he_parse_svd = (\<lambda>txt. Inr [])\<rparr>"

text \<open>A run that takes the serial link and then panics.\<close>

definition panicking :: emulator where
  "panicking c svd a rs = (Inl UnwrapFailed, snd (take_pending_device_link (fst rs)), snd rs)"

lemma panicking_takes_links: "takes_links panicking"
  by (simp add: takes_links_def panicking_def)

definition demo_options :: embedded_options where
  "demo_options = (embedded_options_new ''/b/board.yaml'')\<lparr>eo_cdc_link := Some 7\<rparr>"

definition idle_process :: process where
  "idle_process = \<lparr>pr_running = False, pr_verbose = 0, pr_cdc = no_link, pr_ecu = no_link\<rparr>"

theorem embedded_runs_leave_nothing_witness:
  "idle (run_sessions demo_host panicking [demo_options, demo_options] idle_process)"
  using embedded_runs_leave_nothing [OF panicking_takes_links, of idle_process]
  by (simp add: idle_process_def idle_def)

theorem paths_resolved_witness:
  "resolve_config_paths ''/c'' (resolve_config_paths ''/b'' demo_host_config) = resolve_config_paths ''/b'' demo_host_config"
proof -
  have "utf8_lossy ''/b/f7.svd'' = ''/b/f7.svd''" "utf8_lossy ''/b/fw.bin'' = ''/b/fw.bin''" by code_simp+
  then have "valid_paths (resolve_config_paths ''/b'' demo_host_config)"
    by (simp add: valid_paths_def resolve_config_paths_def demo_host_config_def resolve_region_def resolve_path_def
        unix_join_def is_absolute_def del: utf8_lossy.simps)
  with paths_resolved [of "''/b''" demo_host_config "''/c''"] show ?thesis by (simp add: is_absolute_def)
qed

definition demo_cli :: cli_args where
  "demo_cli = \<lparr>ca_config = ''/b/board.yaml'', ca_verbose = 1, ca_max_instructions = None, ca_stop_addr = None,
     ca_busy_loop_stop = False, ca_color = ColorAuto, ca_interrupt_period = 1, ca_dump_stack = None\<rparr>"

theorem hosts_agree_witness:
  "(\<lambda>(r, q). (r, pr_cdc q, pr_ecu q))
     (run_embedded demo_host panicking (demo_options\<lparr>eo_verbose := 1, eo_cdc_link := None\<rparr>) idle_process) =
   cli_main demo_host panicking demo_cli (no_link, no_link)"
proof -
  have u: "utf8_lossy ''/b/board.yaml'' = ''/b/board.yaml''" "utf8_lossy ''/b/f7.svd'' = ''/b/f7.svd''" by code_simp+
  have d: "he_canonicalize demo_host = Some" "ca_config demo_cli = ''/b/board.yaml''" "ca_interrupt_period demo_cli = 1"
    by (simp_all add: demo_host_def demo_cli_def)
  have c: "absolute_paths c \<and> valid_paths c" if "he_parse_config demo_host content = Inr c" for content c
    using that u(2) by (auto simp: demo_host_def demo_host_config_def absolute_paths_def valid_paths_def is_absolute_def
        simp del: utf8_lossy.simps)
  have "(\<lambda>(r, q). (r, pr_cdc q, pr_ecu q))
     (run_embedded demo_host panicking (demo_options\<lparr>eo_verbose := 1, eo_cdc_link := None\<rparr>) idle_process) =
     cli_main demo_host panicking demo_cli (pr_cdc idle_process, pr_ecu idle_process)"
    by (rule hosts_agree)
      (use c in \<open>simp_all only: d u(1)\<close>,
       simp_all add: canonical_parent_def demo_cli_def demo_options_def embedded_options_new_def idle_process_def)
  then show ?thesis by (simp add: idle_process_def)
qed

end
