(* ===== verification/BusContract.thy ===== *)
theory BusContract
  imports Bus
begin

text \<open>
  The contract between the bus and the peripherals behind it, as a locale: an invariant of the shared
  state that every access of a peripheral keeps, the borrow flags included, and the offsets it decodes.
  \<open>safe t P r\<close> says that the outcome \<open>r\<close> satisfies \<open>P\<close>, or is a panic and \<open>t\<close> allows one, so that one walk
  over the code gives both the invariant (\<open>t\<close> true) and the absence of panics (\<open>t\<close> false).
\<close>

section \<open>Outcomes\<close>

definition safe :: "bool \<Rightarrow> ('a \<Rightarrow> bool) \<Rightarrow> 'a res \<Rightarrow> bool" where
  "safe t P r \<longleftrightarrow> (case r of Inl _ \<Rightarrow> t | Inr x \<Rightarrow> P x)"

lemma safe_Inr [simp]: "safe t P (Inr x) \<longleftrightarrow> P x"
  by (simp add: safe_def)

lemma safe_Inl [simp]: "safe t P (Inl e) \<longleftrightarrow> t"
  by (simp add: safe_def)

lemma safe_map [simp]: "safe t P (res_map f r) \<longleftrightarrow> safe t (\<lambda>x. P (f x)) r"
  by (cases r) simp_all

lemma safe_bind: "safe t P r \<Longrightarrow> (\<And>x. P x \<Longrightarrow> safe t Q (f x)) \<Longrightarrow> safe t Q (res_bind r f)"
  by (cases r) simp_all

lemma safe_mono: "safe t P r \<Longrightarrow> (\<And>x. P x \<Longrightarrow> Q x) \<Longrightarrow> safe t Q r"
  by (cases r) simp_all

lemma safe_weaken: "safe t P r \<Longrightarrow> (t \<Longrightarrow> p) \<Longrightarrow> safe p P r"
  by (cases r) simp_all

lemma safe_fold:
  "P s \<Longrightarrow> (\<And>x s. x \<in> set xs \<Longrightarrow> P s \<Longrightarrow> safe t P (f x s)) \<Longrightarrow> safe t P (fold_res f xs s)"
  by (induction xs arbitrary: s) (auto intro: safe_bind)

lemma safe_index: "t \<or> i < length xs \<Longrightarrow> (i < length xs \<Longrightarrow> P (xs ! i)) \<Longrightarrow> safe t P (index_res xs i)"
  by (auto simp: index_res_def)

lemma safe_ok: "\<exists>x. r = Inr x \<and> P x \<Longrightarrow> safe t P r"
  by auto

lemma safe_strict: "safe False P r \<longleftrightarrow> (\<exists>x. r = Inr x \<and> P x)"
  by (cases r) auto

section \<open>The contract of the peripherals on a bus\<close>

text \<open>The address an access reaches: through a bit-band alias, and rounded down to a word for registers.\<close>

definition reached :: "u32 \<Rightarrow> u32" where
  "reached addr = (let a = (case bitbanding addr of Some (a, _) \<Rightarrow> a | None \<Rightarrow> addr)
                   in if is_register a then a - a mod 4 else a)"

text \<open>\<open>good B\<close> is the invariant of the state while the cells \<open>B\<close> are borrowed; \<open>decoded\<close> are the offsets a
  peripheral is prepared for. An access to a peripheral that is not borrowed keeps the invariant; where a
  panic is ruled out (\<open>t\<close> false) it does not panic at decoded offsets. A poll may always panic.\<close>

locale bus_contract =
  fixes ops :: "('p, 's) peripheral_ops" and slots :: "'p slot list"
    and good :: "'p set \<Rightarrow> 's \<Rightarrow> bool" and decoded :: "'p \<Rightarrow> u32 \<Rightarrow> bool" and t :: bool
  assumes borrowed: "good B s \<Longrightarrow> cell_borrowed ops p s \<longleftrightarrow> p \<in> B"
    and borrow: "good B s \<Longrightarrow> good (insert p B) (set_borrowed ops p True s)"
    and give_back: "good (insert p B) s \<Longrightarrow> p \<notin> B \<Longrightarrow> good B (set_borrowed ops p False s)"
    and reads: "good (insert p B) s \<Longrightarrow> p \<in> slot_peripheral ` set slots \<Longrightarrow> t \<or> decoded p offset \<Longrightarrow>
      safe t (\<lambda>r. good (insert p B) (snd r)) (per_read ops p offset s)"
    and writes: "good (insert p B) s \<Longrightarrow> p \<in> slot_peripheral ` set slots \<Longrightarrow> t \<or> decoded p offset \<Longrightarrow>
      safe t (good (insert p B)) (per_write ops p offset v s)"
    and polls: "good (insert p B) s \<Longrightarrow> p \<in> slot_peripheral ` set slots \<Longrightarrow>
      safe True (good (insert p B)) (per_poll ops p s)"
begin

text \<open>An access the bus takes: the peripheral it reaches, if any, decodes the offset.\<close>

definition accepts :: "u32 \<Rightarrow> u8 \<Rightarrow> bool" where
  "accepts addr sz \<longleftrightarrow>
     (bitbanding addr = None \<longrightarrow> (if is_register addr then unat addr mod 4 else 0) + unat sz \<le> 4) \<and>
     (\<forall>p. get_peripheral slots (reached addr) = Some p \<longrightarrow> decoded (slot_peripheral p) (reached addr - slot_start p))"

lemma found: "get_peripheral slots a = Some p \<Longrightarrow> slot_peripheral p \<in> slot_peripheral ` set slots"
  by (auto simp: get_peripheral_def binary_search_by_key_def Let_def split: sum.splits if_splits)

lemma slot_read_safe:
  assumes "good B s" "p \<in> slot_peripheral ` set slots" "t \<or> decoded p offset \<and> p \<notin> B"
  shows "safe t (\<lambda>r. good B (snd r)) (slot_read ops p offset s)"
proof (cases "p \<in> B")
  case False
  have "safe t (\<lambda>r. good (insert p B) (snd r)) (per_read ops p offset (set_borrowed ops p True s))"
    using reads [OF borrow [OF assms(1)] assms(2)] assms(3) by blast
  then show ?thesis using False borrowed [OF assms(1)]
    by (auto simp: slot_read_def case_prod_beta intro: safe_mono give_back)
qed (use assms borrowed in \<open>simp add: slot_read_def\<close>)

lemma slot_write_safe:
  assumes "good B s" "p \<in> slot_peripheral ` set slots" "t \<or> decoded p offset \<and> p \<notin> B"
  shows "safe t (good B) (slot_write ops p offset v s)"
proof (cases "p \<in> B")
  case False
  have "safe t (good (insert p B)) (per_write ops p offset v (set_borrowed ops p True s))"
    using writes [OF borrow [OF assms(1)] assms(2)] assms(3) by blast
  then show ?thesis using False borrowed [OF assms(1)]
    by (auto simp: slot_write_def intro: safe_mono give_back)
qed (use assms borrowed in \<open>simp add: slot_write_def\<close>)

lemma slot_poll_safe:
  assumes "good B s" "p \<in> slot_peripheral ` set slots"
  shows "safe True (good B) (slot_poll ops p s)"
proof (cases "p \<in> B")
  case False
  have "safe True (good (insert p B)) (per_poll ops p (set_borrowed ops p True s))"
    using polls [OF borrow [OF assms(1)] assms(2)] by blast
  then show ?thesis using False borrowed [OF assms(1)]
    by (auto simp: slot_poll_def intro: safe_mono give_back)
qed (use assms borrowed in \<open>simp add: slot_poll_def\<close>)

lemma in_range: "(if is_register a then unat a mod 4 else 0) + unat sz \<le> 4 \<Longrightarrow>
    \<not> 4 < (if is_register a then of_nat (unat a mod 4) else 0) + (sz :: u8)"
  using byte_end_ok [of "if is_register a then unat a mod 4 else 0" "unat sz"] by (simp split: if_splits)

lemma bus_read_direct:
  assumes "bitbanding a = None" "good B s" "t \<or> accepts a sz \<and> B = {}"
  shows "safe t (\<lambda>r. good B (snd r)) (bus_read ops slots a sz s)"
proof -
  have r: "reached a = (if is_register a then a - a mod 4 else a)" using assms(1) by (simp add: reached_def)
  have "safe t (\<lambda>r. good B (snd r)) (slot_read ops (slot_peripheral p) (reached a - slot_start p) s)"
    if "get_peripheral slots (reached a) = Some p" for p
    using slot_read_safe [OF assms(2) found [OF that]] assms(3) that by (auto simp: accepts_def)
  moreover have "t \<or> \<not> 4 < (if is_register a then of_nat (unat a mod 4) else 0) + sz"
    using in_range [of a sz] assms(1,3) by (auto simp: accepts_def)
  ultimately show ?thesis using assms(1,2) r
    by (subst bus_read.simps) (auto simp: align_addr_4_eq case_prod_beta split: option.split)
qed

text \<open>A bit-band alias is a byte access to its target.\<close>

lemma accepts_alias: "bitbanding addr = Some (a, b) \<Longrightarrow> accepts addr sz \<Longrightarrow> accepts a 1"
proof -
  assume b: "bitbanding addr = Some (a, b)" and acc: "accepts addr sz"
  have n: "bitbanding a = None" by (rule bitbanding_once [OF b])
  have "reached a = reached addr" using b n by (simp add: reached_def)
  moreover have "unat a mod 4 + 1 \<le> 4" by presburger
  ultimately show ?thesis using acc b n by (simp add: accepts_def)
qed

lemma bus_read_safe:
  assumes "good B s" "t \<or> accepts addr sz \<and> B = {}"
  shows "safe t (\<lambda>r. good B (snd r)) (bus_read ops slots addr sz s)"
proof (cases "bitbanding addr")
  case None
  from bus_read_direct [OF this assms] show ?thesis .
next
  case (Some ab)
  obtain a b where ab: "bitbanding addr = Some (a, b)" using Some by (cases ab) simp
  have "safe t (\<lambda>r. good B (snd r)) (bus_read ops slots a 1 s)"
    using bus_read_direct [OF bitbanding_once [OF ab] assms(1)] assms(2) accepts_alias [OF ab] by blast
  then show ?thesis by (subst bus_read.simps) (simp add: ab case_prod_beta)
qed

lemma aligned_reached: "bitbanding a = None \<Longrightarrow> is_register a \<Longrightarrow> reached (a - a mod 4) = a - a mod 4"
  using not_bitband_aligned [of a] by (simp add: reached_def is_register_aligned aligned_mod)

lemma accepts_word: "bitbanding a = None \<Longrightarrow> is_register a \<Longrightarrow> accepts a sz \<Longrightarrow> accepts (a - a mod 4) 4"
proof -
  assume a: "bitbanding a = None" "is_register a" "accepts a sz"
  have "unat (a - a mod 4) mod 4 = 0" using unat_mod_4 [of "a - a mod 4"] by (simp add: aligned_mod)
  then show ?thesis using a aligned_reached [OF a(1,2)] not_bitband_aligned [OF a(1)]
    by (simp add: accepts_def is_register_aligned reached_def)
qed

lemma bus_write_direct:
  assumes "bitbanding a = None" "good B s" "t \<or> accepts a sz \<and> B = {}"
  shows "safe t (good B) (bus_write ops slots a sz v s)"
proof -
  have r: "reached a = (if is_register a then a - a mod 4 else a)" using assms(1) by (simp add: reached_def)
  have put: "safe t (good B) (case get_peripheral slots (reached a) of
      Some p \<Rightarrow> slot_write ops (slot_peripheral p) (reached a - slot_start p) x s1 | None \<Rightarrow> Inr s1)"
    if "good B s1" for x s1
    using slot_write_safe [OF that found] assms(3) that by (auto simp: accepts_def split: option.split)
  have old: "safe t (\<lambda>r. good B (snd r)) (bus_read ops slots (a - a mod 4) 4 s)" if "is_register a"
    using bus_read_safe [OF assms(2), of "a - a mod 4" 4] assms(3) accepts_word [OF assms(1) that] by blast
  have fits: "t \<or> \<not> 4 < (if is_register a then of_nat (unat a mod 4) else 0) + sz"
    using in_range [of a sz] assms(1,3) by (auto simp: accepts_def)
  show ?thesis
  proof (cases "is_register a")
    case True
    define f where "f = (\<lambda>(x, s1). case get_peripheral slots (a - a mod 4) of
      Some p \<Rightarrow> slot_write ops (slot_peripheral p) (a - a mod 4 - slot_start p) x s1 | None \<Rightarrow> Inr s1)"
    have f: "safe t (good B) (f xs)" if "good B (snd xs)" for xs
      using put [OF that, of "fst xs"] True r by (simp add: f_def case_prod_beta cong: option.case_cong)
    have w: "is_register (a - a mod 4)" by (rule is_register_aligned [OF True])
    show ?thesis
    proof (cases "4 < of_nat (unat a mod 4) + sz")
      case False
      let ?merge = "\<lambda>(old_value, s). let shift = 8 * (unat a mod 4); width = 8 * unat sz;
           write_mask = push_bit shift (push_bit width 1 - 1)
         in ((old_value AND NOT write_mask) OR (push_bit shift v AND write_mask), s)"
      have "bus_write ops slots a sz v s =
          res_bind (if sz < 4 then res_map ?merge (bus_read ops slots (a - a mod 4) 4 s) else Inr (v, s)) f"
        using assms(1) True False w
        by (subst bus_write.simps) (simp add: align_addr_4_eq Let_def f_def unat_u8_small)
      moreover have "safe t (\<lambda>r. good B (snd r)) (if sz < 4 then res_map ?merge (bus_read ops slots (a - a mod 4) 4 s) else Inr (v, s))"
        using old [OF True] assms(2) by (simp add: Let_def case_prod_beta)
      ultimately show ?thesis by (simp only: safe_bind [OF _ f])
    qed (use assms(1) fits True in \<open>subst bus_write.simps, simp add: align_addr_4_eq\<close>)
  next
    case False
    then show ?thesis using assms(1) fits put [OF assms(2), of v, unfolded r]
      by (subst bus_write.simps) (auto simp: Let_def cong: option.case_cong)
  qed
qed

lemma bus_write_safe:
  assumes "good B s" "t \<or> accepts addr sz \<and> B = {}"
  shows "safe t (good B) (bus_write ops slots addr sz v s)"
proof (cases "bitbanding addr")
  case None
  from bus_write_direct [OF this assms] show ?thesis .
next
  case (Some ab)
  obtain a b where ab: "bitbanding addr = Some (a, b)" using Some by (cases ab) simp
  have acc: "t \<or> accepts a 1 \<and> B = {}" using assms(2) accepts_alias [OF ab] by blast
  note n = bitbanding_once [OF ab]
  have "safe t (good B) (case r of (x, s) \<Rightarrow>
      bus_write ops slots a 1 (x AND bit_mask (unat b) OR push_bit (unat b) (v AND 1)) s)"
    if "good B (snd r)" for r :: "u32 \<times> _"
    using bus_write_direct [OF n _ acc] that by (cases r) simp
  from safe_bind [OF bus_read_direct [OF n assms(1) acc] this] show ?thesis
    by (subst bus_write.simps) (simp add: ab Let_def)
qed

lemma bus_poll_safe: "good B s \<Longrightarrow> safe True (good B) (bus_poll ops slots s)"
  unfolding bus_poll_def by (rule safe_fold) (auto intro: slot_poll_safe)

end

end
