(* ===== verification/Safety.thy ===== *)
theory Safety
  imports BusContract SystemProps
begin

text \<open>
  Robustness of the assembled system: what every access of the firmware, every poll and every block
  boundary keeps, and which accesses can panic.
\<close>

section \<open>The shape of a system\<close>

primrec chip_model :: "chip \<Rightarrow> string" where
  "chip_model (ChipNvic x) = ''NVIC''"
| "chip_model (ChipSysTick x) = ''STK''"
| "chip_model (ChipScb x) = ''SCB''"
| "chip_model (ChipGpio x) = ''GPIO''"
| "chip_model (ChipUsart x d) = ''USART''"
| "chip_model (ChipFsmc x) = ''FSMC''"
| "chip_model (ChipRcc x) = ''RCC''"
| "chip_model (ChipPwr x) = ''PWR''"
| "chip_model (ChipOtg x j) = ''OTG''"
| "chip_model (ChipRtc x) = ''RTC''"
| "chip_model (ChipFlash x) = ''FLASH''"
| "chip_model (ChipTim11 x) = ''TIM11''"
| "chip_model (ChipTim5 x) = ''TIM5''"
| "chip_model (ChipTim6 x) = ''TIM6''"
| "chip_model (ChipCan x) = ''CAN''"
| "chip_model (ChipI2c x) = ''I2C''"
| "chip_model (ChipDma x) = ''DMA''"
| "chip_model (ChipSpi x d) = ''SPI''"
| "chip_model (ChipAdc x j) = ''ADC''"
| "chip_model ChipExti = ''EXTI''"
| "chip_model ChipSyscfg = ''SYSCFG''"
| "chip_model (ChipDwt x) = ''DWT''"
| "chip_model ChipStir = ''STIR''"

text \<open>The offsets a model decodes without a panic.\<close>

definition model_decodes :: "string \<Rightarrow> u32 \<Rightarrow> bool" where
  "model_decodes model offset \<longleftrightarrow>
     (model = ''NVIC'' \<longrightarrow> 4 dvd unat offset) \<and> (model = ''DMA'' \<longrightarrow> offset < 0xd0) \<and> (model = ''FSMC'' \<longrightarrow> offset \<le> 0x4fffffff)"

definition device_counts :: "ext_devices \<Rightarrow> nat list" where
  "device_counts d = [length (spi_flashes d), length (usart_probes d), length (displays d), length (lcds d),
     length (touchscreens d), length (usb_cdc_tcps d), length (ecu_ios d)]"

record shape =
  sh_models :: "string list"
  sh_devices :: "nat list"
  sh_soft_spis :: nat

definition shape_of :: "('u, 'f) hw \<Rightarrow> shape" where
  "shape_of h = \<lparr>sh_models = map chip_model (hw_cells h), sh_devices = device_counts (hw_devices h),
     sh_soft_spis = length (hw_soft_spi h)\<rparr>"

section \<open>Well-formed systems\<close>

text \<open>A handle denotes a device that exists.\<close>

definition serial_exists :: "nat list \<Rightarrow> serial_handle option \<Rightarrow> bool" where
  "serial_exists ns x = (case x of None \<Rightarrow> True | Some (FlashAt i) \<Rightarrow> i < ns ! 0 | Some (ProbeAt i) \<Rightarrow> i < ns ! 1
     | Some (LcdAt i) \<Rightarrow> i < ns ! 3 | Some (TouchAt i) \<Rightarrow> i < ns ! 4)"

definition exists_at :: "nat \<Rightarrow> nat option \<Rightarrow> bool" where
  "exists_at n j = (case j of None \<Rightarrow> True | Some j \<Rightarrow> j < n)"

fun chip_ok :: "nat list \<Rightarrow> chip \<Rightarrow> bool" where
  "chip_ok ns (ChipNvic x) \<longleftrightarrow> 4 dvd unat (base_offset x)"
| "chip_ok ns (ChipGpio x) \<longleftrightarrow> gpio_port x < 11"
| "chip_ok ns (ChipUsart x d) \<longleftrightarrow> serial_exists ns d"
| "chip_ok ns (ChipSpi x d) \<longleftrightarrow> serial_exists ns d"
| "chip_ok ns (ChipFsmc banks) \<longleftrightarrow> length banks = 4 \<and> list_all (exists_at (ns ! 2)) banks"
| "chip_ok ns (ChipOtg x j) \<longleftrightarrow> otg_shape x \<and> exists_at (ns ! 5) j"
| "chip_ok ns (ChipAdc x j) \<longleftrightarrow> exists_at (ns ! 6) j"
| "chip_ok ns (ChipDma x) \<longleftrightarrow> dma_inv x"
| "chip_ok ns _ \<longleftrightarrow> True"

text \<open>Devices whose own operations never panic. A touch screen panics on a command it does not know, so a
  system with one is not among those whose accesses are panic-free.\<close>

definition devices_ok :: "bool \<Rightarrow> ext_devices \<Rightarrow> bool" where
  "devices_ok t d \<longleftrightarrow> t \<or> touchscreens d = [] \<and> list_all flash_inv (spi_flashes d)
     \<and> list_all display_inv (displays d) \<and> list_all lcd_inv (lcds d)"

definition sys_ok :: "bool \<Rightarrow> shape \<Rightarrow> nat set \<Rightarrow> ('u, 'f) hw \<Rightarrow> bool" where
  "sys_ok t sh B h \<longleftrightarrow> shape_of h = sh \<and> hw_borrowed h = B \<and> nvic_inv (hw_nvic h)
     \<and> list_all (chip_ok (sh_devices sh)) (hw_cells h)
     \<and> list_all (\<lambda>sx. serial_exists (sh_devices sh) (snd sx)) (hw_soft_spi h)
     \<and> devices_ok t (hw_devices h)"

section \<open>Devices behind handles\<close>

lemma safe_True: "(\<And>x. P x) \<Longrightarrow> safe True P r"
  by (cases r) simp_all

definition devices_kept :: "bool \<Rightarrow> ext_devices \<Rightarrow> ext_devices \<Rightarrow> bool" where
  "devices_kept t d d' \<longleftrightarrow> device_counts d' = device_counts d \<and> devices_ok t d'"

lemma list_all_update: "list_all P xs \<Longrightarrow> P x \<Longrightarrow> list_all P (xs[i := x])"
  by (auto simp: list_all_iff dest: set_update_subset_insert [THEN subsetD])

lemma kept_flash: "devices_ok t d \<Longrightarrow> t \<or> flash_inv x \<Longrightarrow> devices_kept t d (spi_flashes_update (\<lambda>xs. xs[i := x]) d)"
  by (auto simp: devices_kept_def devices_ok_def device_counts_def list_all_update)

lemma kept_probe: "devices_ok t d \<Longrightarrow> devices_kept t d (usart_probes_update (\<lambda>xs. xs[i := x]) d)"
  by (auto simp: devices_kept_def devices_ok_def device_counts_def)

lemma kept_lcd: "devices_ok t d \<Longrightarrow> t \<or> lcd_inv x \<Longrightarrow> devices_kept t d (lcds_update (\<lambda>xs. xs[i := x]) d)"
  by (auto simp: devices_kept_def devices_ok_def device_counts_def list_all_update)

lemma kept_display: "devices_ok t d \<Longrightarrow> t \<or> display_inv x \<Longrightarrow> devices_kept t d (displays_update (\<lambda>xs. xs[i := x]) d)"
  by (auto simp: devices_kept_def devices_ok_def device_counts_def list_all_update)

lemma kept_touch: "devices_ok t d \<Longrightarrow> devices_kept t d (touchscreens_update (\<lambda>xs. xs[i := x]) d)"
  by (auto simp: devices_kept_def devices_ok_def device_counts_def)

lemma kept_bridge: "devices_ok t d \<Longrightarrow> devices_kept t d (usb_cdc_tcps_update (\<lambda>xs. xs[i := x]) d)"
  by (auto simp: devices_kept_def devices_ok_def device_counts_def)

lemma kept_ecu: "devices_ok t d \<Longrightarrow> devices_kept t d (ecu_ios_update (\<lambda>xs. xs[i := f (xs ! i)]) d)"
  by (auto simp: devices_kept_def devices_ok_def device_counts_def)

lemma kept_trans: "devices_kept t d d' \<Longrightarrow> devices_kept t d' d'' \<Longrightarrow> devices_kept t d d''"
  by (simp add: devices_kept_def)

lemma at_device_safe:
  assumes "t \<or> (\<exists>v x. f (get d) = Inr (v, x) \<and> good x)" "\<And>x. t \<or> good x \<Longrightarrow> P (put x d)"
  shows "safe t (\<lambda>(v, d'). P d') (at_device put get f d)"
  using assms by (cases "f (get d)") (auto simp: at_device_def)

lemma serial_read_safe:
  assumes "serial_exists (device_counts d) (Some x)" "devices_ok t d"
  shows "safe t (\<lambda>(v, d'). devices_kept t d d') (serial_read x d)"
proof (cases x)
  case (FlashAt i)
  have "t \<or> (\<exists>v f. spi_flash_read () (spi_flashes d ! i) = Inr (v, f) \<and> flash_inv f)"
    using assms FlashAt spi_flash_read_ok [of "spi_flashes d ! i" "()"]
    by (auto simp: serial_exists_def device_counts_def devices_ok_def list_all_length)
  with FlashAt assms(2) show ?thesis by (simp add: serial_read_def at_device_safe kept_flash)
next
  case (ProbeAt i)
  have "t \<or> (\<exists>v p. usart_probe_read () (usart_probes d ! i) = Inr (v, p) \<and> True)"
    by (simp add: usart_probe_read_def)
  with ProbeAt assms(2) show ?thesis
    by (simp add: serial_read_def at_device_safe [where good = "\<lambda>_. True"] kept_probe)
next
  case (LcdAt i)
  have "t \<or> (\<exists>v l. dev_read lcd_dev () (lcds d ! i) = Inr (v, l) \<and> lcd_inv l)"
    using assms LcdAt lcd_contract.read_ok [of "lcds d ! i" "()"]
    by (auto simp: serial_exists_def device_counts_def devices_ok_def list_all_length)
  with LcdAt assms(2) show ?thesis by (simp add: serial_read_def at_device_safe kept_lcd)
next
  case (TouchAt i)
  have "t \<or> (\<exists>v p. touch_read () (touchscreens d ! i) = Inr (v, p) \<and> True)"
    by (simp add: touch_read_def split: option.split list.split)
  with TouchAt assms(2) show ?thesis
    by (simp add: serial_read_def at_device_safe [where good = "\<lambda>_. True"] kept_touch)
qed

lemma written_safe:
  assumes "t \<or> (\<exists>x. f (get d) = Inr x \<and> good x)" "\<And>x. t \<or> good x \<Longrightarrow> P (put x d)"
  shows "safe t P (res_map snd (at_device put get (written_device f) d))"
  using assms by (cases "f (get d)") (auto simp: at_device_def written_device_def)

lemma serial_write_safe:
  assumes "serial_exists (device_counts d) (Some x)" "devices_ok t d"
  shows "safe t (devices_kept t d) (serial_write x v d)"
proof (cases x)
  case (FlashAt i)
  have "t \<or> (\<exists>f. spi_flash_write () v (spi_flashes d ! i) = Inr f \<and> flash_inv f)"
    using assms FlashAt spi_flash_write_ok [of "spi_flashes d ! i" "()" v]
    by (auto simp: serial_exists_def device_counts_def devices_ok_def list_all_length)
  with FlashAt assms(2) show ?thesis by (simp only: serial_write_def serial_handle.case written_safe kept_flash)
next
  case (ProbeAt i)
  have "t \<or> (\<exists>p. usart_probe_write () v (usart_probes d ! i) = Inr p \<and> True)"
    by (simp add: usart_probe_write_def)
  with ProbeAt assms(2) show ?thesis
    by (simp only: serial_write_def serial_handle.case written_safe [where good = "\<lambda>_. True"] kept_probe)
next
  case (LcdAt i)
  have "t \<or> (\<exists>l. lcd_write () v (lcds d ! i) = Inr l \<and> lcd_inv l)"
    using assms LcdAt lcd_contract.write_ok [of "lcds d ! i" "()" v]
    by (auto simp: serial_exists_def device_counts_def devices_ok_def list_all_length lcd_dev_def)
  with LcdAt assms(2) show ?thesis by (simp only: serial_write_def serial_handle.case written_safe kept_lcd)
next
  case (TouchAt i)
  have "t" using assms TouchAt by (auto simp: serial_exists_def device_counts_def devices_ok_def)
  then have "t \<or> (\<exists>p. touch_write () v (touchscreens d ! i) = Inr p \<and> True)" by simp
  with TouchAt assms(2) show ?thesis
    by (simp only: serial_write_def serial_handle.case written_safe [where good = "\<lambda>_. True"] kept_touch)
qed

text \<open>The serial bus: what a peripheral or a software bus does with the device it was lent.\<close>

definition lent_ok :: "bool \<Rightarrow> ext_devices \<Rightarrow> (serial_handle \<times> ext_devices) option \<Rightarrow> bool" where
  "lent_ok t d x = (case x of None \<Rightarrow> True
     | Some (h, d') \<Rightarrow> serial_exists (device_counts d) (Some h) \<and> devices_kept t d d')"

lemma lent_read:
  assumes "lent_ok t d (Some x)"
  shows "safe t (\<lambda>(v, x'). fst x' = fst x \<and> lent_ok t d (Some x')) (dev_read serial_bus a x)"
proof -
  obtain h e where x: "x = (h, e)" by (cases x)
  with assms have "safe t (\<lambda>(v, d'). devices_kept t e d') (serial_read h e)"
    by (intro serial_read_safe) (simp_all add: lent_ok_def devices_kept_def)
  then show ?thesis using assms x
    by (auto simp: serial_bus_def lent_ok_def case_prod_beta devices_kept_def elim: safe_mono)
qed

lemma lent_write:
  assumes "lent_ok t d (Some x)"
  shows "safe t (\<lambda>x'. fst x' = fst x \<and> lent_ok t d (Some x')) (dev_write serial_bus a v x)"
proof -
  obtain h e where x: "x = (h, e)" by (cases x)
  with assms have "safe t (devices_kept t e) (serial_write h v e)"
    by (intro serial_write_safe) (simp_all add: lent_ok_def devices_kept_def)
  then show ?thesis using assms x
    by (auto simp: serial_bus_def lent_ok_def devices_kept_def elim: safe_mono)
qed

section \<open>The models\<close>

text \<open>What each model contributes: its operations keep its own invariant and do not panic on it.\<close>

lemma nvic_inv_pending [simp]: "nvic_inv (n\<lparr>pending := p\<rparr>) = nvic_inv n"
  by (simp add: nvic_inv_def)

lemma pend_safe: "nvic_inv n \<Longrightarrow> t \<or> - 15 \<le> irq \<Longrightarrow> safe t nvic_inv (set_intr_pending irq n)"
  by (auto simp: set_intr_pending_def IRQ_OFFSET_def)

lemma ipr_word_base_less:
  assumes "ipr_word_base offset = Some b" "4 dvd unat offset"
  shows "b + 3 < IPR_COUNT"
proof -
  have b: "b = unat (offset - IPR_OFFSET)" "IPR_OFFSET \<le> offset" "offset < IPR_OFFSET + of_nat IPR_COUNT"
    using assms(1) by (auto simp: ipr_word_base_def split: if_splits)
  then have u: "b = unat offset - 1024" "1024 \<le> unat offset" "unat offset < 1264"
    by (simp_all add: unat_sub IPR_OFFSET_def IPR_COUNT_def word_le_nat_alt word_less_nat_alt)
  with u assms(2) show ?thesis unfolding IPR_COUNT_def by presburger
qed

lemma nvic_read_safe: "nvic_inv n \<Longrightarrow> t \<or> 4 dvd unat offset \<Longrightarrow> safe t (\<lambda>_. True) (nvic_read offset n)"
proof (cases t)
  case False
  assume "nvic_inv n" "t \<or> 4 dvd unat offset"
  with False show ?thesis
    by (auto simp: nvic_read_def nvic_inv_def simp del: from_le_bytes.simps dest!: ipr_word_base_less split: option.split)
qed (simp add: safe_True)

lemma nvic_write_safe: "nvic_inv n \<Longrightarrow> t \<or> 4 dvd unat offset \<Longrightarrow> safe t nvic_inv (nvic_write offset v n)"
  by (auto simp: nvic_write_def nvic_inv_def copy_from_slice_def dest!: ipr_word_base_less split: option.split)

lemma otg_shape_irrelevant [simp]:
  "otg_shape (x\<lparr>bridge := b\<rparr>) = otg_shape x" "otg_shape (x\<lparr>rx_fifo := f\<rparr>) = otg_shape x"
  "otg_shape (x\<lparr>registers := rs\<rparr>) = otg_shape x" "otg_shape (x\<lparr>global_interrupt_status := v\<rparr>) = otg_shape x"
  "otg_shape (x\<lparr>global_interrupt_mask := v\<rparr>) = otg_shape x" "otg_shape (x\<lparr>dcfg := v\<rparr>) = otg_shape x"
  "otg_shape (x\<lparr>dctl := v\<rparr>) = otg_shape x" "otg_shape (x\<lparr>diep_mask := v\<rparr>) = otg_shape x"
  "otg_shape (x\<lparr>doep_mask := v\<rparr>) = otg_shape x" "otg_shape (x\<lparr>daint_mask := v\<rparr>) = otg_shape x"
  "otg_shape (x\<lparr>diep_empty_mask := v\<rparr>) = otg_shape x" "otg_shape (x\<lparr>host_attached := a\<rparr>) = otg_shape x"
  "otg_shape (x\<lparr>last_sof_instruction := n\<rparr>) = otg_shape x" "otg_shape (x\<lparr>host_step := st\<rparr>) = otg_shape x"
  "otg_shape (x\<lparr>pending_bridge_writes := bs\<rparr>) = otg_shape x"
  "otg_shape (x\<lparr>tx_fifo := (tx_fifo x)[ep := q]\<rparr>) = otg_shape x"
  "otg_shape (raise_in_endpoint_interrupt ep bits x) = otg_shape x"
  by (simp_all add: otg_shape_def raise_in_endpoint_interrupt_def upd_in_def)

lemma shape_advance: "otg_shape x \<Longrightarrow> otg_shape (advance_virtual_host x)"
  by (cases "host_step x") (simp_all add: advance_virtual_host_def set_line_coding_packet_def Let_def
      shape_setup shape_ack shape_control_out)

lemma shape_complete: "otg_shape x \<Longrightarrow> otg_shape (complete_in_transfer ep x)"
  unfolding complete_in_transfer_def Let_def
  by (simp add: shape_advance split: option.split)

lemma shape_push_word: "otg_shape x \<Longrightarrow> otg_shape (push_tx_fifo_word ep v x)"
  by (simp add: push_tx_fifo_word_def Let_def shape_complete)

lemma shape_write_in_ctl: "otg_shape x \<Longrightarrow> otg_shape (write_in_ctl ep v x)"
  by (simp add: write_in_ctl_def Let_def shape_complete)

lemma shape_write_out_ctl: "otg_shape x \<Longrightarrow> otg_shape (write_out_ctl ep v x)"
  by (simp add: write_out_ctl_def Let_def shape_setup)

lemma shape_unmask: "otg_shape x \<Longrightarrow> otg_shape (unmask_empty v x)"
proof -
  have "otg_shape y \<Longrightarrow> otg_shape (fold (\<lambda>ep x. if P ep x then raise_in_endpoint_interrupt ep DIEPINT_TXFE x else x) es y)"
    for P es y by (induction es arbitrary: y) simp_all
  then show "otg_shape x \<Longrightarrow> otg_shape (unmask_empty v x)" unfolding unmask_empty_def Let_def by simp
qed

lemma otg_write_shape: "otg_shape x \<Longrightarrow> otg_shape (register_write offset v x)"
  by (simp add: register_write_def write_global_def Let_def shape_push_word shape_write_in_ctl
      shape_write_out_ctl shape_unmask split: option.split)

lemma grxstsp_shape:
  assumes "otg_shape x"
  shows "safe t (\<lambda>r. otg_shape (snd r)) (read_grxstsp x)"
proof -
  define w where "w = (case rx_status x of [] \<Rightarrow> 0 | w # ws \<Rightarrow> w)"
  let ?y = "x\<lparr>rx_status := tl (rx_status x)\<rparr>"
  have y: "otg_shape ?y" using assms by (cases "rx_status x") (simp_all add: otg_shape_def)
  have "status_ok w" using assms by (cases "rx_status x") (auto simp: w_def otg_shape_def status_ok_def)
  then have "unat (w AND 0xf) < length (ep_out ?y)" using y by (simp add: status_ok_def otg_shape_def)
  then show ?thesis using y
    by (simp add: read_grxstsp_def w_def [symmetric] Let_def raise_out_endpoint_interrupt_def)
qed

lemma otg_read_shape: "otg_shape x \<Longrightarrow> safe t (\<lambda>r. otg_shape (snd r)) (register_read offset x)"
  by (simp add: register_read_def read_global_def pop_rx_fifo_word_def Let_def grxstsp_shape split: option.split)

lemma shape_refresh: "otg_shape x \<Longrightarrow> otg_shape (refresh_virtual_host_attachment irq x)"
  by (simp add: refresh_virtual_host_attachment_def virtual_host_reset_def set_stage_def Let_def)
    (simp add: otg_shape_def NUM_ENDPOINTS_def)

lemma shape_forward: "otg_shape x \<Longrightarrow> safe t otg_shape (forward_bulk_out x)"
proof -
  assume x: "otg_shape x"
  have i: "e < length (ep_out x)" "e < 6" if "bulk_out_endpoint x = Some e" for e
    using x that by (auto simp: otg_shape_def)
  have st: "otg_shape (u\<lparr>rx_fifo := f, rx_status := rx_status v @ [rx_status_word RXSTS_OUT_DATA n e,
      rx_status_word RXSTS_OUT_COMP 0 e]\<rparr>)" if "otg_shape u" "rx_status v = rx_status u" "e < 6" for u v f n e
    using that by (auto simp: otg_shape_def status_ok_word)
  show ?thesis
    by (auto simp: forward_bulk_out_def Let_def x i intro!: st split: option.split prod.split)
qed

lemma otg_poll_shape:
  assumes "otg_shape x" "nvic_inv n"
  shows "safe t (\<lambda>r. otg_shape (fst r) \<and> nvic_inv (snd r)) (otg_poll now (x, n))"
proof -
  let ?x1 = "refresh_virtual_host_attachment (is_enabled 67 n) x"
  define x2 where "x2 = (if host_attached ?x1 \<and> SOF_PERIOD_INSTRUCTIONS \<le> now - last_sof_instruction ?x1
      then ?x1\<lparr>last_sof_instruction := now, global_interrupt_status := global_interrupt_status ?x1 OR GINTSTS_SOF\<rparr>
      else ?x1)"
  have "otg_shape x2" using shape_refresh [OF assms(1)] by (simp add: x2_def)
  from shape_forward [OF this] show ?thesis using assms(2)
    by (cases "forward_bulk_out x2") (simp_all add: otg_poll_def Let_def x2_def [symmetric] pend_safe)
qed

subsection \<open>Updates of the system\<close>

lemma ok_nvic: "sys_ok t sh B h \<Longrightarrow> nvic_inv n \<Longrightarrow> sys_ok t sh B (h\<lparr>hw_nvic := n\<rparr>)"
  by (simp add: sys_ok_def shape_of_def)

lemma ok_irrelevant [simp]:
  "sys_ok t sh B (h\<lparr>hw_exti := x\<rparr>) = sys_ok t sh B h" "sys_ok t sh B (h\<lparr>hw_uc := u\<rparr>) = sys_ok t sh B h"
  "sys_ok t sh B (h\<lparr>hw_files := f\<rparr>) = sys_ok t sh B h" "sys_ok t sh B (h\<lparr>hw_now := n\<rparr>) = sys_ok t sh B h"
  "sys_ok t sh B (h\<lparr>hw_round := k\<rparr>) = sys_ok t sh B h"
  by (simp_all add: sys_ok_def shape_of_def)

lemma ok_devices: "sys_ok t sh B h \<Longrightarrow> devices_kept t (hw_devices h) d \<Longrightarrow> sys_ok t sh B (h\<lparr>hw_devices := d\<rparr>)"
  by (simp add: sys_ok_def shape_of_def devices_kept_def)

lemma ok_put:
  assumes "sys_ok t sh B h" "chip_model c = chip_model (hw_cells h ! i)" "chip_ok (sh_devices sh) c"
  shows "sys_ok t sh B (put_chip i h c)"
proof -
  have "map chip_model ((hw_cells h)[i := c]) = map chip_model (hw_cells h)"
    using assms(2) by (simp add: map_update_same)
  with assms show ?thesis by (simp add: sys_ok_def shape_of_def put_chip_def list_all_update)
qed

lemma ok_chip: "sys_ok t sh B h \<Longrightarrow> i < length (hw_cells h) \<Longrightarrow> chip_ok (sh_devices sh) (hw_cells h ! i)"
  by (simp add: sys_ok_def list_all_length)

lemma ok_nvic_inv: "sys_ok t sh B h \<Longrightarrow> nvic_inv (hw_nvic h)"
  by (simp add: sys_ok_def)

lemma ok_counts: "sys_ok t sh B h \<Longrightarrow> device_counts (hw_devices h) = sh_devices sh"
  by (auto simp: sys_ok_def shape_of_def)

lemma ok_devices_ok: "sys_ok t sh B h \<Longrightarrow> devices_ok t (hw_devices h)"
  by (simp add: sys_ok_def)

lemma lend_serial_ok:
  assumes "sys_ok t sh B h" "serial_exists (sh_devices sh) x"
  shows "lent_ok t (hw_devices h) (lend_serial x h)"
  using assms by (cases x) (simp_all add: lend_serial_def lent_ok_def devices_kept_def ok_devices_ok ok_counts)

lemma return_serial_ok:
  "sys_ok t sh B h \<Longrightarrow> lent_ok t (hw_devices h) x \<Longrightarrow> sys_ok t sh B (return_serial x h)"
  by (cases x) (auto simp: return_serial_def lent_ok_def ok_devices)

subsection \<open>Serial peripherals\<close>

lemma usart_read_lent:
  assumes "lent_ok t d x"
  shows "safe t (\<lambda>r. lent_ok t d (snd r)) (usart_read serial_bus offset x)"
proof (cases x)
  case (Some y)
  have "safe t (\<lambda>(v, x'). fst x' = fst y \<and> lent_ok t d (Some x')) (dev_read serial_bus () y)"
    using assms Some by (simp add: lent_read)
  then show ?thesis using assms Some by (auto simp: usart_read_def case_prod_beta elim: safe_mono)
qed (use assms in \<open>simp add: usart_read_def\<close>)

lemma usart_write_lent:
  assumes "lent_ok t d x"
  shows "safe t (lent_ok t d) (usart_write serial_bus offset v x)"
proof (cases x)
  case (Some y)
  have "safe t (\<lambda>x'. fst x' = fst y \<and> lent_ok t d (Some x')) (dev_write serial_bus () (ucast v) y)"
    using assms Some by (simp add: lent_write)
  then show ?thesis using assms Some by (auto simp: usart_write_def elim: safe_mono)
qed (use assms in \<open>simp add: usart_write_def\<close>)

lemma lent_read':
  "lent_ok t d (Some x) \<Longrightarrow> safe t (\<lambda>r. lent_ok t d (Some (snd r))) (dev_read serial_bus a x)"
  by (rule safe_mono [OF lent_read]) auto

lemma lent_write':
  "lent_ok t d (Some x) \<Longrightarrow> safe t (\<lambda>x'. lent_ok t d (Some x')) (dev_write serial_bus a v x)"
  by (rule safe_mono [OF lent_write]) auto

lemma spi_write_lent:
  assumes "lent_ok t d x"
  shows "safe t (\<lambda>r. lent_ok t d (snd r)) (spi_write serial_bus offset v (s, x))"
proof (cases x)
  case (Some y)
  then have y: "lent_ok t d (Some y)" using assms by simp
  note rd = safe_bind [OF lent_read'] and wr = safe_bind [OF lent_write']
  show ?thesis unfolding spi_write_def Let_def Some
    by (auto simp: y case_prod_beta intro!: rd wr)
qed (use assms in \<open>simp add: spi_write_def Let_def\<close>)

lemma sw_xfer_lent:
  assumes "lent_ok t d x"
  shows "safe t (\<lambda>r. lent_ok t d (snd r) \<and> map_option fst (snd r) = map_option fst x) (sw_xfer serial_bus v x)"
proof (cases x)
  case (Some y)
  then have y: "lent_ok t d (Some y)" using assms by simp
  have "safe t (\<lambda>z. fst z = fst y \<and> lent_ok t d (Some z)) (dev_write serial_bus () v y)" by (rule lent_write [OF y])
  then show ?thesis unfolding sw_xfer_def Some option.case
  proof (rule safe_bind)
    fix z assume z: "fst z = fst y \<and> lent_ok t d (Some z)"
    then have "safe t (\<lambda>(v, x'). fst x' = fst z \<and> lent_ok t d (Some x')) (dev_read serial_bus () z)"
      by (blast intro: lent_read)
    then show "safe t (\<lambda>r. lent_ok t d (snd r) \<and> map_option fst (snd r) = map_option fst (Some y))
        (res_bind (dev_read serial_bus () z) (\<lambda>(v, d). Inr (v, Some d)))"
      by (rule safe_bind) (use z in auto)
  qed
qed (simp add: sw_xfer_def lent_ok_def)

subsection \<open>Displays behind the memory controller\<close>

lemma fsmc_bank: "fsmc_access offset = Inr (FsmcData bank off) \<Longrightarrow> bank < 4"
  by (auto simp: fsmc_access_def fsmc_register_def split: if_splits option.splits)

lemma fsmc_decodes: "offset \<le> 0x4fffffff \<Longrightarrow> \<exists>a. fsmc_access offset = Inr a"
  by (simp add: fsmc_access_def)

lemma banks_update:
  "\<forall>d. Some d \<in> set banks \<longrightarrow> P d \<Longrightarrow> P x \<Longrightarrow> \<forall>d. Some d \<in> set (banks[b := Some x]) \<longrightarrow> P d"
  by (auto dest: set_update_subset_insert [THEN subsetD])

lemma fsmc_read_ok:
  assumes "p \<or> offset \<le> 0x4fffffff" "t \<longrightarrow> p" "length banks = 4" "\<forall>d. Some d \<in> set banks \<longrightarrow> t \<or> display_inv d"
  shows "safe p (\<lambda>r. \<forall>d. Some d \<in> set (snd r) \<longrightarrow> t \<or> display_inv d) (fsmc_read display_dev offset banks)"
proof (cases t)
  case False
  then have inv: "\<forall>d. Some d \<in> set banks \<longrightarrow> display_inv d" using assms(4) by blast
  show ?thesis
  proof (cases "fsmc_access offset")
    case (Inl e)
    then have p using assms(1) fsmc_decodes [of offset] by auto
    then show ?thesis using Inl by (simp add: fsmc_read_def)
  next
    case a: (Inr acc)
    show ?thesis
    proof (cases acc)
      case (FsmcData b off)
      with a have b: "b < length banks" using fsmc_bank assms(3) by auto
    show ?thesis
      proof (cases "banks ! b")
        case (Some d)
        then have "display_inv d" using inv b by (metis nth_mem)
        then obtain v x where "dev_read display_dev off d = Inr (v, x)" "display_inv x"
          using display_contract.read_ok by blast
        with Some FsmcData a show ?thesis using banks_update [OF inv] by (simp add: fsmc_read_def)
      next
        case None
        then have "banks[b := None] = banks" by (metis list_update_id)
        with None FsmcData a assms(4) show ?thesis by (simp add: fsmc_read_def)
      qed
    qed (use a assms(4) in \<open>simp add: fsmc_read_def\<close>)
  qed
qed (use assms(2) in \<open>simp add: safe_True\<close>)

lemma fsmc_write_ok:
  assumes "p \<or> offset \<le> 0x4fffffff" "t \<longrightarrow> p" "length banks = 4" "\<forall>d. Some d \<in> set banks \<longrightarrow> t \<or> display_inv d"
  shows "safe p (\<lambda>bs. \<forall>d. Some d \<in> set bs \<longrightarrow> t \<or> display_inv d) (fsmc_write display_dev offset v banks)"
proof (cases t)
  case False
  then have inv: "\<forall>d. Some d \<in> set banks \<longrightarrow> display_inv d" using assms(4) by blast
  show ?thesis
  proof (cases "fsmc_access offset")
    case (Inl e)
    then have p using assms(1) fsmc_decodes [of offset] by auto
    then show ?thesis using Inl by (simp add: fsmc_write_def)
  next
    case a: (Inr acc)
    show ?thesis
    proof (cases acc)
      case (FsmcData b off)
      with a have b: "b < length banks" using fsmc_bank assms(3) by auto
    show ?thesis
      proof (cases "banks ! b")
        case (Some d)
        then have "display_inv d" using inv b by (metis nth_mem)
        then obtain x where "dev_write display_dev off v d = Inr x" "display_inv x"
          using display_contract.write_ok by blast
        with Some FsmcData a show ?thesis using banks_update [OF inv] by (simp add: fsmc_write_def)
      next
        case None
        then have "banks[b := None] = banks" by (metis list_update_id)
        with None FsmcData a assms(4) show ?thesis by (simp add: fsmc_write_def)
      qed
    qed (use a assms(4) in \<open>simp add: fsmc_write_def\<close>)
  qed
qed (use assms(2) in \<open>simp add: safe_True\<close>)

lemma lend_displays_ok:
  assumes "sys_ok t sh B h" "list_all (exists_at (sh_devices sh ! 2)) banks"
  shows "\<forall>d. Some d \<in> set (lend_displays banks h) \<longrightarrow> t \<or> display_inv d"
proof (intro allI impI)
  fix d assume "Some d \<in> set (lend_displays banks h)"
  then obtain j where "Some j \<in> set banks" "d = displays (hw_devices h) ! j"
    by (fastforce simp: lend_displays_def map_option_case split: option.splits)
  moreover from this(1) have "j < length (displays (hw_devices h))"
    using assms(2) by (auto simp: list_all_iff exists_at_def ok_counts [OF assms(1), symmetric] device_counts_def)
  ultimately show "t \<or> display_inv d" using ok_devices_ok [OF assms(1)]
    by (auto simp: devices_ok_def list_all_length)
qed

lemma return_displays_ok:
  assumes "sys_ok t sh B h" "\<forall>d. Some d \<in> set ds \<longrightarrow> t \<or> display_inv d"
  shows "sys_ok t sh B (return_displays banks ds h)"
proof -
  let ?f = "\<lambda>(j, d) h. case (j, d) of
      (Some j, Some d) \<Rightarrow> h\<lparr>hw_devices := displays_update (\<lambda>xs. xs[j := d]) (hw_devices h)\<rparr> | _ \<Rightarrow> h"
  have "sys_ok t sh B (fold ?f xs h)" if "\<forall>j d. (j, Some d) \<in> set xs \<longrightarrow> t \<or> display_inv d" "sys_ok t sh B h" for xs h
    using that
  proof (induction xs arbitrary: h)
    case (Cons x xs)
    have "sys_ok t sh B (?f x h)"
      using Cons.prems ok_devices [OF Cons.prems(2)] kept_display [OF ok_devices_ok [OF Cons.prems(2)]]
      by (cases x) (auto split: option.split)
    with Cons show ?case by auto
  qed simp
  moreover have "\<forall>j d. (j, Some d) \<in> set (zip banks ds) \<longrightarrow> t \<or> display_inv d"
    using assms(2) by (auto dest: set_zip_rightD)
  ultimately show ?thesis using assms(1) by (simp add: return_displays_def)
qed

end
