(* ===== verification/SystemSafety.thy ===== *)
theory SystemSafety
  imports Safety
begin

text \<open>
  The invariant of the assembled system: the pins' closures, every register access, DMA and every poll keep
  it, and the system with its bus is a model of the locale \<open>bus_contract\<close>.
\<close>

section \<open>Pins\<close>

text \<open>A closure on an output pin keeps the invariant, or passes a panic on; one on an input pin only reads.\<close>

definition ports_ok :: "bool \<Rightarrow> shape \<Rightarrow> ('u, 'f) hw res gpio_ports \<Rightarrow> bool" where
  "ports_ok t sh ports \<longleftrightarrow> ports_wf ports
     \<and> (\<forall>cbs \<in> set (write_callbacks ports). \<forall>(p, cb) \<in> set cbs. \<forall>v B s.
          safe t (sys_ok t sh B) s \<longrightarrow> safe t (sys_ok t sh B) (cb v s))
     \<and> (\<forall>cbs \<in> set (read_callbacks ports). \<forall>(p, cb) \<in> set cbs. \<forall>s. snd (cb s) = s)"

lemma run_writes_safe:
  assumes "\<forall>(p, cb) \<in> set cbs. \<forall>v s. safe t P s \<longrightarrow> safe t P (cb v s)" "safe t P s"
  shows "safe t P (run_writes cbs p v s)"
  using assms by (induction cbs p v s rule: run_writes.induct) auto

lemma run_reads_same: "\<forall>(p, cb) \<in> set cbs. \<forall>s. snd (cb s) = s \<Longrightarrow> snd (run_reads cbs v s) = s"
  by (induction cbs arbitrary: v) (auto simp: case_prod_beta)

lemma drive_safe:
  assumes "ports_ok t sh ports" "port < 11" "safe t (sys_ok t sh B) s"
  shows "safe t (sys_ok t sh B) (Gpio.drive ports port p v s)"
  unfolding Gpio.drive_def
proof (rule run_writes_safe)
  have "write_callbacks ports ! port \<in> set (write_callbacks ports)"
    using assms(1,2) by (simp add: ports_ok_def ports_wf_def NUM_PORTS_def)
  then show "\<forall>(p, cb) \<in> set (write_callbacks ports ! port). \<forall>v s.
      safe t (sys_ok t sh B) s \<longrightarrow> safe t (sys_ok t sh B) (cb v s)"
    using assms(1) by (fastforce simp: ports_ok_def)
qed (rule assms(3))

lemma drives_safe:
  "ports_ok t sh ports \<Longrightarrow> port < 11 \<Longrightarrow> safe t (sys_ok t sh B) s \<Longrightarrow>
   safe t (sys_ok t sh B) (fold (\<lambda>p. Gpio.drive ports port p (f p)) ps s)"
  by (induction ps arbitrary: s) (auto intro: drive_safe)

lemma gpio_write_safe:
  assumes "ports_ok t sh ports" "gpio_port g < 11" "safe t (sys_ok t sh B) s"
  shows "\<exists>g' s'. gpio_write ports offset v (g, s) = Inr (g', s') \<and> gpio_port g' = gpio_port g \<and> safe t (sys_ok t sh B) s'"
proof -
  have wf: "ports_wf ports" using assms(1) by (simp add: ports_ok_def)
  consider "offset = 0x14" | "offset = 0x18" | "offset \<noteq> 0x14" "offset \<noteq> 0x18" by blast
  then show ?thesis
  proof cases
    case 1
    then show ?thesis using drives_safe [OF assms] by (simp add: gpio_od_write [OF wf assms(2)])
  next
    case 2
    then show ?thesis using drives_safe [OF assms(1,2) drives_safe [OF assms]]
      by (simp add: gpio_bsrr_write [OF wf assms(2)])
  next
    case 3
    then show ?thesis using assms(3) by (simp add: gpio_write_def config_logs Let_def)
  qed
qed

lemma gpio_read_same:
  assumes "ports_ok t sh ports" "gpio_port g < 11"
  shows "\<exists>v. gpio_read ports offset g s = Inr (v, s)"
proof -
  have l: "gpio_port g < length (read_callbacks ports)"
    using assms by (simp add: ports_ok_def ports_wf_def NUM_PORTS_def)
  then have "read_callbacks ports ! gpio_port g \<in> set (read_callbacks ports)" by simp
  then have "snd (run_reads (read_callbacks ports ! gpio_port g) 0 s) = s"
    using assms(1) by (intro run_reads_same) (fastforce simp: ports_ok_def)
  then show ?thesis using l
    by (cases "run_reads (read_callbacks ports ! gpio_port g) 0 s") (auto simp: gpio_read_def read_port_def)
qed

section \<open>Register accesses\<close>

lemma return_bridge_ok: "sys_ok t sh B h \<Longrightarrow> sys_ok t sh B (return_bridge j x h)"
  using kept_bridge [OF ok_devices_ok, of t sh B h]
  by (auto simp: return_bridge_def intro: ok_devices split: option.split)

lemma lend_bridge_shape [simp]: "otg_shape (lend_bridge j h x) = otg_shape x"
  by (simp add: lend_bridge_def)

lemma stream_index:
  assumes "offset < 0xd0" "from_offset offset = StreamReg i r"
  shows "i < 8"
proof -
  have o: "0x28 \<le> offset" "i = unat ((offset - 0x10) div 0x18)"
    using assms(2) by (auto simp: from_offset_def Let_def split: if_splits)
  then have "unat (offset - 0x10) = unat offset - 0x10" by (simp add: unat_sub word_le_nat_alt)
  moreover have "unat offset < 0xd0" using assms(1) by (simp add: word_less_nat_alt)
  ultimately show ?thesis using o(2) by (simp add: unat_div)
qed

lemma dma_read_ok:
  assumes "dma_inv d" "t \<or> offset < 0xd0"
  shows "safe t (\<lambda>r. dma_inv (snd r)) (dma_read offset d)"
proof (cases "from_offset offset")
  case (StreamReg i r)
  have "t \<or> i < length (streams d)" using assms stream_index [OF _ StreamReg] by (auto simp: dma_inv_def)
  then show ?thesis using assms(1) StreamReg
    by (auto simp: dma_read_def case_prod_beta Let_def index_res_def dma_inv_def)
qed (use assms in \<open>simp add: dma_read_def\<close>)

lemma dma_write_ok:
  assumes "dma_inv d" "t \<or> offset < 0xd0"
  shows "safe t dma_inv (dma_write offset v d)"
proof (cases "from_offset offset")
  case (StreamReg i r)
  have "t \<or> i < length (streams d)" using assms stream_index [OF _ StreamReg] by (auto simp: dma_inv_def)
  then show ?thesis using assms(1) StreamReg
    by (auto simp: dma_write_def case_prod_beta Let_def index_res_def update_res_def dma_inv_def)
qed (use assms in \<open>simp add: dma_write_def dma_inv_def\<close>)

lemma aligned_sum: "4 dvd unat a \<Longrightarrow> 4 dvd unat b \<Longrightarrow> 4 dvd unat (a + b :: u32)"
proof -
  assume "4 dvd unat a" "4 dvd unat b"
  then have "4 dvd (unat a + unat b)" by (rule dvd_add)
  moreover have "(4 :: nat) dvd 2 ^ 32" by simp
  ultimately show ?thesis by (simp add: unat_word_ariths dvd_mod)
qed

lemma chip_read_safe:
  assumes ports: "ports_ok t sh (w_ports w)" and ok: "sys_ok t sh B h" and i: "i < length (sh_models sh)"
    and dec: "p \<or> model_decodes (sh_models sh ! i) offset" and tp: "t \<longrightarrow> p"
  shows "safe p (\<lambda>r. sys_ok t sh B (snd r)) (chip_read w i offset h)"
proof -
  have l: "i < length (hw_cells h)" "sh_models sh ! i = chip_model (hw_cells h ! i)"
    using ok i by (auto simp: sys_ok_def shape_of_def)
  note c = ok_chip [OF ok l(1)] and put = ok_put [OF ok, of _ i]
  show ?thesis
  proof (cases "hw_cells h ! i")
    case (ChipNvic x)
    then show ?thesis using c dec l ok nvic_read_safe [OF ok_nvic_inv [OF ok], of p "offset + base_offset x"]
      by (auto simp: chip_read_def nvic_wrapper_read_def model_decodes_def aligned_sum)
  next
    case (ChipGpio x)
    then obtain v where "gpio_read (w_ports w) offset x (Inr h) = Inr (v, Inr h)"
      using c gpio_read_same [OF ports] by fastforce
    with ChipGpio ok show ?thesis by (simp add: chip_read_def)
  next
    case (ChipUsart x d)
    then have "lent_ok t (hw_devices h) (lend_serial d h)" using c by (simp add: lend_serial_ok [OF ok])
    from safe_weaken [OF usart_read_lent [OF this, of offset], of p] tp ChipUsart show ?thesis
      by (auto simp: chip_read_def case_prod_beta intro: return_serial_ok [OF ok] elim: safe_mono)
  next
    case (ChipFsmc banks)
    then have b: "length (lend_displays banks h) = 4" "list_all (exists_at (sh_devices sh ! 2)) banks"
      "p \<or> offset \<le> 0x4fffffff" using c dec l by (simp_all add: lend_displays_def model_decodes_def)
    have "safe p (\<lambda>r. sys_ok t sh B (return_displays banks (snd r) h))
        (fsmc_read display_dev offset (lend_displays banks h))"
      by (rule safe_mono [OF fsmc_read_ok [OF b(3) tp b(1) lend_displays_ok [OF ok b(2)]]]) (rule return_displays_ok [OF ok])
    with ChipFsmc show ?thesis by (simp add: chip_read_def case_prod_beta)
  next
    case (ChipOtg x j)
    then have "safe p (\<lambda>r. otg_shape (snd r)) (register_read offset (lend_bridge j h x))"
      using c by (intro otg_read_shape) simp
    then show ?thesis using ChipOtg c
      by (auto simp: chip_read_def case_prod_beta intro!: return_bridge_ok put elim!: safe_mono)
  next
    case (ChipDma x)
    then have "safe p (\<lambda>r. dma_inv (snd r)) (dma_read offset x)"
      using c dec l by (intro dma_read_ok) (auto simp: model_decodes_def)
    then show ?thesis using ChipDma
      by (auto simp: chip_read_def case_prod_beta intro!: put elim!: safe_mono)
  qed (use c ok in \<open>auto simp: chip_read_def Let_def case_prod_beta intro!: put\<close>)
qed

lemma chip_write_safe:
  assumes ports: "ports_ok t sh (w_ports w)" and ok: "sys_ok t sh B h" and i: "i < length (sh_models sh)"
    and dec: "p \<or> model_decodes (sh_models sh ! i) offset" and tp: "t \<longrightarrow> p"
  shows "safe p (sys_ok t sh B) (chip_write w i offset v h)"
proof -
  have l: "i < length (hw_cells h)" "sh_models sh ! i = chip_model (hw_cells h ! i)"
    using ok i by (auto simp: sys_ok_def shape_of_def)
  note c = ok_chip [OF ok l(1)] and put = ok_put [OF ok, of _ i]
  have put': "sys_ok t sh B h' \<Longrightarrow> chip_model x = chip_model (hw_cells h ! i) \<Longrightarrow> chip_ok (sh_devices sh) x \<Longrightarrow>
      sys_ok t sh B (put_chip i h' x)" for h' x
  proof -
    assume a: "sys_ok t sh B h'" "chip_model x = chip_model (hw_cells h ! i)" "chip_ok (sh_devices sh) x"
    have "shape_of h' = shape_of h" using a(1) ok by (simp add: sys_ok_def)
    then have "map chip_model (hw_cells h') = map chip_model (hw_cells h)" by (simp add: shape_of_def)
    then have "chip_model (hw_cells h' ! i) = chip_model (hw_cells h ! i)" using l(1) by (metis map_eq_imp_length_eq nth_map)
    with a show "sys_ok t sh B (put_chip i h' x)" by (intro ok_put) simp_all
  qed
  show ?thesis
  proof (cases "hw_cells h ! i")
    case (ChipNvic x)
    have "safe p nvic_inv (nvic_write (offset + base_offset x) v (hw_nvic h))"
      using ChipNvic c dec l ok_nvic_inv [OF ok] by (intro nvic_write_safe) (auto simp: model_decodes_def aligned_sum)
    then show ?thesis using ChipNvic
      by (auto simp: chip_write_def nvic_wrapper_write_def intro: ok_nvic [OF ok] elim: safe_mono)
  next
    case (ChipSysTick x)
    have "nvic_inv (snd (systick_write offset v (x, hw_nvic h)))"
      using ok_nvic_inv [OF ok] by (simp add: systick_write_def set_nvic_systick_period_def nvic_inv_def Let_def)
    then show ?thesis using ChipSysTick
      by (simp add: chip_write_def case_prod_beta Let_def ok_nvic [OF ok] put')
  next
    case (ChipScb x)
    have "safe p (\<lambda>r. nvic_inv (snd r)) (scb_write offset v (x, hw_nvic h))"
      using ok_nvic_inv [OF ok]
      by (auto simp: scb_write_def Let_def irq_SYSTICK_def irq_PENDSV_def pend_safe intro!: safe_bind [where P = nvic_inv])
    then show ?thesis using ChipScb
      by (auto simp: chip_write_def case_prod_beta intro!: put' ok_nvic [OF ok] elim!: safe_mono)
  next
    case (ChipGpio x)
    then obtain g s where "gpio_write (w_ports w) offset v (x, Inr h) = Inr (g, s)" "gpio_port g = gpio_port x"
      "safe p (sys_ok t sh B) s" using c ok tp gpio_write_safe [OF ports, of x B "Inr h" offset v] safe_weaken [of t _ _ p]
      by fastforce
    then show ?thesis using ChipGpio c
      by (auto simp: chip_write_def intro!: put' elim!: safe_mono)
  next
    case (ChipUsart x d)
    then have "lent_ok t (hw_devices h) (lend_serial d h)" using c by (simp add: lend_serial_ok [OF ok])
    from safe_weaken [OF usart_write_lent [OF this, of offset v], of p] tp ChipUsart show ?thesis
      by (auto simp: chip_write_def intro: return_serial_ok [OF ok] elim: safe_mono)
  next
    case (ChipFsmc banks)
    then have b: "length (lend_displays banks h) = 4" "list_all (exists_at (sh_devices sh ! 2)) banks"
      "p \<or> offset \<le> 0x4fffffff" using c dec l by (simp_all add: lend_displays_def model_decodes_def)
    have "safe p (\<lambda>ds. sys_ok t sh B (return_displays banks ds h))
        (fsmc_write display_dev offset v (lend_displays banks h))"
      by (rule safe_mono [OF fsmc_write_ok [OF b(3) tp b(1) lend_displays_ok [OF ok b(2)]]]) (rule return_displays_ok [OF ok])
    with ChipFsmc show ?thesis by (simp add: chip_write_def)
  next
    case (ChipOtg x j)
    then have "otg_shape (register_write offset v (lend_bridge j h x))" using c by (intro otg_write_shape) simp
    then show ?thesis using ChipOtg c by (simp add: chip_write_def Let_def return_bridge_ok put)
  next
    case (ChipFlash x)
    then show ?thesis using ok by (auto simp: chip_write_def case_prod_beta intro!: put')
  next
    case (ChipDma x)
    then have "safe p dma_inv (dma_write offset v x)"
      using c dec l by (intro dma_write_ok) (auto simp: model_decodes_def)
    then show ?thesis using ChipDma by (auto simp: chip_write_def intro!: put elim!: safe_mono)
  next
    case (ChipSpi x d)
    then have "lent_ok t (hw_devices h) (lend_serial d h)" using c by (simp add: lend_serial_ok [OF ok])
    from safe_weaken [OF spi_write_lent [OF this, of offset v x], of p] tp ChipSpi c show ?thesis
      by (auto simp: chip_write_def case_prod_beta intro!: put' return_serial_ok [OF ok] elim!: safe_mono)
  next
    case ChipStir
    have "safe p nvic_inv (nvic_stir_write offset v (hw_nvic h))"
      using ok_nvic_inv [OF ok] order.trans [OF _ uint_ge_0, of "- 15" "v AND 511"]
      by (auto simp: nvic_stir_write_def intro!: pend_safe)
    then show ?thesis using ChipStir by (auto simp: chip_write_def intro: ok_nvic [OF ok] elim: safe_mono)
  qed (use c ok in \<open>auto simp: chip_write_def Let_def case_prod_beta intro!: put\<close>)
qed

section \<open>DMA\<close>

text \<open>The contract between a DMA controller and the rest of the system.\<close>

locale dma_contract =
  fixes sys :: "'w dma_system" and good :: "'w \<Rightarrow> bool"
  assumes reads: "good w \<Longrightarrow> safe True (\<lambda>r. good (snd r)) (sys_read_dma sys addr n w)"
    and writes: "good w \<Longrightarrow> safe True good (sys_write_dma sys addr bs w)"
    and stores: "good w \<Longrightarrow> sys_mem_write sys addr bs w = Some w' \<Longrightarrow> good w'"
    and pends: "good w \<Longrightarrow> safe True good (sys_pend sys irq w)"
begin

lemma xfer_safe: "good w \<Longrightarrow> safe True good (do_xfer sys s w)"
  unfolding do_xfer_def Let_def
  by (cases "stream_dir s")
    (auto simp: case_prod_beta reads writes stores split: option.split
      intro!: safe_bind [where P = "\<lambda>r. good (snd r)"])

lemma stream_safe:
  assumes "dma_inv d" "good w"
  shows "safe True (\<lambda>r. dma_inv (fst r) \<and> good (snd r)) (advance_stream sys now i (d, w))"
  using assms
  by (auto simp: advance_stream_def Let_def dma_inv_def set_transfer_complete_flag_def pends split: option.split
      intro!: safe_bind [OF xfer_safe])

lemma poll_safe:
  assumes "dma_inv d" "good w"
  shows "safe True (\<lambda>r. dma_inv (fst r) \<and> good (snd r)) (dma_poll sys now (d, w))"
  unfolding dma_poll_def advance_to_def
  by (rule safe_fold) (use assms stream_safe in \<open>auto simp: dma_inv_def\<close>)

end

text \<open>The world an accessing component sees: its slots refer to chips, its pins' closures keep the invariant.\<close>

definition world_ok :: "bool \<Rightarrow> shape \<Rightarrow> ('u, 'f) world \<Rightarrow> bool" where
  "world_ok t sh w \<longleftrightarrow> ports_ok t sh (w_ports w) \<and> (\<forall>s \<in> set (w_slots w). slot_peripheral s < length (sh_models sh))"

definition live :: "bool \<Rightarrow> shape \<Rightarrow> ('u, 'f) world \<Rightarrow> nat set \<Rightarrow> ('u, 'f) hw \<Rightarrow> bool" where
  "live t sh w B h \<longleftrightarrow> world_ok t sh w \<and> sys_ok t sh B h"

lemma live_read:
  assumes "live t sh w B h" "i < length (sh_models sh)" "p \<or> model_decodes (sh_models sh ! i) offset" "t \<longrightarrow> p"
  shows "safe p (\<lambda>r. live t sh w B (snd r)) (chip_read w i offset h)"
  using chip_read_safe [of t sh w B h i p offset] assms by (simp add: live_def world_ok_def)

lemma live_write:
  assumes "live t sh w B h" "i < length (sh_models sh)" "p \<or> model_decodes (sh_models sh ! i) offset" "t \<longrightarrow> p"
  shows "safe p (live t sh w B) (chip_write w i offset v h)"
  using chip_write_safe [of t sh w B h i p offset v] assms by (simp add: live_def [abs_def] world_ok_def)

lemma read_dma_safe:
  "(\<And>s. P s \<Longrightarrow> safe t (\<lambda>r. P (snd r)) (rd s)) \<Longrightarrow> P s \<Longrightarrow> safe t (\<lambda>r. P (snd r)) (read_dma rd n s)"
  by (induction n arbitrary: s)
    (auto simp: case_prod_beta intro!: safe_bind [where P = "\<lambda>r. P (snd r)"])

lemma live_read_dma:
  assumes "live t sh w B h" "i < length (sh_models sh)"
  shows "safe True (\<lambda>r. live t sh w B (snd r)) (chip_read_dma w i offset n h)"
proof -
  have "safe True (\<lambda>r. live t sh w B (snd r)) (read_dma (chip_read w i offset) n h)"
    by (rule read_dma_safe) (simp_all add: assms live_read)
  moreover have "live t sh w B (put_chip i h (ChipAdc x' j))" if "hw_cells h ! i = ChipAdc x j" for x x' j
  proof -
    have "i < length (hw_cells h)" using assms by (auto simp: live_def sys_ok_def shape_of_def)
    then have "chip_ok (sh_devices sh) (ChipAdc x j)" using ok_chip [of t sh B h i] assms(1) that by (simp add: live_def)
    then show ?thesis using assms(1) that by (simp add: live_def ok_put)
  qed
  ultimately show ?thesis by (auto simp: chip_read_dma_def Let_def case_prod_beta split: chip.split)
qed

lemma live_borrow: "live t sh w B h \<Longrightarrow> live t sh w C (h\<lparr>hw_borrowed := C\<rparr>)"
  by (simp add: live_def sys_ok_def shape_of_def)

lemma live_borrowed: "live t sh w B h \<Longrightarrow> hw_borrowed h = B"
  by (simp add: live_def sys_ok_def)

lemma borrow_chip_safe:
  assumes "live t sh w B h" "\<And>h. live t sh w (insert i B) h \<Longrightarrow> safe True (\<lambda>r. live t sh w (insert i B) (snd r)) (f h)"
  shows "safe True (\<lambda>r. live t sh w B (snd r)) (borrow_chip i f h)"
proof (cases "i \<in> B")
  case False
  have "live t sh w B (h'\<lparr>hw_borrowed := hw_borrowed h' - {i}\<rparr>)" if "live t sh w (insert i B) h'" for h'
    using that False live_borrow [OF that, of B] live_borrowed [OF that] by simp
  moreover have "safe True (\<lambda>r. live t sh w (insert i B) (snd r)) (f (h\<lparr>hw_borrowed := insert i B\<rparr>))"
    by (rule assms(2)) (rule live_borrow [OF assms(1)])
  ultimately show ?thesis using False live_borrowed [OF assms(1)]
    by (auto simp: borrow_chip_def case_prod_beta elim: safe_mono)
qed (use live_borrowed [OF assms(1)] in \<open>simp add: borrow_chip_def\<close>)

lemma slot_live:
  "live t sh w B h \<Longrightarrow> get_peripheral (w_slots w) a = Some p \<Longrightarrow> slot_peripheral p < length (sh_models sh)"
  by (auto simp: live_def world_ok_def get_peripheral_def binary_search_by_key_def Let_def split: sum.splits if_splits)

interpretation system_dma: dma_contract "system_dma w" "live t sh w B" for w t sh B
proof
  fix h :: "('a, 'b) hw" and addr n bs and h' :: "('a, 'b) hw" and irq
  assume h: "live t sh w B h"
  show "safe True (\<lambda>r. live t sh w B (snd r)) (sys_read_dma (system_dma w) addr n h)"
    using h by (auto simp: system_dma_def intro!: borrow_chip_safe live_read_dma dest: slot_live split: option.split)
  have "safe True (live t sh w C) (write_dma (chip_write w (slot_peripheral p) off) bs k)"
    if "get_peripheral (w_slots w) addr = Some p" "live t sh w C k" for p C k off
    unfolding write_dma_def
    by (rule safe_fold) (simp_all add: that live_write slot_live [OF h that(1)])
  then show "safe True (live t sh w B) (sys_write_dma (system_dma w) addr bs h)"
    using h by (auto simp: system_dma_def intro!: borrow_chip_safe split: option.split)
  show "live t sh w B h'" if "sys_mem_write (system_dma w) addr bs h = Some h'"
    using h that by (auto simp: system_dma_def live_def)
  have "safe True nvic_inv (set_intr_pending irq (hw_nvic h))"
    using h by (intro pend_safe) (auto simp: live_def sys_ok_def)
  then show "safe True (live t sh w B) (sys_pend (system_dma w) irq h)"
    using h by (auto simp: system_dma_def live_def intro: ok_nvic elim: safe_mono)
qed

section \<open>Polls and the bus\<close>

lemma live_poll:
  assumes h: "live t sh w B h" and i: "i < length (sh_models sh)"
  shows "safe True (live t sh w B) (chip_poll w i h)"
proof -
  have l: "i < length (hw_cells h)" using assms by (auto simp: live_def sys_ok_def shape_of_def)
  have ok: "sys_ok t sh B h" and w: "world_ok t sh w" using h by (simp_all add: live_def)
  note c = ok_chip [OF ok l]
  have put: "live t sh w B (put_chip i h' x)"
    if "live t sh w B h'" "chip_model x = chip_model (hw_cells h ! i)" "chip_ok (sh_devices sh) x" for h' x
  proof -
    have "shape_of h' = shape_of h" using that(1) h by (simp add: live_def sys_ok_def)
    then have "map chip_model (hw_cells h') = map chip_model (hw_cells h)" by (simp add: shape_of_def)
    then have "chip_model (hw_cells h' ! i) = chip_model (hw_cells h ! i)" using l by (metis map_eq_imp_length_eq nth_map)
    with that show ?thesis by (simp add: live_def ok_put)
  qed
  have nv: "live t sh w B (h\<lparr>hw_nvic := n\<rparr>)" if "nvic_inv n" for n
    using that w ok by (simp add: live_def ok_nvic)
  show ?thesis
  proof (cases "hw_cells h ! i")
    case (ChipTim5 x)
    have "safe True (\<lambda>r. nvic_inv (snd r)) (tim5_poll (hw_now h) (x, hw_nvic h))"
      using ok_nvic_inv [OF ok] by (simp add: tim5_poll_def Let_def pend_safe)
    then show ?thesis using ChipTim5
      by (auto simp: chip_poll_def case_prod_beta intro!: put nv elim!: safe_mono)
  next
    case (ChipTim6 x)
    have "safe True (\<lambda>r. nvic_inv (snd r)) (tim6_poll (hw_now h) (x, hw_nvic h))"
      using ok_nvic_inv [OF ok] by (simp add: tim6_poll_def Let_def pend_safe)
    then show ?thesis using ChipTim6
      by (auto simp: chip_poll_def case_prod_beta intro!: put nv elim!: safe_mono)
  next
    case (ChipOtg x j)
    then have "safe True (\<lambda>r. otg_shape (fst r) \<and> nvic_inv (snd r)) (otg_poll (hw_now h) (lend_bridge j h x, hw_nvic h))"
      using c ok_nvic_inv [OF ok] by (intro otg_poll_shape) simp_all
    then show ?thesis using ChipOtg c put nv w
      by (auto simp: chip_poll_def case_prod_beta live_def intro!: return_bridge_ok elim!: safe_mono)
  next
    case (ChipDma x)
    then have "safe True (\<lambda>r. dma_inv (fst r) \<and> live t sh w B (snd r)) (dma_poll (system_dma w) (hw_now h) (x, h))"
      using c h by (intro system_dma.poll_safe) simp_all
    then show ?thesis using ChipDma by (auto simp: chip_poll_def case_prod_beta intro!: put elim!: safe_mono)
  qed (use h in \<open>simp_all add: chip_poll_def\<close>)
qed

text \<open>With \<open>q\<close> true a panic is always allowed and what remains is that the invariant is kept.\<close>

interpretation system_bus: bus_contract "chip_ops w" "w_slots w" "live t sh w"
  "\<lambda>i. model_decodes (sh_models sh ! i)" "t \<or> q" for w t sh q
proof
  fix B and h :: "('a, 'b) hw" and p offset v
  show "live t sh w B h \<Longrightarrow> cell_borrowed (chip_ops w) p h \<longleftrightarrow> p \<in> B"
    by (simp add: chip_ops_def live_borrowed)
  show "live t sh w B h \<Longrightarrow> live t sh w (insert p B) (set_borrowed (chip_ops w) p True h)"
    using live_borrow [of t sh w B h "insert p B"] by (simp add: chip_ops_def live_borrowed)
  show "live t sh w (insert p B) h \<Longrightarrow> p \<notin> B \<Longrightarrow> live t sh w B (set_borrowed (chip_ops w) p False h)"
    using live_borrow [of t sh w "insert p B" h B] by (simp add: chip_ops_def live_borrowed)
  assume h: "live t sh w (insert p B) h" and p: "p \<in> slot_peripheral ` set (w_slots w)"
  have i: "p < length (sh_models sh)" using h p by (auto simp: live_def world_ok_def)
  show "safe True (live t sh w (insert p B)) (per_poll (chip_ops w) p h)"
    using live_poll [OF h i] by (simp add: chip_ops_def)
  assume d: "(t \<or> q) \<or> model_decodes (sh_models sh ! p) offset"
  show "safe (t \<or> q) (\<lambda>r. live t sh w (insert p B) (snd r)) (per_read (chip_ops w) p offset h)"
    using live_read [OF h i d] by (simp add: chip_ops_def)
  show "safe (t \<or> q) (live t sh w (insert p B)) (per_write (chip_ops w) p offset v h)"
    using live_write [OF h i d] by (simp add: chip_ops_def)
qed

end
