(* ===== verification/Reachable.thy ===== *)
theory Reachable
  imports SystemSafety
begin

text \<open>
  The states a running system goes through. \<open>sys_reach\<close> steps through firmware accesses, polls, exceptions,
  the CPU's own steps and what hosts do to the devices; every state of the run loop is reached by such
  steps, and the invariant of \<open>SystemSafety\<close> holds in all of them from the state \<open>prepare\<close> builds.
\<close>

section \<open>Exceptions and device polls\<close>

lemma nvic_inv_run_interrupt:
  "nvic_inv n \<Longrightarrow> safe True (\<lambda>r. nvic_inv (fst r)) (run_interrupt ops vt irq (n, u))"
  by (cases "read_vector_addr ops u vt irq";
      cases "push_regs ops (control_spsel (uc_reg_read ops CONTROL u)) (control_fpca (uc_reg_read ops CONTROL u)) u")
    (simp_all add: run_interrupt_def Let_def nvic_inv_def)

lemma nvic_inv_return:
  "nvic_inv n \<Longrightarrow> safe True (\<lambda>r. nvic_inv (fst r)) (return_from_interrupt ops (n, u))"
  unfolding return_from_interrupt_def Let_def
  by (rule safe_bind [where P = "\<lambda>_. True"]) (simp_all add: safe_True nvic_inv_def)

lemma nvic_inv_dispatch:
  assumes "nvic_inv n"
  shows "safe True (\<lambda>r. nvic_inv (fst r)) (run_pending_interrupts ops now vt (n, u))"
  unfolding run_pending_interrupts_def
proof (rule safe_bind)
  show "safe True nvic_inv (maybe_set_systick_intr_pending now (fst (n, u)))"
    using assms by (auto simp: maybe_set_systick_intr_pending_def pend_safe nvic_inv_def split: option.split)
  fix n' assume "nvic_inv n'"
  then show "safe True (\<lambda>r. nvic_inv (fst r))
      (let uc = snd (n, u) in if pending n' = 0 \<or> in_interrupt n' then Inr (n', uc)
       else if are_interrupts_disabled ops uc then Inr (n', uc)
       else if (ucast (uc_reg_read ops XPSR uc) :: u32) AND XPSR_ITSTATE_MASK \<noteq> 0 then Inr (n', uc)
       else case get_and_clear_next_dispatchable n' of
          (Some irq, n'') \<Rightarrow> run_interrupt ops vt irq (n'', uc) | (None, n'') \<Rightarrow> Inr (n'', uc))"
    by (auto simp: Let_def get_and_clear_next_dispatchable_def nvic_inv_run_interrupt split: option.split)
qed

lemma edges_inv: "nvic_inv n \<Longrightarrow> safe True (\<lambda>r. nvic_inv (snd (snd r))) (check_edges ps (e, x, n))"
proof (induction ps arbitrary: e x n)
  case (Cons q ps)
  obtain p name where q: "q = (p, name)" by (cases q)
  let ?level = "ecu_value name e \<noteq> 0"
  obtain irq x' where r: "raise_line_if_configured (pin_port p) (pin_number p) ?level x = (irq, x')" by fastforce
  have "safe True nvic_inv (case irq of None \<Rightarrow> Inr n | Some irq \<Rightarrow> set_intr_pending irq n)"
    using Cons.prems by (simp add: pend_safe split: option.split)
  then have "safe True (\<lambda>r. nvic_inv (snd (snd r)))
      (res_bind (case irq of None \<Rightarrow> Inr n | Some irq \<Rightarrow> set_intr_pending irq n) (\<lambda>n. check_edges ps (e', x', n)))" for e'
    by (rule safe_bind) (rule Cons.IH)
  then show ?case using Cons.IH [OF Cons.prems] unfolding q check_edges.simps Let_def r prod.case
    by (simp only: if_split simp_thms)
qed simp

lemma poll_ecu_inv: "nvic_inv n \<Longrightarrow> safe True (\<lambda>r. nvic_inv (snd (snd r))) (poll_ecu now s (e, x, n))"
  by (simp add: poll_ecu_def check_digital_edges_def edges_inv)

lemma poll_ecus_inv:
  "nvic_inv n \<Longrightarrow> safe True (\<lambda>r. length (fst r) = length es \<and> nvic_inv (snd (snd r))) (poll_ecus now answers i (es, x, n))"
proof (induction es arbitrary: i x n)
  case (Cons e es)
  show ?case unfolding poll_ecus.simps
  proof (rule safe_bind [OF poll_ecu_inv [OF Cons.prems]])
    fix r :: "ecu_io \<times> exti \<times> nvic" assume "nvic_inv (snd (snd r))"
    then show "safe True (\<lambda>r. length (fst r) = length (e # es) \<and> nvic_inv (snd (snd r)))
        (case r of (e, x, n) \<Rightarrow> res_map (\<lambda>(es, x, n). (e # es, x, n)) (poll_ecus now answers (Suc i) (es, x, n)))"
      using Cons.IH [of "snd (snd r)" "Suc i" "fst (snd r)"]
      by (cases r) (auto simp: case_prod_beta elim: safe_mono)
  qed
qed simp

lemma live_devices_poll:
  assumes "live t sh w B h"
  shows "safe True (live t sh w B) (system_poll_devices w h)"
proof -
  have kept: "live t sh w B (h\<lparr>hw_devices := (hw_devices h)\<lparr>usb_cdc_tcps := bs, ecu_ios := es\<rparr>,
      hw_exti := x, hw_nvic := n, hw_round := r\<rparr>)"
    if "length bs = length (usb_cdc_tcps (hw_devices h))" "length es = length (ecu_ios (hw_devices h))" "nvic_inv n"
    for bs es x n r
    using that assms by (auto simp: live_def sys_ok_def shape_of_def device_counts_def devices_ok_def)
  have "nvic_inv (hw_nvic h)" using assms by (simp add: live_def sys_ok_def)
  from poll_ecus_inv [OF this, of "ecu_ios (hw_devices h)" "hw_now h" "snd (w_answers w (hw_round h))" 0 "hw_exti h"]
  show ?thesis
    by (auto simp: system_poll_devices_def devices_poll_def Let_def case_prod_beta intro!: kept elim!: safe_mono)
qed

section \<open>Steps\<close>

inductive sys_reach :: "('u, 'f) world \<Rightarrow> ('u, 'f) hw \<Rightarrow> ('u, 'f) hw \<Rightarrow> bool" for w h0 where
  reach_start: "sys_reach w h0 h0"
| reach_read: "sys_reach w h0 h \<Longrightarrow> system_read w addr sz h = Inr (v, h') \<Longrightarrow> sys_reach w h0 h'"
| reach_write: "sys_reach w h0 h \<Longrightarrow> system_write w addr sz v h = Inr h' \<Longrightarrow> sys_reach w h0 h'"
| reach_poll: "sys_reach w h0 h \<Longrightarrow> system_poll w h = Inr h' \<Longrightarrow> sys_reach w h0 h'"
| reach_devices: "sys_reach w h0 h \<Longrightarrow> system_poll_devices w h = Inr h' \<Longrightarrow> sys_reach w h0 h'"
| reach_dispatch: "sys_reach w h0 h \<Longrightarrow>
    run_pending_interrupts ops now vt (hw_nvic h, hw_uc h) = Inr (n, u) \<Longrightarrow> sys_reach w h0 (h\<lparr>hw_nvic := n, hw_uc := u\<rparr>)"
| reach_return: "sys_reach w h0 h \<Longrightarrow>
    return_from_interrupt ops (hw_nvic h, hw_uc h) = Inr (n, u) \<Longrightarrow> sys_reach w h0 (h\<lparr>hw_nvic := n, hw_uc := u\<rparr>)"
| reach_svcall: "sys_reach w h0 h \<Longrightarrow>
    enter_svcall ops vt (hw_nvic h, hw_uc h) = Inr (n, u) \<Longrightarrow> sys_reach w h0 (h\<lparr>hw_nvic := n, hw_uc := u\<rparr>)"
| reach_cpu: "sys_reach w h0 h \<Longrightarrow> sys_reach w h0 (h\<lparr>hw_uc := u, hw_now := now\<rparr>)"
| reach_touch: "sys_reach w h0 h \<Longrightarrow> length ts = length (touchscreens (hw_devices h)) \<Longrightarrow>
    sys_reach w h0 (h\<lparr>hw_devices := (hw_devices h)\<lparr>touchscreens := ts\<rparr>\<rparr>)"
| reach_links: "sys_reach w h0 h \<Longrightarrow> length bs = length (usb_cdc_tcps (hw_devices h)) \<Longrightarrow>
    length es = length (ecu_ios (hw_devices h)) \<Longrightarrow>
    sys_reach w h0 (h\<lparr>hw_devices := (hw_devices h)\<lparr>usb_cdc_tcps := bs, ecu_ios := es\<rparr>\<rparr>)"

lemma live_cpu:
  assumes "live t sh w B h" "safe True (\<lambda>r. nvic_inv (fst r)) r" "r = Inr (n, u)"
  shows "live t sh w B (h\<lparr>hw_nvic := n, hw_uc := u\<rparr>)"
  using assms by (simp add: live_def ok_nvic)

lemma live_nvic: "live t sh w B h \<Longrightarrow> nvic_inv (hw_nvic h)"
  by (simp add: live_def sys_ok_def)

text \<open>The invariant holds in every state reached from one where it holds.\<close>

lemma live_reach: "sys_reach w h0 h \<Longrightarrow> live t sh w {} h0 \<Longrightarrow> live t sh w {} h"
proof (induction rule: sys_reach.induct)
  case (reach_read h addr sz v h')
  from system_bus.bus_read_safe [of t sh w "{}" h True addr sz] this show ?case
    by (simp add: system_read_def)
next
  case (reach_write h addr sz v h')
  from system_bus.bus_write_safe [of t sh w "{}" h True addr sz v] this show ?case
    by (simp add: system_write_def)
next
  case (reach_poll h h')
  from system_bus.bus_poll_safe [of t sh w "{}" h] this show ?case by (simp add: system_poll_def)
next
  case (reach_devices h h')
  with live_devices_poll [of t sh w "{}" h] show ?case by simp
next
  case (reach_dispatch h ops now vt n u)
  then have l: "live t sh w {} h" by blast
  from live_cpu [OF l nvic_inv_dispatch [OF live_nvic [OF l]] reach_dispatch.hyps(2)] show ?case .
next
  case (reach_return h ops n u)
  then have l: "live t sh w {} h" by blast
  from live_cpu [OF l nvic_inv_return [OF live_nvic [OF l]] reach_return.hyps(2)] show ?case .
next
  case (reach_svcall h ops vt n u)
  then have l: "live t sh w {} h" by blast
  from live_cpu [OF l nvic_inv_run_interrupt [OF live_nvic [OF l]] reach_svcall.hyps(2) [unfolded enter_svcall_def]] show ?case .
next
  case (reach_touch h ts)
  then show ?case by (auto simp: live_def sys_ok_def shape_of_def device_counts_def devices_ok_def)
next
  case (reach_links h bs es)
  then show ?case by (auto simp: live_def sys_ok_def shape_of_def device_counts_def devices_ok_def)
qed (simp_all add: live_def)

section \<open>The run loop\<close>

text \<open>The hardware of a machine of the run loop over the system.\<close>

definition hardware :: "('u, ('u, 'f) hw) machine \<Rightarrow> ('u, 'f) hw" where
  "hardware m = (m_sys m)\<lparr>hw_nvic := m_nvic m, hw_uc := m_uc m\<rparr>"

text \<open>What the windows' event pump does to the system: it moves touch positions.\<close>

definition pump_touches :: "(('u, 'f) hw \<Rightarrow> bool \<times> ('u, 'f) hw) \<Rightarrow> bool" where
  "pump_touches pump \<longleftrightarrow> (\<forall>h. \<exists>ts. length ts = length (touchscreens (hw_devices h)) \<and>
     snd (pump h) = h\<lparr>hw_devices := (hw_devices h)\<lparr>touchscreens := ts\<rparr>\<rparr>)"

lemma reach_cpu': "sys_reach w h0 (hardware m) \<Longrightarrow> m_sys m' = m_sys m \<Longrightarrow> m_nvic m' = m_nvic m \<Longrightarrow> sys_reach w h0 (hardware m')"
proof -
  assume r: "sys_reach w h0 (hardware m)" and m: "m_sys m' = m_sys m" "m_nvic m' = m_nvic m"
  have "(hardware m)\<lparr>hw_uc := m_uc m', hw_now := hw_now (hardware m)\<rparr> = hardware m'"
    using m by (simp add: hardware_def)
  with reach_cpu [OF r] show ?thesis by metis
qed

lemma enter_hardware: "enter now (m_nvic m, m_uc m, m_sys m) = (hardware m)\<lparr>hw_uc := m_uc m, hw_now := now\<rparr>"
  by (simp add: enter_def hardware_def)

lemma hardware_leave [simp]: "hardware (m\<lparr>m_nvic := hw_nvic h, m_uc := hw_uc h, m_sys := h\<rparr>) = h"
  by (simp add: hardware_def)

lemma reach_enter: "sys_reach w h0 (hardware m) \<Longrightarrow> sys_reach w h0 (enter now (m_nvic m, m_uc m, m_sys m))"
  unfolding enter_hardware by (rule reach_cpu)

text \<open>Every operation of the host and of the exception logic is a step.\<close>

lemma reach_on_hw:
  assumes "sys_reach w h0 (hardware m)" "on_hw f m = Inr m'"
    and "\<And>st. f st = res_map leave (g (enter now st))"
    and "\<And>h h'. sys_reach w h0 h \<Longrightarrow> g h = Inr h' \<Longrightarrow> sys_reach w h0 h'"
  shows "sys_reach w h0 (hardware m')"
  using assms(4) [OF reach_enter [OF assms(1), of now]] assms(2,3) by (auto simp: on_hw_def leave_def)

lemma reach_on_cpu:
  assumes "on_cpu f m = Inr m'"
    and "\<And>n u. f (hw_nvic (hardware m), hw_uc (hardware m)) = Inr (n, u) \<Longrightarrow>
      sys_reach w h0 ((hardware m)\<lparr>hw_nvic := n, hw_uc := u\<rparr>)"
  shows "sys_reach w h0 (hardware m')"
  using assms by (auto simp: on_cpu_def hardware_def)

lemma reach_dispatch_cpu:
  "sys_reach w h0 (hardware m) \<Longrightarrow> on_cpu (run_pending_interrupts ops now vt) m = Inr m' \<Longrightarrow> sys_reach w h0 (hardware m')"
  by (erule reach_on_cpu) (rule reach_dispatch)

lemma reach_exception_return:
  assumes "sys_reach w h0 (hardware m)" "exception_return ops vt m = Inr m'"
  shows "sys_reach w h0 (hardware m')"
proof -
  obtain m1 where m1: "on_cpu (return_from_interrupt ops) m = Inr m1"
    "on_cpu (run_pending_interrupts ops (num_instructions m1) vt) m1 = Inr m'"
    using assms(2) by (auto simp: exception_return_def)
  have "sys_reach w h0 (hardware m1)" by (rule reach_on_cpu [OF m1(1)]) (rule reach_return [OF assms(1)])
  from reach_dispatch_cpu [OF this m1(2)] show ?thesis .
qed

lemma reach_intr:
  assumes "sys_reach w h0 (hardware m)" "intr_hook ops vt e m = Inr (Some m')"
  shows "sys_reach w h0 (hardware m')"
proof -
  consider "exception_return ops vt m = Inr m'" | "on_cpu (enter_svcall ops vt) m = Inr m'" | "m' = m"
    using assms(2) by (auto simp: intr_hook_def Let_def split: if_splits)
  then show ?thesis
  proof cases
    case 2
    show ?thesis by (rule reach_on_cpu [OF 2]) (rule reach_svcall [OF assms(1)])
  qed (use assms(1) reach_exception_return in auto)
qed

lemma reach_block:
  assumes "pump_touches pump" "sys_reach w h0 (hardware m)" "block_hook ops (system_host w pump) args vt addr sz m = Inr m'"
  shows "sys_reach w h0 (hardware m')"
proof -
  let ?n = "num_instructions m" and ?m = "note_block ops args addr sz m"
  have noted: "sys_reach w h0 (hardware ?m)" by (rule reach_cpu' [OF assms(2)]) (simp_all add: note_block_frame)
  obtain m1 where m1: "dispatch_when_due ops args vt ?n ?m = Inr m1" and p: "pump_when_due ops (system_host w pump) ?n m1 = Inr m'"
    using assms(3) by (auto simp: block_hook_def Let_def)
  have r1: "sys_reach w h0 (hardware m1)"
  proof (cases "ucast (interrupt_period args) \<le> ?n - last_interrupt_check ?m")
    case True
    have "sys_reach w h0 (hardware (?m\<lparr>last_interrupt_check := ?n\<rparr>))" by (rule reach_cpu' [OF noted]) simp_all
    with m1 True show ?thesis by (auto simp: dispatch_when_due_def intro: reach_dispatch_cpu)
  qed (use m1 noted in \<open>simp add: dispatch_when_due_def\<close>)
  show ?thesis
  proof (cases "PUMP_EVENT_INST_INTERVAL + 1 \<le> ?n - last_pump m1")
    case True
    then obtain m2 m3 where m2: "on_hw (host_poll_devices (system_host w pump) (num_instructions m1)) (m1\<lparr>last_pump := ?n\<rparr>) = Inr m2"
      and m3: "on_hw (host_poll_peripherals (system_host w pump) (num_instructions m2)) m2 = Inr m3"
      and m': "m' = (if fst (pump (m_sys m3)) then m3\<lparr>m_sys := snd (pump (m_sys m3))\<rparr>
         else stop_engine ops (m3\<lparr>m_sys := snd (pump (m_sys m3)), stop_requested := True\<rparr>))"
      using p by (auto simp: pump_when_due_def system_host_def Let_def split: if_splits)
    have "sys_reach w h0 (hardware (m1\<lparr>last_pump := ?n\<rparr>))" by (rule reach_cpu' [OF r1]) simp_all
    then have "sys_reach w h0 (hardware m2)"
      by (rule reach_on_hw [OF _ m2, where now = "num_instructions m1" and g = "system_poll_devices w"])
        (auto simp: system_host_def intro: reach_devices)
    then have r3: "sys_reach w h0 (hardware m3)"
      by (rule reach_on_hw [OF _ m3, where now = "num_instructions m2" and g = "system_poll w"])
        (auto simp: system_host_def intro: reach_poll)
    obtain ts where ts: "length ts = length (touchscreens (hw_devices (m_sys m3)))"
      "snd (pump (m_sys m3)) = (m_sys m3)\<lparr>hw_devices := (hw_devices (m_sys m3))\<lparr>touchscreens := ts\<rparr>\<rparr>"
      using assms(1) unfolding pump_touches_def by blast
    have "sys_reach w h0 ((hardware m3)\<lparr>hw_devices := (hw_devices (hardware m3))\<lparr>touchscreens := ts\<rparr>\<rparr>)"
      by (rule reach_touch [OF r3]) (simp add: hardware_def ts(1))
    also have "(hardware m3)\<lparr>hw_devices := (hw_devices (hardware m3))\<lparr>touchscreens := ts\<rparr>\<rparr> =
        hardware (m3\<lparr>m_sys := snd (pump (m_sys m3))\<rparr>)" by (simp add: hardware_def ts(2))
    finally have r4: "sys_reach w h0 (hardware (m3\<lparr>m_sys := snd (pump (m_sys m3))\<rparr>))" .
    show ?thesis by (rule reach_cpu' [OF r4]) (simp_all add: m')
  qed (use p r1 in \<open>simp add: pump_when_due_def\<close>)
qed

lemma reach_drive:
  assumes "pump_touches pump"
  shows "sys_reach w h0 (hardware m) \<Longrightarrow> Emulator.drive fuel eng (system_host w pump) args vt m = Some (Inr (e, m')) \<Longrightarrow>
    sys_reach w h0 (hardware m')"
proof (induction fuel arbitrary: m)
  case (Suc fuel)
  obtain event u where ev: "eng_next eng (m_uc m) = (event, u)" by fastforce
  let ?m = "m\<lparr>m_uc := u\<rparr>"
  have r: "sys_reach w h0 (hardware ?m)" by (rule reach_cpu' [OF Suc.prems(1)]) simp_all
  note prem = Suc.prems(2) [simplified Emulator.drive.simps ev Let_def prod.case]
  show ?case
  proof (cases event)
    case (BlockEntry addr sz)
    with prem obtain m1 where "block_hook (eng_ops eng) (system_host w pump) args vt addr sz ?m = Inr m1"
      "Emulator.drive fuel eng (system_host w pump) args vt m1 = Some (Inr (e, m'))"
      by (auto split: sum.splits)
    then show ?thesis using Suc.IH reach_block [OF assms r] by blast
  next
    case (InterruptRaised x)
    have "sys_reach w h0 (hardware m1)" if "intr_hook (eng_ops eng) vt x ?m = Inr (Some m1)" for m1
      by (rule reach_intr [OF r that])
    with prem InterruptRaised r show ?thesis by (auto intro: Suc.IH split: sum.splits option.splits)
  next
    case UnmappedAccess
    have "sys_reach w h0 (hardware (unmapped_hook (eng_ops eng) ?m))"
      by (rule reach_cpu' [OF r]) (simp_all add: unmapped_hook_def Let_def)
    with prem UnmappedAccess show ?thesis using Suc.IH by auto
  next
    case (MmioRead base off sz)
    then obtain v h where h: "system_read w (base + ucast off) sz (enter (num_instructions ?m) (m_nvic ?m, m_uc ?m, m_sys ?m)) = Inr (v, h)"
      and d: "Emulator.drive fuel eng (system_host w pump) args vt
        (?m\<lparr>m_nvic := hw_nvic h, m_uc := eng_answer eng (ucast v) (hw_uc h), m_sys := h\<rparr>) = Some (Inr (e, m'))"
      using prem by (auto simp: system_host_def leave_def split: sum.splits)
    have "sys_reach w h0 (hardware (?m\<lparr>m_nvic := hw_nvic h, m_uc := hw_uc h, m_sys := h\<rparr>))"
      using reach_read [OF reach_enter [OF r] h] by simp
    then have "sys_reach w h0 (hardware (?m\<lparr>m_nvic := hw_nvic h, m_uc := eng_answer eng (ucast v) (hw_uc h), m_sys := h\<rparr>))"
      by (rule reach_cpu') simp_all
    from Suc.IH [OF this d] show ?thesis .
  next
    case (MmioWrite base off sz v)
    with prem obtain m1 where m1: "on_hw (host_write (system_host w pump) (num_instructions m) (base + ucast off) sz (ucast v)) ?m = Inr m1"
      "Emulator.drive fuel eng (system_host w pump) args vt m1 = Some (Inr (e, m'))"
      by (auto split: sum.splits)
    have "sys_reach w h0 (hardware m1)"
      by (rule reach_on_hw [OF r m1(1), where now = "num_instructions m" and g = "system_write w (base + ucast off) sz (ucast v)"])
        (auto simp: system_host_def intro: reach_write)
    from Suc.IH [OF this m1(2)] show ?thesis .
  next
    case (EmuReturned err)
    with prem r show ?thesis by auto
  qed
qed simp

lemma reach_run_loop:
  assumes "pump_touches pump"
  shows "sys_reach w h0 (hardware m) \<Longrightarrow> run_loop fuel eng (system_host w pump) args vt pc m = Some (Inr (e, m')) \<Longrightarrow>
    sys_reach w h0 (hardware m')"
proof (induction fuel arbitrary: m pc)
  case (Suc fuel)
  show ?case
  proof (cases "remaining args m = Some 0")
    case False
    let ?u = "eng_start eng pc (ucast (unwrap_or_0 (stop_addr args))) (unwrap_or_0 (remaining args m)) (m_uc m)"
    obtain fin m1 where d: "Emulator.drive fuel eng (system_host w pump) args vt (m\<lparr>m_uc := ?u\<rparr>) = Some (Inr (fin, m1))"
      using Suc.prems(2) False by (auto simp: Let_def split: option.splits sum.splits prod.splits)
    have "sys_reach w h0 (hardware (m\<lparr>m_uc := ?u\<rparr>))" by (rule reach_cpu' [OF Suc.prems(1)]) simp_all
    from reach_drive [OF assms this d] have r1: "sys_reach w h0 (hardware m1)" .
    have r2: "sys_reach w h0 (hardware (m1\<lparr>continue_execution := False\<rparr>))" by (rule reach_cpu' [OF r1]) simp_all
    show ?thesis
      using Suc.prems(2) False d r1 Suc.IH [OF r1] Suc.IH [OF r2]
      by (cases fin) (auto simp: Let_def split: if_splits option.splits)
  qed (use Suc.prems in simp)
qed simp

end
