(* ===== verification/Startup.thy ===== *)
theory Startup
  imports Reachable
begin

text \<open>
  \<open>prepare\<close> establishes the invariant of the system: the devices, the closures they put on the pins, the
  peripherals found for the SVD's names and the software buses.
\<close>

section \<open>Closures on the pins\<close>

lemma pin_from_str_bounds:
  assumes "pin_from_str s = Inr p"
  shows "pin_number p < 16"
  using assms by (auto simp: pin_from_str_def split: option.splits if_splits prod.splits)

lemma set_update: "x \<in> set (xs[i := y]) \<Longrightarrow> x \<in> set xs \<or> x = y"
  using set_update_subset_insert [of xs i y] by auto

lemma ports_ok_default: "ports_ok t sh gpio_ports_default"
  by (auto simp: ports_ok_def ports_wf_default) (auto simp: gpio_ports_default_def)

lemma case_fallible_Inr [simp]:
  "(case x of Inl e \<Rightarrow> Inr (Inl e) | Inr y \<Rightarrow> f y) = Inr (Inr z) \<longleftrightarrow> (\<exists>y. x = Inr y \<and> f y = Inr (Inr z))"
  by (cases x) auto

lemma Inr_eq_res_map [simp]: "Inr y = res_map f m \<longleftrightarrow> (\<exists>x. m = Inr x \<and> y = f x)"
  by (cases m) auto

lemma try_in_Inr [simp]: "try_in x f = Inr (Inr z) \<longleftrightarrow> (\<exists>y. x = Inr y \<and> f y = Inr (Inr z))"
  by (simp add: try_in_def)

lemma callbacks_update:
  assumes "\<forall>cbs \<in> set xs. \<forall>x \<in> set cbs. Q x" "i < length xs" "Q y"
  shows "\<forall>cbs \<in> set (xs[i := xs ! i @ [y]]). \<forall>x \<in> set cbs. Q x"
proof (intro ballI)
  fix cbs x assume c: "cbs \<in> set (xs[i := xs ! i @ [y]])" and x: "x \<in> set cbs"
  have old: "Q z" if "z \<in> set (xs ! i)" for z using assms(1,2) that nth_mem by blast
  from set_update [OF c] show "Q x" using assms(1,3) x old by auto
qed

lemma add_read_ok:
  assumes "ports_ok t sh g" "add_read_callback p cb g = Inr g'" "pin_number p < 16" "\<And>s. snd (cb s) = s"
  shows "ports_ok t sh g'"
proof -
  have g': "g' = g\<lparr>read_callbacks := (read_callbacks g)[pin_port p := read_callbacks g ! pin_port p @ [(pin_number p, cb)]]\<rparr>"
    and l: "pin_port p < length (read_callbacks g)"
    using assms(2) by (auto simp: add_read_callback_def index_res_def split: if_splits)
  have "\<forall>cbs \<in> set (read_callbacks g'). \<forall>(p, cb) \<in> set cbs. p < 16" unfolding g'
    by simp (rule callbacks_update [OF _ l], use assms(1,3) in \<open>simp_all add: ports_ok_def ports_wf_def\<close>)
  moreover have "\<forall>cbs \<in> set (read_callbacks g'). \<forall>(p, cb) \<in> set cbs. \<forall>s. snd (cb s) = s" unfolding g'
    by simp (rule callbacks_update [OF _ l], use assms(1,4) in \<open>simp_all add: ports_ok_def\<close>)
  ultimately show ?thesis using assms(1) by (simp add: g' ports_ok_def ports_wf_def)
qed

lemma add_write_ok:
  assumes "ports_ok t sh g" "add_write_callback p cb g = Inr g'" "pin_number p < 16"
    "\<And>v B s. safe t (sys_ok t sh B) s \<Longrightarrow> safe t (sys_ok t sh B) (cb v s)"
  shows "ports_ok t sh g'"
proof -
  have g': "g' = g\<lparr>write_callbacks := (write_callbacks g)[pin_port p := write_callbacks g ! pin_port p @ [(pin_number p, cb)]]\<rparr>"
    and l: "pin_port p < length (write_callbacks g)"
    using assms(2) by (auto simp: add_write_callback_def index_res_def split: if_splits)
  have "\<forall>cbs \<in> set (write_callbacks g'). \<forall>(p, cb) \<in> set cbs. p < 16" unfolding g'
    by simp (rule callbacks_update [OF _ l], use assms(1,3) in \<open>simp_all add: ports_ok_def ports_wf_def\<close>)
  moreover have "\<forall>cbs \<in> set (write_callbacks g'). \<forall>(p, cb) \<in> set cbs. \<forall>v B s.
      safe t (sys_ok t sh B) s \<longrightarrow> safe t (sys_ok t sh B) (cb v s)" unfolding g'
    by simp (rule callbacks_update [OF _ l], use assms(1,4) in \<open>simp_all add: ports_ok_def\<close>)
  ultimately show ?thesis using assms(1) by (simp add: g' ports_ok_def ports_wf_def)
qed

lemma touchscreen_ports:
  assumes "ports_ok t sh g" "touchscreen_new a fbs i c g = Inr (Inr (d, g'))"
  shows "ports_ok t sh g'"
proof (cases "touch_detected_pin c")
  case None
  with assms show ?thesis by (auto simp: touchscreen_new_def)
next
  case (Some name)
  with assms(2) obtain pin where "pin_from_str name = Inr pin"
    "add_read_callback pin (\<lambda>s. (fb_touch (acc_touch a i s) = None, s)) g = Inr g'"
    by (auto simp: touchscreen_new_def)
  then show ?thesis by (auto intro: add_read_ok [OF assms(1)] dest: pin_from_str_bounds)
qed

lemma ecu_ports:
  assumes "ports_ok t sh g" "new_ecu (hw_access out) i c g = Inr (Inr (d, g'))"
  shows "ports_ok t sh g'"
proof -
  let ?view = "acc_ecu (hw_access out) i" and ?upd = "acc_upd_ecu (hw_access out) i" and ?clock = "acc_clock (hw_access out)"
  let ?add = "\<lambda>(pin, name, direction) gpio. case direction of
      DirInput \<Rightarrow> add_read_callback pin (\<lambda>s. (digital_level name (?view s), s)) gpio
    | DirOutput \<Rightarrow> add_write_callback pin (\<lambda>v s. ?upd (report_output (?clock s) name v) s) gpio"
  obtain pins where pins: "map_res (\<lambda>p. res_map (\<lambda>pin. (pin, pc_name p, pc_direction p)) (pin_from_str (pc_pin p))) (ecu_pins c) = Inr pins"
    and add: "fold_res ?add pins g = Inr g'"
    using assms(2) by (auto simp: new_ecu_def ecu_register_def)
  have n: "\<forall>x \<in> set pins. pin_number (fst x) < 16"
    using pins unfolding map_res_eq_Inr
    by (fastforce simp: list_all2_conv_all_nth in_set_conv_nth dest: pin_from_str_bounds)
  have upd: "safe t (sys_ok t sh B) (?upd f s)" if "safe t (sys_ok t sh B) s" for f B s
    using that by (auto simp: hw_access_def intro: ok_devices kept_ecu ok_devices_ok elim!: safe_mono)
  have step: "ports_ok t sh k'" if "x \<in> set pins" "ports_ok t sh k" "?add x k = Inr k'" for x k k'
  proof -
    obtain pin name dir where x: "x = (pin, name, dir)" by (rule prod_cases3)
    have p: "pin_number pin < 16" using n that(1) x by auto
    show ?thesis
    proof (cases dir)
      case DirInput
      with that(3) x have "add_read_callback pin (\<lambda>s. (digital_level name (?view s), s)) k = Inr k'" by simp
      from add_read_ok [OF that(2) this p] show ?thesis by simp
    next
      case DirOutput
      with that(3) x have "add_write_callback pin (\<lambda>v s. ?upd (report_output (?clock s) name v) s) k = Inr k'" by simp
      from add_write_ok [OF that(2) this p upd] show ?thesis .
    qed
  qed
  have "set xs \<subseteq> set pins \<Longrightarrow> ports_ok t sh k \<Longrightarrow> fold_res ?add xs k = Inr k' \<Longrightarrow> ports_ok t sh k'" for xs k k'
  proof (induction xs arbitrary: k)
    case (Cons x xs)
    then obtain k1 where "?add x k = Inr k1" "fold_res ?add xs k1 = Inr k'" by auto
    with Cons step [of x k k1] show ?case by auto
  qed simp
  from this [OF subset_refl assms(1) add] show ?thesis .
qed

lemma new_each_ports:
  assumes "\<And>i c g d g'. ports_ok t sh g \<Longrightarrow> new i c g = Inr (Inr (d, g')) \<Longrightarrow> ports_ok t sh g'"
  shows "ports_ok t sh g \<Longrightarrow> new_each new i cs g = Inr (Inr (ds, g')) \<Longrightarrow> ports_ok t sh g'"
proof (induction cs arbitrary: i g ds)
  case (Cons c cs)
  from Cons.prems(2) obtain d g1 where d: "new i c g = Inr (Inr (d, g1))"
    "\<exists>ds. new_each new (Suc i) cs g1 = Inr (Inr (ds, g'))"
    by auto
  from Cons.IH [OF assms [OF Cons.prems(1) d(1)]] d(2) show ?case by blast
qed simp

lemma devices_ports:
  assumes "into_ext_devices (hw_access out) fbs c gpio_ports_default = Inr (Inr (d, ports))"
  shows "ports_ok t sh ports"
proof -
  obtain ts g es where ts: "new_each (touchscreen_new (hw_access out) fbs) 0 (unwrap_or_default (cfg_touchscreen c)) gpio_ports_default = Inr (Inr (ts, g))"
    and es: "new_each (new_ecu (hw_access out)) 0 (unwrap_or_default (cfg_ecu_io c)) g = Inr (Inr (es, ports))"
    using assms by (auto simp: into_ext_devices_def Let_def)
  have "ports_ok t sh g" by (rule new_each_ports [OF touchscreen_ports ports_ok_default ts])
  from new_each_ports [OF ecu_ports this es] show ?thesis .
qed

section \<open>Registration\<close>

text \<open>Naming a device after its peripheral changes neither how many there are nor whether they can panic.\<close>

definition same_devices :: "ext_devices \<Rightarrow> ext_devices \<Rightarrow> bool" where
  "same_devices d d' \<longleftrightarrow> device_counts d' = device_counts d \<and> (\<forall>t. devices_ok t d' = devices_ok t d)"

lemma same_refl [simp]: "same_devices d d"
  by (simp add: same_devices_def)

lemma same_trans: "same_devices d d' \<Longrightarrow> same_devices d' d'' \<Longrightarrow> same_devices d d''"
  by (simp add: same_devices_def)

lemma list_all_same: "map P xs = map P ys \<Longrightarrow> list_all P xs = list_all P ys"
proof -
  have "list_all P zs = list_all (\<lambda>b. b) (map P zs)" for zs by (simp add: list_all_iff)
  then show "map P xs = map P ys \<Longrightarrow> list_all P xs = list_all P ys" by metis
qed

lemma connect_same: "same_devices d (snd (connect_serial name x d))"
proof (cases x)
  case (FlashAt i)
  have "list_all flash_inv ((spi_flashes d)[i := (spi_flashes d ! i)\<lparr>sf_name := n\<rparr>]) = list_all flash_inv (spi_flashes d)" for n
    by (intro list_all_same map_update_same) (simp add: flash_inv_def)
  with FlashAt show ?thesis
    by (simp add: connect_serial_def same_devices_def device_counts_def devices_ok_def Let_def case_prod_beta)
next
  case (LcdAt i)
  have "list_all lcd_inv ((lcds d)[i := ((fst (lcds d ! i))\<lparr>lcd_name := n\<rparr>, snd (lcds d ! i))]) = list_all lcd_inv (lcds d)" for n
    by (intro list_all_same map_update_same) (cases "lcds d ! i", simp add: lcd_inv_def)
  with LcdAt show ?thesis
    by (simp add: connect_serial_def same_devices_def device_counts_def devices_ok_def Let_def case_prod_beta)
qed (simp_all add: connect_serial_def same_devices_def device_counts_def devices_ok_def Let_def case_prod_beta)

lemma connect_display_same: "same_devices d (connect_display name j d)"
proof (cases j)
  case (Some k)
  have "list_all display_inv ((displays d)[k := ((fst (displays d ! k))\<lparr>d_name := n\<rparr>, snd (displays d ! k))])
      = list_all display_inv (displays d)" for n
    by (intro list_all_same map_update_same) (cases "displays d ! k", simp add: display_inv_def)
  with Some show ?thesis
    by (simp add: connect_display_def display_connect_peripheral_def same_devices_def device_counts_def devices_ok_def)
qed (simp add: connect_display_def)

lemma connect_found_ok:
  assumes "connect_found name d = (n, x, d')"
  shows "same_devices d d' \<and> serial_exists (device_counts d') x"
proof (cases "find_serial_device name d")
  case None
  with assms show ?thesis by (auto simp: connect_found_def serial_exists_def)
next
  case (Some y)
  with serial_lookup [of name d] have "wired_to y d = Some name" by simp
  then have "serial_exists (device_counts d) (Some y)"
    by (cases y) (auto simp: serial_exists_def device_counts_def split: if_splits)
  moreover from Some assms have "x = Some y" "d' = snd (connect_serial name y d)"
    by (auto simp: connect_found_def Let_def split: prod.splits)
  ultimately show ?thesis using connect_same [of d name y] by (simp add: same_devices_def)
qed

lemma first_some_mem: "first_some xs = Some y \<Longrightarrow> Some y \<in> set xs"
  by (induction xs) (auto simp: or_else_Some)

lemma position_less: "position P xs = Some i \<Longrightarrow> i < length xs"
  by (simp add: position_Some)

lemma new_usart_ok: "new_usart name d = Some (c, d') \<Longrightarrow> same_devices d d' \<and> chip_ok (device_counts d') c"
  by (cases "connect_found name d") (auto simp: new_usart_def dest: connect_found_ok)

lemma new_spi_ok: "new_spi name d = Some (c, d') \<Longrightarrow> same_devices d d' \<and> chip_ok (device_counts d') c"
  by (cases "connect_found name d") (auto simp: new_spi_def dest: connect_found_ok)

lemma bank_new_ok:
  assumes "bank_new b d = (j, d')"
  shows "same_devices d d' \<and> exists_at (device_counts d ! 2) j"
  using assms connect_display_same [of d "fsmc_bank_name b" j]
  by (auto simp: bank_new_def Let_def exists_at_def find_mem_device_def device_counts_def dest: position_less
      split: option.split)

lemma fsmc_new_ok:
  assumes "fsmc_new name d = Some (c, d')"
  shows "same_devices d d' \<and> chip_ok (device_counts d') c"
proof -
  obtain b0 b1 b2 b3 d1 d2 d3 where b: "bank_new 0 d = (b0, d1)" "bank_new 1 d1 = (b1, d2)" "bank_new 2 d2 = (b2, d3)"
    "bank_new 3 d3 = (b3, d')" and c: "c = ChipFsmc [b0, b1, b2, b3]"
    using assms by (auto simp: fsmc_new_def Let_def split: prod.splits if_splits)
  from b [THEN bank_new_ok] show ?thesis by (simp add: c same_devices_def)
qed

lemma first_some_all: "first_some xs = Some y \<Longrightarrow> \<forall>x \<in> set xs. pred_option Q x \<Longrightarrow> Q y"
  using first_some_mem [of xs y] by force

definition found_ok :: "ext_devices \<Rightarrow> chip \<times> ext_devices \<Rightarrow> bool" where
  "found_ok d r \<longleftrightarrow> same_devices d (snd r) \<and> chip_ok (device_counts (snd r)) (fst r)"

lemma found_plain: "(\<And>c. x = Some c \<Longrightarrow> chip_ok (device_counts d) c) \<Longrightarrow> pred_option (found_ok d) (map_option (\<lambda>c. (c, d)) x)"
  by (cases x) (simp_all add: found_ok_def)

lemma found_free: "(\<And>x ns. chip_ok ns (C x)) \<Longrightarrow> pred_option (found_ok d) (map_option (\<lambda>c. (c, d)) (map_option C y))"
  by (rule found_plain) auto

lemma new_chip_ok:
  assumes "new_chip fl name d = Inr (Some r)"
  shows "found_ok d r"
proof -
  let ?core = "or_else (map_option ChipNvic (nvic_wrapper_new name))
         (or_else (map_option ChipSysTick (systick_new name)) (map_option ChipScb (scb_new name)))"
  have core: "chip_ok ns c" if "?core = Some c" for ns c
    using that by (auto simp: or_else_Some nvic_wrapper_new_def split: if_splits)
  show ?thesis
  proof (cases "?core = None")
    case False
    with assms have "map_option (\<lambda>c. (c, d)) ?core = Some r" by (simp add: new_chip_def)
    with core show ?thesis by (auto simp: found_ok_def)
  next
    case True
    note first_some.simps [simp del] and a = assms [unfolded new_chip_def Let_def True simp_thms if_False]
    from a obtain gpio where g: "gpio_new name = Inr gpio" by auto
    have "pred_option (found_ok d) (map_option (\<lambda>c. (c, d)) (map_option ChipGpio gpio))"
      using g by (intro found_plain) (auto simp: gpio_new_def port_index_def split: option.splits list.splits if_splits)
    moreover have "pred_option (found_ok d) (new_usart name d)" "pred_option (found_ok d) (new_spi name d)"
      "pred_option (found_ok d) (fsmc_new name d)"
      using new_usart_ok [of name d] new_spi_ok [of name d] fsmc_new_ok [of name d]
      by (auto simp: pred_option_def found_ok_def)
    moreover have "pred_option (found_ok d) (map_option (\<lambda>c. (c, d)) (map_option (\<lambda>t. ChipOtg t (find_usb_cdc_tcp name d)) (otg_new name None)))"
      by (rule found_plain) (auto simp: otg_new_def otg_base_def otg_shape_def NUM_ENDPOINTS_def exists_at_def
        find_usb_cdc_tcp_def device_counts_def dest: position_less split: if_splits option.split)
    moreover have "pred_option (found_ok d) (map_option (\<lambda>c. (c, d)) (map_option (\<lambda>a. ChipAdc a (first_ecu_io d)) (adc_new name)))"
      by (rule found_plain) (auto simp: exists_at_def first_ecu_io_def device_counts_def)
    moreover have "pred_option (found_ok d) (map_option (\<lambda>c. (c, d)) (map_option ChipDma (dma_new name)))"
      by (rule found_plain) (auto simp: dma_inv_new)
    moreover have "pred_option (found_ok d) (map_option (\<lambda>c. (c, d)) (if exti_new name then Some ChipExti else None))"
      "pred_option (found_ok d) (map_option (\<lambda>c. (c, d)) (if syscfg_new name then Some ChipSyscfg else None))"
      by (simp_all add: found_ok_def)
    ultimately show ?thesis using a [unfolded g]
      by (auto intro!: found_free elim!: first_some_all)
  qed
qed

definition registered_ok :: "ext_devices \<Rightarrow> registration \<Rightarrow> bool" where
  "registered_ok d r \<longleftrightarrow> same_devices d (reg_devices r) \<and> list_all (chip_ok (device_counts (reg_devices r))) (reg_cells r)"

lemma registered_counts: "registered_ok d r \<Longrightarrow> device_counts (reg_devices r) = device_counts d"
  by (simp add: registered_ok_def same_devices_def)

lemma register_svd_ok:
  assumes "registered_ok d r" "register_svd fl name base regs r = Inr r'"
  shows "registered_ok d r'"
proof -
  obtain made where made: "new_chip fl name (reg_devices r) = Inr made"
    and r': "reg_cells r' = reg_cells r @ (case made of None \<Rightarrow> [] | Some (c, _) \<Rightarrow> [c])"
      "reg_devices r' = (case made of None \<Rightarrow> reg_devices r | Some (_, d) \<Rightarrow> d)"
    using assms(2) by (cases "new_chip fl name (reg_devices r)")
      (auto simp: register_svd_def Let_def case_prod_beta split: option.splits)
  show ?thesis
  proof (cases made)
    case (Some cd)
    with made have "found_ok (reg_devices r) cd" by (auto intro: new_chip_ok)
    with assms(1) show ?thesis
      by (auto simp: registered_ok_def found_ok_def r' Some same_devices_def case_prod_beta)
  qed (use assms(1) r' in \<open>simp add: registered_ok_def\<close>)
qed

lemma core_chips_ok: "list_all (chip_ok ns) core_chips"
  by (simp add: core_chips_def)

text \<open>The software buses' closures are in place for every system with as many buses as were configured.\<close>

lemma on_soft_spi_ok:
  assumes "safe t (sys_ok t sh B) st" "k < sh_soft_spis sh"
    and "\<And>s x d. lent_ok t d x \<Longrightarrow> safe t (\<lambda>r. lent_ok t d (snd r)) (f (s, x))"
  shows "safe t (sys_ok t sh B) (on_soft_spi k f st)"
  unfolding on_soft_spi_def
proof (rule safe_bind [OF assms(1)])
  fix h assume h: "sys_ok t sh B h"
  obtain s x where sx: "hw_soft_spi h ! k = (s, x)" by fastforce
  have k: "k < length (hw_soft_spi h)" using h assms(2) by (auto simp: sys_ok_def shape_of_def)
  then have x: "serial_exists (sh_devices sh) x" using h sx by (force simp: sys_ok_def list_all_length)
  have "sys_ok t sh B (h\<lparr>hw_soft_spi := (hw_soft_spi h)[k := (s', x)]\<rparr>)" for s'
    using h x by (auto simp: sys_ok_def shape_of_def list_all_update)
  then have put: "sys_ok t sh B (return_serial x' (h\<lparr>hw_soft_spi := (hw_soft_spi h)[k := (s', x)]\<rparr>))"
    if "lent_ok t (hw_devices h) x'" for s' x' using that by (intro return_serial_ok) simp_all
  from safe_mono [OF assms(3) [OF lend_serial_ok [OF h x], of s] put]
  show "safe t (sys_ok t sh B) (let (s, x) = hw_soft_spi h ! k in
      res_map (\<lambda>(s, d). return_serial d (h\<lparr>hw_soft_spi := (hw_soft_spi h)[k := (s, x)]\<rparr>)) (f (s, lend_serial x h)))"
    by (simp add: sx case_prod_beta)
qed

lemma write_clk_lent: "lent_ok t d x \<Longrightarrow> safe t (\<lambda>r. lent_ok t d (snd r)) (write_clk serial_bus v (s, x))"
  by (auto simp: write_clk_def Let_def case_prod_beta intro!: safe_bind [where P = "\<lambda>r. lent_ok t d (snd r)"]
      safe_mono [OF sw_xfer_lent])

lemma soft_spi_ports:
  assumes "ports_ok t sh ports" "soft_spi_register k c d ports = Inr (s, d', ports')" "k < sh_soft_spis sh"
  shows "ports_ok t sh ports' \<and> same_devices d d' \<and> serial_exists (device_counts d') (snd s)"
proof -
  obtain n x e where found: "connect_found (ss_name c) d = (n, x, e)" by (rule prod_cases3)
  let ?cs = "case ss_cs c of None \<Rightarrow> Inr None | Some s \<Rightarrow> res_map Some (pin_from_str s)"
  obtain cs clk miso mosi p1 p2 p3 where cs: "?cs = Inr cs"
    and p1: "(case cs of None \<Rightarrow> Inr ports
        | Some cs \<Rightarrow> add_write_callback cs (\<lambda>v. on_soft_spi k (\<lambda>s. Inr (write_cs v s))) ports) = Inr p1"
    and pins: "pin_from_str (ss_clk c) = Inr clk" "pin_from_str (ss_miso c) = Inr miso" "pin_from_str (ss_mosi c) = Inr mosi"
    and p2: "add_write_callback clk (\<lambda>v. on_soft_spi k (write_clk serial_bus v)) p1 = Inr p2"
    and p3: "add_read_callback miso (\<lambda>st. (case st of Inl _ \<Rightarrow> False
        | Inr h \<Rightarrow> read_miso (fst (hw_soft_spi h ! k), lend_serial (snd (hw_soft_spi h ! k)) h), st)) p2 = Inr p3"
    and p4: "add_write_callback mosi (\<lambda>v. on_soft_spi k (\<lambda>s. Inr (write_mosi v s))) p3 = Inr ports'"
    and e: "s = (sw_spi_default, x)" "d' = e"
    using assms(2) unfolding soft_spi_register_def found Let_def prod.case res_bind_eq_Inr Inr_eq_res_map
    by auto
  have "ports_ok t sh p1"
  proof (cases cs)
    case (Some q)
    then have "pin_number q < 16" using cs by (auto split: option.splits dest: pin_from_str_bounds)
    with p1 Some show ?thesis using assms(3)
      by (auto elim!: add_write_ok [OF assms(1)] intro: on_soft_spi_ok simp: write_cs_def)
  qed (use p1 assms(1) in simp)
  then have "ports_ok t sh p2"
    by (rule add_write_ok [OF _ p2 pin_from_str_bounds [OF pins(1)]]) (rule on_soft_spi_ok [OF _ assms(3)], auto intro: write_clk_lent)
  then have "ports_ok t sh p3" by (rule add_read_ok [OF _ p3 pin_from_str_bounds [OF pins(2)]]) simp
  then have "ports_ok t sh ports'"
    by (rule add_write_ok [OF _ p4 pin_from_str_bounds [OF pins(3)]])
      (rule on_soft_spi_ok [OF _ assms(3)], auto simp: write_mosi_def)
  then show ?thesis using connect_found_ok [OF found] e by simp
qed

lemma soft_spis_ports:
  assumes "ports_ok t sh ports" "soft_spis_register k cs d ports = Inr (ss, d', ports')" "k + length cs \<le> sh_soft_spis sh"
  shows "ports_ok t sh ports' \<and> same_devices d d' \<and> length ss = length cs
    \<and> list_all (\<lambda>sx. serial_exists (device_counts d') (snd sx)) ss"
  using assms
proof (induction cs arbitrary: k d ports ss)
  case (Cons c cs)
  from Cons.prems(2) obtain s d1 p1 ss' where one: "soft_spi_register k c d ports = Inr (s, d1, p1)"
    and rest: "soft_spis_register (Suc k) cs d1 p1 = Inr (ss', d', ports')" and ss: "ss = s # ss'"
    by auto
  from soft_spi_ports [OF Cons.prems(1) one] Cons.prems(3)
  have o: "ports_ok t sh p1" "same_devices d d1" "serial_exists (device_counts d1) (snd s)" by simp_all
  from Cons.IH [OF o(1) rest] Cons.prems(3) have "ports_ok t sh ports' \<and> same_devices d1 d' \<and> length ss' = length cs
    \<and> list_all (\<lambda>sx. serial_exists (device_counts d') (snd sx)) ss'" by simp
  with o ss show ?case by (auto simp: same_devices_def)
qed simp

section \<open>\<open>prepare\<close> establishes the invariant\<close>

lemma from_svd_ok:
  assumes "from_svd svd ss fl d ports = Inr (r, soft, ports')"
    and "\<And>sh. sh_soft_spis sh = length ss \<Longrightarrow> ports_ok t sh ports"
  shows "registered_ok d r \<and> length soft = length ss \<and> list_all (\<lambda>sx. serial_exists (device_counts (reg_devices r)) (snd sx)) soft
    \<and> (\<forall>sh. sh_soft_spis sh = length ss \<longrightarrow> ports_ok t sh ports')"
proof -
  let ?f = "\<lambda>p r. res_bind (registers_of (sort_key svd_base svd) p) (\<lambda>regs.
      register_svd fl (svd_name p) (ucast (svd_base p)) regs r)"
  let ?r0 = "\<lparr>reg_debug = [], reg_slots = [], reg_cells = [], reg_devices = d\<rparr>"
  obtain r1 d' where r1: "fold_res ?f (sort_key svd_base svd) ?r0 = Inr r1"
    and soft: "soft_spis_register 0 ss (reg_devices (register_core_peripherals r1)) ports = Inr (soft, d', ports')"
    and r: "reg_cells r = reg_cells (register_core_peripherals r1)" "reg_devices r = d'"
    using assms(1) by (auto simp: from_svd_def finish_registration_def Let_def)
  have "registered_ok d r1"
    by (rule fold_res_inv [OF _ _ r1]) (auto simp: registered_ok_def [of d ?r0] intro: register_svd_ok)
  moreover have ports: "ports_ok t sh ports' \<and> same_devices (reg_devices r1) d' \<and> length soft = length ss
      \<and> list_all (\<lambda>sx. serial_exists (device_counts d') (snd sx)) soft" if "sh_soft_spis sh = length ss" for sh
    using soft_spis_ports [OF assms(2) [OF that] soft] that by (simp add: register_core_eq)
  moreover have "same_devices (reg_devices r1) d' \<and> length soft = length ss
      \<and> list_all (\<lambda>sx. serial_exists (device_counts d') (snd sx)) soft"
    using ports [of "\<lparr>sh_models = [], sh_devices = [], sh_soft_spis = length ss\<rparr>"] by simp
  ultimately show ?thesis
    by (auto simp: registered_ok_def r register_core_eq core_chips_ok same_devices_def)
qed

lemma prepare_live:
  fixes h :: "('u, 'f) hw"
  assumes "prepare out c svd files u = Inr (Inr (w, h))" "t \<or> devices_ok False (hw_devices h)"
  shows "live t (shape_of h) w {} h"
proof -
  from assms(1) obtain d r ss and fbs and ports ports' :: "('u, 'f) hw res gpio_ports" where
    d: "into_ext_devices (hw_access out) fbs (case cf_devices c of Some d \<Rightarrow> d | None \<Rightarrow> ext_devices_config_default)
      gpio_ports_default = Inr (Inr (d, ports))"
    and r: "from_svd svd (unwrap_or_default (cf_software_spi c)) (cf_internal_flash c) d ports = Inr (r, ss, ports')"
    and w: "w_slots w = reg_slots r" "w_ports w = ports'"
    and h: "hw_cells h = reg_cells r" "hw_borrowed h = {}" "hw_nvic h = nvic_default" "hw_devices h = reg_devices r"
      "hw_soft_spi h = ss"
    unfolding prepare_def attempted_done try_in_done res_bind_eq_Inr split_paired_Ex prod.case
    by (elim exE conjE) (rule that, simp, assumption, auto)
  from from_svd_ok [OF r, of t] devices_ports [OF d]
  have ok: "registered_ok d r" "length ss = length (unwrap_or_default (cf_software_spi c))"
    "list_all (\<lambda>sx. serial_exists (device_counts (reg_devices r)) (snd sx)) ss"
    "\<And>sh. sh_soft_spis sh = length (unwrap_or_default (cf_software_spi c)) \<Longrightarrow> ports_ok t sh ports'"
    by blast+
  have "slot_peripheral s < length (reg_cells r)" if "s \<in> set (reg_slots r)" for s
  proof -
    from from_svd_numbers [OF r] have "slot_peripheral ` set (reg_slots r) = {0..<length (reg_cells r)}" by simp
    with that show ?thesis by auto
  qed
  then have "world_ok t (shape_of h) w"
    using ok by (simp add: world_ok_def w shape_of_def h)
  moreover have "sys_ok t (shape_of h) {} h"
    using ok(1,3) assms(2) by (auto simp: sys_ok_def shape_of_def h registered_ok_def devices_ok_def nvic_inv_def nvic_default_def)
  ultimately show ?thesis by (simp add: live_def)
qed

end
