(* ===== verification/Robust.thy ===== *)
theory Robust
  imports Startup Hosts Boot
begin

text \<open>
  The results about whole runs: every state of a run is well-formed and reached by the steps of
  \<open>Reachable\<close>, and on configurations without touch screens and LCDs no access that its peripheral decodes
  panics, whatever the firmware did before.
\<close>

section \<open>Devices that do not panic\<close>

text \<open>Configurations whose devices are total: no touch screen (unknown commands panic), no LCD (its image
  framebuffer is too short), flash chips with a size, displays on image framebuffers with pixels.\<close>

definition quiet_config :: "config \<Rightarrow> bool" where
  "quiet_config c \<longleftrightarrow> (case cf_devices c of None \<Rightarrow> True | Some d \<Rightarrow>
     unwrap_or_default (cfg_touchscreen d) = [] \<and> unwrap_or_default (cfg_lcd d) = []
     \<and> list_all (\<lambda>f. 0 < sf_size f) (unwrap_or_default (cfg_spi_flash d)))
     \<and> list_all (\<lambda>fb. fbc_image fb \<noteq> None \<and> 0 < fbc_width fb \<and> 0 < fbc_height fb)
         (unwrap_or_default (cf_framebuffers c))"

lemma from_config_set: "from_config cs = Inr (is, ss) \<Longrightarrow> set (is @ ss) = set cs"
  by (induction cs arbitrary: "is" ss) (auto split: bool.splits)

lemma framebuffers_get_mem: "framebuffers_get name fbs = Inr c \<Longrightarrow> c \<in> set (fst fbs @ snd fbs)"
  unfolding framebuffers_get_def
  by (auto simp del: set_append split: option.splits dest!: find_Some_iff [THEN iffD1] intro: nth_mem)

lemma flashes_ok:
  "new_flashes a cs = Inr fs \<Longrightarrow> list_all (\<lambda>f. 0 < sf_size f) cs \<Longrightarrow> list_all flash_inv fs"
  unfolding new_flashes_def map_res_eq_Inr
  by (induction rule: list_all2_induct) (auto intro: flash_inv_new)

lemma displays_ok:
  assumes "new_displays a fbs cs = Inr ds"
    and "\<forall>fb \<in> set (fst fbs @ snd fbs). fbc_image fb \<noteq> None \<and> 0 < fbc_width fb \<and> 0 < fbc_height fb"
  shows "list_all display_inv ds"
  using assms(1) unfolding new_displays_def map_res_eq_Inr
proof (induction rule: list_all2_induct)
  case (Cons c cs d ds)
  from Cons.hyps(1) obtain fb where fb: "framebuffers_get (dc_framebuffer c) fbs = Inr fb"
    and d: "snd d = pixel_view (acc_sdl_bytes a) 2 fb" "d_width (fst d) = fbc_width fb" "d_height (fst d) = fbc_height fb"
    by (auto simp: display_new_def)
  from assms(2) framebuffers_get_mem [OF fb] have "fbc_image fb \<noteq> None \<and> 0 < fbc_width fb \<and> 0 < fbc_height fb" by blast
  with d have "display_inv d" by (cases d) (simp add: display_inv_def pixel_view_def)
  with Cons.IH show ?case by simp
qed simp

lemma quiet_devices:
  assumes "into_ext_devices (hw_access out) fbs (case cf_devices c of Some d \<Rightarrow> d | None \<Rightarrow> ext_devices_config_default)
      gpio_ports_default = Inr (Inr (d, ports))"
    and "from_config (unwrap_or_default (cf_framebuffers c)) = Inr fbs" "quiet_config c"
  shows "devices_ok False d"
proof -
  let ?d = "case cf_devices c of Some d \<Rightarrow> d | None \<Rightarrow> ext_devices_config_default"
  have q: "unwrap_or_default (cfg_touchscreen ?d) = []" "unwrap_or_default (cfg_lcd ?d) = []"
    "list_all (\<lambda>f. 0 < sf_size f) (unwrap_or_default (cfg_spi_flash ?d))"
    "\<forall>fb \<in> set (fst fbs @ snd fbs). fbc_image fb \<noteq> None \<and> 0 < fbc_width fb \<and> 0 < fbc_height fb"
    using assms(3) from_config_set [of "unwrap_or_default (cf_framebuffers c)" "fst fbs" "snd fbs"] assms(2)
    by (auto simp: quiet_config_def ext_devices_config_default_def unwrap_or_default_def list_all_iff split: option.splits)
  obtain fs ds where "new_flashes (hw_access out) (unwrap_or_default (cfg_spi_flash ?d)) = Inr fs"
    "new_displays (hw_access out) fbs (unwrap_or_default (cfg_display ?d)) = Inr ds"
    "spi_flashes d = fs" "displays d = ds" "lcds d = []" "touchscreens d = []"
    using assms(1) by (auto simp: into_ext_devices_def Let_def q(1,2) new_lcds_def)
  then show ?thesis using flashes_ok q(3) displays_ok [OF _ q(4)] by (auto simp: devices_ok_def)
qed

text \<open>The configuration the launcher writes for the Proteus F7 has an ECU harness and a USB bridge only.\<close>

lemma proteus_quiet: "proteus_config firmware svd c \<Longrightarrow> quiet_config c"
  by (auto simp: proteus_config_def for_variant_def variant_proteus_f7_def PROFILE_def read_config_def to_yaml_def
      read_devices_def quiet_config_def ext_devices_config_default_def unwrap_or_default_def Let_def)

text \<open>What \<open>prepare\<close> returns is live; strictly so when the configuration is quiet.\<close>

lemma prepare_quiet:
  fixes h :: "('u, 'f) hw"
  assumes "prepare out c svd files u = Inr (Inr (w, h))" "quiet_config c"
  shows "live False (shape_of h) w {} h"
proof (rule prepare_live [OF assms(1)])
  from assms(1) obtain d r ss fbs and ports ports' :: "('u, 'f) hw res gpio_ports" where
    f: "from_config (unwrap_or_default (cf_framebuffers c)) = Inr fbs"
    and d: "into_ext_devices (hw_access out) fbs (case cf_devices c of Some d \<Rightarrow> d | None \<Rightarrow> ext_devices_config_default)
      gpio_ports_default = Inr (Inr (d, ports))"
    and r: "from_svd svd (unwrap_or_default (cf_software_spi c)) (cf_internal_flash c) d ports = Inr (r, ss, ports')"
    and h: "hw_devices h = reg_devices r"
    unfolding prepare_def attempted_done try_in_done res_bind_eq_Inr split_paired_Ex prod.case
    by (elim exE conjE) (rule that, assumption, simp, assumption, auto)
  have "\<And>sh. ports_ok True sh ports" by (rule devices_ports [OF d])
  from from_svd_ok [OF r this] have "registered_ok d r" by blast
  then have "same_devices d (reg_devices r)" by (simp add: registered_ok_def)
  with quiet_devices [OF d f assms(2)] show "False \<or> devices_ok False (hw_devices h)" by (simp add: h same_devices_def)
qed

section \<open>Accesses that do not panic\<close>

text \<open>An access the system decodes: it stays within its word, and the model it reaches, if any, decodes the
  offset. Only the interrupt controller (whole words), DMA (its eight streams) and the memory controller
  (its four banks) are particular.\<close>

definition accepted :: "('u, 'f) world \<Rightarrow> ('u, 'f) hw \<Rightarrow> u32 \<Rightarrow> u8 \<Rightarrow> bool" where
  "accepted w h addr sz \<longleftrightarrow>
     (bitbanding addr = None \<longrightarrow> (if is_register addr then unat addr mod 4 else 0) + unat sz \<le> 4) \<and>
     (case get_peripheral (w_slots w) (reached addr) of None \<Rightarrow> True
      | Some p \<Rightarrow> model_decodes (map chip_model (hw_cells h) ! slot_peripheral p) (reached addr - slot_start p))"

lemma accepted_iff:
  "accepted w h addr sz \<longleftrightarrow> bus_contract.accepts (w_slots w) (\<lambda>i. model_decodes (sh_models (shape_of h) ! i)) addr sz"
  unfolding accepted_def system_bus.accepts_def by (auto simp: shape_of_def split: option.split)

lemma live_access:
  assumes "live False (shape_of h0) w {} h" "accepted w h0 addr sz"
  shows "(\<exists>v h'. system_read w addr sz h = Inr (v, h')) \<and> (\<exists>h'. system_write w addr sz v h = Inr h')"
proof -
  have acc: "(False \<or> False) \<or> bus_contract.accepts (w_slots w) (\<lambda>i. model_decodes (sh_models (shape_of h0) ! i)) addr sz
      \<and> {} = {}" using assms(2) by (simp add: accepted_iff)
  from system_bus.bus_read_safe [OF assms(1) acc] system_bus.bus_write_safe [OF assms(1) acc, of v] show ?thesis
    by (auto simp: system_read_def system_write_def safe_strict)
qed

text \<open>C3: No panic from registers. On a system prepared from any SVD and a quiet configuration, after any
  sequence of accesses, polls, exceptions, CPU steps and device events, a load or a store of any width
  that the system decodes returns normally, and the system can go on from the state it leaves.\<close>
theorem firmware_access_safe:
  assumes "prepare out c svd files u = Inr (Inr (w, h0))" "quiet_config c"
    and "sys_reach w h0 h" "accepted w h0 addr sz"
  shows "(\<exists>v h'. system_read w addr sz h = Inr (v, h') \<and> sys_reach w h0 h')
    \<and> (\<exists>h'. system_write w addr sz v h = Inr h' \<and> sys_reach w h0 h')"
proof -
  have "live False (shape_of h0) w {} h"
    by (rule live_reach [OF assms(3) prepare_quiet [OF assms(1,2)]])
  from live_access [OF this assms(4), of v] show ?thesis using reach_read [OF assms(3)] reach_write [OF assms(3)] by blast
qed

theorem firmware_access_safe_witness:
  "\<exists>h1. system_write bare_world 0xe000e181 1 0x80 bare_hw = Inr h1 \<and>
     (\<exists>v h'. system_read bare_world 0xe000ed06 2 h1 = Inr (v, h'))"
proof -
  have q: "quiet_config bare_config" by (simp add: quiet_config_def bare_config_def unwrap_or_default_def)
  have k: "core_block_clear 0 (w_slots bare_world)" "set (core_slots 0) \<subseteq> set (w_slots bare_world)"
    using bare_clear by (simp_all add: bare_hw_def core_chips_def bare_world_def)
  have reg: "get_peripheral (w_slots bare_world) 0xe000e180 = Some (core_slots 0 ! 2)"
    "get_peripheral (w_slots bare_world) 0xe000ed04 = Some (core_slots 0 ! 3)"
    by (rule core_lookup [OF k]; simp add: core_slots_def)+
  have "reached 0xe000e181 = 0xe000e180" "reached 0xe000ed06 = 0xe000ed04"
    by (simp_all add: reached_def bitbanding_def is_register_def)
  then have acc: "accepted bare_world bare_hw 0xe000e181 1" "accepted bare_world bare_hw 0xe000ed06 2"
    using reg by (simp_all add: accepted_def bitbanding_def bare_hw_def core_chips_def core_slots_def model_decodes_def)
  obtain h1 where h1: "system_write bare_world 0xe000e181 1 0x80 bare_hw = Inr h1" "sys_reach bare_world bare_hw h1"
    using firmware_access_safe [OF prepare_bare q reach_start acc(1)] by blast
  with firmware_access_safe [OF prepare_bare q h1(2) acc(2)] show ?thesis by blast
qed

section \<open>Runs\<close>

text \<open>C4: The invariant of a run. Whatever the SVD, the devices, the firmware and the CPU do, a run that
  ends leaves the system well-formed: the same chips, devices and buses as prepared, no chip still
  borrowed, every handle denoting a device, the interrupt controller, DMA and USB state in range; and its
  state was reached by the system's own steps.\<close>
theorem run_keeps_system:
  assumes "run_system fuel eng out pump c svd args files u lb = Some (Inr (e, Some m))" "pump_touches pump"
  shows "\<exists>w h. prepare out c svd files u = Inr (Inr (w, h)) \<and> sys_reach w h (hardware m)
    \<and> sys_ok True (shape_of h) {} (hardware m)"
proof -
  from assms(1) obtain w h where p: "prepare out c svd files u = Inr (Inr (w, h))"
    and r: "run_emulator fuel eng (system_host w pump) args (cpu_vector_table (cf_cpu c))
      (Inr (hw_nvic h, hw_uc h, h)) lb = Some (Inr (e, Some m))"
    by (auto simp: run_system_def split: sum.splits)
  let ?m = "fresh_machine (hw_nvic h, hw_uc h, h) lb"
  from r obtain u1 pc where l: "run_loop fuel eng (system_host w pump) args (cpu_vector_table (cf_cpu c)) pc
      (?m\<lparr>m_uc := u1\<rparr>) = Some (Inr (e, m))"
    by (auto simp: run_emulator_def Let_def split: option.splits prod.splits)
  have "sys_reach w h (hardware ?m)" by (simp add: fresh_machine_def hardware_def reach_start)
  then have "sys_reach w h (hardware (?m\<lparr>m_uc := u1\<rparr>))" by (rule reach_cpu') simp_all
  from reach_run_loop [OF assms(2) this l] have reach: "sys_reach w h (hardware m)" .
  have "live True (shape_of h) w {} h" by (rule prepare_live [OF p]) simp
  from live_reach [OF reach this] reach p show ?thesis by (auto simp: live_def)
qed

text \<open>A CPU whose program stores one word to the software trigger register and then faults.\<close>

definition store_engine :: "flat_cpu engine" where
  "store_engine = \<lparr>eng_ops = flat_ops, eng_start = (\<lambda>pc until cnt u. u\<lparr>fc_stopped := False\<rparr>),
     eng_next = (\<lambda>u. if fc_stopped u then (EmuReturned (Some ''fault''), u)
       else (MmioWrite 0xe0000000 0xef00 4 1, u\<lparr>fc_stopped := True\<rparr>)),
     eng_answer = (\<lambda>v u. u)\<rparr>"

definition store_args :: emu_args where
  "store_args = \<lparr>max_instructions = None, stop_addr = None, busy_loop_stop = False, interrupt_period = 1\<rparr>"

theorem run_keeps_system_witness:
  "\<exists>m. run_system (Suc (Suc (Suc 0))) store_engine flat_outside (Pair True) bare_config [] store_args Map.empty flat_start (0, 0) =
       Some (Inr (RunError ''fault'', Some m))
     \<and> hw_borrowed (hardware m) = {} \<and> shape_of (hardware m) = shape_of bare_hw"
proof -
  have ready: "core_ready bare_world (enter n (hw_nvic bare_hw, u, bare_hw))" for n u
    using prepare_core_ready [OF prepare_bare bare_clear] by (simp add: core_ready_def enter_def)
  have "\<exists>h'. system_write bare_world 0xe000ef00 4 1 (enter n (hw_nvic bare_hw, u, bare_hw)) = Inr h' \<and> hw_uc h' = u" for n u
    unfolding stir_bus_write [OF ready] by (simp add: set_intr_pending_def enter_def IRQ_OFFSET_def)
  then obtain h' where h': "\<And>n u. system_write bare_world 0xe000ef00 4 1 (enter n (hw_nvic bare_hw, u, bare_hw)) = Inr (h' n u)"
    "\<And>n u. hw_uc (h' n u) = u" by metis
  have u: "hw_uc bare_hw = flat_start" by (simp add: bare_hw_def)
  obtain sp reset where vt: "vector_table_from_memory flat_ops flat_start (cpu_vector_table (cf_cpu bare_config)) = Some (sp, reset)"
    by (simp add: vector_table_from_memory_def flat_ops_def)
  have eng: "eng_ops store_engine = flat_ops" "eng_start store_engine pc until cnt x = x\<lparr>fc_stopped := False\<rparr>"
    "eng_next store_engine x = (if fc_stopped x then (EmuReturned (Some ''fault''), x)
       else (MmioWrite 0xe0000000 0xef00 4 1, x\<lparr>fc_stopped := True\<rparr>))" for pc until cnt x
    by (simp_all add: store_engine_def)
  have "\<exists>m. run_system (Suc (Suc (Suc 0))) store_engine flat_outside (Pair True) bare_config [] store_args Map.empty flat_start (0, 0) =
       Some (Inr (RunError ''fault'', Some m))"
    by (simp add: run_system_def prepare_bare run_emulator_def fresh_machine_def u vt eng remaining_def store_args_def
        on_hw_def system_host_def leave_def h' Let_def)
  then obtain m where m: "run_system (Suc (Suc (Suc 0))) store_engine flat_outside (Pair True) bare_config [] store_args Map.empty flat_start
      (0, 0) = Some (Inr (RunError ''fault'', Some m))" by blast
  have "pump_touches (Pair True)" unfolding pump_touches_def
    by (rule allI) (rule_tac x = "touchscreens (hw_devices h)" in exI, simp)
  from run_keeps_system [OF m this] m prepare_bare show ?thesis by (auto simp: sys_ok_def)
qed

end
