(* ===== verification/ProteusSystem.thy ===== *)
theory ProteusSystem
  imports Robust
begin

text \<open>
  The Proteus F7 system from its configuration to its registers: which SVD files registration accepts, the
  devices of the board and its harness, and that \<open>prepare\<close> succeeds on every firmware image.
\<close>

section \<open>SVD files\<close>

text \<open>The debug slot registration pushes for a peripheral, and the files it accepts: every derived peripheral
  names one of the file, a GPIO port has one of the eleven letters, and no two peripherals overlap.\<close>

definition debug_slot :: "svd_peripheral list \<Rightarrow> svd_peripheral \<Rightarrow> generic_peripheral slot" where
  "debug_slot all p =
     (let g = generic_new (svd_name p) (case registers_of all p of Inl _ \<Rightarrow> [] | Inr regs \<Rightarrow> regs); base = ucast (svd_base p)
      in \<lparr>slot_start = base, slot_end = base + generic_size g, slot_peripheral = g\<rparr>)"

definition svd_ok :: "svd_peripheral list \<Rightarrow> bool" where
  "svd_ok svd \<longleftrightarrow> (let all = sort_key svd_base svd in
     list_all (\<lambda>p. returns (registers_of all p) \<and> returns (gpio_new (svd_name p))) all
     \<and> no_overlap (sort_key slot_start (map (debug_slot all) all)) = Inr ())"

lemma new_chip_returns: "returns (gpio_new name) \<Longrightarrow> \<exists>made. new_chip fl name d = Inr made"
  by (cases "gpio_new name") (auto simp: new_chip_def Let_def simp del: first_some.simps)

lemma register_svd_returns:
  assumes "returns (gpio_new (svd_name p))" "returns (registers_of all p)"
  shows "\<exists>r'. res_bind (registers_of all p) (\<lambda>regs. register_svd fl (svd_name p) (ucast (svd_base p)) regs r) = Inr r'
    \<and> reg_debug r' = reg_debug r @ [debug_slot all p]"
proof -
  obtain made where "new_chip fl (svd_name p) (reg_devices r) = Inr made" using new_chip_returns [OF assms(1)] by blast
  moreover obtain regs where "registers_of all p = Inr regs" using assms(2) by (auto simp: returns_iff)
  ultimately show ?thesis
    by (auto simp: register_svd_def register_peripheral_def debug_slot_def Let_def split: prod.splits option.splits)
qed

lemma from_svd_accepts:
  assumes "svd_ok svd"
  shows "\<exists>r. from_svd svd [] fl d ports = Inr (r, [], ports)"
proof -
  let ?all = "sort_key svd_base svd"
  let ?f = "\<lambda>p r. res_bind (registers_of ?all p) (\<lambda>regs. register_svd fl (svd_name p) (ucast (svd_base p)) regs r)"
  have "\<exists>r'. fold_res ?f ps r = Inr r' \<and> reg_debug r' = reg_debug r @ map (debug_slot ?all) ps"
    if "list_all (\<lambda>p. returns (registers_of ?all p) \<and> returns (gpio_new (svd_name p))) ps" for ps r
    using that
  proof (induction ps arbitrary: r)
    case (Cons p ps)
    from Cons.prems have "returns (gpio_new (svd_name p))" "returns (registers_of ?all p)" by simp_all
    from register_svd_returns [OF this, of fl r] obtain r1 where r1: "?f p r = Inr r1"
      "reg_debug r1 = reg_debug r @ [debug_slot ?all p]" by blast
    from Cons.IH [of r1] Cons.prems obtain r' where "fold_res ?f ps r1 = Inr r'"
      "reg_debug r' = reg_debug r1 @ map (debug_slot ?all) ps" by auto
    with r1 show ?case by auto
  qed simp
  from this [of ?all "\<lparr>reg_debug = [], reg_slots = [], reg_cells = [], reg_devices = d\<rparr>"] assms
  obtain r where "fold_res ?f ?all \<lparr>reg_debug = [], reg_slots = [], reg_cells = [], reg_devices = d\<rparr> = Inr r"
    "reg_debug r = map (debug_slot ?all) ?all" by (auto simp: svd_ok_def Let_def)
  with assms show ?thesis
    by (simp add: from_svd_def Let_def register_core_eq finish_registration_def svd_ok_def)
qed

section \<open>The devices of the board\<close>

lemma pin_from_str_port: "pin_from_str s = Inr p \<Longrightarrow> pin_port p < NUM_PORTS"
  by (auto simp: pin_from_str_def port_index_def NUM_PORTS_def split: option.splits if_splits prod.splits)

definition ports_sized :: "'s gpio_ports \<Rightarrow> bool" where
  "ports_sized g \<longleftrightarrow> length (read_callbacks g) = NUM_PORTS \<and> length (write_callbacks g) = NUM_PORTS"

lemma add_callbacks_ok:
  assumes "ports_sized g" "pin_port p < NUM_PORTS"
  shows "\<exists>g'. add_read_callback p cb g = Inr g' \<and> ports_sized g'" "\<exists>g'. add_write_callback p wb g = Inr g' \<and> ports_sized g'"
  using assms by (simp_all add: add_read_callback_def add_write_callback_def index_res_def ports_sized_def)

lemma new_ecu_ok:
  assumes "ports_sized g" "acc_bind a (ecu_listen c)"
    and "\<forall>p \<in> set (ecu_pins c). returns (pin_from_str (pc_pin p))"
    and "\<forall>p \<in> set (ecu_adc_channels c). returns (pin_from_str (ac_pin p))"
  shows "\<exists>e g'. new_ecu a i c g = Inr (Inr (e, g'))"
proof -
  have all: "\<exists>ys. map_res f xs = Inr ys" if "\<forall>x \<in> set xs. returns (f x)" for f :: "'x \<Rightarrow> 'y res" and xs
    using that by (induction xs) (auto simp: returns_iff)
  let ?pin = "\<lambda>p. res_map (\<lambda>pin. (pin, pc_name p, pc_direction p)) (pin_from_str (pc_pin p))"
  obtain pins where pins: "map_res ?pin (ecu_pins c) = Inr pins"
    using all [of "ecu_pins c" ?pin] assms(3) by (auto simp: returns_iff)
  have ports: "\<forall>x \<in> set pins. pin_port (fst x) < NUM_PORTS"
    using pins unfolding map_res_eq_Inr
    by (fastforce simp: list_all2_conv_all_nth in_set_conv_nth dest: pin_from_str_port)
  have "\<exists>adc. map_res (\<lambda>c. res_map (\<lambda>p. (p, ac_name c)) (pin_from_str (ac_pin c))) (ecu_adc_channels c) = Inr adc"
    by (rule all) (use assms(4) in \<open>auto simp: returns_iff\<close>)
  moreover have "\<exists>ins. map_res (\<lambda>p. res_map (\<lambda>pin. (pin, pc_name p)) (pin_from_str (pc_pin p)))
      (filter (\<lambda>p. pc_direction p = DirInput) (ecu_pins c)) = Inr ins"
    by (rule all) (use assms(3) in \<open>auto simp: returns_iff\<close>)
  ultimately obtain e where e: "ecu_new c (if i = 0 then acc_ecu_link a else None) (acc_bind a (ecu_listen c)) = Inr (Inr e)"
    using assms(2) by (auto simp: ecu_new_def)
  let ?add = "\<lambda>(pin, name, direction) gpio. case direction of
      DirInput \<Rightarrow> add_read_callback pin (\<lambda>s. (digital_level name (acc_ecu a i s), s)) gpio
    | DirOutput \<Rightarrow> add_write_callback pin (\<lambda>v s. acc_upd_ecu a i (report_output (acc_clock a s) name v) s) gpio"
  have "\<exists>g'. fold_res ?add ps g = Inr g'" if "\<forall>x \<in> set ps. pin_port (fst x) < NUM_PORTS" "ports_sized g" for ps g
    using that
  proof (induction ps arbitrary: g)
    case (Cons x ps)
    have "\<exists>g1. ?add x g = Inr g1 \<and> ports_sized g1"
      using Cons.prems add_callbacks_ok [of g "fst x"] by (cases x) (auto split: pin_direction.split)
    with Cons show ?case by auto
  qed simp
  with ports assms(1) obtain g' where "fold_res ?add pins g = Inr g'" by blast
  with pins e show ?thesis by (simp add: new_ecu_def ecu_register_def)
qed

text \<open>The devices the emulator reads back from the YAML of the profile.\<close>

lemma proteus_devices:
  assumes "proteus_config firmware svd c"
  obtains e where "cf_devices c = Some (ext_devices_config_default\<lparr>cfg_usb_cdc_tcp :=
      Some [\<lparr>cdc_peripheral = ''OTG_FS_GLOBAL'', cdc_listen = ''127.0.0.1:29000'', max_buffered_bytes = 65536\<rparr>],
      cfg_ecu_io := Some [e]\<rparr>)" "ecu_listen e = ''127.0.0.1:29002''"
    "\<forall>p \<in> set (ecu_pins e). returns (pin_from_str (pc_pin p))"
    "\<forall>p \<in> set (ecu_adc_channels e). returns (pin_from_str (ac_pin p))"
    "cf_framebuffers c = None" "cf_software_spi c = None"
proof -
  have pins: "\<forall>p \<in> set ECU_IO_PINS. returns (pin_from_str (ep_pin p))"
    "\<forall>p \<in> set ECU_IO_ADC_CHANNELS. returns (pin_from_str (ea_pin p))"
    by (simp_all add: ECU_IO_PINS_defs ECU_IO_ADC_CHANNELS_def pin_parsing)
  obtain e where e: "read_ecu_io (the (pt_ecu_io PROFILE)) = Some e"
    using proteus_directions by (auto simp: read_ecu_io_def PROFILE_def list_all_iff)
  with assms have "cf_devices c = Some (ext_devices_config_default\<lparr>cfg_usb_cdc_tcp :=
      Some [\<lparr>cdc_peripheral = ''OTG_FS_GLOBAL'', cdc_listen = ''127.0.0.1:29000'', max_buffered_bytes = 65536\<rparr>],
      cfg_ecu_io := Some [e]\<rparr>)" "cf_framebuffers c = None" "cf_software_spi c = None"
    by (auto simp: proteus_config_def for_variant_def variant_proteus_f7_def PROFILE_def read_config_def to_yaml_def
        read_devices_def option_list_def read_bridge_def Let_def)
  moreover from e pins have "ecu_listen e = ''127.0.0.1:29002''"
    "\<forall>p \<in> set (ecu_pins e). returns (pin_from_str (pc_pin p))"
    "\<forall>p \<in> set (ecu_adc_channels e). returns (pin_from_str (ac_pin p))"
    by (auto simp: read_ecu_io_def PROFILE_def split: if_splits)
  ultimately show thesis by (intro that) auto
qed

lemma proteus_into_devices:
  assumes "proteus_config firmware svd c" "acc_bind a ''127.0.0.1:29000''" "acc_bind a ''127.0.0.1:29002''"
  shows "\<exists>d ports. into_ext_devices a ([], []) (case cf_devices c of Some d \<Rightarrow> d | None \<Rightarrow> ext_devices_config_default)
      gpio_ports_default = Inr (Inr (d, ports)) \<and> length (usb_cdc_tcps d) = 1 \<and> length (ecu_ios d) = 1"
proof -
  obtain e where c: "cf_devices c = Some (ext_devices_config_default\<lparr>cfg_usb_cdc_tcp :=
      Some [\<lparr>cdc_peripheral = ''OTG_FS_GLOBAL'', cdc_listen = ''127.0.0.1:29000'', max_buffered_bytes = 65536\<rparr>],
      cfg_ecu_io := Some [e]\<rparr>)" and e: "ecu_listen e = ''127.0.0.1:29002''"
    "\<forall>p \<in> set (ecu_pins e). returns (pin_from_str (pc_pin p))"
    "\<forall>p \<in> set (ecu_adc_channels e). returns (pin_from_str (ac_pin p))"
    by (rule proteus_devices [OF assms(1)])
  have "ports_sized (gpio_ports_default :: 'a gpio_ports)" by (simp add: ports_sized_def gpio_ports_default_def)
  from new_ecu_ok [OF this, of a e 0] assms(3) e obtain io ports where
    "new_ecu a 0 e (gpio_ports_default :: 'a gpio_ports) = Inr (Inr (io, ports))" by auto
  moreover have "\<exists>b. usb_cdc_new \<lparr>cdc_peripheral = ''OTG_FS_GLOBAL'', cdc_listen = ''127.0.0.1:29000'',
      max_buffered_bytes = 65536\<rparr> link True = Inr b" for link
    by (simp add: usb_cdc_new_def Let_def split: option.split)
  then obtain b where "usb_cdc_new \<lparr>cdc_peripheral = ''OTG_FS_GLOBAL'', cdc_listen = ''127.0.0.1:29000'',
      max_buffered_bytes = 65536\<rparr> (acc_cdc_link a) True = Inr b" by blast
  ultimately show ?thesis using assms(2)
    by (simp add: c into_ext_devices_def ext_devices_config_default_def unwrap_or_default_def new_flashes_def
        new_displays_def new_lcds_def try_in_def)
qed

section \<open>The system of the board\<close>

text \<open>What the CPU library documents of the two windows of the bus: they can be mapped where no memory is, and
  leave memory as it is.\<close>

definition window_laws :: "('u, 'f) outside \<Rightarrow> ('u \<Rightarrow> nat set) \<Rightarrow> bool" where
  "window_laws out mapped \<longleftrightarrow>
     (\<forall>u. (\<forall>(a, b) \<in> set MEMORY_MAPS. {unat a..<unat b} \<inter> mapped u = {}) \<longrightarrow>
       (\<exists>u'. bind_peripherals out u = (u', None) \<and> mapped u' = mapped u \<and>
          (\<forall>k \<in> mapped u. byte_at (o_ops out) u' k = byte_at (o_ops out) u k)))"

lemma window_bind:
  assumes "window_laws out mapped" "\<forall>(a, b) \<in> set MEMORY_MAPS. {unat a..<unat b} \<inter> mapped u = {}"
  obtains u' where "bind_peripherals out u = (u', None)" "mapped u' = mapped u"
    "\<And>k. k \<in> mapped u \<Longrightarrow> byte_at (o_ops out) u' k = byte_at (o_ops out) u k"
  using assms(1) [unfolded window_laws_def, THEN spec, THEN mp, OF assms(2)] by blast

lemma kept_read:
  assumes "mapping_laws ops mem_map mapped" "span a n \<subseteq> mapped u" "mapped u' = mapped u"
    and "\<And>k. k \<in> mapped u \<Longrightarrow> byte_at ops u' k = byte_at ops u k"
  shows "uc_mem_read ops a n u' = uc_mem_read ops a n u"
proof -
  have "map (byte_at ops u') [unat a ..< unat a + n] = map (byte_at ops u) [unat a ..< unat a + n]"
    using assms(2,4) by (intro map_cong refl) (auto simp: span_def)
  then show ?thesis using mapping_read [OF assms(1), of a n] assms(2,3) by simp
qed

text \<open>Memory of the board after loading: its regions only, holding the image and the patch.\<close>

lemma proteus_image:
  assumes "mapping_laws ops mem_map mapped" "mapped u = {}" "proteus_config firmware svd c"
    and "files (utf8_lossy firmware) = Inr fw" "8 \<le> length fw"
  obtains u' where "load_memory_regions ops fs mem_map files c backing u = (u', None)"
    "\<forall>(a, b) \<in> set MEMORY_MAPS. {unat a..<unat b} \<inter> mapped u' = {}"
    "span 0x200000 8 \<subseteq> mapped u'" "uc_mem_read ops 0x200000 8 u' = Some (take 8 fw)"
proof -
  obtain u' where u': "load_memory_regions ops fs mem_map files c backing u = (u', None)"
    and m: "mapped u' = (\<Union>r \<in> set (cf_regions c). region_span r)"
    by (rule proteus_loads [where mapped = mapped and u = u and files = files and fs = fs and backing = backing, OF assms(1-4)])
  note parts = proteus_config_parts [OF assms(3)]
  note image = load_image [OF assms(1) parts(2) u', unfolded proteus_load_writes [where files = files, OF assms(3,4)]]
  have "uc_mem_read ops 0x200000 8 u' = Some (take 8 fw)"
    by (rule read_image [OF assms(1) image]) (use assms(5) in simp_all)
  moreover have "\<forall>(a, b) \<in> set MEMORY_MAPS. {unat a..<unat b} \<inter> mapped u' = {}"
    unfolding m by (auto simp: parts MEMORY_MAPS_def REGIONS_def region_span_def span_def)
  moreover have "span 0x200000 8 \<subseteq> mapped u'"
    unfolding m by (auto simp: parts REGIONS_def region_span_def span_def)
  ultimately show thesis using u' by (intro that)
qed

lemma proteus_prepares:
  fixes out :: "('u, 'f) outside"
  assumes "mapping_laws (o_ops out) (o_mem_map out) mapped" "window_laws out mapped" "mapped u = {}"
    and "proteus_config firmware svd_path c" "o_file out (utf8_lossy firmware) = Inr fw" "8 \<le> length fw"
    and "o_bind out ''127.0.0.1:29000''" "o_bind out ''127.0.0.1:29002''" "svd_ok svd"
  obtains w h where "prepare out c svd files u = Inr (Inr (w, h))"
    "vector_table_from_memory (o_ops out) (hw_uc h) 0x200000 =
       Some (from_le_bytes (take 4 fw), from_le_bytes (take 4 (drop 4 fw)))"
    "length (usb_cdc_tcps (hw_devices h)) = 1" "length (ecu_ios (hw_devices h)) = 1"
proof -
  obtain u1 where u1: "load_memory_regions (o_ops out) (o_fs out) (o_mem_map out) (o_file out) c files u = (u1, None)"
    and free: "\<forall>(a, b) \<in> set MEMORY_MAPS. {unat a..<unat b} \<inter> mapped u1 = {}"
    and low: "span 0x200000 8 \<subseteq> mapped u1" "uc_mem_read (o_ops out) 0x200000 8 u1 = Some (take 8 fw)"
    by (rule proteus_image [where fs = "o_fs out" and backing = files and files = "o_file out" and mapped = mapped and u = u,
        OF assms(1,3-6)])
  from window_bind [OF assms(2) free] obtain u2 where u2: "bind_peripherals out u1 = (u2, None)" "mapped u2 = mapped u1"
    "\<And>k. k \<in> mapped u1 \<Longrightarrow> byte_at (o_ops out) u2 k = byte_at (o_ops out) u1 k" by blast
  have mem: "uc_mem_read (o_ops out) 0x200000 8 u2 = Some (take 8 fw)"
    using kept_read [OF assms(1) low(1) u2(2,3)] low(2) by simp
  obtain d and ports :: "('u, 'f) hw res gpio_ports" where d: "into_ext_devices (hw_access out) ([], [])
      (case cf_devices c of Some d \<Rightarrow> d | None \<Rightarrow> ext_devices_config_default) gpio_ports_default = Inr (Inr (d, ports))"
    "length (usb_cdc_tcps d) = 1" "length (ecu_ios d) = 1"
    using proteus_into_devices [OF assms(4), of "hw_access out"] assms(7,8) by (auto simp: hw_access_def)
  obtain r where r: "from_svd svd [] (cf_internal_flash c) d ports = Inr (r, [], ports)"
    using from_svd_accepts [OF assms(9)] by blast
  have same: "same_devices d (reg_devices r)"
    using from_svd_ok [OF r, of True] devices_ports [OF d(1)] by (auto simp: registered_ok_def)
  have none: "unwrap_or_default (cf_framebuffers c) = []" "unwrap_or_default (cf_software_spi c) = []"
    by (rule proteus_devices [OF assms(4)], simp add: unwrap_or_default_def)+
  let ?w = "\<lparr>w_ops = o_ops out, w_fs = o_fs out, w_slots = reg_slots r, w_ports = ports, w_answers = o_answers out\<rparr>"
  let ?h = "\<lparr>hw_nvic = nvic_default, hw_exti = exti_default, hw_uc = u2, hw_files = files, hw_cells = reg_cells r,
      hw_borrowed = {}, hw_devices = reg_devices r, hw_soft_spi = [], hw_now = 0, hw_round = 0\<rparr>"
  have "prepare out c svd files u = Inr (Inr (?w, ?h))"
    unfolding prepare_def u1 none by (simp add: attempted_def try_in_def d r u2)
  moreover have "vector_table_from_memory (o_ops out) u2 0x200000 =
      Some (from_le_bytes (take 4 fw), from_le_bytes (take 4 (drop 4 fw)))"
    by (simp add: vector_table_from_memory_def mem drop_take del: from_le_bytes.simps)
  moreover have "length (usb_cdc_tcps (reg_devices r)) = 1" "length (ecu_ios (reg_devices r)) = 1"
    using same d(2,3) by (simp_all add: same_devices_def device_counts_def)
  ultimately show thesis by (intro that [of ?w ?h]) simp_all
qed

text \<open>C7: The Proteus F7 is ready to run. For every firmware file of at least eight bytes and every SVD file
  with known ports and no overlaps, the configuration read back from the YAML the launcher writes for the
  board is prepared without an error or a panic once its two sockets are bound: the stack pointer and the
  reset vector the run starts with are the first two words of the firmware, the USB bridge and the
  harness are in place, and from then on, whatever happens, no load or store that its peripheral decodes
  panics.\<close>
theorem proteus_ready:
  assumes "mapping_laws (o_ops out) (o_mem_map out) mapped" "window_laws out mapped" "mapped u = {}"
    and "proteus_config firmware svd_path c" "o_file out (utf8_lossy firmware) = Inr fw" "8 \<le> length fw"
    and "o_bind out ''127.0.0.1:29000''" "o_bind out ''127.0.0.1:29002''" "svd_ok svd"
  shows "\<exists>w h. prepare out c svd files u = Inr (Inr (w, h))
    \<and> vector_table_from_memory (o_ops out) (hw_uc h) (cpu_vector_table (cf_cpu c)) =
        Some (from_le_bytes (take 4 fw), from_le_bytes (take 4 (drop 4 fw)))
    \<and> length (usb_cdc_tcps (hw_devices h)) = 1 \<and> length (ecu_ios (hw_devices h)) = 1
    \<and> (\<forall>h' addr sz v. sys_reach w h h' \<and> accepted w h addr sz \<longrightarrow>
         returns (system_read w addr sz h') \<and> returns (system_write w addr sz v h'))"
proof -
  obtain w h where p: "prepare out c svd files u = Inr (Inr (w, h))"
    and v: "vector_table_from_memory (o_ops out) (hw_uc h) 0x200000 =
       Some (from_le_bytes (take 4 fw), from_le_bytes (take 4 (drop 4 fw)))"
    and d: "length (usb_cdc_tcps (hw_devices h)) = 1" "length (ecu_ios (hw_devices h)) = 1"
    by (rule proteus_prepares [OF assms])
  have "returns (system_read w addr sz h') \<and> returns (system_write w addr sz v h')"
    if "sys_reach w h h'" "accepted w h addr sz" for h' addr sz v
    using live_access [OF live_reach [OF that(1) prepare_quiet [OF p proteus_quiet [OF assms(4)]]] that(2), of v]
    by (auto simp: returns_iff)
  with p v d show ?thesis by (intro exI [of _ w] exI [of _ h]) (simp add: proteus_config_parts [OF assms(4)])
qed

definition paged_outside :: "(nat set \<times> (nat \<Rightarrow> u8), string \<Rightarrow> u8 list option) outside" where
  "paged_outside = \<lparr>o_ops = paged_ops, o_fs = flat_fs, o_mem_map = paged_map, o_mmio_map = (\<lambda>a n u. Some u),
     o_file = (\<lambda>path. Inr [0, 0, 2, 0x20, 1, 2, 0x20, 0]), o_bind = (\<lambda>addr. True), o_cdc_link = None, o_ecu_link = None,
     o_sdl_bytes = (\<lambda>c. 0), o_answers = o_answers flat_outside\<rparr>"

definition two_ports :: "svd_peripheral list" where
  "two_ports =
     [\<lparr>svd_name = ''GPIOE'', svd_base = 0x40021000, svd_derived = Some ''GPIOC'', svd_registers = [], svd_clusters = []\<rparr>,
      \<lparr>svd_name = ''GPIOC'', svd_base = 0x40020800, svd_derived = None,
        svd_registers = [SingleRegister 0x10 ''IDR'', SingleRegister 0x14 ''ODR''], svd_clusters = []\<rparr>]"

theorem proteus_ready_witness:
  "\<exists>c w h. proteus_config ''fw.bin'' ''f7.svd'' c
    \<and> prepare paged_outside c two_ports Map.empty ({}, \<lambda>k. 0) = Inr (Inr (w, h))
    \<and> vector_table_from_memory paged_ops (hw_uc h) (cpu_vector_table (cf_cpu c)) = Some (0x20020000, 0x00200201)
    \<and> (\<forall>h' addr sz v. sys_reach w h h' \<and> accepted w h addr sz \<longrightarrow> returns (system_write w addr sz v h'))"
proof -
  obtain c where c: "proteus_config ''fw.bin'' ''f7.svd'' c" using proteus_config_exists by blast
  have oo: "o_ops paged_outside = paged_ops" "o_mem_map paged_outside = paged_map"
    "o_file paged_outside path = Inr [0, 0, 2, 0x20, 1, 2, 0x20, 0]" "o_bind paged_outside addr" for path addr
    by (simp_all add: paged_outside_def)
  have laws: "mapping_laws (o_ops paged_outside) (o_mem_map paged_outside) paged_mapped" "window_laws paged_outside paged_mapped"
    "paged_mapped ({}, \<lambda>k. 0) = {}"
    by (simp_all add: oo paged_laws window_laws_def paged_mapped_def)
      (simp add: bind_peripherals_def paged_outside_def MEMORY_MAPS_def and_then_def)
  have "svd_ok two_ports"
    by (simp add: svd_ok_def two_ports_def debug_slot_def registers_of_def extract_svd_registers_def collect_registers_def
        collect_register_def generic_size_def generic_new_def gpio_new_def strip_prefix_def starts_with_def port_index_def)
  from proteus_ready [OF laws c oo(3) _ oo(4) oo(4) this, of Map.empty] c show ?thesis
    by (auto simp: oo(1))
qed

end
