(* ===== verification/UnitTests.thy ===== *)
theory UnitTests
  imports Prelude
begin

text \<open>
  The repository's unit tests, replayed on the model. A test is the list of its statements: a call on the state
  under test, which may panic, an assertion on the state, or a call whose result is asserted. The theories
  \<open>...Tests\<close> hold one definition per test function, and their lemmas show that the model passes it.
\<close>

datatype ('s, 'v) test_step =
    Run "'s \<Rightarrow> 's res"
  | Assert "'s \<Rightarrow> bool"
  | Expect "'s \<Rightarrow> ('v \<times> 's) res" "'v \<Rightarrow> bool"

text \<open>A test passes when no call panics and every assertion holds.\<close>

fun passes :: "('s, 'v) test_step list \<Rightarrow> 's \<Rightarrow> bool" where
  "passes [] s \<longleftrightarrow> True"
| "passes (Run f # ts) s \<longleftrightarrow> (case f s of Inl _ \<Rightarrow> False | Inr s \<Rightarrow> passes ts s)"
| "passes (Assert p # ts) s \<longleftrightarrow> p s \<and> passes ts s"
| "passes (Expect f p # ts) s \<longleftrightarrow> (case f s of Inl _ \<Rightarrow> False | Inr r \<Rightarrow> p (fst r) \<and> passes ts (snd r))"

definition Call :: "('s \<Rightarrow> 's) \<Rightarrow> ('s, 'v) test_step" where
  "Call f = Run (\<lambda>s. Inr (f s))"

lemma passes_Call [simp]: "passes (Call f # ts) s = passes ts (f s)"
  by (simp add: Call_def)

text \<open>Symbolic execution runs the state and leaves the rest of the list alone.\<close>

lemma passes_state: "s = s' \<Longrightarrow> passes ts s = passes ts s'"
  by simp

lemmas stepwise = passes_state let_weak_cong

end
