(* ===== verification/OtgFsTests.thy ===== *)
theory OtgFsTests
  imports OtgFs UnitTests
begin

text \<open>The unit tests of \<open>src/peripherals/otg_fs.rs\<close>.\<close>

section \<open>Helpers of the tests\<close>

definition set_bulk_endpoints :: "nat \<Rightarrow> nat \<Rightarrow> otg_fs \<Rightarrow> otg_fs" where
  "set_bulk_endpoints in_ep out_ep t = t\<lparr>bulk_in_endpoint := Some in_ep, bulk_out_endpoint := Some out_ep\<rparr>"

definition set_global_interrupt_status :: "u32 \<Rightarrow> otg_fs \<Rightarrow> otg_fs" where
  "set_global_interrupt_status v t = t\<lparr>global_interrupt_status := global_interrupt_status t OR v\<rparr>"

definition write_global_interrupt_mask :: "u32 \<Rightarrow> otg_fs \<Rightarrow> otg_fs" where
  "write_global_interrupt_mask v t = t\<lparr>global_interrupt_mask := v\<rparr>"

definition read_fifo :: "nat \<Rightarrow> otg_fs \<Rightarrow> u32 \<times> otg_fs" where
  "read_fifo endpoint t = pop_rx_fifo_word t"

definition next_setup_request :: "otg_fs \<Rightarrow> u8 list" where
  "next_setup_request t = (let bytes = take 8 (rx_fifo t) in bytes @ replicate (8 - length bytes) 0)"

text \<open>A bridge over an in-process link; the test's handle of the link is the bridge's own.\<close>

definition new_embedded_for_test :: "usb_cdc_config \<Rightarrow> cdc_state \<Rightarrow> usb_cdc" where
  "new_embedded_for_test config link =
     \<lparr>cdc_config = config, listener = False, embedded = Some (attach_device link), client = False,
      client_connected_at = None, stale_client_grace_period = STALE_CLIENT_GRACE_PERIOD,
      to_device = [], from_device = [], rx_total = 0, tx_total = 0\<rparr>"

definition embedded_bridge :: "cdc_state \<Rightarrow> usb_cdc" where
  "embedded_bridge link = new_embedded_for_test
     \<lparr>cdc_peripheral = ''OTG_FS_GLOBAL'', cdc_listen = ''127.0.0.1:0'', max_buffered_bytes = 64\<rparr> link"

definition link_of :: "otg_fs \<Rightarrow> cdc_state" where
  "link_of t = (case bridge t of None \<Rightarrow> link_new | Some b \<Rightarrow> (case embedded b of None \<Rightarrow> link_new | Some l \<Rightarrow> l))"

definition on_link :: "(cdc_state \<Rightarrow> 'e fallible \<times> cdc_state) \<Rightarrow> otg_fs \<Rightarrow> otg_fs res" where
  "on_link f t = (case f (link_of t) of
     (Inl _, l) \<Rightarrow> Inl UnwrapFailed
   | (Inr _, l) \<Rightarrow> Inr (t\<lparr>bridge := map_option (\<lambda>b. b\<lparr>embedded := Some l\<rparr>) (bridge t)\<rparr>))"

definition write_reg :: "u32 \<Rightarrow> u32 \<Rightarrow> (otg_fs, u32) test_step" where
  "write_reg offset v = Call (register_write offset v)"

definition read_reg :: "u32 \<Rightarrow> (u32 \<Rightarrow> bool) \<Rightarrow> (otg_fs, u32) test_step" where
  "read_reg offset p = Expect (register_read offset) p"

definition pop_reg :: "u32 \<Rightarrow> (otg_fs, u32) test_step" where
  "pop_reg offset = Expect (register_read offset) (\<lambda>_. True)"

abbreviation otg_passes :: "(otg_fs, u32) test_step list \<Rightarrow> otg_fs \<Rightarrow> bool" where
  "otg_passes \<equiv> passes"

section \<open>The embedded link\<close>

definition embedded_protocol_is_ready_only_after_usb_enumeration_completes :: bool where
  "embedded_protocol_is_ready_only_after_usb_enumeration_completes = otg_passes
     [Assert (\<lambda>t. \<not> protocol_ready (link_of t)),
      Call advance_virtual_host,
      Assert (\<lambda>t. protocol_ready (link_of t)),
      Call virtual_host_reset,
      Assert (\<lambda>t. \<not> protocol_ready (link_of t))]
     ((otg_base (Some (embedded_bridge link_new)))\<lparr>host_step := AwaitingSetControlLineStateStatus\<rparr>)"

definition embedded_host_waits_until_firmware_enables_usb_interrupts :: bool where
  "embedded_host_waits_until_firmware_enables_usb_interrupts = otg_passes
     [Call (refresh_virtual_host_attachment False),
      Assert (\<lambda>t. \<not> host_attached t),
      Assert (\<lambda>t. global_interrupt_status t AND USB_RESET = 0),
      write_reg 0x18 0xffffffff,
      Call (refresh_virtual_host_attachment False),
      Assert (\<lambda>t. \<not> host_attached t),
      Call (refresh_virtual_host_attachment True),
      Assert host_attached,
      Assert (\<lambda>t. global_interrupt_status t AND USB_RESET \<noteq> 0)]
     (otg_base (Some (embedded_bridge link_new)))"

section \<open>Registers\<close>

definition grstctl_core_soft_reset_clears_immediately :: bool where
  "grstctl_core_soft_reset_clears_immediately = otg_passes
     [write_reg 0x10 1, read_reg 0x10 (\<lambda>v. v AND 1 = 0)] (otg_base None)"

definition grstctl_fifo_flush_requests_clear_immediately :: bool where
  "grstctl_fifo_flush_requests_clear_immediately = otg_passes
     [write_reg 0x10 (bit_mask 4 OR bit_mask 5), read_reg 0x10 (\<lambda>v. v AND GRSTCTL_SELF_CLEARING = 0)] (otg_base None)"

definition device_control_register_retains_written_value :: bool where
  "device_control_register_retains_written_value = otg_passes
     [write_reg 0x804 2, read_reg 0x804 (\<lambda>v. v = 2)] (otg_base None)"

definition endpoint_zero_and_endpoint_one_in_control_registers_are_independent :: bool where
  "endpoint_zero_and_endpoint_one_in_control_registers_are_independent = otg_passes
     [write_reg DIEP_BASE 0x10008040,
      write_reg (DIEP_BASE + EP_STRIDE) 0x08000000,
      read_reg DIEP_BASE (\<lambda>v. v = 0x10008040),
      read_reg (DIEP_BASE + EP_STRIDE) (\<lambda>v. v = 0x08000000)] (otg_base None)"

definition endpoint_interrupt_bits_clear_on_write_one :: bool where
  "endpoint_interrupt_bits_clear_on_write_one = otg_passes
     [Call (raise_in_endpoint_interrupt 0 0xffffffff),
      write_reg (DIEP_BASE + 0x08) 0xffffffff,
      read_reg (DIEP_BASE + 0x08) (\<lambda>v. v = 0)] (otg_base None)"

definition unmasked_endpoint_zero_out_interrupt_raises_oepint_and_global_interrupt :: bool where
  "unmasked_endpoint_zero_out_interrupt_raises_oepint_and_global_interrupt = otg_passes
     [Call (write_global_interrupt_mask GINTSTS_OEPINT),
      write_reg 0x81c 0x00010000,
      Run (raise_out_endpoint_interrupt 0 DOEPINT_XFRC),
      Assert interrupt_pending,
      read_reg 0x14 (\<lambda>v. v AND GINTSTS_OEPINT = GINTSTS_OEPINT)] (otg_base None)"

definition sof_bit_raises_masked_interrupt_and_clears_on_write_one :: bool where
  "sof_bit_raises_masked_interrupt_and_clears_on_write_one = otg_passes
     [Call (write_global_interrupt_mask GINTSTS_SOF),
      Assert (\<lambda>t. \<not> interrupt_pending t),
      Call (set_global_interrupt_status GINTSTS_SOF),
      Assert interrupt_pending,
      read_reg 0x14 (\<lambda>v. v AND GINTSTS_SOF = GINTSTS_SOF),
      write_reg 0x14 GINTSTS_SOF,
      Assert (\<lambda>t. \<not> interrupt_pending t)] (otg_base None)"

definition dtxfsts_reports_room_for_a_full_control_packet :: bool where
  "dtxfsts_reports_room_for_a_full_control_packet = otg_passes
     [read_reg (DIEP_BASE + 0x18) (\<lambda>v. 64 \<le> v * 4)] (otg_base None)"

section \<open>The virtual host\<close>

definition setup_request :: "u8 list" where
  "setup_request = [0x80, 0x06, 0x00, 0x01, 0, 0, 18, 0]"

definition endpoint_zero_setup_packet_is_read_from_fifo :: bool where
  "endpoint_zero_setup_packet_is_read_from_fifo = otg_passes
     [Call virtual_host_reset,
      Call (virtual_host_setup 0 setup_request),
      Expect (\<lambda>t. Inr (read_fifo 0 t)) (\<lambda>v. v = 0x01000680)] (otg_base None)"

definition enabling_endpoint_zero_out_after_reset_queues_the_first_get_descriptor_setup :: bool where
  "enabling_endpoint_zero_out_after_reset_queues_the_first_get_descriptor_setup = otg_passes
     [Call virtual_host_reset,
      write_reg DOEP_BASE 0x10008040,
      Assert (\<lambda>t. next_setup_request t = get_device_descriptor_packet)] (otg_base None)"

definition firmware_completing_the_device_descriptor_response_advances_to_set_address :: bool where
  "firmware_completing_the_device_descriptor_response_advances_to_set_address = otg_passes
     [Call virtual_host_reset,
      Call (virtual_host_setup 0 get_device_descriptor_packet),
      pop_reg 0x20, pop_reg FIFO_BASE, pop_reg FIFO_BASE, pop_reg 0x20,
      write_reg (DIEP_BASE + 0x10) 18,
      write_reg DIEP_BASE (0x10008040 OR DIEPCTL_EPENA),
      write_reg FIFO_BASE 0, write_reg FIFO_BASE 0, write_reg FIFO_BASE 0, write_reg FIFO_BASE 0, write_reg FIFO_BASE 0,
      read_reg (DIEP_BASE + 0x08) (\<lambda>v. v AND DIEPINT_XFRC \<noteq> 0),
      Assert (\<lambda>t. next_setup_request t = set_address_packet VIRTUAL_DEVICE_ADDRESS),
      read_reg 0x20 (\<lambda>v. v AND RXSTS_PKTSTS_MASK = RXSTS_OUT_DATA),
      read_reg 0x20 (\<lambda>v. v AND RXSTS_PKTSTS_MASK = RXSTS_OUT_COMP),
      read_reg (DOEP_BASE + 0x08) (\<lambda>v. v AND DOEPINT_XFRC \<noteq> 0),
      read_reg 0x20 (\<lambda>v. v AND RXSTS_PKTSTS_MASK = RXSTS_SETUP_DATA)] (otg_base None)"

definition stup_interrupt_fires_only_after_setup_comp_is_popped_not_immediately :: bool where
  "stup_interrupt_fires_only_after_setup_comp_is_popped_not_immediately = otg_passes
     [Call (virtual_host_setup 0 setup_request),
      read_reg (DOEP_BASE + 0x08) (\<lambda>v. v = 0),
      pop_reg 0x20,
      read_reg (DOEP_BASE + 0x08) (\<lambda>v. v = 0),
      pop_reg 0x20,
      read_reg (DOEP_BASE + 0x08) (\<lambda>v. v AND DOEPINT_STUP \<noteq> 0)] (otg_base None)"

definition rxflvl_reflects_rx_status_occupancy_and_is_not_firmware_clearable :: bool where
  "rxflvl_reflects_rx_status_occupancy_and_is_not_firmware_clearable = otg_passes
     [Call (write_global_interrupt_mask GINTSTS_RXFLVL),
      Assert (\<lambda>t. \<not> interrupt_pending t),
      Call (virtual_host_setup 0 setup_request),
      Assert interrupt_pending,
      write_reg 0x14 0xffffffff,
      Assert interrupt_pending,
      pop_reg 0x20, pop_reg 0x20,
      Assert (\<lambda>t. \<not> interrupt_pending t)] (otg_base None)"

definition virtual_host_reset_allows_a_second_client_to_re_enumerate :: bool where
  "virtual_host_reset_allows_a_second_client_to_re_enumerate = otg_passes
     [Call virtual_host_reset,
      write_reg DOEP_BASE DOEPCTL_USBAEP,
      Assert (\<lambda>t. next_setup_request t = get_device_descriptor_packet),
      Call (\<lambda>t. t\<lparr>rx_fifo := [], rx_status := [], host_step := Configured\<rparr>),
      Call virtual_host_reset,
      Assert (\<lambda>t. host_step t = AwaitingDeviceDescriptor),
      write_reg DOEP_BASE DOEPCTL_USBAEP,
      Assert (\<lambda>t. next_setup_request t = get_device_descriptor_packet)] (otg_base None)"

section \<open>Bulk transfers\<close>

definition configured_bulk_in_completion_forwards_bytes_to_the_bridge :: bool where
  "configured_bulk_in_completion_forwards_bytes_to_the_bridge = otg_passes
     [Call (set_bulk_endpoints 1 1),
      write_reg (DIEP_BASE + EP_STRIDE + 0x10) 3,
      write_reg (DIEP_BASE + EP_STRIDE) DIEPCTL_EPENA,
      write_reg (FIFO_BASE + FIFO_WINDOW) 0x00ff0042,
      Assert (\<lambda>t. pending_bridge_writes t = [0x42, 0x00, 0xff])] ((otg_base None)\<lparr>host_step := Configured\<rparr>)"

definition configured_bulk_out_waits_for_firmware_to_rearm_the_endpoint :: bool where
  "configured_bulk_out_waits_for_firmware_to_rearm_the_endpoint = (let out_base = DOEP_BASE + EP_STRIDE in otg_passes
     [Call (set_bulk_endpoints 1 1),
      Run (on_link (\<lambda>l. (Inr (), set_protocol_stage ProtocolReady l))),
      Run (on_link connect),
      Run (on_link (write_from_host (replicate 128 0x5a))),
      write_reg (out_base + 0x10) 64,
      write_reg out_base DIEPCTL_EPENA,
      Run forward_bulk_out,
      Assert (\<lambda>t. length (rx_fifo t) = 64),
      Assert (\<lambda>t. length (rx_status t) = 2),
      read_reg out_base (\<lambda>v. v AND DIEPCTL_EPENA = 0),
      Run forward_bulk_out,
      Assert (\<lambda>t. length (rx_fifo t) = 64),
      Assert (\<lambda>t. length (rx_status t) = 2),
      pop_reg 0x20, pop_reg 0x20,
      write_reg (out_base + 0x10) 64,
      write_reg out_base DIEPCTL_EPENA,
      Run forward_bulk_out,
      Assert (\<lambda>t. length (rx_fifo t) = 128),
      Assert (\<lambda>t. length (rx_status t) = 2)]
     ((otg_base (Some (embedded_bridge link_new)))\<lparr>host_step := Configured\<rparr>))"

definition enabling_diepempmsk_for_an_armed_nonzero_transfer_raises_txfe :: bool where
  "enabling_diepempmsk_for_an_armed_nonzero_transfer_raises_txfe = otg_passes
     [write_reg (DIEP_BASE + 0x10) 18,
      write_reg DIEP_BASE (0x10008040 OR DIEPCTL_EPENA),
      read_reg (DIEP_BASE + 0x08) (\<lambda>v. v AND DIEPINT_TXFE = 0),
      write_reg 0x834 1,
      read_reg (DIEP_BASE + 0x08) (\<lambda>v. v AND DIEPINT_TXFE \<noteq> 0)] (otg_base None)"

definition arming_a_later_chunk_reraises_txfe_while_the_mask_stays_enabled :: bool where
  "arming_a_later_chunk_reraises_txfe_while_the_mask_stays_enabled = otg_passes
     [Call (set_bulk_endpoints 1 1),
      write_reg (DIEP_BASE + EP_STRIDE + 0x10) 4,
      write_reg (DIEP_BASE + EP_STRIDE) DIEPCTL_EPENA,
      write_reg 0x834 2,
      write_reg (DIEP_BASE + EP_STRIDE + 0x08) DIEPINT_TXFE,
      write_reg (FIFO_BASE + FIFO_WINDOW) 0x04030201,
      write_reg (DIEP_BASE + EP_STRIDE + 0x08) DIEPINT_XFRC,
      read_reg (DIEP_BASE + EP_STRIDE + 0x08) (\<lambda>v. v = 0),
      write_reg (DIEP_BASE + EP_STRIDE + 0x10) 4,
      write_reg (DIEP_BASE + EP_STRIDE) DIEPCTL_EPENA,
      read_reg (DIEP_BASE + EP_STRIDE + 0x08) (\<lambda>v. v AND DIEPINT_TXFE \<noteq> 0)] (otg_base None)"

section \<open>The model passes\<close>

lemma six_endpoints: "replicate 6 x = [x, x, x, x, x, x]" "[0..<6] = [0, 1, 2, 3, 4, 5]"
  by (simp_all add: numeral_eq_Suc upt_conv_Cons)

lemmas otg_consts = NUM_ENDPOINTS_def USB_RESET_def GRSTCTL_SELF_CLEARING_def DIEP_BASE_def DOEP_BASE_def EP_STRIDE_def
  FIFO_BASE_def FIFO_WINDOW_def GINTSTS_SOF_def GINTSTS_RXFLVL_def GINTSTS_IEPINT_def GINTSTS_OEPINT_def
  DIEPCTL_EPENA_def DOEPCTL_USBAEP_def DIEPINT_XFRC_def DIEPINT_TXFE_def DOEPINT_XFRC_def DOEPINT_STUP_def XFRSIZ_MASK_def
  DTXFSTS_AVAILABLE_WORDS_def RXSTS_PKTSTS_MASK_def RXSTS_SETUP_DATA_def RXSTS_SETUP_COMP_def RXSTS_OUT_DATA_def
  RXSTS_OUT_COMP_def VIRTUAL_DEVICE_ADDRESS_def setup_request_def get_device_descriptor_packet_def set_address_packet_def

lemmas otg_registers = register_write_def register_read_def fifo_endpoint_def decode_endpoint_def read_in_endpoint_def
  read_out_endpoint_def read_global_def write_global_def get_register_def read_grxstsp_def write_in_ctl_def write_out_ctl_def
  unmask_empty_def effective_gintsts_def daint_def interrupt_pending_def upd_in_def upd_out_def
  raise_in_endpoint_interrupt_def raise_out_endpoint_interrupt_def set_bulk_endpoints_def set_global_interrupt_status_def
  write_global_interrupt_mask_def

lemmas otg_transfers = pop_rx_fifo_word_def push_tx_fifo_word_def complete_in_transfer_def advance_virtual_host_def
  virtual_host_control_in_status_ack_def virtual_host_reset_def virtual_host_setup_def rx_status_word_def is_configured_def
  refresh_virtual_host_attachment_def forward_bulk_out_def read_fifo_def next_setup_request_def

lemmas otg_links = set_stage_def bridge_set_protocol_stage_def set_protocol_stage_def clear_queues_def link_of_def
  on_link_def embedded_bridge_def new_embedded_for_test_def attach_device_def link_new_def protocol_ready_def connect_def
  is_client_connected_def device_present_def write_from_host_def push_capped_def take_for_device_def read_for_device_def
  DEFAULT_MAX_BUFFERED_BYTES_def

lemmas otg_run = otg_base_def endpoint_default_def six_endpoints otg_consts otg_registers otg_transfers otg_links
  bit_mask_def Let_def to_le_bytes_def

lemmas otg_steps = write_reg_def read_reg_def pop_reg_def

lemma link_tests_pass:
  embedded_protocol_is_ready_only_after_usb_enumeration_completes
  embedded_host_waits_until_firmware_enables_usb_interrupts
  unfolding embedded_protocol_is_ready_only_after_usb_enumeration_completes_def
    embedded_host_waits_until_firmware_enables_usb_interrupts_def otg_steps
  by (simp_all cong: stepwise add: otg_run)

lemma register_tests_pass:
  grstctl_core_soft_reset_clears_immediately
  grstctl_fifo_flush_requests_clear_immediately
  device_control_register_retains_written_value
  endpoint_zero_and_endpoint_one_in_control_registers_are_independent
  endpoint_interrupt_bits_clear_on_write_one
  unmasked_endpoint_zero_out_interrupt_raises_oepint_and_global_interrupt
  sof_bit_raises_masked_interrupt_and_clears_on_write_one
  dtxfsts_reports_room_for_a_full_control_packet
  unfolding grstctl_core_soft_reset_clears_immediately_def grstctl_fifo_flush_requests_clear_immediately_def
    device_control_register_retains_written_value_def
    endpoint_zero_and_endpoint_one_in_control_registers_are_independent_def endpoint_interrupt_bits_clear_on_write_one_def
    unmasked_endpoint_zero_out_interrupt_raises_oepint_and_global_interrupt_def
    sof_bit_raises_masked_interrupt_and_clears_on_write_one_def dtxfsts_reports_room_for_a_full_control_packet_def otg_steps
  by (simp_all cong: stepwise add: otg_run)

lemma host_tests_pass:
  endpoint_zero_setup_packet_is_read_from_fifo
  enabling_endpoint_zero_out_after_reset_queues_the_first_get_descriptor_setup
  firmware_completing_the_device_descriptor_response_advances_to_set_address
  stup_interrupt_fires_only_after_setup_comp_is_popped_not_immediately
  rxflvl_reflects_rx_status_occupancy_and_is_not_firmware_clearable
  virtual_host_reset_allows_a_second_client_to_re_enumerate
  unfolding endpoint_zero_setup_packet_is_read_from_fifo_def
    enabling_endpoint_zero_out_after_reset_queues_the_first_get_descriptor_setup_def
    firmware_completing_the_device_descriptor_response_advances_to_set_address_def
    stup_interrupt_fires_only_after_setup_comp_is_popped_not_immediately_def
    rxflvl_reflects_rx_status_occupancy_and_is_not_firmware_clearable_def
    virtual_host_reset_allows_a_second_client_to_re_enumerate_def otg_steps
  by (simp_all cong: stepwise add: otg_run)

lemma bulk_tests_pass:
  configured_bulk_in_completion_forwards_bytes_to_the_bridge
  configured_bulk_out_waits_for_firmware_to_rearm_the_endpoint
  enabling_diepempmsk_for_an_armed_nonzero_transfer_raises_txfe
  arming_a_later_chunk_reraises_txfe_while_the_mask_stays_enabled
  unfolding configured_bulk_in_completion_forwards_bytes_to_the_bridge_def
    configured_bulk_out_waits_for_firmware_to_rearm_the_endpoint_def
    enabling_diepempmsk_for_an_armed_nonzero_transfer_raises_txfe_def
    arming_a_later_chunk_reraises_txfe_while_the_mask_stays_enabled_def otg_steps
  by (simp_all cong: stepwise add: otg_run)

end
