(* ===== verification/ChipTests.thy ===== *)
theory ChipTests
  imports OtgFsTests SimplePeripherals CoreRegs Timers Exti Dma
begin

text \<open>
  The unit tests of the chip's register blocks: \<open>src/peripherals/mod.rs\<close> (its register tests), \<open>rcc.rs\<close>,
  \<open>scb.rs\<close>, \<open>dwt.rs\<close>, \<open>nvic.rs\<close>, \<open>tim5.rs\<close>, \<open>tim6.rs\<close>, \<open>exti.rs\<close>, \<open>dma.rs\<close>. A test that reads the process-wide
  instruction clock is stated for every value of it.
\<close>

lemma trailing_zeros_bit_mask [simp]: "n < LENGTH('a) \<Longrightarrow> trailing_zeros (bit_mask n :: 'a::len word) = n"
  using trailing_zeros_props(2) [of "bit_mask n :: 'a word"]
  by (simp add: bit_mask_def word_ne_0_bit bit_simps)

lemma bit_mask_neq_0 [simp]: "n < LENGTH('a) \<Longrightarrow> bit_mask n \<noteq> (0 :: 'a::len word)"
  by (auto simp: word_ne_0_bit)

section \<open>Configuration registers\<close>

definition pwr_reports_voltage_scaling_ready_after_configuration :: bool where
  "pwr_reports_voltage_scaling_ready_after_configuration \<longleftrightarrow> csr1_after_cr1_write 0xc000 AND 0x4000 = 0x4000"

definition pwr_reports_overdrive_ready_after_overdrive_is_enabled :: bool where
  "pwr_reports_overdrive_ready_after_overdrive_is_enabled \<longleftrightarrow> csr1_after_cr1_write 0x1c000 AND 0x10000 = 0x10000"

definition pwr_csr1_reports_standby_ready_after_observed_enable :: bool where
  "pwr_csr1_reports_standby_ready_after_observed_enable \<longleftrightarrow> csr1_after_csr1_write 0x200 AND 0x8 = 0x8"

definition rtc_isr_reports_init_ready_after_init_request :: bool where
  "rtc_isr_reports_init_ready_after_init_request \<longleftrightarrow> isr_after_write 0x80 AND 0x40 = 0x40"

definition tim11_reports_capture_ready_after_observed_configuration :: bool where
  "tim11_reports_capture_ready_after_observed_configuration \<longleftrightarrow> sr_after_setup 1 1 1 AND 2 = 2"

definition cfgr_reports_hsi_status_when_hsi_is_selected :: bool where
  "cfgr_reports_hsi_status_when_hsi_is_selected \<longleftrightarrow> cfgr_after_write 0 AND 0xc = 0"

definition csr_reports_lsi_ready_when_lsi_is_enabled :: bool where
  "csr_reports_lsi_ready_when_lsi_is_enabled \<longleftrightarrow> csr_after_write 1 AND 2 = 2"

definition bdcr_reports_lse_ready_when_lse_is_enabled :: bool where
  "bdcr_reports_lse_ready_when_lse_is_enabled \<longleftrightarrow> bdcr_after_write 1 AND 2 = 2"

lemma configuration_tests_pass:
  pwr_reports_voltage_scaling_ready_after_configuration
  pwr_reports_overdrive_ready_after_overdrive_is_enabled
  pwr_csr1_reports_standby_ready_after_observed_enable
  rtc_isr_reports_init_ready_after_init_request
  tim11_reports_capture_ready_after_observed_configuration
  cfgr_reports_hsi_status_when_hsi_is_selected
  csr_reports_lsi_ready_when_lsi_is_enabled
  bdcr_reports_lse_ready_when_lse_is_enabled
  by (simp_all add: pwr_reports_voltage_scaling_ready_after_configuration_def
      pwr_reports_overdrive_ready_after_overdrive_is_enabled_def pwr_csr1_reports_standby_ready_after_observed_enable_def
      rtc_isr_reports_init_ready_after_init_request_def tim11_reports_capture_ready_after_observed_configuration_def
      cfgr_reports_hsi_status_when_hsi_is_selected_def csr_reports_lsi_ready_when_lsi_is_enabled_def
      bdcr_reports_lse_ready_when_lse_is_enabled_def csr1_after_cr1_write_def csr1_after_csr1_write_def
      isr_after_write_def sr_after_setup_def cfgr_after_write_def csr_after_write_def bdcr_after_write_def bit_mask_def Let_def)

definition masked_usb_reset_interrupt_does_not_become_pending :: bool where
  "masked_usb_reset_interrupt_does_not_become_pending = otg_passes
     [Call (set_global_interrupt_status USB_RESET),
      Assert (\<lambda>t. \<not> interrupt_pending t),
      Call (write_global_interrupt_mask USB_RESET),
      Assert interrupt_pending] (otg_base None)"

definition virtual_host_reset_sets_the_masked_reset_interrupt :: bool where
  "virtual_host_reset_sets_the_masked_reset_interrupt = otg_passes
     [Call (write_global_interrupt_mask USB_RESET),
      Call virtual_host_reset,
      Assert interrupt_pending] (otg_base None)"

lemma usb_reset_tests_pass:
  masked_usb_reset_interrupt_does_not_become_pending
  virtual_host_reset_sets_the_masked_reset_interrupt
  unfolding masked_usb_reset_interrupt_does_not_become_pending_def virtual_host_reset_sets_the_masked_reset_interrupt_def
  by (simp_all cong: stepwise add: otg_run)

section \<open>Core registers\<close>

definition cpacr_retains_the_firmware_fpu_enable_value :: bool where
  "cpacr_retains_the_firmware_fpu_enable_value \<longleftrightarrow>
     (case scb_write 0x88 0x00f00000 (scb_default, nvic_default) of
        Inl _ \<Rightarrow> False | Inr (s, n) \<Rightarrow> scb_read 0x88 s n = 0x00f00000)"

definition icsr_read_reports_rettobase_since_nested_interrupts_are_unsupported :: bool where
  "icsr_read_reports_rettobase_since_nested_interrupts_are_unsupported \<longleftrightarrow>
     read_icsr nvic_default AND ICSR_RETTOBASE = ICSR_RETTOBASE"

definition set_active_exception_number_for_test :: "u32 \<Rightarrow> nvic \<Rightarrow> nvic" where
  "set_active_exception_number_for_test v n = n\<lparr>active_exception_number := v\<rparr>"

definition icsr_read_reports_vectactive_from_nvics_currently_running_exception :: bool where
  "icsr_read_reports_vectactive_from_nvics_currently_running_exception = passes
     ([Assert (\<lambda>n. active_exception_number n = 0),
       Assert (\<lambda>n. read_icsr n AND 0x1ff = 0),
       Call (set_active_exception_number_for_test 66),
       Assert (\<lambda>n. read_icsr n AND 0x1ff = 66)] :: (nvic, u32) test_step list) nvic_default"

definition cyccnt_write_is_observed_on_the_next_read :: "u64 \<Rightarrow> bool" where
  "cyccnt_write_is_observed_on_the_next_read now \<longleftrightarrow> cyccnt now (set_cyccnt now 0x1000 dwt_default) = 0x1000"

lemma core_tests_pass:
  cpacr_retains_the_firmware_fpu_enable_value
  icsr_read_reports_rettobase_since_nested_interrupts_are_unsupported
  icsr_read_reports_vectactive_from_nvics_currently_running_exception
  "cyccnt_write_is_observed_on_the_next_read now"
  by (simp_all add: cpacr_retains_the_firmware_fpu_enable_value_def
      icsr_read_reports_rettobase_since_nested_interrupts_are_unsupported_def
      icsr_read_reports_vectactive_from_nvics_currently_running_exception_def
      cyccnt_write_is_observed_on_the_next_read_def scb_write_def scb_read_def read_icsr_def ICSR_RETTOBASE_def
      set_active_exception_number_for_test_def nvic_default_def bit_mask_def cyccnt_def set_cyccnt_def)

section \<open>Interrupt controller\<close>

definition stir_write_pends_the_requested_external_interrupt :: bool where
  "stir_write_pends_the_requested_external_interrupt \<longleftrightarrow>
     (case nvic_stir_write 0 31 nvic_default of
        Inl _ \<Rightarrow> False | Inr n \<Rightarrow> fst (get_and_clear_next_intr_pending n) = Some 31)"

text \<open>The engine of these tests: all memory mapped, with the vector of interrupt 0. Unicorn reports the program
  counter without its Thumb bit, so the tests compare it up to that bit.\<close>

definition interrupted_cpu :: "(arm_reg \<Rightarrow> u64) \<Rightarrow> flat_cpu" where
  "interrupted_cpu regs =
     \<lparr>fc_regs = regs(MSP := 0x20000100, CONTROL := 0), fc_mem = fc_store (4 * 16) (to_le_bytes 0x1001) (\<lambda>_. 0),
      fc_stopped = False\<rparr>"

definition run_interrupt_clears_itstate_before_entering_the_handler :: bool where
  "run_interrupt_clears_itstate_before_entering_the_handler \<longleftrightarrow>
     (case run_interrupt flat_ops 0 0 (nvic_default, interrupted_cpu ((\<lambda>_. 0)(XPSR := 0x0600fc00))) of
        Inl _ \<Rightarrow> False
      | Inr (n, uc) \<Rightarrow> (ucast (uc_reg_read flat_ops XPSR uc) :: u32) AND XPSR_ITSTATE_MASK = 0)"

definition pending_dispatch_is_deferred_while_mid_it_block_then_fires_once_clear :: bool where
  "pending_dispatch_is_deferred_while_mid_it_block_then_fires_once_clear =
     (let uc = interrupted_cpu ((\<lambda>_. 0)(PC := 0x100)); xpsr = uc_reg_read flat_ops XPSR uc in passes
     ([Call (\<lambda>(n, uc). (n\<lparr>enabled := enabled n OR 1\<rparr>, uc)),
       Run (\<lambda>(n, uc). res_map (\<lambda>n. (n, uc)) (set_intr_pending 0 n)),
       Call (\<lambda>(n, uc). (n, uc_reg_write flat_ops XPSR (xpsr OR 0x06000000) uc)),
       Run (run_pending_interrupts flat_ops 0 0),
       Assert (\<lambda>(n, uc). uc_reg_read flat_ops PC uc = 0x100),
       Assert (\<lambda>(n, uc). \<not> in_interrupt n),
       Call (\<lambda>(n, uc). (n, uc_reg_write flat_ops XPSR xpsr uc)),
       Run (run_pending_interrupts flat_ops 0 0),
       Assert (\<lambda>(n, uc). uc_reg_read flat_ops PC uc AND NOT 1 = 0x1000),
       Assert (\<lambda>(n, uc). in_interrupt n)] :: (nvic \<times> flat_cpu, u32) test_step list) (nvic_default, uc))"

definition ipr_register_round_trips_a_priority_byte_written_for_one_irq :: bool where
  "ipr_register_round_trips_a_priority_byte_written_for_one_irq =
     (let word = from_le_bytes [0x00, 0x00, 0x40, 0x00] in passes
     [Run (nvic_write 0x430 word),
      Expect (\<lambda>n. res_map (\<lambda>v. (v, n)) (nvic_read 0x430 n)) (\<lambda>v. v = word)] nvic_default)"

definition other_nvic_registers_remain_a_no_op_stub :: bool where
  "other_nvic_registers_remain_a_no_op_stub = passes
     [Run (nvic_write 0x0000 0xffffffff),
      Expect (\<lambda>n. res_map (\<lambda>v. (v, n)) (nvic_read 0x0000 n)) (\<lambda>v. v = 0)] nvic_default"

definition interrupt_enable_registers_retain_set_and_clear_state :: bool where
  "interrupt_enable_registers_retain_set_and_clear_state =
     (let mask = push_bit (67 mod 32) 1 in passes
     [Run (nvic_write (ISER_OFFSET + (67 div 32) * 4) mask),
      Assert (is_enabled 67),
      Expect (\<lambda>n. res_map (\<lambda>v. (v, n)) (nvic_read (ISER_OFFSET + (67 div 32) * 4) n)) (\<lambda>v. v = mask),
      Run (nvic_write (ICER_OFFSET + (67 div 32) * 4) mask),
      Assert (\<lambda>n. \<not> is_enabled 67 n)] nvic_default)"

definition external_interrupt_stays_pending_until_its_vector_is_enabled :: bool where
  "external_interrupt_stays_pending_until_its_vector_is_enabled = passes
     [Run (set_intr_pending 54),
      Expect (\<lambda>n. Inr (get_and_clear_next_dispatchable n)) (\<lambda>i. i = None),
      Call (\<lambda>n. n\<lparr>enabled := enabled n OR push_bit 54 1\<rparr>),
      Expect (\<lambda>n. Inr (get_and_clear_next_dispatchable n)) (\<lambda>i. i = Some 54),
      Assert (\<lambda>n. pending n = 0)] nvic_default"

lemma nvic_register_tests_pass:
  stir_write_pends_the_requested_external_interrupt
  ipr_register_round_trips_a_priority_byte_written_for_one_irq
  other_nvic_registers_remain_a_no_op_stub
  interrupt_enable_registers_retain_set_and_clear_state
  unfolding stir_write_pends_the_requested_external_interrupt_def
    ipr_register_round_trips_a_priority_byte_written_for_one_irq_def other_nvic_registers_remain_a_no_op_stub_def
    interrupt_enable_registers_retain_set_and_clear_state_def
  by (simp_all cong: stepwise add: nvic_stir_write_def set_intr_pending_def nvic_default_def
      get_and_clear_next_intr_pending_def IRQ_OFFSET_def Let_def nvic_write_def nvic_read_def enable_word_def ISER_OFFSET_def
      ICER_OFFSET_def ENABLE_WORDS_def ipr_word_base_def IPR_OFFSET_def IPR_COUNT_def is_enabled_def copy_from_slice_def
      bit_simps nth_overwrite to_le_bytes_def)

lemma next_single_dispatchable:
  assumes "pending n = bit_mask b" "b < 128"
  shows "get_and_clear_next_dispatchable n =
    (if b < 16 \<or> bit (enabled n) (b - 16) then (Some (int b - 16), n\<lparr>pending := 0\<rparr>) else (None, n))"
proof -
  have "dispatchable n = (if b < 16 \<or> bit (enabled n) (b - 16) then bit_mask b else 0)"
    by (rule word_eqI_bits) (use assms in \<open>auto simp: bit_dispatchable\<close>)
  then show ?thesis
    using assms by (simp add: get_and_clear_next_dispatchable_def IRQ_OFFSET_def)
qed

lemma external_interrupt_test_passes: external_interrupt_stays_pending_until_its_vector_is_enabled
  unfolding external_interrupt_stays_pending_until_its_vector_is_enabled_def
  by (simp cong: stepwise add: set_intr_pending_def IRQ_OFFSET_def nvic_default_def next_single_dispatchable bit_simps)

lemmas entry_run = run_interrupt_def read_vector_addr_def interrupted_cpu_def flat_ops_def IRQ_OFFSET_def to_le_bytes_def
  control_spsel_def control_fpca_def push_regs_def push_word_def CONTEXT_REGS_def XPSR_ITSTATE_MASK_def exc_return_def
  nvic_default_def upt_conv_Cons Let_def

lemma itstate_test_passes: run_interrupt_clears_itstate_before_entering_the_handler
  unfolding run_interrupt_clears_itstate_before_entering_the_handler_def
  by (simp cong: stepwise add: entry_run)

lemma deferred_dispatch_test_passes: pending_dispatch_is_deferred_while_mid_it_block_then_fires_once_clear
  unfolding pending_dispatch_is_deferred_while_mid_it_block_then_fires_once_clear_def
  by (simp cong: stepwise add: entry_run run_pending_interrupts_def maybe_set_systick_intr_pending_def set_intr_pending_def
      are_interrupts_disabled_def next_single_dispatchable)

section \<open>Timers\<close>

definition cnt_advances_one_tick_per_54_instructions :: bool where
  "cnt_advances_one_tick_per_54_instructions \<longleftrightarrow>
     ticks_from_instructions (54 * 5) - ticks_from_instructions 0 = 5"

definition cnt_wraps_at_two_to_the_32_ticks_not_instructions :: bool where
  "cnt_wraps_at_two_to_the_32_ticks_not_instructions \<longleftrightarrow> ticks_from_instructions (push_bit 32 1) = 79536431"

definition cnt_reads_zero_by_default_while_disabled :: "u64 \<Rightarrow> bool" where
  "cnt_reads_zero_by_default_while_disabled now \<longleftrightarrow> cnt now tim5_default = 0"

definition writing_cnt_while_enabled_is_observed_on_the_next_read :: "u64 \<Rightarrow> bool" where
  "writing_cnt_while_enabled_is_observed_on_the_next_read now \<longleftrightarrow>
     cnt now (write_cnt now 0x1000 (write_cr1 now 1 tim5_default)) = 0x1000"

definition disabling_freezes_cnt_at_its_current_value :: "u64 \<Rightarrow> bool" where
  "disabling_freezes_cnt_at_its_current_value now \<longleftrightarrow>
     cnt now (write_cr1 now 0 (write_cnt now 0x2000 (write_cr1 now 1 tim5_default))) = 0x2000"

definition cnt_written_while_disabled_takes_effect_once_enabled :: "u64 \<Rightarrow> bool" where
  "cnt_written_while_disabled_takes_effect_once_enabled now \<longleftrightarrow>
     cnt now (write_cr1 now 1 (write_cnt now 0x3000 tim5_default)) = 0x3000"

abbreviation tim5_passes :: "(tim5 \<times> nvic, u32) test_step list \<Rightarrow> bool" where
  "tim5_passes ts \<equiv> passes ts (tim5_default, nvic_default)"

definition on_tim5 :: "(tim5 \<Rightarrow> tim5) \<Rightarrow> (tim5 \<times> nvic, 'v) test_step" where
  "on_tim5 f = Call (\<lambda>st. (f (fst st), snd st))"

definition ccr1_reset_value_of_zero_never_spuriously_matches_before_firmware_arms_it :: "u64 \<Rightarrow> bool" where
  "ccr1_reset_value_of_zero_never_spuriously_matches_before_firmware_arms_it now = tim5_passes
     [on_tim5 (write_cr1 now 1),
      on_tim5 (write_cnt now 0),
      Run (tim5_poll now),
      Assert (\<lambda>st. tim5_read now 0x10 (fst st) AND SR_CC1IF = 0)]"

definition compare_match_sets_status_flag_but_does_not_interrupt_while_masked :: "u64 \<Rightarrow> bool" where
  "compare_match_sets_status_flag_but_does_not_interrupt_while_masked now = tim5_passes
     [on_tim5 (write_cr1 now 1),
      on_tim5 (tim5_write now 0x34 100),
      on_tim5 (write_cnt now 200),
      Run (tim5_poll now),
      Assert (\<lambda>st. tim5_read now 0x10 (fst st) AND SR_CC1IF \<noteq> 0),
      Assert (\<lambda>st. fst (get_and_clear_next_intr_pending (snd st)) = None)]"

definition compare_match_raises_tim5_interrupt_once_the_mask_is_enabled :: "u64 \<Rightarrow> bool" where
  "compare_match_raises_tim5_interrupt_once_the_mask_is_enabled now = tim5_passes
     [on_tim5 (write_cr1 now 1),
      on_tim5 (tim5_write now 0x34 100),
      on_tim5 (tim5_write now 0x0c DIER_CC1IE),
      on_tim5 (write_cnt now 200),
      Run (tim5_poll now),
      Assert (\<lambda>st. fst (get_and_clear_next_intr_pending (snd st)) = Some TIM5_IRQ)]"

definition epic_efi_fast_adc_configuration_is_ten_khz :: bool where
  "epic_efi_fast_adc_configuration_is_ten_khz \<longleftrightarrow> period_instructions 1079 9 = 21600"

lemma counter_tests_pass:
  cnt_advances_one_tick_per_54_instructions
  cnt_wraps_at_two_to_the_32_ticks_not_instructions
  "cnt_reads_zero_by_default_while_disabled now"
  "writing_cnt_while_enabled_is_observed_on_the_next_read now"
  "disabling_freezes_cnt_at_its_current_value now"
  "cnt_written_while_disabled_takes_effect_once_enabled now"
  epic_efi_fast_adc_configuration_is_ten_khz
  by (simp_all add: cnt_advances_one_tick_per_54_instructions_def cnt_wraps_at_two_to_the_32_ticks_not_instructions_def
      cnt_reads_zero_by_default_while_disabled_def writing_cnt_while_enabled_is_observed_on_the_next_read_def
      disabling_freezes_cnt_at_its_current_value_def cnt_written_while_disabled_takes_effect_once_enabled_def
      epic_efi_fast_adc_configuration_is_ten_khz_def ticks_from_instructions_def INSTRUCTIONS_PER_TICK_def
      cnt_def cen_def write_cnt_def write_cr1_def tim5_default_def period_instructions_def saturating_mul_def)

lemma compare_tests_pass:
  "ccr1_reset_value_of_zero_never_spuriously_matches_before_firmware_arms_it now"
  "compare_match_sets_status_flag_but_does_not_interrupt_while_masked now"
  "compare_match_raises_tim5_interrupt_once_the_mask_is_enabled now"
  unfolding ccr1_reset_value_of_zero_never_spuriously_matches_before_firmware_arms_it_def
    compare_match_sets_status_flag_but_does_not_interrupt_while_masked_def
    compare_match_raises_tim5_interrupt_once_the_mask_is_enabled_def on_tim5_def
  by (simp_all cong: stepwise add: cnt_def cen_def write_cnt_def write_cr1_def tim5_default_def tim5_poll_def tim5_read_def
      tim5_write_def has_passed_ccr1_def SR_CC1IF_def DIER_CC1IE_def TIM5_IRQ_def set_intr_pending_def IRQ_OFFSET_def
      nvic_default_def get_and_clear_next_intr_pending_def Let_def)

section \<open>External interrupts\<close>

definition route_line_6_to_port_c :: exti where
  "route_line_6_to_port_c =
     write_exti 0x08 (bit_mask 6) (write_exti 0x00 (bit_mask 6) (write_syscfg 0x0C (push_bit 8 2) exti_default))"

abbreviation exti_passes :: "(exti, int option) test_step list \<Rightarrow> exti \<Rightarrow> bool" where
  "exti_passes \<equiv> passes"

definition raise_line :: "nat \<Rightarrow> nat \<Rightarrow> bool \<Rightarrow> int option \<Rightarrow> (exti, int option) test_step" where
  "raise_line port line rising irq = Expect (\<lambda>e. Inr (raise_line_if_configured port line rising e)) (\<lambda>i. i = irq)"

definition a_rising_edge_on_an_unmasked_correctly_routed_line_raises_the_shared_irq :: bool where
  "a_rising_edge_on_an_unmasked_correctly_routed_line_raises_the_shared_irq = exti_passes
     [raise_line 2 6 True (Some 23),
      Assert (\<lambda>e. read_exti 0x14 e AND bit_mask 6 = bit_mask 6)] route_line_6_to_port_c"

definition a_falling_edge_does_not_fire_when_only_rising_is_selected :: bool where
  "a_falling_edge_does_not_fire_when_only_rising_is_selected = exti_passes
     [raise_line 2 6 False None] route_line_6_to_port_c"

definition a_falling_edge_fires_when_falling_is_selected :: bool where
  "a_falling_edge_fires_when_falling_is_selected = exti_passes
     [Call (write_syscfg 0x0C (push_bit 8 2)),
      Call (write_exti 0x00 (bit_mask 6)),
      Call (write_exti 0x0C (bit_mask 6)),
      raise_line 2 6 False (Some 23),
      Assert (\<lambda>e. read_exti 0x14 e AND bit_mask 6 = bit_mask 6)] exti_default"

definition a_line_routed_to_a_different_port_does_not_fire :: bool where
  "a_line_routed_to_a_different_port_does_not_fire = exti_passes
     [raise_line 0 6 True None] route_line_6_to_port_c"

definition a_masked_line_does_not_fire :: bool where
  "a_masked_line_does_not_fire = exti_passes
     [Call (write_exti 0x00 0), raise_line 2 6 True None] route_line_6_to_port_c"

definition pending_bit_clears_on_write_one :: bool where
  "pending_bit_clears_on_write_one = exti_passes
     [Call (\<lambda>e. snd (raise_line_if_configured 2 6 True e)),
      Call (write_exti 0x14 (bit_mask 6)),
      Assert (\<lambda>e. read_exti 0x14 e AND bit_mask 6 = 0)] route_line_6_to_port_c"

definition irq_numbers_match_the_svd_for_each_line_group :: bool where
  "irq_numbers_match_the_svd_for_each_line_group = exti_passes
     [Call (write_syscfg 0x08 0),
      Call (write_exti 0x00 0xf),
      Call (write_exti 0x08 0xf),
      raise_line 0 0 True (Some 6),
      raise_line 0 1 True (Some 7),
      raise_line 0 2 True (Some 8),
      raise_line 0 3 True (Some 9)] exti_default"

lemma exti_tests_pass:
  a_rising_edge_on_an_unmasked_correctly_routed_line_raises_the_shared_irq
  a_falling_edge_does_not_fire_when_only_rising_is_selected
  a_falling_edge_fires_when_falling_is_selected
  a_line_routed_to_a_different_port_does_not_fire
  a_masked_line_does_not_fire
  pending_bit_clears_on_write_one
  irq_numbers_match_the_svd_for_each_line_group
  unfolding a_rising_edge_on_an_unmasked_correctly_routed_line_raises_the_shared_irq_def
    a_falling_edge_does_not_fire_when_only_rising_is_selected_def a_falling_edge_fires_when_falling_is_selected_def
    a_line_routed_to_a_different_port_does_not_fire_def a_masked_line_does_not_fire_def
    pending_bit_clears_on_write_one_def irq_numbers_match_the_svd_for_each_line_group_def raise_line_def
  by (simp_all cong: stepwise add: route_line_6_to_port_c_def exti_default_def write_exti_def write_syscfg_def read_exti_def
      raise_line_if_configured_def exticr_port_for_line_def irq_for_line_def bit_mask_def Let_def)

section \<open>DMA\<close>

text \<open>The system of these tests: the interrupt controller, no peripheral behind the bus and no memory.\<close>

definition bare_system :: "nvic dma_system" where
  "bare_system = \<lparr>sys_peri_present = (\<lambda>a n. False), sys_read_dma = (\<lambda>a k n. Inr ([], n)),
     sys_write_dma = (\<lambda>a bs n. Inr n), sys_mem_read = (\<lambda>a k n. None), sys_mem_write = (\<lambda>a bs n. None),
     sys_pend = set_intr_pending\<rparr>"

definition dma2 :: dma where
  "dma2 = \<lparr>dma_name = ''DMA2'', streams = replicate 8 stream_default, lisr = 0, hisr = 0,
     complete_at = replicate 8 None, last_now = 0\<rparr>"

definition STREAM4_CR :: u32 where "STREAM4_CR = 0x10 + 4 * 0x18"
definition DMA_EN :: u32 where "DMA_EN = 1"
definition TCIE :: u32 where "TCIE = bit_mask 4"

definition dma_reg :: "u32 \<Rightarrow> u32 \<Rightarrow> (dma \<times> nvic, u32) test_step" where
  "dma_reg offset v = Run (\<lambda>(d, n). res_map (\<lambda>d. (d, n)) (dma_write offset v d))"

definition dma_sees :: "u32 \<Rightarrow> (u32 \<Rightarrow> bool) \<Rightarrow> (dma \<times> nvic, u32) test_step" where
  "dma_sees offset p = Expect (\<lambda>(d, n). res_map (\<lambda>(v, d). (v, d, n)) (dma_read offset d)) p"

definition next_irq :: "int option \<Rightarrow> (dma \<times> nvic, u32) test_step" where
  "next_irq irq = Run (\<lambda>(d, n). let (i, n) = get_and_clear_next_intr_pending n in
     if i = irq then Inr (d, n) else Inl AssertFailed)"

definition stream_irq_matches_the_reference_manual_vector_table :: bool where
  "stream_irq_matches_the_reference_manual_vector_table \<longleftrightarrow>
     stream_irq ''DMA1'' 7 = Some 47 \<and> stream_irq ''DMA2'' 4 = Some 60 \<and> stream_irq ''DMA3'' 0 = None"

definition transfer_completion_fires_only_after_the_scheduled_delay :: bool where
  "transfer_completion_fires_only_after_the_scheduled_delay = passes
     [Run (advance_to bare_system 1000),
      dma_reg (STREAM4_CR + 0x04) 0,
      dma_reg STREAM4_CR (DMA_EN OR TCIE),
      next_irq None,
      dma_sees 0x04 (\<lambda>v. v AND tcif_bit 0 = 0),
      Run (advance_to bare_system (1000 + TRANSFER_COMPLETE_DELAY - 1)),
      next_irq None,
      dma_sees 0x04 (\<lambda>v. v AND tcif_bit 0 = 0),
      Run (advance_to bare_system (1000 + TRANSFER_COMPLETE_DELAY)),
      dma_sees 0x04 (\<lambda>v. v AND tcif_bit 0 \<noteq> 0),
      next_irq (Some 60)] (dma2, nvic_default)"

definition enabling_a_stream_transfer_raises_its_completion_interrupt_when_tcie_is_set :: bool where
  "enabling_a_stream_transfer_raises_its_completion_interrupt_when_tcie_is_set = passes
     [dma_reg (STREAM4_CR + 0x04) 0,
      dma_reg STREAM4_CR (DMA_EN OR TCIE),
      Run (advance_to bare_system TRANSFER_COMPLETE_DELAY),
      next_irq (Some 60)] (dma2, nvic_default)"

definition transfer_complete_flag_sets_but_is_not_forwarded_to_nvic_without_tcie :: bool where
  "transfer_complete_flag_sets_but_is_not_forwarded_to_nvic_without_tcie = passes
     [dma_reg (STREAM4_CR + 0x04) 0,
      dma_reg STREAM4_CR DMA_EN,
      Run (advance_to bare_system TRANSFER_COMPLETE_DELAY),
      next_irq None,
      dma_sees 0x04 (\<lambda>v. v AND tcif_bit 0 \<noteq> 0)] (dma2, nvic_default)"

definition interrupt_flag_clear_register_clears_the_flag :: bool where
  "interrupt_flag_clear_register_clears_the_flag = passes
     [dma_reg (STREAM4_CR + 0x04) 0,
      dma_reg STREAM4_CR DMA_EN,
      Run (advance_to bare_system TRANSFER_COMPLETE_DELAY),
      dma_sees 0x04 (\<lambda>v. v AND tcif_bit 0 \<noteq> 0),
      dma_reg 0x0c (tcif_bit 0),
      dma_sees 0x04 (\<lambda>v. v AND tcif_bit 0 = 0)] (dma2, nvic_default)"

definition enabling_a_stream_arms_it_until_the_completion_deadline :: bool where
  "enabling_a_stream_arms_it_until_the_completion_deadline = passes
     [Expect (\<lambda>s. Inr (stream_write 0 (DMA_EN OR TCIE) s)) (\<lambda>armed. armed),
      Assert (\<lambda>s. s_ndtr s = 128),
      Assert (\<lambda>s. s_cr s AND DMA_EN \<noteq> 0),
      Call finish_transfer,
      Assert (\<lambda>s. s_ndtr s = 0),
      Assert (\<lambda>s. s_cr s AND DMA_EN = 0)] (stream_default\<lparr>s_ndtr := 128\<rparr>)"

lemma eight_streams: "replicate 8 x = [x, x, x, x, x, x, x, x]" "[0..<8] = [0, 1, 2, 3, 4, 5, 6, 7]"
  by (simp_all add: numeral_eq_Suc upt_conv_Cons)

lemmas dma_run = advance_to_def advance_stream_def dma2_def stream_default_def eight_streams dma_write_def dma_read_def
  from_offset_def STREAM4_CR_def DMA_EN_def TCIE_def tcif_bit_def TRANSFER_COMPLETE_DELAY_def stream_write_def
  stream_irq_def bare_system_def do_xfer_def stream_dir_def data_addr_def data_size_def word_size_bytes_def
  finish_transfer_def set_transfer_complete_flag_def set_intr_pending_def IRQ_OFFSET_def
  nvic_default_def get_and_clear_next_intr_pending_def bit_mask_def [where 'a = 32] Let_def

lemma dma_tests_pass:
  stream_irq_matches_the_reference_manual_vector_table
  transfer_completion_fires_only_after_the_scheduled_delay
  enabling_a_stream_transfer_raises_its_completion_interrupt_when_tcie_is_set
  transfer_complete_flag_sets_but_is_not_forwarded_to_nvic_without_tcie
  interrupt_flag_clear_register_clears_the_flag
  enabling_a_stream_arms_it_until_the_completion_deadline
  unfolding stream_irq_matches_the_reference_manual_vector_table_def
    transfer_completion_fires_only_after_the_scheduled_delay_def
    enabling_a_stream_transfer_raises_its_completion_interrupt_when_tcie_is_set_def
    transfer_complete_flag_sets_but_is_not_forwarded_to_nvic_without_tcie_def
    interrupt_flag_clear_register_clears_the_flag_def enabling_a_stream_arms_it_until_the_completion_deadline_def
    dma_reg_def dma_sees_def next_irq_def
  by (simp_all cong: stepwise add: dma_run)

end
