(* ===== verification/SystemTests.thy ===== *)
theory SystemTests
  imports ChipTests System Adc
begin

text \<open>
  The unit tests that need more than one component: the bus tests of \<open>src/peripherals/mod.rs\<close> over the core
  peripherals, and the converter tests of \<open>adc.rs\<close> over a harness.
\<close>

section \<open>The bus over the core peripherals\<close>

definition core_registration :: registration where
  "core_registration =
     register_core_peripherals \<lparr>reg_debug = [], reg_slots = [], reg_cells = [], reg_devices = ext_devices_default\<rparr>"

definition quiet_sockets :: socket_answers where
  "quiet_sockets = \<lparr>so_time = 0, so_accept = [], so_read = [], so_write = []\<rparr>"

definition core_world :: "(flat_cpu, string \<Rightarrow> u8 list option) world" where
  "core_world = \<lparr>w_ops = flat_ops, w_fs = flat_fs, w_slots = reg_slots core_registration, w_ports = gpio_ports_default,
     w_answers = (\<lambda>round. (\<lambda>i. quiet_sockets, \<lambda>i. quiet_sockets))\<rparr>"

definition core_hw :: "(flat_cpu, string \<Rightarrow> u8 list option) hw" where
  "core_hw = \<lparr>hw_nvic = nvic_default, hw_exti = exti_default,
     hw_uc = \<lparr>fc_regs = \<lambda>r. 0, fc_mem = \<lambda>a. 0, fc_stopped = False\<rparr>, hw_files = Map.empty,
     hw_cells = reg_cells core_registration, hw_borrowed = {}, hw_devices = ext_devices_default, hw_soft_spi = [],
     hw_now = 0, hw_round = 0\<rparr>"

abbreviation bus_passes :: "((flat_cpu, string \<Rightarrow> u8 list option) hw, u32) test_step list \<Rightarrow> bool" where
  "bus_passes ts \<equiv> passes ts core_hw"

definition store :: "u32 \<Rightarrow> u8 \<Rightarrow> u32 \<Rightarrow> ((flat_cpu, string \<Rightarrow> u8 list option) hw, u32) test_step" where
  "store addr sz v = Run (system_write core_world addr sz v)"

definition load :: "u32 \<Rightarrow> u8 \<Rightarrow> u32 \<Rightarrow> ((flat_cpu, string \<Rightarrow> u8 list option) hw, u32) test_step" where
  "load addr sz v = Expect (system_read core_world addr sz) (\<lambda>x. x = v)"

definition scb_model_range_includes_cpacr :: bool where
  "scb_model_range_includes_cpacr \<longleftrightarrow> modeled_range ''SCB'' 0xe000ed00 4 = (0xe000ed00, 0xe000ed8f)"

definition core_systick_model_covers_control_register :: bool where
  "core_systick_model_covers_control_register \<longleftrightarrow> get_peripheral (reg_slots core_registration) 0xe000e010 \<noteq> None"

definition core_scb_model_covers_interrupt_control_register :: bool where
  "core_scb_model_covers_interrupt_control_register \<longleftrightarrow> get_peripheral (reg_slots core_registration) 0xe000ed04 \<noteq> None"

definition core_nvic_model_covers_the_interrupt_priority_array :: bool where
  "core_nvic_model_covers_the_interrupt_priority_array \<longleftrightarrow>
     get_peripheral (reg_slots core_registration) 0xe000e400 \<noteq> None"

definition sub_word_read_extracts_the_targeted_byte_not_the_whole_word_shifted_up :: bool where
  "sub_word_read_extracts_the_targeted_byte_not_the_whole_word_shifted_up = bus_passes
     [store 0xe000e430 4 0x00400000,
      load 0xe000e432 1 0x40]"

definition sub_word_writes_preserve_adjacent_register_bytes :: bool where
  "sub_word_writes_preserve_adjacent_register_bytes = bus_passes
     [store 0xe000e430 4 0x40302010,
      store 0xe000e432 1 0xaa,
      load 0xe000e430 4 0x40aa2010,
      store 0xe000e430 1 0x55,
      load 0xe000e430 4 0x40aa2055]"

lemma core_slots:
  "reg_slots core_registration =
     [\<lparr>slot_start = 0xe0001000, slot_end = 0xe0001008, slot_peripheral = 0\<rparr>,
      \<lparr>slot_start = 0xe000e010, slot_end = 0xe000e01c, slot_peripheral = 1\<rparr>,
      \<lparr>slot_start = 0xe000e100, slot_end = 0xe000e4ef, slot_peripheral = 2\<rparr>,
      \<lparr>slot_start = 0xe000ed00, slot_end = 0xe000ed8f, slot_peripheral = 3\<rparr>,
      \<lparr>slot_start = 0xe000ef00, slot_end = 0xe000ef04, slot_peripheral = 4\<rparr>]"
  "reg_cells core_registration =
     [ChipDwt dwt_default, ChipSysTick systick_default, ChipNvic \<lparr>base_offset = 0x100\<rparr>, ChipScb scb_default, ChipStir]"
  by (simp_all add: core_registration_def register_core_peripherals_def push_model_def push_slot_def scb_new_def
      systick_new_def dwt_new_def)

lemmas slot_search = get_peripheral_def binary_search_by_key_def search_loop.simps

lemma core_lookup_tests_pass:
  scb_model_range_includes_cpacr
  core_systick_model_covers_control_register
  core_scb_model_covers_interrupt_control_register
  core_nvic_model_covers_the_interrupt_priority_array
  by (simp_all add: scb_model_range_includes_cpacr_def core_systick_model_covers_control_register_def
      core_scb_model_covers_interrupt_control_register_def core_nvic_model_covers_the_interrupt_priority_array_def
      modeled_range_def core_slots slot_search)

lemma priority_slot: "get_peripheral (w_slots core_world) 0xe000e430 =
    Some \<lparr>slot_start = 0xe000e100, slot_end = 0xe000e4ef, slot_peripheral = 2\<rparr>"
  by (simp add: core_world_def core_slots slot_search)

lemma nvic_cell: "reg_cells core_registration ! 2 = ChipNvic \<lparr>base_offset = 0x100\<rparr>"
  by (simp add: core_slots)

lemma sub_word_tests_pass:
  sub_word_read_extracts_the_targeted_byte_not_the_whole_word_shifted_up
  sub_word_writes_preserve_adjacent_register_bytes
  unfolding sub_word_read_extracts_the_targeted_byte_not_the_whole_word_shifted_up_def
    sub_word_writes_preserve_adjacent_register_bytes_def store_def load_def
  by (simp_all cong: stepwise add: system_read_def system_write_def bus_read.simps bus_write.simps bitbanding_def
      is_register_def align_addr_4_def priority_slot slot_read_def slot_write_def chip_ops_def chip_read_def chip_write_def
      nvic_cell nvic_wrapper_read_def nvic_wrapper_write_def nvic_write_def nvic_read_def enable_word_def ISER_OFFSET_def
      ICER_OFFSET_def ENABLE_WORDS_def ipr_word_base_def IPR_OFFSET_def IPR_COUNT_def copy_from_slice_def nth_overwrite
      to_le_bytes_def core_hw_def nvic_default_def Let_def)

section \<open>The internal flash\<close>

definition f7_dual_bank_sector_register_values_map_to_physical_ranges :: bool where
  "f7_dual_bank_sector_register_values_map_to_physical_ranges \<longleftrightarrow>
     sector_range 0 = Some (0, 16 * 1024)
     \<and> sector_range 4 = Some (64 * 1024, 64 * 1024)
     \<and> sector_range 11 = Some (896 * 1024, 128 * 1024)
     \<and> sector_range 0x10 = Some (1024 * 1024, 16 * 1024)
     \<and> sector_range 0x1b = Some (1920 * 1024, 128 * 1024)
     \<and> sector_range 12 = None"

lemma sector_test_passes: f7_dual_bank_sector_register_values_map_to_physical_ranges
  by (simp add: f7_dual_bank_sector_register_values_map_to_physical_ranges_def sector_range_def Let_def)

end
