(* ===== verification/EcuIoTests.thy ===== *)
theory EcuIoTests
  imports EcuIo Adc UnitTests
begin

text \<open>
  The unit tests of \<open>src/ext_devices/ecu_io.rs\<close> and \<open>src/peripherals/adc.rs\<close>. The peer of a socket is the
  list of answers each poll sees; what the peer reads is what the poll takes from the outgoing queue.
\<close>

section \<open>Helpers of the tests\<close>

definition test_config :: ecu_io_config where
  "test_config = \<lparr>ecu_listen = ''127.0.0.1:0'', ecu_pins = [],
     ecu_adc_channels = [\<lparr>ac_name = ''map'', ac_pin = ''PC0''\<rparr>], ecu_wheel_config = None\<rparr>"

text \<open>A test that starts by building its harness, which must succeed.\<close>

definition ecu_passes :: "ecu_io_config \<Rightarrow> (ecu_io, u32) test_step list \<Rightarrow> bool" where
  "ecu_passes config ts = (case ecu_new config None True of Inr (Inr e) \<Rightarrow> passes ts e | _ \<Rightarrow> False)"

definition polled :: "accept_result list \<Rightarrow> read_result list \<Rightarrow> write_result list \<Rightarrow> (ecu_io, u32) test_step" where
  "polled as rs ws = Run (\<lambda>e. case ecu_poll as rs ws e of (Inl _, _) \<Rightarrow> Inl UnwrapFailed | (Inr _, e) \<Rightarrow> Inr e)"

definition PC0 :: pin where "PC0 = \<lparr>pin_port = 2, pin_number = 0\<rparr>"
definition PA4 :: pin where "PA4 = \<lparr>pin_port = 0, pin_number = 4\<rparr>"

definition newline :: "u8 list" where "newline = [10]"

section \<open>Lines\<close>

definition a_line_sent_by_the_client_updates_the_named_value :: bool where
  "a_line_sent_by_the_client_updates_the_named_value = ecu_passes test_config
     ([polled [Accepted] [] [],
       polled [] [ReadBytes (into_bytes ''map=1500'' @ newline)] []] @ replicate 9 (polled [] [] []) @
      [Assert (\<lambda>e. adc_millivolts PC0 e = 1500)])"

definition a_malformed_line_is_ignored_not_fatal :: bool where
  "a_malformed_line_is_ignored_not_fatal = ecu_passes test_config
     ([polled [Accepted] [] [],
       polled [] [ReadBytes (into_bytes ''not-a-valid-line'' @ newline @ into_bytes ''map=750'' @ newline)] []] @
      replicate 9 (polled [] [] []) @
      [Assert (\<lambda>e. adc_millivolts PC0 e = 750)])"

definition an_unknown_signal_name_is_logged_and_not_stored :: bool where
  "an_unknown_signal_name_is_logged_and_not_stored = ecu_passes test_config
     ([polled [Accepted] [] [],
       polled [] [ReadBytes (into_bytes ''av12=1500'' @ newline)] []] @ replicate 9 (polled [] [] []) @
      [Assert (\<lambda>e. ecu_values e ''av12'' = None)])"

section \<open>Analog inputs\<close>

definition an_adc_millivolt_value_is_clamped_to_the_valid_range :: bool where
  "an_adc_millivolt_value_is_clamped_to_the_valid_range = ecu_passes test_config
     [Call (set_value ''map'' 999999),
      Assert (\<lambda>e. adc_millivolts PC0 e = 3300),
      Call (set_value ''map'' (- 50)),
      Assert (\<lambda>e. adc_millivolts PC0 e = 0)]"

definition an_unconfigured_pin_reads_zero :: bool where
  "an_unconfigured_pin_reads_zero = ecu_passes test_config [Assert (\<lambda>e. adc_millivolts PA4 e = 0)]"

section \<open>Output\<close>

definition report_output_pushes_a_line_only_when_a_client_is_connected :: "u64 \<Rightarrow> bool" where
  "report_output_pushes_a_line_only_when_a_client_is_connected now = ecu_passes test_config
     [Call (report_output now ''inj1'' False),
      polled [] [] [],
      polled [Accepted] [] [],
      Call (report_output now ''inj1'' True),
      Assert (\<lambda>e. outgoing e = into_bytes ''inj1=1'' @ newline),
      polled [] [] [Wrote 7],
      Assert (\<lambda>e. outgoing e = [])]"

definition report_output_only_queues_a_line_when_the_level_actually_changes :: "u64 \<Rightarrow> bool" where
  "report_output_only_queues_a_line_when_the_level_actually_changes now = ecu_passes test_config
     [polled [Accepted] [] [],
      Call (report_output now ''inj1'' True),
      Assert (\<lambda>e. outgoing e = into_bytes ''inj1=1'' @ newline),
      Call (\<lambda>e. e\<lparr>outgoing := []\<rparr>),
      Call (report_output now ''inj1'' True),
      Assert (\<lambda>e. outgoing e = []),
      Call (report_output now ''inj1'' False),
      Assert (\<lambda>e. outgoing e = into_bytes ''inj1=0'' @ newline)]"

text \<open>The second client is accepted and dropped; the queue it never sees still reaches the first.\<close>

definition a_second_client_is_rejected_while_one_is_already_connected :: "u64 \<Rightarrow> bool" where
  "a_second_client_is_rejected_while_one_is_already_connected now = ecu_passes test_config
     ([polled [Accepted] [] [],
       polled [Accepted] [] []] @ replicate 9 (polled [] [] []) @
      [Assert ecu_client,
       Assert (\<lambda>e. outgoing e = []),
       Call (report_output now ''inj1'' True),
       Assert (\<lambda>e. outgoing e = into_bytes ''inj1=1'' @ newline),
       polled [] [] [Wrote 7],
       Assert (\<lambda>e. outgoing e = [])])"

definition push_capped_vec_drops_oldest_bytes_once_over_capacity :: bool where
  "push_capped_vec_drops_oldest_bytes_once_over_capacity \<longleftrightarrow> push_capped_vec [1, 2, 3] [4, 5] 3 = [3, 4, 5]"

definition push_capped_deque_drops_oldest_bytes_once_over_capacity :: bool where
  "push_capped_deque_drops_oldest_bytes_once_over_capacity \<longleftrightarrow> push_capped_deque [1, 2, 3] [4, 5] 3 = [3, 4, 5]"

section \<open>The harness on the GPIO ports\<close>

definition one_pin_config :: "string \<Rightarrow> string \<Rightarrow> pin_direction \<Rightarrow> ecu_io_config" where
  "one_pin_config name pin direction = \<lparr>ecu_listen = ''127.0.0.1:0'',
     ecu_pins = [\<lparr>pc_name = name, pc_pin = pin, pc_direction = direction\<rparr>], ecu_adc_channels = [], ecu_wheel_config = None\<rparr>"

definition registered_passes :: "ecu_io_config \<Rightarrow> (ecu_io gpio_ports \<Rightarrow> (ecu_io, u16) test_step list) \<Rightarrow> bool" where
  "registered_passes config ts =
     (case ecu_register (\<lambda>e. e) (\<lambda>f. f) (\<lambda>e. 0) config None True gpio_ports_default of
        Inr (Inr (e, gpio)) \<Rightarrow> passes (ts gpio) e | _ \<Rightarrow> False)"

definition registered_input_pin_reflects_the_last_received_value_on_gpio_read :: bool where
  "registered_input_pin_reflects_the_last_received_value_on_gpio_read =
     registered_passes (one_pin_config ''crank'' ''PC6'' DirInput) (\<lambda>gpio.
     [Call (set_value ''crank'' 1),
      Expect (read_port gpio 2) (\<lambda>v. v = bit_mask 6),
      Call (set_value ''crank'' 0),
      Expect (read_port gpio 2) (\<lambda>v. v = 0)])"

definition registered_output_pin_reports_a_gpio_write_over_the_connection :: bool where
  "registered_output_pin_reports_a_gpio_write_over_the_connection =
     registered_passes (one_pin_config ''inj1'' ''PD7'' DirOutput) (\<lambda>gpio.
     [Call (\<lambda>e. snd (ecu_poll [Accepted] [] [] e)),
      Run (write_port gpio 3 7 True),
      Assert (\<lambda>e. outgoing e = into_bytes ''inj1=1'' @ newline),
      Call (\<lambda>e. snd (ecu_poll [] [] [Wrote 7] e)),
      Assert (\<lambda>e. outgoing e = [])])"

definition a_digital_input_level_change_raises_the_configured_exti_line :: bool where
  "a_digital_input_level_change_raises_the_configured_exti_line =
     (case ecu_new (one_pin_config ''crank'' ''PC6'' DirInput) None True of
        Inr (Inr e) \<Rightarrow>
          passes ([Call (\<lambda>(e, x, n). (e, write_syscfg 0x0C (push_bit 8 2) x, n)),
            Call (\<lambda>(e, x, n). (e, write_exti 0x00 (bit_mask 6) x, n)),
            Call (\<lambda>(e, x, n). (e, write_exti 0x08 (bit_mask 6) x, n)),
            Call (\<lambda>(e, x, n). (set_value ''crank'' 1 e, x, n)),
            Run check_digital_edges,
            Assert (\<lambda>(e, x, n). read_exti 0x14 x AND bit_mask 6 = bit_mask 6)]
            :: (ecu_io \<times> exti \<times> nvic, u32) test_step list) (e, exti_default, nvic_default)
      | _ \<Rightarrow> False)"

section \<open>The converters\<close>

definition ecu_io_with :: "(string \<times> string \<times> int) list \<Rightarrow> ecu_io fallible res" where
  "ecu_io_with channels = res_map (map_sum id (fold (\<lambda>(name, _, v). set_value name v) channels))
     (ecu_new \<lparr>ecu_listen = ''127.0.0.1:0'', ecu_pins = [],
        ecu_adc_channels = map (\<lambda>(name, pin, _). \<lparr>ac_name = name, ac_pin = pin\<rparr>) channels, ecu_wheel_config = None\<rparr>
      None True)"

definition adc_passes :: "(string \<times> string \<times> int) list \<Rightarrow> ((pin \<Rightarrow> int) option \<Rightarrow> (adc, 'v) test_step list) \<Rightarrow> bool" where
  "adc_passes channels ts =
     (case ecu_io_with channels of Inr (Inr e) \<Rightarrow> passes (ts (Some (\<lambda>p. adc_millivolts p e))) adc_default | _ \<Rightarrow> False)"

definition adc_sees :: "(pin \<Rightarrow> int) option \<Rightarrow> u32 \<Rightarrow> (u32 \<Rightarrow> bool) \<Rightarrow> (adc, u32) test_step" where
  "adc_sees io offset p = Expect (\<lambda>a. Inr (adc_read io offset a)) p"

definition dr_reads_cycle_through_the_configured_channel_sequence_and_wrap :: bool where
  "dr_reads_cycle_through_the_configured_channel_sequence_and_wrap =
     adc_passes [(''map'', ''PC0'', 1500), (''tps'', ''PC1'', 3300), (''clt'', ''PB0'', 0)] (\<lambda>io.
     [Call (adc_write 0x2C (push_bit 20 2)),
      Call (adc_write 0x34 (10 OR push_bit 5 11 OR push_bit 10 8)),
      adc_sees io 0x4C (\<lambda>v. v = millivolts_to_counts 1500),
      adc_sees io 0x4C (\<lambda>v. v = millivolts_to_counts 3300),
      adc_sees io 0x4C (\<lambda>v. v = millivolts_to_counts 0),
      adc_sees io 0x4C (\<lambda>v. v = millivolts_to_counts 1500)])"

definition swstart_resets_the_sequence_to_the_first_channel :: bool where
  "swstart_resets_the_sequence_to_the_first_channel =
     adc_passes [(''map'', ''PC0'', 1500), (''tps'', ''PC1'', 3300)] (\<lambda>io.
     [Call (adc_write 0x2C (push_bit 20 1)),
      Call (adc_write 0x34 (10 OR push_bit 5 11)),
      adc_sees io 0x4C (\<lambda>_. True),
      Call (adc_write 0x08 (bit_mask 30)),
      adc_sees io 0x4C (\<lambda>v. v = millivolts_to_counts 1500)])"

definition an_unconfigured_channel_reads_zero :: bool where
  "an_unconfigured_channel_reads_zero = adc_passes [(''map'', ''PC0'', 1500)] (\<lambda>io.
     [Call (adc_write 0x2C 0),
      Call (adc_write 0x34 3),
      adc_sees io 0x4C (\<lambda>v. v = 0)])"

definition dma_read_advances_the_sequence_once_per_halfword_not_once_per_byte :: bool where
  "dma_read_advances_the_sequence_once_per_halfword_not_once_per_byte =
     (let map_counts = millivolts_to_counts 1500; tps_counts = millivolts_to_counts 3300 in
      adc_passes [(''map'', ''PC0'', 1500), (''tps'', ''PC1'', 3300)] (\<lambda>io.
     [Call (adc_write 0x2C (push_bit 20 1)),
      Call (adc_write 0x34 (10 OR push_bit 5 11)),
      Expect (\<lambda>a. Inr (dma_read_bytes io 0x4C 4 a)) (\<lambda>bytes. bytes =
        [ucast (map_counts AND 0xFF), ucast (drop_bit 8 map_counts),
         ucast (tps_counts AND 0xFF), ucast (drop_bit 8 tps_counts)])]))"

definition dr_read_sets_the_eoc_bit_in_sr :: bool where
  "dr_read_sets_the_eoc_bit_in_sr = adc_passes [(''map'', ''PC0'', 1500)] (\<lambda>io.
     [Call (adc_write 0x2C 0),
      Call (adc_write 0x34 10),
      adc_sees io 0x00 (\<lambda>v. v AND bit_mask 1 = 0),
      adc_sees io 0x4C (\<lambda>_. True),
      adc_sees io 0x00 (\<lambda>v. v AND bit_mask 1 = bit_mask 1)])"

definition millivolts_to_counts_clamps_and_scales_across_the_full_range :: bool where
  "millivolts_to_counts_clamps_and_scales_across_the_full_range \<longleftrightarrow>
     millivolts_to_counts 0 = 0 \<and> millivolts_to_counts 3300 = 4095 \<and> millivolts_to_counts (- 10) = 0
     \<and> millivolts_to_counts 10000 = 4095"

definition both_adc_devices_used_by_epic_efi_are_modeled :: bool where
  "both_adc_devices_used_by_epic_efi_are_modeled \<longleftrightarrow>
     adc_new ''ADC1'' \<noteq> None \<and> adc_new ''ADC2'' \<noteq> None \<and> adc_new ''ADC3'' = None"

section \<open>The model passes\<close>

lemmas pin_texts = pin_from_str_def pin_captures_def char_in_def port_index_def parse_int_def digit_val_def

lemma test_ecu_new: "ecu_new test_config None True = Inr (Inr
    \<lparr>ecu_config = test_config, ecu_listener = True, ecu_embedded = None, ecu_client = False, recv_buffer = [],
     outgoing = [], ecu_values = Map.empty, adc_channels = [(PC0, ''map'')], digital_input_pins = [],
     last_digital_levels = Map.empty, known_names = {''map''}, ecu_trigger_wheel = None\<rparr>)"
  by (simp add: ecu_new_def test_config_def ecu_known_names_def PC0_def pin_texts)

lemma line_texts:
  "utf8_lossy ''map=1500'' = ''map=1500''" "str_trim ''map=1500'' = ''map=1500''"
  "split_once CHR ''='' ''map=1500'' = Some (''map'', ''1500'')" "parse_i32 (str_trim ''1500'') = Some 1500"
  "utf8_lossy ''map=750'' = ''map=750''" "str_trim ''map=750'' = ''map=750''"
  "split_once CHR ''='' ''map=750'' = Some (''map'', ''750'')" "parse_i32 (str_trim ''750'') = Some 750"
  "utf8_lossy ''av12=1500'' = ''av12=1500''" "str_trim ''av12=1500'' = ''av12=1500''"
  "split_once CHR ''='' ''av12=1500'' = Some (''av12'', ''1500'')"
  "utf8_lossy ''not-a-valid-line'' = ''not-a-valid-line''" "str_trim ''not-a-valid-line'' = ''not-a-valid-line''"
  "split_once CHR ''='' ''not-a-valid-line'' = None"
  "str_trim ''map'' = ''map''" "str_trim ''av12'' = ''av12''"
  by code_simp+

lemma lines_seen:
  "process_line (into_bytes ''map=1500'') e = set_value ''map'' 1500 e"
  "process_line (into_bytes ''map=750'') e = set_value ''map'' 750 e"
  "process_line (into_bytes ''not-a-valid-line'') e = e"
  "process_line (into_bytes ''av12=1500'') e = set_value ''av12'' 1500 e"
  by (simp_all add: process_line_def handle_line_def line_texts del: utf8_lossy.simps)

lemma next_line:
  "recv_buffer e = into_bytes s @ 10 # rest \<Longrightarrow> CHR 0x0A \<notin> set s \<Longrightarrow>
   process_complete_lines e = process_complete_lines (process_line (into_bytes s) (e\<lparr>recv_buffer := rest\<rparr>))"
  by (intro process_step newline_free)

lemma no_line: "recv_buffer e = [] \<Longrightarrow> process_complete_lines e = e"
  by (rule process_none) simp

lemma shown_lines: "output_line ''inj1'' 1 = into_bytes ''inj1=1'' @ newline" "output_line ''inj1'' 0 = into_bytes ''inj1=0'' @ newline"
proof -
  have "show_int 1 = ''1''" "show_int 0 = ''0''" by code_simp+
  then show "output_line ''inj1'' 1 = into_bytes ''inj1=1'' @ newline" "output_line ''inj1'' 0 = into_bytes ''inj1=0'' @ newline"
    by (simp_all add: output_line_def newline_def into_bytes_def)
qed

lemma length_into_bytes [simp]: "length (into_bytes s) = length s"
  by (simp add: into_bytes_def)

lemma push_deque_room: "0 < c \<Longrightarrow> length q + length bs \<le> c \<Longrightarrow> push_capped_deque q bs c = q @ bs"
  by (simp add: push_capped_deque_bytes push_capped_bytes_last_n last_n_def)

lemma nine_polls: "replicate 9 x = [x, x, x, x, x, x, x, x, x]"
  by (simp add: numeral_eq_Suc)

lemmas ecu_run = ecu_poll_def ecu_receive_from_client_def ecu_send_to_client_def push_capped_vec_def MAX_BUFFERED_BYTES_def
  next_line no_line lines_seen set_value_def adc_millivolts_def PC0_def PA4_def ecu_value_def report_output_def shown_lines
  push_deque_room newline_def Let_def

lemma line_tests_pass:
  a_line_sent_by_the_client_updates_the_named_value
  a_malformed_line_is_ignored_not_fatal
  an_unknown_signal_name_is_logged_and_not_stored
  unfolding a_line_sent_by_the_client_updates_the_named_value_def a_malformed_line_is_ignored_not_fatal_def
    an_unknown_signal_name_is_logged_and_not_stored_def ecu_passes_def test_ecu_new polled_def nine_polls append.simps
  by (simp_all cong: stepwise add: ecu_run)

lemma output_tests_pass:
  "report_output_pushes_a_line_only_when_a_client_is_connected now"
  "report_output_only_queues_a_line_when_the_level_actually_changes now"
  "a_second_client_is_rejected_while_one_is_already_connected now"
  unfolding report_output_pushes_a_line_only_when_a_client_is_connected_def
    report_output_only_queues_a_line_when_the_level_actually_changes_def
    a_second_client_is_rejected_while_one_is_already_connected_def ecu_passes_def test_ecu_new polled_def nine_polls append.simps
  by (simp_all cong: stepwise add: ecu_run)

lemma adc_input_tests_pass:
  an_adc_millivolt_value_is_clamped_to_the_valid_range
  an_unconfigured_pin_reads_zero
  push_capped_vec_drops_oldest_bytes_once_over_capacity
  push_capped_deque_drops_oldest_bytes_once_over_capacity
  millivolts_to_counts_clamps_and_scales_across_the_full_range
  both_adc_devices_used_by_epic_efi_are_modeled
  unfolding an_adc_millivolt_value_is_clamped_to_the_valid_range_def an_unconfigured_pin_reads_zero_def
    push_capped_vec_drops_oldest_bytes_once_over_capacity_def push_capped_deque_drops_oldest_bytes_once_over_capacity_def
    millivolts_to_counts_clamps_and_scales_across_the_full_range_def both_adc_devices_used_by_epic_efi_are_modeled_def
    ecu_passes_def test_ecu_new
  by (simp_all cong: stepwise add: set_value_def adc_millivolts_def PC0_def PA4_def ecu_value_def push_capped_vec_def
      millivolts_to_counts_def adc_new_def)

lemma one_pin_new:
  "ecu_new (one_pin_config ''crank'' ''PC6'' DirInput) None True = Inr (Inr
     \<lparr>ecu_config = one_pin_config ''crank'' ''PC6'' DirInput, ecu_listener = True, ecu_embedded = None, ecu_client = False,
      recv_buffer = [], outgoing = [], ecu_values = Map.empty, adc_channels = [],
      digital_input_pins = [(\<lparr>pin_port = 2, pin_number = 6\<rparr>, ''crank'')], last_digital_levels = Map.empty,
      known_names = {''crank''}, ecu_trigger_wheel = None\<rparr>)"
  "ecu_new (one_pin_config ''inj1'' ''PD7'' DirOutput) None True = Inr (Inr
     \<lparr>ecu_config = one_pin_config ''inj1'' ''PD7'' DirOutput, ecu_listener = True, ecu_embedded = None, ecu_client = False,
      recv_buffer = [], outgoing = [], ecu_values = Map.empty, adc_channels = [], digital_input_pins = [],
      last_digital_levels = Map.empty, known_names = {''inj1''}, ecu_trigger_wheel = None\<rparr>)"
  by (simp_all add: ecu_new_def one_pin_config_def ecu_known_names_def pin_texts)

lemma one_pin: "ecu_pins (one_pin_config name pin direction) = [\<lparr>pc_name = name, pc_pin = pin, pc_direction = direction\<rparr>]"
  by (simp add: one_pin_config_def)

lemma parsed_pins: "pin_from_str ''PC6'' = Inr \<lparr>pin_port = 2, pin_number = 6\<rparr>" "pin_from_str ''PD7'' = Inr \<lparr>pin_port = 3, pin_number = 7\<rparr>"
  by (simp_all add: pin_texts)

lemma gpio_tests_pass:
  registered_input_pin_reflects_the_last_received_value_on_gpio_read
  registered_output_pin_reports_a_gpio_write_over_the_connection
  a_digital_input_level_change_raises_the_configured_exti_line
  unfolding registered_input_pin_reflects_the_last_received_value_on_gpio_read_def
    registered_output_pin_reports_a_gpio_write_over_the_connection_def
    a_digital_input_level_change_raises_the_configured_exti_line_def registered_passes_def ecu_register_def one_pin_new
    one_pin
  by (simp_all cong: stepwise add: ecu_run parsed_pins add_read_callback_def add_write_callback_def index_res_def update_res_def
      gpio_ports_default_def NUM_PORTS_def read_port_def write_port_def digital_level_def check_digital_edges_def
      raise_line_if_configured_def exticr_port_for_line_def write_exti_def write_syscfg_def read_exti_def exti_default_def
      irq_for_line_def set_intr_pending_def IRQ_OFFSET_def bit_mask_def)

lemma four_bytes:
  "convert_halfwords io 4 a =
     (let x = next_conversion_value io a; y = next_conversion_value io (snd x)
      in ([ucast (fst x AND 0xFF), ucast (drop_bit 8 (fst x) AND 0xFF), ucast (fst y AND 0xFF), ucast (drop_bit 8 (fst y) AND 0xFF)],
          snd y))"
  by (simp add: numeral_eq_Suc Let_def split: prod.split)

lemma test_channels:
  "channel_pins ! 3 = \<lparr>pin_port = 0, pin_number = 3\<rparr>" "channel_pins ! 8 = \<lparr>pin_port = 1, pin_number = 0\<rparr>"
  "channel_pins ! 10 = \<lparr>pin_port = 2, pin_number = 0\<rparr>" "channel_pins ! 11 = \<lparr>pin_port = 2, pin_number = 1\<rparr>"
  by (simp_all add: channel_pins_def)

lemma adc_tests_pass:
  dr_reads_cycle_through_the_configured_channel_sequence_and_wrap
  swstart_resets_the_sequence_to_the_first_channel
  an_unconfigured_channel_reads_zero
  dma_read_advances_the_sequence_once_per_halfword_not_once_per_byte
  dr_read_sets_the_eoc_bit_in_sr
  unfolding dr_reads_cycle_through_the_configured_channel_sequence_and_wrap_def
    swstart_resets_the_sequence_to_the_first_channel_def an_unconfigured_channel_reads_zero_def
    dma_read_advances_the_sequence_once_per_halfword_not_once_per_byte_def dr_read_sets_the_eoc_bit_in_sr_def
    adc_passes_def ecu_io_with_def adc_sees_def
  by (simp_all cong: stepwise add: ecu_new_def ecu_known_names_def pin_texts set_value_def adc_millivolts_def ecu_value_def
      adc_read_def adc_write_def adc_default_def next_conversion_value_def num_channels_def channel_at_def conversion_def
      test_channels millivolts_to_counts_def dma_read_bytes_def SR_EOC_def CR2_SWSTART_def bit_mask_def
      four_bytes Let_def)

end
