(* ===== verification/WheelTests.thy ===== *)
theory WheelTests
  imports EcuIoTests
begin

text \<open>
  The unit tests of the trigger wheel, in \<open>src/ext_devices/ecu_io.rs\<close>. They compute with doubles: the results
  that are exact are evaluated, the others are located by the bound on the error of one rounding.
\<close>

section \<open>The tests\<close>

definition wheel_60_2 :: trigger_wheel where
  "wheel_60_2 = wheel_new
     \<lparr>wheel_signal = ''trigger_rpm'', wheel_pin_signal = ''din1'', teeth = 60, missing = 2\<rparr>"

definition trigger_wheel_level_is_high_in_the_first_half_of_a_tooth_slot :: bool where
  "trigger_wheel_level_is_high_in_the_first_half_of_a_tooth_slot \<longleftrightarrow>
     (let wheel = wheel_60_2; slot = f64_div 1 60 in
      level_at (f64_mul (1 / 4) slot) wheel
      \<and> \<not> level_at (f64_mul (3 / 4) slot) wheel
      \<and> level_at (f64_add (f64_mul 10 slot) (f64_mul (1 / 4) slot)) wheel)"

definition trigger_wheel_missing_teeth_slots_stay_low :: bool where
  "trigger_wheel_missing_teeth_slots_stay_low \<longleftrightarrow>
     (let wheel = wheel_60_2; slot = f64_div 1 60 in
      level_at (f64_add (f64_mul 57 slot) (f64_mul (1 / 4) slot)) wheel
      \<and> \<not> level_at (f64_add (f64_mul 58 slot) (f64_mul (1 / 4) slot)) wheel
      \<and> \<not> level_at (f64_add (f64_mul 59 slot) (f64_mul (1 / 4) slot)) wheel)"

abbreviation wheel_passes :: "(trigger_wheel, bool option) test_step list \<Rightarrow> bool" where
  "wheel_passes ts \<equiv> passes ts wheel_60_2"

definition advanced :: "u64 \<Rightarrow> int \<Rightarrow> (trigger_wheel, bool option) test_step" where
  "advanced now rpm = Call (\<lambda>w. snd (advance now rpm w))"

definition trigger_wheel_advances_one_revolution_per_expected_instruction_count :: bool where
  "trigger_wheel_advances_one_revolution_per_expected_instruction_count = wheel_passes
     [advanced 0 1200,
      advanced 10800000 1200,
      Assert (\<lambda>w. position w < 1 / 10 ^ 9 \<or> 1 - 1 / 10 ^ 9 < position w),
      advanced (10800000 + 2700000) 2400,
      Assert (\<lambda>w. \<bar>position w - 1 / 2\<bar> < 1 / 10 ^ 9)]"

definition trigger_wheel_projects_the_angle_between_advances_without_moving :: bool where
  "trigger_wheel_projects_the_angle_between_advances_without_moving = wheel_passes
     [advanced 0 1200,
      Assert (\<lambda>w. project_angle_mdeg 2700000 1200 w = 90000),
      Assert (\<lambda>w. last_instructions w = 0),
      Assert (\<lambda>w. project_angle_mdeg 2700000 0 w = 0)]"

definition trigger_wheel_holds_level_and_position_while_stopped :: bool where
  "trigger_wheel_holds_level_and_position_while_stopped =
     (let wheel = snd (advance 1000000 1200 (snd (advance 0 1200 wheel_60_2))); pos = position wheel in
      passes
     [Expect (\<lambda>w. Inr (advance 50000000 0 w)) (\<lambda>level. level = None),
      Assert (\<lambda>w. position w = pos),
      advanced 50001024 1200,
      Assert (\<lambda>w. position w - pos < 1 / 1000)] wheel)"

definition wheel_test_config :: ecu_io_config where
  "wheel_test_config = test_config
     \<lparr>ecu_pins := [\<lparr>pc_name = ''din1'', pc_pin = ''PC6'', pc_direction = DirInput\<rparr>],
      ecu_wheel_config := Some \<lparr>wheel_signal = ''trigger_rpm'', wheel_pin_signal = ''din1'', teeth = 60, missing = 2\<rparr>\<rparr>"

definition trigger_rpm_drives_the_pin_signal_through_the_values_map :: bool where
  "trigger_rpm_drives_the_pin_signal_through_the_values_map = ecu_passes wheel_test_config
     [Call (set_value ''trigger_rpm'' 1200),
      Assert (\<lambda>e. ecu_values e ''trigger_rpm'' \<noteq> None),
      Call (advance_trigger_wheel 45000),
      Assert (\<lambda>e. ecu_values e ''din1'' = Some 1),
      Assert (digital_level ''din1''),
      Call (advance_trigger_wheel 135000),
      Assert (\<lambda>e. ecu_values e ''din1'' = Some 0)]"

section \<open>Exact results\<close>

lemma exponent_unique:
  assumes "pow2 e \<le> x" "x < pow2 (e + 1)"
  shows "exponent x = e"
proof -
  have x: "0 < x" using pow2_pos [of e] assms(1) by linarith
  have "pow2 e < pow2 (exponent x + 1)" "pow2 (exponent x) < pow2 (e + 1)"
    using exponent_bounds [OF x] assms by linarith+
  then have "e < exponent x + 1" "exponent x < e + 1" using pow2_less_cancel by blast+
  then show ?thesis by simp
qed

text \<open>A value with at most 53 significant bits is a double.\<close>

lemma f64_round_dyadic:
  assumes "0 < m" "m < 2 ^ 53"
  shows "f64_round (of_int m * pow2 k) = of_int m * pow2 k"
proof -
  let ?x = "of_int m * pow2 k :: rat"
  have x: "0 < ?x" using assms(1) by simp
  have "(of_int m :: rat) < of_int (2 ^ 53)" using assms(2) by (simp only: of_int_less_iff)
  then have "?x < pow2 53 * pow2 k" unfolding pow2_numeral by (intro mult_strict_right_mono) simp_all
  with exponent_bounds(1) [OF x] have "pow2 (exponent ?x) < pow2 (53 + k)" unfolding pow2_add by linarith
  then have "exponent ?x - 52 \<le> k" using pow2_less_cancel by fastforce
  then obtain j where j: "k = exponent ?x - 52 + int j" by (metis zle_iff_zadd)
  define E where "E = exponent ?x - 52"
  have k: "pow2 k = pow2 E * 2 ^ j"
    using pow2_add [of E "int j"] j by (simp add: E_def pow2_def [of "int j"])
  then have "?x / pow2 E = of_int (m * 2 ^ j)" by simp
  then have "f64_round ?x = of_int (m * 2 ^ j) * pow2 E"
    unfolding f64_round_pos [OF x] E_def by (simp only: round_half_even_int)
  then show ?thesis using k by simp
qed

lemma f64_round_0 [simp]: "f64_round 0 = 0"
  by (simp add: f64_round_def)

lemma f64_round_numeral: "(numeral n :: int) < 2 ^ 53 \<Longrightarrow> f64_round (numeral n) = numeral n"
  using f64_round_dyadic [of "numeral n" 0] by (simp add: pow2_def)

lemma f64_round_1 [simp]: "f64_round 1 = 1"
  using f64_round_dyadic [of 1 0] by (simp add: pow2_def)

lemma f64_round_halves [simp]: "f64_round (1 / 2) = 1 / 2" "f64_round (1 / 4) = 1 / 4"
  using f64_round_dyadic [of 1 "- 1"] f64_round_dyadic [of 1 "- 2"] by (simp_all add: pow2_def)

lemma f64_fract_1: "f64_fract 1 = 0"
  by (simp add: f64_fract_def)

lemmas f64_ops = f64_of_nat_def f64_add_def f64_mul_def f64_div_def f64_round_numeral

lemma revolution_tests_pass:
  trigger_wheel_advances_one_revolution_per_expected_instruction_count
  trigger_wheel_projects_the_angle_between_advances_without_moving
  unfolding trigger_wheel_advances_one_revolution_per_expected_instruction_count_def
    trigger_wheel_projects_the_angle_between_advances_without_moving_def advanced_def
  by (simp_all cong: stepwise add: wheel_60_2_def wheel_new_def advance_def saturating_sub_def next_position_def f64_ops
      f64_fract_1 INSTRUCTIONS_PER_MINUTE_def project_angle_mdeg_def f64_to_i32_def Let_def)

section \<open>Rounded results\<close>

lemma round_half_even_near: "\<bar>of_int (round_half_even x) - x\<bar> \<le> 1 / 2"
proof -
  have "of_int \<lfloor>x\<rfloor> \<le> x" "x < of_int \<lfloor>x\<rfloor> + 1" using floor_correct [of x] by simp_all
  then show ?thesis by (auto simp: round_half_even_def Let_def)
qed

text \<open>One rounding moves a value by at most one part in \<open>2 ^ 53\<close>; for the values of the tests, below 64.\<close>

lemma f64_round_error:
  assumes "0 < x"
  shows "\<bar>f64_round x - x\<bar> \<le> x / 2 ^ 53"
proof -
  let ?p = "pow2 (exponent x - 52)"
  have "\<bar>of_int (round_half_even (x / ?p)) - x / ?p\<bar> * ?p \<le> 1 / 2 * ?p"
    by (intro mult_right_mono round_half_even_near) (simp add: less_imp_le)
  also have "\<bar>of_int (round_half_even (x / ?p)) - x / ?p\<bar> * ?p = \<bar>f64_round x - x\<bar>"
    by (subst abs_mult_pos) (simp_all add: f64_round_pos [OF assms] less_imp_le left_diff_distrib)
  also have "1 / 2 * ?p = pow2 (exponent x) / 2 ^ 53"
    using pow2_split(1) [of "exponent x"] by simp
  also have "\<dots> \<le> x / 2 ^ 53" by (intro divide_right_mono exponent_bounds [OF assms]) simp
  finally show ?thesis .
qed

lemma f64_round_near:
  assumes "0 \<le> x" "x \<le> 64"
  shows "\<bar>f64_round x - x\<bar> \<le> 1 / 10 ^ 12"
proof (cases "x = 0")
  case False
  with assms have "\<bar>f64_round x - x\<bar> \<le> x / 2 ^ 53" by (intro f64_round_error) simp
  also have "\<dots> \<le> 64 / 2 ^ 53" using assms by (intro divide_right_mono) simp_all
  finally show ?thesis by simp
qed simp

lemma level_near:
  assumes "\<bar>60 * pos - (of_nat k + q)\<bar> \<le> 1 / 500" "k < 60" "1 / 10 \<le> q" "q \<le> 9 / 10" "q < 4 / 10 \<or> 6 / 10 < q"
  shows "level_at pos wheel_60_2 \<longleftrightarrow> k < 58 \<and> q < 1 / 2"
proof -
  have "(of_nat k :: rat) \<le> 59" using assms(2) by simp
  then have p: "0 \<le> pos" "pos < 1" using assms unfolding abs_le_iff by linarith+
  have "unat (60 :: u32) = 60" by simp
  then have slot: "f64_mul (f64_fract pos) (f64_of_nat (unat (teeth (wheel_cfg wheel_60_2)))) = f64_round (60 * pos)"
    using p by (simp add: wheel_60_2_def f64_mul_def f64_of_nat_def f64_round_numeral mult.commute)
  have r: "\<bar>f64_round (60 * pos) - 60 * pos\<bar> \<le> 1 / 10 ^ 12"
    by (rule f64_round_near) (use p in linarith)+
  have "(1 :: rat) / 10 ^ 12 \<le> 1 / 1000" by simp
  with r have r': "\<bar>f64_round (60 * pos) - 60 * pos\<bar> \<le> 1 / 1000" by linarith
  have b: "of_nat k + q - 3 / 1000 \<le> f64_round (60 * pos)" "f64_round (60 * pos) \<le> of_nat k + q + 3 / 1000"
    using r' assms(1) unfolding abs_le_iff by linarith+
  have f: "of_nat k + 1 / 20 \<le> f64_round (60 * pos)" "f64_round (60 * pos) \<le> of_nat k + 19 / 20"
    "q < 4 / 10 \<Longrightarrow> f64_round (60 * pos) < of_nat k + 45 / 100" "6 / 10 < q \<Longrightarrow> of_nat k + 55 / 100 < f64_round (60 * pos)"
    using b assms(3,4) by linarith+
  let ?slot = "f64_round (60 * pos)"
  have fl: "\<lfloor>?slot\<rfloor> = int k" by (rule floor_unique) (use f(1,2) in simp_all)
  have u: "f64_to_u32 ?slot = k" using assms(2) by (simp add: f64_to_u32_def fl)
  have k: "f64_of_nat k = of_nat k"
    using f64_round_dyadic [of "int k" 0] assms(2) by (cases "k = 0") (simp_all add: f64_of_nat_def pow2_def)
  have d: "\<bar>f64_sub ?slot (of_nat k) - (?slot - of_nat k)\<bar> \<le> 1 / 10 ^ 12"
    unfolding f64_sub_def by (rule f64_round_near) (use f(1,2) in linarith)+
  have half: "f64_sub ?slot (of_nat k) < 1 / 2 \<longleftrightarrow> q < 1 / 2"
    using assms(5) d f(3,4) unfolding abs_le_iff by auto
  have "(of_nat k :: u32) < 60 - 2 \<longleftrightarrow> k < 58"
    using assms(2) by (simp add: word_less_nat_alt unat_of_nat)
  then show ?thesis unfolding level_at_def Let_def slot u k half by (simp add: wheel_60_2_def)
qed

lemma slot_near: "\<bar>f64_div 1 60 - 1 / 60\<bar> \<le> 1 / 10 ^ 12" "0 \<le> f64_div 1 60"
  using f64_round_near [of "1 / 60"] by (simp_all add: f64_div_def f64_round_nonneg)

lemma scaled_slot:
  assumes "0 \<le> c" "c \<le> 60"
  shows "\<bar>f64_mul c (f64_div 1 60) - c / 60\<bar> \<le> 1 / 100000" "0 \<le> f64_mul c (f64_div 1 60)"
proof -
  let ?s = "f64_div 1 60"
  have "c * ?s - c / 60 = c * (?s - 1 / 60)" by (simp add: right_diff_distrib)
  then have "\<bar>c * ?s - c / 60\<bar> = c * \<bar>?s - 1 / 60\<bar>" using assms(1) by (simp add: abs_mult)
  also have "\<dots> \<le> 60 * (1 / 10 ^ 12)" by (intro mult_mono assms slot_near) simp_all
  also have "\<dots> \<le> 1 / 1000000" by simp
  finally have a: "\<bar>c * ?s - c / 60\<bar> \<le> 1 / 1000000" .
  have n: "0 \<le> c * ?s" using assms(1) slot_near(2) by simp
  have "c * ?s \<le> 64" using a assms(2) unfolding abs_le_iff by linarith
  with n have "\<bar>f64_round (c * ?s) - c * ?s\<bar> \<le> 1 / 10 ^ 12" by (rule f64_round_near)
  also have "\<dots> \<le> 1 / 1000000" by simp
  finally show "\<bar>f64_mul c ?s - c / 60\<bar> \<le> 1 / 100000"
    using a unfolding f64_mul_def abs_le_iff by linarith
  show "0 \<le> f64_mul c ?s" using n by (simp add: f64_mul_def f64_round_nonneg)
qed

lemma tooth_near:
  assumes "c \<le> 59" "0 \<le> c" "0 \<le> q" "q \<le> 1"
  shows "\<bar>60 * f64_add (f64_mul c (f64_div 1 60)) (f64_mul q (f64_div 1 60)) - (c + q)\<bar> \<le> 1 / 500"
proof -
  let ?a = "f64_mul c (f64_div 1 60)" and ?b = "f64_mul q (f64_div 1 60)"
  have a: "\<bar>?a - c / 60\<bar> \<le> 1 / 100000" "0 \<le> ?a" using scaled_slot [of c] assms by simp_all
  have b: "\<bar>?b - q / 60\<bar> \<le> 1 / 100000" "0 \<le> ?b" using scaled_slot [of q] assms by simp_all
  have "?a + ?b \<le> 64" using a b assms unfolding abs_le_iff by linarith
  then have "\<bar>f64_round (?a + ?b) - (?a + ?b)\<bar> \<le> 1 / 10 ^ 12" using a b by (intro f64_round_near) simp_all
  also have "\<dots> \<le> 1 / 1000000" by simp
  finally show ?thesis using a(1) b(1) unfolding f64_add_def abs_le_iff by linarith
qed

lemma first_tooth_near:
  assumes "0 \<le> q" "q \<le> 1"
  shows "\<bar>60 * f64_mul q (f64_div 1 60) - (of_nat 0 + q)\<bar> \<le> 1 / 500"
  using scaled_slot(1) [of q] assms unfolding abs_le_iff of_nat_0 by linarith

lemma level_first_tooth:
  assumes "1 / 10 \<le> q" "q \<le> 9 / 10" "q < 4 / 10 \<or> 6 / 10 < q"
  shows "level_at (f64_mul q (f64_div 1 60)) wheel_60_2 \<longleftrightarrow> q < 1 / 2"
  using level_near [OF first_tooth_near, of q] assms by simp

lemma level_tooth:
  assumes "k < 60" "1 / 10 \<le> q" "q \<le> 9 / 10" "q < 4 / 10 \<or> 6 / 10 < q"
  shows "level_at (f64_add (f64_mul (of_nat k) (f64_div 1 60)) (f64_mul q (f64_div 1 60))) wheel_60_2
    \<longleftrightarrow> k < 58 \<and> q < 1 / 2"
  using assms by (intro level_near tooth_near) simp_all

lemma level_tests_pass:
  trigger_wheel_level_is_high_in_the_first_half_of_a_tooth_slot
  trigger_wheel_missing_teeth_slots_stay_low
  unfolding trigger_wheel_level_is_high_in_the_first_half_of_a_tooth_slot_def
    trigger_wheel_missing_teeth_slots_stay_low_def Let_def
  using level_first_tooth [of "1 / 4"] level_first_tooth [of "3 / 4"] level_tooth [of 10 "1 / 4"]
    level_tooth [of 57 "1 / 4"] level_tooth [of 58 "1 / 4"] level_tooth [of 59 "1 / 4"]
  by simp_all

text \<open>A step that does not complete the revolution adds its share of the revolution to the position.\<close>

lemma next_position_near:
  assumes "0 \<le> pos" "0 < d" "d < 2 ^ 53" "unat delta = nat d" "0 < r" "r < 2 ^ 53" "d * r < 2 ^ 53"
    "pos + of_int (d * r) / 12960000000 \<le> 9 / 10"
  shows "\<bar>next_position delta r pos - (pos + of_int (d * r) / 12960000000)\<bar> \<le> 1 / 100000"
    "0 \<le> next_position delta r pos"
proof -
  have int: "f64_round (of_int i) = of_int i" if "0 < i" "i < 2 ^ 53" for i
    using f64_round_dyadic [OF that, of 0] by (simp add: pow2_def)
  define x :: rat where "x = of_int (d * r) / 12960000000"
  have x: "0 \<le> x" "pos + x \<le> 9 / 10" using assms(2,5,8) by (simp_all add: x_def)
  have "f64_div (f64_mul (f64_of_nat (unat delta)) (f64_of_nat (nat r))) INSTRUCTIONS_PER_MINUTE = f64_round x"
    using int [of d] int [of r] int [of "d * r"] assms
    by (simp add: f64_div_def f64_mul_def f64_of_nat_def INSTRUCTIONS_PER_MINUTE_def x_def)
  then have np: "next_position delta r pos = f64_fract (f64_round (pos + f64_round x))"
    by (simp add: next_position_def f64_add_def)
  have small: "(1 :: rat) / 10 ^ 12 \<le> 1 / 1000000" by simp
  have "\<bar>f64_round x - x\<bar> \<le> 1 / 10 ^ 12" using x assms(1) by (intro f64_round_near) simp_all
  with small have e: "\<bar>f64_round x - x\<bar> \<le> 1 / 1000000" by linarith
  have y: "0 \<le> f64_round x" using x by (simp add: f64_round_nonneg)
  have "pos + f64_round x \<le> 64" using e x unfolding abs_le_iff by linarith
  then have "\<bar>f64_round (pos + f64_round x) - (pos + f64_round x)\<bar> \<le> 1 / 10 ^ 12"
    using y assms(1) by (intro f64_round_near) simp_all
  with small have e': "\<bar>f64_round (pos + f64_round x) - (pos + f64_round x)\<bar> \<le> 1 / 1000000" by linarith
  have z: "0 \<le> f64_round (pos + f64_round x)" using y assms(1) by (simp add: f64_round_nonneg)
  have "f64_round (pos + f64_round x) < 1" using e e' x unfolding abs_le_iff by linarith
  with z have "next_position delta r pos = f64_round (pos + f64_round x)" unfolding np by simp
  then show "\<bar>next_position delta r pos - (pos + of_int (d * r) / 12960000000)\<bar> \<le> 1 / 100000"
    "0 \<le> next_position delta r pos"
    using e e' z unfolding x_def [symmetric] abs_le_iff by (linarith, simp)
qed

lemma stopped_test_passes: trigger_wheel_holds_level_and_position_while_stopped
proof -
  let ?p = "next_position 1000000 1200 0"
  have p: "\<bar>?p - 5 / 54\<bar> \<le> 1 / 100000" "0 \<le> ?p"
    using next_position_near [of 0 1000000 1000000 1200] by simp_all
  have "?p + 1 / 10000 \<le> 9 / 10" using p unfolding abs_le_iff by linarith
  then have "\<bar>next_position 1024 1200 ?p - (?p + 128 / 1350000)\<bar> \<le> 1 / 100000"
    using next_position_near [of ?p 1024 1024 1200] p by simp
  then have q: "next_position 1024 1200 ?p - ?p < 1 / 1000" unfolding abs_le_iff by linarith
  have "next_position 0 1200 0 = 0" by (simp add: next_position_def f64_ops)
  then show ?thesis
    unfolding trigger_wheel_holds_level_and_position_while_stopped_def advanced_def
    using q by (simp cong: stepwise add: wheel_60_2_def wheel_new_def advance_def saturating_sub_def Let_def)
qed

lemma driven_test_passes: trigger_rpm_drives_the_pin_signal_through_the_values_map
proof -
  let ?p = "next_position 45000 1200 0"
  have p: "\<bar>?p - 1 / 240\<bar> \<le> 1 / 100000" "0 \<le> ?p"
    using next_position_near [of 0 45000 45000 1200] by simp_all
  have "?p + 1 / 120 \<le> 9 / 10" using p unfolding abs_le_iff by linarith
  then have "\<bar>next_position 90000 1200 ?p - (?p + 1 / 120)\<bar> \<le> 1 / 100000"
    using next_position_near [of ?p 90000 90000 1200] p by simp
  with p have n: "\<bar>60 * ?p - (of_nat 0 + 1 / 4)\<bar> \<le> 1 / 500"
    "\<bar>60 * next_position 90000 1200 ?p - (of_nat 0 + 3 / 4)\<bar> \<le> 1 / 500"
    unfolding abs_le_iff of_nat_0 by linarith+
  have level: "level_at pos w = level_at pos wheel_60_2" if "wheel_cfg w = wheel_cfg wheel_60_2" for pos w
    using that by (simp add: level_at_def Let_def)
  have "level_at ?p w" "\<not> level_at (next_position 90000 1200 ?p) w" if "wheel_cfg w = wheel_cfg wheel_60_2" for w
    using level_near [OF n(1)] level_near [OF n(2)] level [OF that] by simp_all
  note levels = this [unfolded wheel_60_2_def wheel_new_def, simplified]
  show ?thesis
    unfolding trigger_rpm_drives_the_pin_signal_through_the_values_map_def ecu_passes_def wheel_test_config_def
      test_config_def
    by (simp cong: stepwise add: ecu_new_def ecu_known_names_def pin_texts ecu_value_def advance_trigger_wheel_def
        set_value_def digital_level_def wheel_new_def advance_def saturating_sub_def levels Let_def)
qed

end
