(* ===== verification/LinkTests.thy ===== *)
theory LinkTests
  imports UsbCdc EmbeddedEcuIo Strings UnitTests
begin

text \<open>
  The unit tests of the in-process links, \<open>src/ext_devices/embedded_cdc.rs\<close> and \<open>embedded_ecu_io.rs\<close>, and of the
  TCP bridge, \<open>usb_cdc_tcp.rs\<close> and \<open>src/ext_devices/mod.rs\<close>. The network is what each poll sees of it, with the
  time of the poll in milliseconds; what a client reads is what a poll takes from the queue of the bridge.
\<close>

section \<open>Links\<close>

definition link_call :: "(cdc_state \<Rightarrow> 'v \<times> cdc_state) \<Rightarrow> ('v \<Rightarrow> bool) \<Rightarrow> (cdc_state, 'v) test_step" where
  "link_call f p = Expect (\<lambda>l. Inr (f l)) p"

definition host_and_device_exchange_binary_bytes_without_a_socket :: bool where
  "host_and_device_exchange_binary_bytes_without_a_socket = passes
     [Call attach_device,
      Call (set_protocol_stage ProtocolReady),
      Run (\<lambda>l. case connect l of (Inl _, l) \<Rightarrow> Inl UnwrapFailed | (Inr _, l) \<Rightarrow> Inr l),
      Assert (\<lambda>l. fst (write_from_host [0x00, 0xff, 0x42] l) = Inr 3),
      Call (\<lambda>l. snd (write_from_host [0x00, 0xff, 0x42] l)),
      link_call (read_for_device 64) (\<lambda>bs. bs = [0x00, 0xff, 0x42]),
      Call (write_from_device [0x10, 0x20]),
      link_call (read_for_host [] 4) (\<lambda>bs. bs = [0x10, 0x20])] link_new"

definition host_cannot_connect_until_the_firmware_protocol_is_ready :: bool where
  "host_cannot_connect_until_the_firmware_protocol_is_ready = passes
     [Assert (\<lambda>l. \<not> device_present l),
      link_call connect (\<lambda>r. r = Inl ''embedded firmware TunerStudio protocol is not ready''),
      Call attach_device,
      Assert device_present,
      Assert (\<lambda>l. \<not> protocol_ready l),
      link_call connect (\<lambda>r. r = Inl ''embedded firmware TunerStudio protocol is not ready''),
      Call (set_protocol_stage ProtocolReady),
      Assert protocol_ready,
      link_call connect (\<lambda>r. r = Inr ()),
      Call detach_device,
      Assert (\<lambda>l. \<not> device_present l),
      Assert (\<lambda>l. \<not> protocol_ready l),
      Assert (\<lambda>l. \<not> is_connected l)] link_new"

definition exchanges_named_inputs_and_outputs :: "u64 \<Rightarrow> u64 \<Rightarrow> bool" where
  "exchanges_named_inputs_and_outputs t0 t1 = passes
     [Call io_attach_device,
      Call (set_input ''trigger_rpm'' 1250),
      Assert (\<lambda>l. fst (take_inputs l) = [(''trigger_rpm'', 1250)]),
      Call (\<lambda>l. snd (take_inputs l)),
      Call (publish_output t0 ''ign1'' 1 None),
      Assert (\<lambda>l. io_outputs l ''ign1'' = Some 1),
      Call (publish_output t1 ''ign1'' 0 (Some 340000)),
      Expect (\<lambda>l. Inr (take_output_events l)) (\<lambda>events. length events = 2
        \<and> ev_name (events ! 0) = ''ign1'' \<and> ev_previous_value (events ! 0) = None \<and> ev_value (events ! 0) = 1
        \<and> ev_wheel_angle_mdeg (events ! 0) = None
        \<and> ev_previous_value (events ! 1) = Some 1 \<and> ev_value (events ! 1) = 0 \<and> ev_wheel_angle_mdeg (events ! 1) = Some 340000)]
     io_link_new"

section \<open>The TCP bridge\<close>

definition tcp_test_config :: usb_cdc_config where
  "tcp_test_config = \<lparr>cdc_peripheral = ''OTG_FS_GLOBAL'', cdc_listen = ''127.0.0.1:0'', max_buffered_bytes = 65536\<rparr>"

definition bridge_passes :: "usb_cdc_config \<Rightarrow> (usb_cdc, u8 list) test_step list \<Rightarrow> bool" where
  "bridge_passes config ts = (case usb_cdc_new config None True of Inl _ \<Rightarrow> False | Inr b \<Rightarrow> passes ts b)"

definition polled_at :: "nat \<Rightarrow> accept_result list \<Rightarrow> read_result list \<Rightarrow> write_result list \<Rightarrow> (usb_cdc, u8 list) test_step" where
  "polled_at now as rs ws = Run (\<lambda>b. case bridge_poll now as rs ws b of (Inl _, b) \<Rightarrow> Inl UnwrapFailed | (Inr _, b) \<Rightarrow> Inr b)"

definition quiet_at :: "nat list \<Rightarrow> (usb_cdc, u8 list) test_step list" where
  "quiet_at = map (\<lambda>now. polled_at now [] [] [])"

text \<open>The peer of the first client closes: the next read is the end of the stream.\<close>

definition stale_unsent_bytes_do_not_reach_the_next_client_after_a_disconnect :: bool where
  "stale_unsent_bytes_do_not_reach_the_next_client_after_a_disconnect = bridge_passes tcp_test_config
     ([polled_at 0 [Accepted] [] [],
       Call (push_from_device (into_bytes ''stale response bytes'')),
       polled_at 0 [] [ReadBytes []] []] @ quiet_at [10, 20, 30] @
      [Assert (\<lambda>b. \<not> is_client_connected b),
       polled_at 200 [Accepted] [] [Wrote 20]] @ quiet_at [210, 220, 230, 240] @
      [Assert (\<lambda>b. tx_total b = 0 \<and> from_device b = [])])"

text \<open>The second connection is accepted and dropped: the bytes go to the client that is kept.\<close>

definition a_new_connection_is_rejected_while_the_current_client_is_within_its_grace_period :: bool where
  "a_new_connection_is_rejected_while_the_current_client_is_within_its_grace_period = bridge_passes tcp_test_config
     ([Call (\<lambda>b. b\<lparr>stale_client_grace_period := 60000\<rparr>),
       polled_at 0 [Accepted] [] [],
       Assert is_client_connected,
       polled_at 0 [Accepted] [] []] @ quiet_at [10, 20, 30, 40] @
      [Call (push_from_device (into_bytes ''hello'')),
       polled_at 50 [] [] [Wrote 5]] @ quiet_at [60, 70, 80, 90] @
      [Assert (\<lambda>b. client_connected_at b = Some 0 \<and> tx_total b = 5 \<and> from_device b = [])])"

definition a_new_connection_replaces_a_stale_one_once_its_grace_period_has_elapsed :: bool where
  "a_new_connection_replaces_a_stale_one_once_its_grace_period_has_elapsed = bridge_passes tcp_test_config
     ([Call (\<lambda>b. b\<lparr>stale_client_grace_period := 20\<rparr>),
       polled_at 0 [Accepted] [] [],
       Assert is_client_connected,
       polled_at 30 [Accepted] [] []] @ quiet_at [40, 50, 60, 70] @
      [Assert is_client_connected,
       Assert (\<lambda>b. client_connected_at b = Some 30),
       Call (push_from_device (into_bytes ''hello'')),
       Assert (\<lambda>b. from_device b = into_bytes ''hello''),
       polled_at 80 [] [] [Wrote 5]] @ quiet_at [90, 100, 110, 120] @
      [Assert (\<lambda>b. from_device b = [])])"

definition tcp_client_exchanges_binary_bytes :: bool where
  "tcp_client_exchanges_binary_bytes = bridge_passes (tcp_test_config\<lparr>max_buffered_bytes := 64\<rparr>)
     ([polled_at 0 [Accepted] [] [],
       Call (push_from_device [0x00, 0xff, 0x42]),
       Assert (\<lambda>b. from_device b = [0x00, 0xff, 0x42]),
       polled_at 0 [] [] [Wrote 3],
       Assert (\<lambda>b. from_device b = []),
       polled_at 0 [] [ReadBytes [0x10, 0x20]] []] @ quiet_at [10, 20, 30] @
      [Expect (\<lambda>b. Inr (take_for_device 64 b)) (\<lambda>bs. bs = [0x10, 0x20])])"

section \<open>The model passes\<close>

lemma link_unit_tests_pass:
  host_and_device_exchange_binary_bytes_without_a_socket
  host_cannot_connect_until_the_firmware_protocol_is_ready
  unfolding host_and_device_exchange_binary_bytes_without_a_socket_def
    host_cannot_connect_until_the_firmware_protocol_is_ready_def link_call_def
  by (simp_all cong: stepwise add: attach_device_def set_protocol_stage_def connect_def clear_queues_def link_new_def
      write_from_host_def push_capped_def read_for_device_def write_from_device_def read_for_host_def wait_readable.simps
      DEFAULT_MAX_BUFFERED_BYTES_def device_present_def protocol_ready_def detach_device_def is_connected_def Let_def)

lemma named_link_test_passes: "exchanges_named_inputs_and_outputs t0 t1"
  unfolding exchanges_named_inputs_and_outputs_def
  by (simp cong: stepwise add: io_attach_device_def set_input_def take_inputs_def publish_output_def take_output_events_def
      io_link_new_def MAX_PENDING_INPUTS_def MAX_PENDING_OUTPUT_EVENTS_def Let_def)

lemma push_bytes_room: "0 < c \<Longrightarrow> length q + length bs \<le> c \<Longrightarrow> push_capped_bytes q bs c = q @ bs"
  by (simp add: push_capped_bytes_last_n last_n_def)

lemma bridge_tests_pass:
  stale_unsent_bytes_do_not_reach_the_next_client_after_a_disconnect
  a_new_connection_is_rejected_while_the_current_client_is_within_its_grace_period
  a_new_connection_replaces_a_stale_one_once_its_grace_period_has_elapsed
  tcp_client_exchanges_binary_bytes
  unfolding stale_unsent_bytes_do_not_reach_the_next_client_after_a_disconnect_def
    a_new_connection_is_rejected_while_the_current_client_is_within_its_grace_period_def
    a_new_connection_replaces_a_stale_one_once_its_grace_period_has_elapsed_def
    tcp_client_exchanges_binary_bytes_def bridge_passes_def polled_at_def quiet_at_def list.map append.simps
  by (simp_all cong: stepwise add: usb_cdc_new_def tcp_test_config_def bridge_poll_def receive_from_client_def
      send_to_client_def mark_disconnected_def push_from_device_def is_client_connected_def take_for_device_def
      push_bytes_room into_bytes_def STALE_CLIENT_GRACE_PERIOD_def Let_def)

end
