(* ===== verification/AppTests.thy ===== *)
theory AppTests
  imports LauncherApp Hosts VariantRegistry SimplePeripherals Boards
begin

text \<open>
  The unit tests of the programs around the emulator: \<open>tests/launcher_profile.rs\<close>, \<open>launcher_registry.rs\<close>,
  \<open>launcher_state.rs\<close>, \<open>launcher_process.rs\<close>, and those inside \<open>src/bin\<close>, \<open>embedded.rs\<close> and \<open>can.rs\<close>. A test on
  the YAML text of a profile is one on the value the YAML writer is given.
\<close>

section \<open>Profiles\<close>

definition proteus_tested :: "(resolved_profile \<Rightarrow> bool) \<Rightarrow> bool" where
  "proteus_tested p = (case for_variant variant_proteus_f7 ''rusefi.bin'' ''STM32F767.svd'' of Inl _ \<Rightarrow> False | Inr r \<Rightarrow> p r)"

definition manual_tested :: "(resolved_profile \<Rightarrow> bool) \<Rightarrow> bool" where
  "manual_tested p = p (manual_profile LauncherCortexM4 ''firmware.bin'' ''chip.svd'' 0x08000000 0x08000000 0x00100000
     0x20000000 0x00020000)"

definition ecu_io_value :: "yaml_config \<Rightarrow> ecu_io_device option" where
  "ecu_io_value y = (case yaml_devices_section y of None \<Rightarrow> None | Some d \<Rightarrow> (case yd_ecu_io d of [] \<Rightarrow> None | e # es \<Rightarrow> Some e))"

definition expected_ecu_io_pins :: "(string \<times> string \<times> string) list" where
  "expected_ecu_io_pins =
     [(''vr1'', ''PE7'', ''input''), (''vr2'', ''PE8'', ''input''), (''din1'', ''PC6'', ''input''),
      (''din2'', ''PE11'', ''input''), (''din3'', ''PE12'', ''input''), (''din4'', ''PE14'', ''input''),
      (''din5'', ''PE13'', ''input''), (''din6'', ''PE15'', ''input''), (''ls1'', ''PD7'', ''output''),
      (''ls2'', ''PG9'', ''output''), (''ls3'', ''PG10'', ''output''), (''ls4'', ''PG11'', ''output''),
      (''ls5'', ''PG12'', ''output''), (''ls6'', ''PG13'', ''output''), (''ls7'', ''PG14'', ''output''),
      (''ls8'', ''PB4'', ''output''), (''ls9'', ''PB5'', ''output''), (''ls10'', ''PB6'', ''output''),
      (''ls11'', ''PB7'', ''output''), (''ls12'', ''PB8'', ''output''), (''ls13'', ''PB9'', ''output''),
      (''ls14'', ''PE0'', ''output''), (''ls15'', ''PE1'', ''output''), (''ls16'', ''PE2'', ''output''),
      (''hs1'', ''PA9'', ''output''), (''hs2'', ''PA8'', ''output''), (''hs3'', ''PD15'', ''output''),
      (''hs4'', ''PD14'', ''output''), (''ign1'', ''PD4'', ''output''), (''ign2'', ''PD3'', ''output''),
      (''ign3'', ''PC9'', ''output''), (''ign4'', ''PC8'', ''output''), (''ign5'', ''PC7'', ''output''),
      (''ign6'', ''PG8'', ''output''), (''ign7'', ''PG7'', ''output''), (''ign8'', ''PG6'', ''output''),
      (''ign9'', ''PG5'', ''output''), (''ign10'', ''PG4'', ''output''), (''ign11'', ''PG3'', ''output''),
      (''ign12'', ''PG2'', ''output'')]"

definition expected_ecu_io_adc_channels :: "(string \<times> string) list" where
  "expected_ecu_io_adc_channels =
     [(''at1'', ''PC4''), (''at2'', ''PC5''), (''at3'', ''PB0''), (''at4'', ''PB1''), (''av1'', ''PC0''), (''av2'', ''PC1''),
      (''av3'', ''PC2''), (''av4'', ''PC3''), (''av5'', ''PA0''), (''av6'', ''PA1''), (''av7'', ''PA2''), (''av8'', ''PA3''),
      (''av9'', ''PA4''), (''av10'', ''PA5''), (''av11'', ''PA6''), (''vbatt'', ''PA7'')]"

definition proteus_f7_resolves_both_verified_firmware_aliases :: bool where
  "proteus_f7_resolves_both_verified_firmware_aliases = proteus_tested (\<lambda>profile.
     rp_vector_table profile = 0x00200000
     \<and> list_ex (\<lambda>r. mr_start r = 0x00200000 \<and> mr_load_firmware r) (rp_regions profile)
     \<and> list_ex (\<lambda>r. mr_start r = 0x08000000 \<and> mr_load_firmware r) (rp_regions profile))"

definition manual_profile_uses_only_explicit_memory_values :: bool where
  "manual_profile_uses_only_explicit_memory_values = manual_tested (\<lambda>profile.
     rp_vector_table profile = 0x08000000
     \<and> length (rp_regions profile) = 2
     \<and> mr_start (rp_regions profile ! 0) = 0x08000000
     \<and> mr_load_firmware (rp_regions profile ! 0)
     \<and> mr_start (rp_regions profile ! 1) = 0x20000000)"

definition proteus_f7_yaml_selects_cortex_m7 :: bool where
  "proteus_f7_yaml_selects_cortex_m7 = proteus_tested (\<lambda>profile.
     yc_model (yaml_cpu_section (to_yaml profile)) = LauncherCortexM7)"

definition proteus_f7_yaml_binds_every_harness_name_to_its_exact_pin_and_direction :: bool where
  "proteus_f7_yaml_binds_every_harness_name_to_its_exact_pin_and_direction = proteus_tested (\<lambda>profile.
     case ecu_io_value (to_yaml profile) of None \<Rightarrow> False
     | Some ecu_io \<Rightarrow> map (\<lambda>p. (ep_name p, ep_pin p, ep_direction p)) (ed_pins ecu_io) = expected_ecu_io_pins
         \<and> map (\<lambda>c. (ea_name c, ea_pin c)) (ed_adc_channels ecu_io) = expected_ecu_io_adc_channels)"

definition proteus_f7_yaml_includes_the_trigger_wheel_on_the_stock_crank_input :: bool where
  "proteus_f7_yaml_includes_the_trigger_wheel_on_the_stock_crank_input = proteus_tested (\<lambda>profile.
     Option.bind (ecu_io_value (to_yaml profile)) ed_trigger_wheel =
       Some \<lparr>et_signal = ''trigger_rpm'', et_pin_signal = ''din1'', et_teeth = 60, et_missing = 2\<rparr>)"

definition manual_profile_yaml_has_no_devices_section :: bool where
  "manual_profile_yaml_has_no_devices_section = manual_tested (\<lambda>profile. yaml_devices_section (to_yaml profile) = None)"

definition manual_profile_yaml_uses_the_selected_cpu_model :: bool where
  "manual_profile_yaml_uses_the_selected_cpu_model = manual_tested (\<lambda>profile.
     yc_model (yaml_cpu_section (to_yaml profile)) = LauncherCortexM4)"

definition proteus_f7_yaml_includes_the_flash_size_patch :: bool where
  "proteus_f7_yaml_includes_the_flash_size_patch = proteus_tested (\<lambda>profile.
     list_ex (\<lambda>p. mp_start p = 535884866) (yaml_patches (to_yaml profile)))"

definition manual_profile_yaml_has_no_patches_section :: bool where
  "manual_profile_yaml_has_no_patches_section = manual_tested (\<lambda>profile. yaml_patches (to_yaml profile) = [])"

definition usb_cdc_tcp_port_defaults_to_the_profiles_template_value :: bool where
  "usb_cdc_tcp_port_defaults_to_the_profiles_template_value = proteus_tested (\<lambda>profile.
     usb_cdc_tcp_port profile = Some 29000)"

definition setting_the_usb_cdc_tcp_port_changes_the_generated_yaml :: bool where
  "setting_the_usb_cdc_tcp_port_changes_the_generated_yaml = proteus_tested (\<lambda>profile.
     let profile = set_usb_cdc_tcp_port 40123 profile in
     usb_cdc_tcp_port profile = Some 40123
     \<and> map_option (map ud_listen \<circ> yd_usb_cdc_tcp) (yaml_devices_section (to_yaml profile)) = Some [''127.0.0.1:40123''])"

definition setting_the_usb_cdc_tcp_port_on_a_manual_profile_is_a_harmless_no_op :: bool where
  "setting_the_usb_cdc_tcp_port_on_a_manual_profile_is_a_harmless_no_op = manual_tested (\<lambda>profile.
     usb_cdc_tcp_port (set_usb_cdc_tcp_port 40123 profile) = None)"

definition compiled_catalog_has_unique_sorted_variant_ids :: bool where
  "compiled_catalog_has_unique_sorted_variant_ids \<longleftrightarrow>
     (let ids = map kv_id all_variants in
      distinct ids \<and> sorted_wrt (<) ids \<and> ''proteus_f7'' \<in> set ids)"

definition unsupported_catalog_variants_do_not_resolve :: "string \<Rightarrow> string \<Rightarrow> bool" where
  "unsupported_catalog_variants_do_not_resolve firmware svd \<longleftrightarrow>
     list_all (\<lambda>v. isl (for_variant v firmware svd)) (filter (\<lambda>v. kv_support v = Unsupported) all_variants)"

lemma for_proteus: "for_variant variant_proteus_f7 firmware svd = Inr \<lparr>rp_variant = variant_proteus_f7,
    rp_cpu_model = LauncherCortexM7, rp_vector_table = 0x200000, rp_firmware = firmware, rp_svd = svd,
    rp_regions = REGIONS, rp_patches = PATCHES, rp_usb_cdc_tcp = pt_usb_cdc_tcp PROFILE, rp_ecu_io = pt_ecu_io PROFILE\<rparr>"
  by (simp add: for_variant_def variant_proteus_f7_def PROFILE_def)

lemma read_ports:
  "parse_u16 (after_last CHR '':'' ''127.0.0.1:29000'') = Some 29000"
  "parse_u16 (after_last CHR '':'' ''127.0.0.1:40123'') = Some 40123" "show_int 40123 = ''40123''"
proof -
  have "char_of (52 :: nat) = CHR ''4''" "char_of (48 :: nat) = CHR ''0''" "char_of (49 :: nat) = CHR ''1''"
    "char_of (50 :: nat) = CHR ''2''" "char_of (51 :: nat) = CHR ''3''" by code_simp+
  then show "show_int 40123 = ''40123''" by (simp add: show_int_def show_nat.simps)
qed (simp_all add: after_last_def parse_u16_def parse_int_def digit_val_def char_in_def)

lemmas profile_run = proteus_tested_def manual_tested_def for_proteus manual_profile_def to_yaml_def ecu_io_value_def
  option_list_def PROFILE_def usb_cdc_tcp_port_def set_usb_cdc_tcp_port_def read_ports

lemma profile_tests_pass:
  proteus_f7_resolves_both_verified_firmware_aliases
  manual_profile_uses_only_explicit_memory_values
  proteus_f7_yaml_selects_cortex_m7
  proteus_f7_yaml_includes_the_trigger_wheel_on_the_stock_crank_input
  manual_profile_yaml_has_no_devices_section
  manual_profile_yaml_uses_the_selected_cpu_model
  proteus_f7_yaml_includes_the_flash_size_patch
  manual_profile_yaml_has_no_patches_section
  by (simp_all add: proteus_f7_resolves_both_verified_firmware_aliases_def
      manual_profile_uses_only_explicit_memory_values_def proteus_f7_yaml_selects_cortex_m7_def
      proteus_f7_yaml_includes_the_trigger_wheel_on_the_stock_crank_input_def
      manual_profile_yaml_has_no_devices_section_def manual_profile_yaml_uses_the_selected_cpu_model_def
      proteus_f7_yaml_includes_the_flash_size_patch_def manual_profile_yaml_has_no_patches_section_def
      profile_run REGIONS_def PATCHES_def)

lemma port_tests_pass:
  usb_cdc_tcp_port_defaults_to_the_profiles_template_value
  setting_the_usb_cdc_tcp_port_changes_the_generated_yaml
  setting_the_usb_cdc_tcp_port_on_a_manual_profile_is_a_harmless_no_op
  by (simp_all add: usb_cdc_tcp_port_defaults_to_the_profiles_template_value_def
      setting_the_usb_cdc_tcp_port_changes_the_generated_yaml_def
      setting_the_usb_cdc_tcp_port_on_a_manual_profile_is_a_harmless_no_op_def profile_run Let_def)

lemma harness_test_passes: proteus_f7_yaml_binds_every_harness_name_to_its_exact_pin_and_direction
  by (simp add: proteus_f7_yaml_binds_every_harness_name_to_its_exact_pin_and_direction_def profile_run
      expected_ecu_io_pins_def expected_ecu_io_adc_channels_def ECU_IO_PINS_defs ECU_IO_ADC_CHANNELS_def)

lemma catalogue_tests_pass:
  compiled_catalog_has_unique_sorted_variant_ids
  "unsupported_catalog_variants_do_not_resolve firmware svd"
proof -
  have "''proteus_f7'' \<in> set (map kv_id all_variants)"
    unfolding catalogue_ids by (simp add: GENERATED_VARIANTS_defs)
  then show compiled_catalog_has_unique_sorted_variant_ids
    using catalogue_ids_distinct catalogue_sorted
    by (simp add: compiled_catalog_has_unique_sorted_variant_ids_def catalogue_ids Let_def del: set_map)
  show "unsupported_catalog_variants_do_not_resolve firmware svd"
    by (auto simp: unsupported_catalog_variants_do_not_resolve_def list_all_iff all_variants_def variant_cataloged_def
        variant_proteus_f7_def for_variant_def)
qed

section \<open>The launcher\<close>

definition launcher_state_default :: launcher_state where
  "launcher_state_default = \<lparr>ls_firmware = None, ls_svd = None, ls_emulator_executable = None, ls_selected_variant = None,
     ls_status = Idle, ls_last_error = None\<rparr>"

definition state_with_selection :: "run_status \<Rightarrow> launcher_state" where
  "state_with_selection status = launcher_state_default\<lparr>ls_firmware := Some ''firmware.bin'',
     ls_selected_variant := Some ''proteus_f7'', ls_status := status\<rparr>"

definition default_launcher_state_has_no_selection_or_runnable_process :: bool where
  "default_launcher_state_has_no_selection_or_runnable_process \<longleftrightarrow>
     ls_firmware launcher_state_default = None \<and> ls_svd launcher_state_default = None
     \<and> ls_selected_variant launcher_state_default = None \<and> ls_status launcher_state_default = Idle
     \<and> \<not> launcher_can_run launcher_state_default"

definition can_run_is_true_while_idle_halted_or_crashed_once_firmware_and_variant_are_selected :: bool where
  "can_run_is_true_while_idle_halted_or_crashed_once_firmware_and_variant_are_selected \<longleftrightarrow>
     launcher_can_run (state_with_selection Idle) \<and> launcher_can_run (state_with_selection Halted)
     \<and> launcher_can_run (state_with_selection Crashed)"

definition can_run_is_false_while_running :: bool where
  "can_run_is_false_while_running \<longleftrightarrow> \<not> launcher_can_run (state_with_selection Running)"

definition builds_config_path_and_requested_verbosity_arguments :: bool where
  "builds_config_path_and_requested_verbosity_arguments \<longleftrightarrow>
     build_emulator_arguments ''resolved.yaml'' 1 = [''resolved.yaml'', ''-v'']"

definition rejects_missing_firmware_before_starting_a_child_process :: "env \<Rightarrow> bool" where
  "rejects_missing_firmware_before_starting_a_child_process w \<longleftrightarrow>
     isl (validate_firmware (w\<lparr>is_file := \<lambda>path. False\<rparr>) ''not-a-real-firmware/image.bin'')"

definition each_run_status_has_a_label :: bool where
  "each_run_status_has_a_label \<longleftrightarrow>
     status_label Idle = ''Idle'' \<and> status_label Running = ''Running'' \<and> status_label Halted = ''Halted''
     \<and> status_label Crashed = ''Crashed''"

definition each_run_status_maps_to_a_distinct_color :: bool where
  "each_run_status_maps_to_a_distinct_color \<longleftrightarrow>
     status_color Idle = GRAY \<and> status_color Running = CYAN \<and> status_color Halted = AMBER
     \<and> status_color Crashed = RED"

definition a_zero_exit_code_is_classified_as_a_successful_exit :: bool where
  "a_zero_exit_code_is_classified_as_a_successful_exit \<longleftrightarrow> classify_exit True = ProcExited True"

definition a_nonzero_exit_code_is_classified_as_a_failed_exit :: bool where
  "a_nonzero_exit_code_is_classified_as_a_failed_exit \<longleftrightarrow> classify_exit False = ProcExited False"

lemma launcher_tests_pass:
  default_launcher_state_has_no_selection_or_runnable_process
  can_run_is_true_while_idle_halted_or_crashed_once_firmware_and_variant_are_selected
  can_run_is_false_while_running
  builds_config_path_and_requested_verbosity_arguments
  "rejects_missing_firmware_before_starting_a_child_process w"
  each_run_status_has_a_label
  each_run_status_maps_to_a_distinct_color
  a_zero_exit_code_is_classified_as_a_successful_exit
  a_nonzero_exit_code_is_classified_as_a_failed_exit
proof -
  have "utf8_lossy ''resolved.yaml'' = ''resolved.yaml''" by code_simp
  then show builds_config_path_and_requested_verbosity_arguments
    by (simp add: builds_config_path_and_requested_verbosity_arguments_def build_emulator_arguments_def del: utf8_lossy.simps)
qed (simp_all add: default_launcher_state_has_no_selection_or_runnable_process_def launcher_state_default_def
    can_run_is_true_while_idle_halted_or_crashed_once_firmware_and_variant_are_selected_def state_with_selection_def
    can_run_is_false_while_running_def rejects_missing_firmware_before_starting_a_child_process_def validate_firmware_def
    each_run_status_has_a_label_def status_label_def each_run_status_maps_to_a_distinct_color_def status_color_def
    a_zero_exit_code_is_classified_as_a_successful_exit_def a_nonzero_exit_code_is_classified_as_a_failed_exit_def
    classify_exit_def launcher_can_run_def)

section \<open>The registry tool\<close>

definition qualifies_only_duplicate_variant_ids_with_the_board_path :: bool where
  "qualifies_only_duplicate_variant_ids_with_the_board_path \<longleftrightarrow>
     map v_id (disambiguate_ids
       [\<lparr>v_id = ''shared'', v_board_slug = ''hellen__uaefi'', v_display_name = ''Hellen uAEFI / shared'', v_mcu_family = None\<rparr>,
        \<lparr>v_id = ''shared'', v_board_slug = ''hellen__uaefi_bigfuel'',
          v_display_name = ''Hellen uAEFI BigFuel / shared'', v_mcu_family = None\<rparr>,
        \<lparr>v_id = ''proteus_f7'', v_board_slug = ''proteus'', v_display_name = ''Proteus / proteus_f7'', v_mcu_family = None\<rparr>]) =
     [''hellen__uaefi__shared'', ''hellen__uaefi_bigfuel__shared'', ''proteus_f7'']"

lemma registry_test_passes: qualifies_only_duplicate_variant_ids_with_the_board_path
  by (simp add: qualifies_only_duplicate_variant_ids_with_the_board_path_def disambiguate_ids_def id_count_def)

section \<open>The embedding API\<close>

definition embedded_defaults_are_unbounded_and_interrupt_accurate :: bool where
  "embedded_defaults_are_unbounded_and_interrupt_accurate \<longleftrightarrow>
     (let options = embedded_options_new ''board.yaml'' in
      eo_interrupt_period options = 1 \<and> eo_max_instructions options = None \<and> \<not> eo_busy_loop_stop options
      \<and> eo_flash_backing_path options = None)"

text \<open>The test's paths in their Unix form.\<close>

definition relative_paths_resolve_against_config_directory :: bool where
  "relative_paths_resolve_against_config_directory \<longleftrightarrow>
     resolve_path ''/boards/proteus'' ''chip.svd'' = ''/boards/proteus/chip.svd''
     \<and> resolve_path ''/boards/proteus'' ''/fw/image.bin'' = ''/fw/image.bin''"

definition embedded_run_guard_rejects_overlapping_instances_and_releases_on_drop :: "process \<Rightarrow> bool" where
  "embedded_run_guard_rejects_overlapping_instances_and_releases_on_drop p \<longleftrightarrow>
     (case acquire (p\<lparr>pr_running := False\<rparr>) of Inl _ \<Rightarrow> False
      | Inr p \<Rightarrow> isl (acquire p) \<and> \<not> isl (acquire (release p)))"

lemma embedding_tests_pass:
  embedded_defaults_are_unbounded_and_interrupt_accurate
  relative_paths_resolve_against_config_directory
  "embedded_run_guard_rejects_overlapping_instances_and_releases_on_drop p"
  by (simp_all add: embedded_defaults_are_unbounded_and_interrupt_accurate_def embedded_options_new_def
      relative_paths_resolve_against_config_directory_def resolve_path_def is_absolute_def unix_join_def
      embedded_run_guard_rejects_overlapping_instances_and_releases_on_drop_def acquire_def release_def)

section \<open>CAN\<close>

definition init_mode_request_is_acknowledged_immediately :: bool where
  "init_mode_request_is_acknowledged_immediately \<longleftrightarrow> msr_after_mcr_write 1 AND 1 = 1"

definition leaving_init_mode_clears_the_acknowledge :: bool where
  "leaving_init_mode_clears_the_acknowledge \<longleftrightarrow> msr_after_mcr_write 0x60 AND 1 = 0"

definition sleep_request_is_acknowledged_immediately :: bool where
  "sleep_request_is_acknowledged_immediately \<longleftrightarrow> msr_after_mcr_write 2 AND 2 = 2"

definition transmit_mailboxes_always_report_empty :: bool where
  "transmit_mailboxes_always_report_empty \<longleftrightarrow> TSR_ALL_MAILBOXES_EMPTY AND 0x1c000000 = 0x1c000000"

definition only_can_peripherals_match :: bool where
  "only_can_peripherals_match \<longleftrightarrow> can_new ''CAN1'' \<noteq> None \<and> can_new ''CAN3'' \<noteq> None \<and> can_new ''PWR'' = None"

lemma can_tests_pass:
  init_mode_request_is_acknowledged_immediately
  leaving_init_mode_clears_the_acknowledge
  sleep_request_is_acknowledged_immediately
  transmit_mailboxes_always_report_empty
  only_can_peripherals_match
  by (simp_all add: init_mode_request_is_acknowledged_immediately_def leaving_init_mode_clears_the_acknowledge_def
      sleep_request_is_acknowledged_immediately_def transmit_mailboxes_always_report_empty_def
      only_can_peripherals_match_def msr_after_mcr_write_def TSR_ALL_MAILBOXES_EMPTY_def can_new_def starts_with_def)

end
