(* ===== verification/Spec2Isabelle.thy ===== *)
theory Spec2Isabelle
  imports NvicFrames CoreRegs SimplePeripherals Timers Exti Gpio SerialDevices Adc Dma Flash Bus Displays OtgFs EcuIo Emulator
    VariantRegistry LauncherApp Boards SystemProps Boot Hosts Robust ProteusSystem
    OtgFsTests ChipTests SystemTests EcuIoTests WheelTests LinkTests AppTests
begin

text \<open>
  \<^bold>\<open>The program.\<close> The emulator runs an STM32 firmware image. A CPU library (Unicorn) executes the ARM code in
  blocks and calls back: a hook at every block entry (\<open>src/emulator.rs\<close>) advances the instruction clock,
  pends SysTick, dispatches interrupts and polls peripherals and devices; memory-mapped accesses reach
  the bus (\<open>src/peripherals/mod.rs\<close>), which finds the peripheral of an address and reads or writes its
  registers; exceptions enter and leave through the interrupt controller (\<open>src/peripherals/nvic.rs\<close>).
  Peripherals are attached to external devices (\<open>src/ext_devices\<close>): serial flash, displays, a USB serial
  bridge, the signals of an engine control unit. A launcher (\<open>src/launcher\<close>, \<open>src/bin\<close>) picks a board
  profile, writes the emulator's YAML configuration and supervises the emulator as a child process; the
  embedding API (\<open>src/embedded.rs\<close>) and the command line (\<open>src/main.rs\<close>) are the two ways to run it.

  \<^bold>\<open>Conventions.\<close> \<open>Prelude\<close>: a Rust integer is a word of its width, with the wrapping arithmetic of a
  release build; indices of fixed tables are \<open>nat\<close>. An operation that can panic returns \<open>res\<close>, with the
  panic as \<open>Inl\<close>; \<open>anyhow::Result\<close> is \<open>fallible\<close>, with its message. A \<open>RefCell\<close> that can be borrowed twice
  has an explicit borrow flag. \<open>Strings\<close> has the UTF-8 and parsing functions of the standard library the
  code calls, \<open>Float64\<close> the rounding of double arithmetic, \<open>Unicorn\<close> the CPU library as a record of
  functions with the laws its documentation gives, \<open>Interfaces\<close> the contracts that several components
  meet, as locales: register cells, write-to-clear flags, counters over the clock and capped queues. The
  contract of an external device is the locale \<open>device_contract\<close> of \<open>SwSpi\<close>.
  Each locale is interpreted on the model of every component that provides it.

  \<^bold>\<open>The chip.\<close>
  \<^item> \<open>Nvic\<close>, \<open>NvicFrames\<close>: \<open>src/peripherals/nvic.rs\<close>. Pending and enabled sets, dispatch, entry, return, SysTick
    and the NVIC and STIR registers. A block boundary enters the smallest deliverable interrupt, or
    none under any mask (C2); an entry followed by its return restores the context in any memory that
    obeys the RAM laws (C1).
  \<^item> \<open>CoreRegs\<close>: \<open>scb.rs\<close>, \<open>systick.rs\<close>, \<open>dwt.rs\<close>; the SysTick period the NVIC keeps is the one the
    registers ask for. \<open>SimplePeripherals\<close>: \<open>rcc.rs\<close>, \<open>pwr.rs\<close>, \<open>rtc.rs\<close>, \<open>tim11.rs\<close>, \<open>i2c.rs\<close>, \<open>can.rs\<close>.
    \<open>Timers\<close>: \<open>tim5.rs\<close>, \<open>tim6.rs\<close> over the instruction clock (C34).
  \<^item> \<open>Exti\<close>: \<open>exti.rs\<close>. \<open>Gpio\<close>: \<open>gpio.rs\<close>, its pins, callbacks and register block; output writes
    call exactly the closures of the pins that change (C33). \<open>SwSpi\<close>: \<open>sw_spi.rs\<close>, refined to whole bytes
    (C32).
  \<^item> \<open>SerialDevices\<close>: \<open>spi.rs\<close>, \<open>usart.rs\<close> and \<open>ext_devices/spi_flash.rs\<close>, \<open>usart_probe.rs\<close>. \<open>Adc\<close>:
    \<open>adc.rs\<close> (C35). \<open>Dma\<close>: \<open>dma.rs\<close>, over any system that offers the calls it makes (C22). \<open>Flash\<close>: \<open>flash.rs\<close>,
    with its lock, erase and persistence (C16 to C18); the file system is a parameter.
  \<^item> \<open>Displays\<close>: \<open>fsmc.rs\<close>, \<open>ext_devices/display.rs\<close>, \<open>lcd.rs\<close>, \<open>touchscreen.rs\<close> and the pixels of
    \<open>src/framebuffers\<close>.
  \<^item> \<open>UsbCdc\<close>: the in-process serial link and the TCP bridge, with the invariant of link sessions (C31).
    \<open>OtgFs\<close>: \<open>otg_fs.rs\<close>, the controller with the virtual host that enumerates it: no reachable state
    panics (C11), enumeration is five transfers in order (C12), bulk bytes arrive exactly once (C13).
  \<^item> \<open>TriggerWheel\<close>, \<open>EmbeddedEcuIo\<close>, \<open>EcuIo\<close>: \<open>ext_devices/ecu_io.rs\<close>, \<open>embedded_ecu_io.rs\<close>. The crank
    wheel stays in range under all its rounding (C29), the line protocol does not depend on how the
    stream is cut (C25, C26), every level change is delivered once (C27), reachable states are typed
    (C28), and the bounded event queue is the newest part of the exact log (C30).

  \<^bold>\<open>The system.\<close>
  \<^item> \<open>Bus\<close>: registration, lookup, narrow and bit-band accesses, polling, generic in the peripherals (C19,
    C20, C37). \<open>ExtDevices\<close>: the registry of devices; a shared device is a position in it. \<open>Chips\<close>: every
    peripheral behind the bus, the memory-mapped accesses, DMA and polling of the whole chip; a
    controller that reaches the bus while it is itself borrowed panics, as in the code.
  \<^item> \<open>System\<close>: \<open>config.rs\<close>, the register list of \<open>util.rs\<close>, the constructors, \<open>system.rs\<close>. \<open>SystemProps\<close>:
    registration (C21), a software trigger through the bus (C6, C39), an input edge up to its handler
    (C5).
  \<^item> \<open>Emulator\<close>: the hooks and the run loop of \<open>emulator.rs\<close> over any CPU and any host (C9, C10, C36, C38).
    \<open>Boot\<close>: the memory a run starts with (C8), and what the Proteus F7 profile loads.
  \<^item> \<open>BusContract\<close>, \<open>Safety\<close>, \<open>SystemSafety\<close>, \<open>Reachable\<close>, \<open>Startup\<close>, \<open>Robust\<close>: the system as a whole. \<open>safe t P r\<close>
    says that an outcome satisfies \<open>P\<close> or is a panic that \<open>t\<close> allows. The locale \<open>bus_contract\<close> is what a bus
    needs of the peripherals behind it, \<open>dma_contract\<close> what a DMA controller needs of the rest of the
    system; both are interpreted on the model of the whole chip. \<open>sys_reach\<close> is the step relation of the
    running system and \<open>live\<close> its invariant, which \<open>prepare\<close> establishes. Every state a run ends in is
    reached and well-formed (C4), and on configurations without touch screens and LCDs no access that its
    peripheral decodes panics, whatever came before (C3).
  \<^item> \<open>ProteusSystem\<close>: which SVD files registration accepts (\<open>svd_ok\<close>), and that the Proteus F7 profile is
    prepared on every firmware of at least eight bytes, up to its registers (C7).

  \<^bold>\<open>The programs around it.\<close>
  \<^item> \<open>Profiles\<close>, \<open>Boards\<close>: profiles, their YAML, the board data and its consistency. \<open>VariantRegistry\<close>:
    the tool that writes the catalogue. \<open>Launcher\<close>, \<open>LauncherApp\<close>: the child process, the saved workspace
    and the window as a state machine over frames (C23, C24, C40).
  \<^item> \<open>Hosts\<close>: \<open>main.rs\<close>, \<open>embedded.rs\<close>, \<open>lib.rs\<close> and the SDL event pump; embedded runs leave nothing behind
    (C15) and do what the command line does (C14).

  \<^bold>\<open>The repository's unit tests.\<close> \<open>UnitTests\<close> says when a script of calls and assertions passes;
  \<open>OtgFsTests\<close>, \<open>ChipTests\<close>, \<open>SystemTests\<close>, \<open>EcuIoTests\<close>, \<open>WheelTests\<close>, \<open>LinkTests\<close> and \<open>AppTests\<close> hold one
  definition for each \<open>#[test]\<close> function of the sources, under its name, and show that the model passes it: the
  definitions of the components give the values the authors of the code expect. The peer of a socket is the
  list of answers each poll sees, a test of generated YAML is one on the value the writer is given, and a test
  that reads the process-wide clock holds for every value of the clock. \<open>WheelTests\<close> bounds the rounding of
  doubles. Not replayed are the tests that execute ARM code in Unicorn (\<open>emulator.rs\<close>), those that only parse
  YAML, those that format a message or return their argument, those that write workspaces to the disk
  (\<open>tests/launcher_workspace.rs\<close>), and the persistence test of \<open>flash.rs\<close>, which C16 covers.

  \<^bold>\<open>Bounds and fuel.\<close> Loops of the code are structural or proved terminating by a measure, except the
  run loop and the engine between two callbacks, which need not end: \<open>run_loop\<close> counts engine starts with
  its fuel, and C10 gives the fuel that is enough under an instruction limit (one more than the ticks
  left). The library's binary search has a termination proof.

  \<^bold>\<open>Parameters.\<close> The CPU library, the file system, sockets, the YAML and SVD parsers, the canonical form of a
  path and SDL are not in the repository: they are arguments (records of functions, or the list of
  answers one poll sees). Hypotheses about them are what their documentation says: \<open>ram_laws\<close> and
  \<open>context_reg_laws\<close> of \<open>Unicorn\<close>, the mapping laws of \<open>Boot\<close> and \<open>ProteusSystem\<close>, \<open>takes_links\<close> of \<open>Hosts\<close> (which states what
  \<open>run_emulator\<close> does with the link slots). Each theorem with a hypothesis has a witness that meets it.

  \<^bold>\<open>Not modelled.\<close> Log messages and their formatting (\<open>main.rs\<close>, \<open>addr_desc\<close> of the bus, heartbeats), the
  disassembly of a trace (Capstone), creating windows and presenting or saving pixels (SDL, PNG), the
  layout of the launcher's window, and the calls of its window toolkit. Paths are Unix
  paths. The registry gives each display, LCD and touch screen its own framebuffer, so two devices that
  draw on one framebuffer are outside the model. Process-wide state (the clock, the stop flag, the link
  slots) is plain state of one thread, and operations under a mutex are atomic steps. The memory image
  of C8 is for a configuration without internal flash; internal flash is treated in \<open>Flash\<close>.
\<close>

end
